(* ===== verification/Prelude.thy ===== *)
theory Prelude
  imports Main "HOL-Library.Sublist" "HOL-Library.Word" "HOL-Library.Multiset"
begin

text \<open>
  Shared vocabulary of the development.  Rust's \<open>str\<close> and \<open>String\<close> are their UTF-8
  bytes, so a HOL \<open>string\<close> (a list of eight-bit characters) is a Rust string, and
  \<open>length\<close> is \<open>str::len\<close>.  The theory holds the standard library's string operations
  the program calls (prefixes, searches, splits, replacement, trimming, UTF-8 validation),
  the hash map as a list of entries in iteration order, the clock, and the facts about
  them that several components share.
\<close>

named_theorems str_simps \<open>evaluation of the string operations\<close>
named_theorems map_simps \<open>lookup in updated hash maps\<close>
named_theorems flow_simps \<open>one-step facts of the session operations\<close>

type_synonym u64 = "64 word"

subsection \<open>Options\<close>

abbreviation is_some :: "'a option \<Rightarrow> bool" where
  "is_some x \<equiv> (x \<noteq> None)"

lemma option_all_map [simp]:
  "(case map_option f x of None \<Rightarrow> a | Some y \<Rightarrow> g y) = (case x of None \<Rightarrow> a | Some y \<Rightarrow> g (f y))"
  by (cases x) simp_all

subsection \<open>Results\<close>

text \<open>
  A fallible operation returns \<open>string + 'a\<close>, the message of the error on the left.
  \<open>res_bind\<close> is the operator \<open>?\<close>, \<open>with_context\<close> puts a context before the message as the
  alternate format of the error prints it, and \<open>traverse\<close> collects the results of a list and stops
  at the first error.
\<close>

definition res_bind :: "'e + 'a \<Rightarrow> ('a \<Rightarrow> 'e + 'b) \<Rightarrow> 'e + 'b" where
  "res_bind r f = (case r of Inl e \<Rightarrow> Inl e | Inr x \<Rightarrow> f x)"

definition with_context :: "string \<Rightarrow> string + 'a \<Rightarrow> string + 'a" where
  "with_context c r = (case r of Inl e \<Rightarrow> Inl (c @ '': '' @ e) | Inr x \<Rightarrow> Inr x)"

definition map_err :: "string \<Rightarrow> 'e + 'a \<Rightarrow> string + 'a" where
  "map_err message r = (case r of Inl e \<Rightarrow> Inl message | Inr x \<Rightarrow> Inr x)"

definition ok_or :: "'e \<Rightarrow> 'a option \<Rightarrow> 'e + 'a" where
  "ok_or e x = (case x of None \<Rightarrow> Inl e | Some y \<Rightarrow> Inr y)"

fun traverse :: "('a \<Rightarrow> 'e + 'b) \<Rightarrow> 'a list \<Rightarrow> 'e + 'b list" where
  "traverse f [] = Inr []"
| "traverse f (x # xs) = res_bind (f x) (\<lambda>y. res_bind (traverse f xs) (\<lambda>ys. Inr (y # ys)))"

lemma res_bind_simps [simp]: "res_bind (Inl e) f = Inl e" "res_bind (Inr x) f = f x"
  by (simp_all add: res_bind_def)

lemma res_bind_Inr: "res_bind r f = Inr y \<longleftrightarrow> (\<exists>x. r = Inr x \<and> f x = Inr y)"
  by (cases r) simp_all

lemma res_bindE:
  assumes "res_bind r f = Inr y"
  obtains x where "r = Inr x" and "f x = Inr y"
  using assms by (auto simp: res_bind_Inr)

lemma res_bind_Inl: "res_bind r f = Inl e \<longleftrightarrow> r = Inl e \<or> (\<exists>x. r = Inr x \<and> f x = Inl e)"
  by (cases r) simp_all

lemma with_context_Inr [simp]: "with_context c r = Inr x \<longleftrightarrow> r = Inr x"
  by (cases r) (simp_all add: with_context_def)

lemma with_context_simp [simp]: "with_context c (Inr x) = Inr x"
  by simp

lemma map_err_Inr [simp]: "map_err m r = Inr x \<longleftrightarrow> r = Inr x"
  by (cases r) (simp_all add: map_err_def)

lemma ok_or_Inr [simp]: "ok_or e x = Inr y \<longleftrightarrow> x = Some y"
  by (cases x) (simp_all add: ok_or_def)

lemma ok_or_simps [simp]: "ok_or e None = Inl e" "ok_or e (Some y) = Inr y"
  by (simp_all add: ok_or_def)

lemma res_bind_cong [fundef_cong]:
  "r = r' \<Longrightarrow> (\<And>x. r' = Inr x \<Longrightarrow> f x = g x) \<Longrightarrow> res_bind r f = res_bind r' g"
  by (cases r') (simp_all add: res_bind_def)

lemma traverse_cong [fundef_cong]:
  "xs = ys \<Longrightarrow> (\<And>x. x \<in> set ys \<Longrightarrow> f x = g x) \<Longrightarrow> traverse f xs = traverse g ys"
  by (induction ys arbitrary: xs) (auto simp: res_bind_def split: sum.splits)

lemma traverse_Inr: "traverse f xs = Inr ys \<longleftrightarrow> list_all2 (\<lambda>x y. f x = Inr y) xs ys"
proof (induction xs arbitrary: ys)
  case (Cons x xs)
  then show ?case by (cases ys) (auto simp: res_bind_Inr)
qed auto

subsection \<open>Decimal numbers\<close>

fun show_nat :: "nat \<Rightarrow> string" where
  "show_nat n = (if n < 10 then [char_of (48 + n)] else show_nat (n div 10) @ [char_of (48 + n mod 10)])"

declare show_nat.simps [simp del]

subsection \<open>Prefixes, suffixes and searches of strings\<close>

definition starts_with :: "string \<Rightarrow> string \<Rightarrow> bool" where
  "starts_with p s \<longleftrightarrow> take (length p) s = p"

definition ends_with :: "string \<Rightarrow> string \<Rightarrow> bool" where
  "ends_with p s \<longleftrightarrow> starts_with (rev p) (rev s)"

definition strip_prefix :: "string \<Rightarrow> string \<Rightarrow> string option" where
  "strip_prefix p s = (if starts_with p s then Some (drop (length p) s) else None)"

definition strip_suffix :: "string \<Rightarrow> string \<Rightarrow> string option" where
  "strip_suffix p s = (if ends_with p s then Some (take (length s - length p) s) else None)"

text \<open>\<open>str::find\<close> with a string pattern: the byte offset of the first match.\<close>

fun str_find :: "string \<Rightarrow> string \<Rightarrow> nat option" where
  "str_find p [] = (if p = [] then Some 0 else None)"
| "str_find p (c # s) =
     (if starts_with p (c # s) then Some 0 else map_option Suc (str_find p s))"

definition str_contains :: "string \<Rightarrow> string \<Rightarrow> bool" where
  "str_contains p s \<longleftrightarrow> is_some (str_find p s)"

text \<open>\<open>str::split_once\<close>: the text before and after the first match.\<close>

definition split_once :: "string \<Rightarrow> string \<Rightarrow> (string \<times> string) option" where
  "split_once p s =
     (case str_find p s of None \<Rightarrow> None
      | Some i \<Rightarrow> Some (take i s, drop (i + length p) s))"

text \<open>
  \<open>str::replace\<close> with a nonempty pattern: matches are taken from the left and do not
  overlap.  (The program never replaces the empty pattern.)
\<close>

function str_replace :: "string \<Rightarrow> string \<Rightarrow> string \<Rightarrow> string" where
  "str_replace p r [] = []"
| "str_replace p r (c # s) =
     (if p \<noteq> [] \<and> starts_with p (c # s)
      then r @ str_replace p r (drop (length p) (c # s))
      else c # str_replace p r s)"
  by pat_completeness auto
termination
  by (relation "measure (\<lambda>(p, r, s). length s)") (auto simp: neq_Nil_conv)

text \<open>\<open>str::split\<close> with a character: the parts between its occurrences, empty ones included.\<close>

fun split_on :: "char \<Rightarrow> string \<Rightarrow> string list" where
  "split_on c [] = [[]]"
| "split_on c (d # s) =
     (if d = c then [] # split_on c s
      else (case split_on c s of [] \<Rightarrow> [[d]] | part # parts \<Rightarrow> (d # part) # parts))"

text \<open>\<open>str::trim_start_matches\<close> with a nonempty pattern takes it off as often as it is there.\<close>

lemma starts_with_shorter: "p \<noteq> [] \<Longrightarrow> starts_with p s \<Longrightarrow> length s - length p < length s"
  by (cases p; cases s) (auto simp: starts_with_def)

function trim_start_matches :: "string \<Rightarrow> string \<Rightarrow> string" where
  "trim_start_matches p s =
     (if p \<noteq> [] \<and> starts_with p s then trim_start_matches p (drop (length p) s) else s)"
  by pat_completeness auto
termination
  by (relation "measure (\<lambda>(p, s). length s)") (auto dest: starts_with_shorter)

declare trim_start_matches.simps [simp del]

text \<open>Text inside quotes and lists in messages.\<close>

definition quoted :: "string \<Rightarrow> string" where
  "quoted s = CHR 0x27 # s @ [CHR 0x27]"

fun comma_joined :: "string list \<Rightarrow> string" where
  "comma_joined [] = []"
| "comma_joined [s] = s"
| "comma_joined (s # ss) = s @ '', '' @ comma_joined ss"

lemma starts_with_append [simp]: "starts_with p (p @ s)"
  by (simp add: starts_with_def)

lemma starts_with_Nil [simp]: "starts_with [] s"
  by (simp add: starts_with_def)

lemma starts_with_Cons_Nil [simp]: "\<not> starts_with (a # p) []"
  by (simp add: starts_with_def)

lemma starts_with_Cons [simp]:
  "starts_with (a # p) (b # s) \<longleftrightarrow> a = b \<and> starts_with p s"
  by (auto simp: starts_with_def)

lemma starts_with_prefix: "starts_with p s \<longleftrightarrow> prefix p s"
  by (metis append_eq_conv_conj prefix_def starts_with_def)

lemma ends_with_suffix: "ends_with p s \<longleftrightarrow> suffix p s"
  by (simp add: ends_with_def starts_with_prefix suffix_to_prefix)

lemma ends_with_append [simp]: "ends_with p (s @ p)"
  by (simp add: ends_with_suffix suffix_def)

lemma ends_with_singleton:
  "ends_with [c] s \<longleftrightarrow> s \<noteq> [] \<and> last s = c"
  by (metis append_butlast_last_id ends_with_append ends_with_suffix last_snoc snoc_eq_iff_butlast
      suffix_def)

lemma strip_prefix_append [simp]: "strip_prefix p (p @ s) = Some s"
  by (simp add: strip_prefix_def)

lemma strip_prefix_Some: "strip_prefix p s = Some r \<longleftrightarrow> s = p @ r"
  by (metis append_take_drop_id option.inject option.simps(3) starts_with_def strip_prefix_append
      strip_prefix_def)

lemma strip_suffix_append [simp]: "strip_suffix p (s @ p) = Some s"
  by (simp add: strip_suffix_def)

lemma strip_suffix_Some: "strip_suffix p s = Some r \<longleftrightarrow> s = r @ p"
proof
  assume "strip_suffix p s = Some r"
  then show "s = r @ p"
    by (auto simp: strip_suffix_def ends_with_suffix suffix_def split: if_splits)
qed simp

lemma str_find_Some:
  "str_find p s = Some i \<Longrightarrow> i \<le> length s \<and> starts_with p (drop i s)"
  by (induction p s arbitrary: i rule: str_find.induct) (auto split: if_splits)

lemma str_find_first:
  "str_find p s = Some i \<Longrightarrow> j < i \<Longrightarrow> \<not> starts_with p (drop j s)"
proof (induction p s arbitrary: i j rule: str_find.induct)
  case (2 p c s)
  then show ?case by (cases j) (auto split: if_splits)
qed (auto split: if_splits)

lemma split_once_Some:
  assumes "split_once p s = Some (a, b)"
  shows "s = a @ p @ b"
proof -
  from assms obtain i where i: "str_find p s = Some i" "a = take i s" "b = drop (i + length p) s"
    by (auto simp: split_once_def split: option.splits)
  then have "starts_with p (drop i s)" by (blast dest: str_find_Some)
  then have "drop i s = p @ drop (length p) (drop i s)"
    by (metis append_take_drop_id starts_with_def)
  then have "s = take i s @ p @ drop (length p) (drop i s)"
    by (metis append_take_drop_id)
  with i show ?thesis by (simp add: add.commute)
qed

lemma split_once_char_fresh:
  assumes "split_once [c] s = Some (a, b)"
  shows "c \<notin> set a"
proof
  assume "c \<in> set a"
  from assms obtain i where i: "str_find [c] s = Some i" "a = take i s"
    by (auto simp: split_once_def split: option.splits)
  from \<open>c \<in> set a\<close> i obtain j where j: "j < i" "j < length s" "s ! j = c"
    by (auto simp: in_set_conv_nth)
  then have "starts_with [c] (drop j s)"
    by (metis Cons_nth_drop_Suc starts_with_Cons starts_with_Nil)
  with i j show False by (blast dest: str_find_first)
qed

lemma str_find_char_iff: "str_find [c] s = None \<longleftrightarrow> c \<notin> set s"
  by (induction s) auto

lemma str_find_char_append: "c \<notin> set a \<Longrightarrow> str_find [c] (a @ c # b) = Some (length a)"
  by (induction a) auto

lemma split_once_char_append:
  "c \<notin> set a \<Longrightarrow> split_once [c] (a @ c # b) = Some (a, b)"
  by (simp add: split_once_def str_find_char_append)

declare str_replace.simps [str_simps]

subsection \<open>Character classes\<close>

definition is_ascii_digit :: "char \<Rightarrow> bool" where
  "is_ascii_digit c \<longleftrightarrow> 48 \<le> (of_char c :: nat) \<and> (of_char c :: nat) \<le> 57"

definition is_ascii_upper :: "char \<Rightarrow> bool" where
  "is_ascii_upper c \<longleftrightarrow> 65 \<le> (of_char c :: nat) \<and> (of_char c :: nat) \<le> 90"

definition is_ascii_lower :: "char \<Rightarrow> bool" where
  "is_ascii_lower c \<longleftrightarrow> 97 \<le> (of_char c :: nat) \<and> (of_char c :: nat) \<le> 122"

definition is_ascii_alphabetic :: "char \<Rightarrow> bool" where
  "is_ascii_alphabetic c \<longleftrightarrow> is_ascii_upper c \<or> is_ascii_lower c"

definition is_ascii_alphanumeric :: "char \<Rightarrow> bool" where
  "is_ascii_alphanumeric c \<longleftrightarrow> is_ascii_alphabetic c \<or> is_ascii_digit c"

definition to_ascii_lower :: "string \<Rightarrow> string" where
  "to_ascii_lower s = map (\<lambda>c. if is_ascii_upper c then char_of (of_char c + 32 :: nat) else c) s"

definition eq_ignore_ascii_case :: "string \<Rightarrow> string \<Rightarrow> bool" where
  "eq_ignore_ascii_case a b \<longleftrightarrow> to_ascii_lower a = to_ascii_lower b"

text \<open>
  \<open>str::parse\<close> for an unsigned integer type with the given largest value: an optional plus sign and
  at least one digit.
\<close>

fun digits_value :: "nat \<Rightarrow> string \<Rightarrow> nat option" where
  "digits_value acc [] = Some acc"
| "digits_value acc (c # cs) =
     (if is_ascii_digit c then digits_value (10 * acc + (of_char c - 48)) cs else None)"

definition parse_unsigned :: "nat \<Rightarrow> string \<Rightarrow> nat option" where
  "parse_unsigned largest s =
     (let digits = (case s of c # cs \<Rightarrow> if c = CHR ''+'' then cs else s | [] \<Rightarrow> [])
      in if digits = [] then None
         else case digits_value 0 digits of
                Some n \<Rightarrow> if n \<le> largest then Some n else None
              | None \<Rightarrow> None)"

lemma parse_unsigned_le: "parse_unsigned largest s = Some n \<Longrightarrow> n \<le> largest"
  by (auto simp: parse_unsigned_def Let_def split: list.splits option.splits if_splits)

lemma digits_value_append:
  "digits_value acc (s @ t) = Option.bind (digits_value acc s) (\<lambda>n. digits_value n t)"
  by (induction s arbitrary: acc) auto

lemma char_of_digit:
  "n < 10 \<Longrightarrow> (of_char (char_of (48 + n :: nat)) :: nat) = 48 + n"
  by (simp add: of_char_of)

lemma digits_value_show_nat: "digits_value 0 (show_nat n) = Some n"
proof (induction n rule: show_nat.induct)
  case (1 n)
  show ?case
  proof (cases "n < 10")
    case True
    then show ?thesis by (subst show_nat.simps) (simp add: is_ascii_digit_def char_of_digit)
  next
    case False
    with 1 show ?thesis
      by (subst show_nat.simps) (simp add: digits_value_append is_ascii_digit_def char_of_digit)
  qed
qed

lemma show_nat_digits: "c \<in> set (show_nat n) \<Longrightarrow> is_ascii_digit c"
proof (induction n rule: show_nat.induct)
  case (1 n)
  then show ?case
    by (subst (asm) (2) show_nat.simps) (auto simp: is_ascii_digit_def char_of_digit split: if_splits)
qed

lemma show_nat_nonempty: "show_nat n \<noteq> []"
  by (subst show_nat.simps) simp

lemma parse_unsigned_show_nat:
  assumes "n \<le> largest"
  shows "parse_unsigned largest (show_nat n) = Some n"
proof -
  obtain c cs where s: "show_nat n = c # cs" using show_nat_nonempty by (cases "show_nat n") auto
  with show_nat_digits [of c n] have "c \<noteq> CHR ''+''" by (auto simp: is_ascii_digit_def)
  with s digits_value_show_nat [of n] assms show ?thesis by (simp add: parse_unsigned_def)
qed

subsection \<open>Unicode white space on UTF-8 bytes\<close>

text \<open>
  \<open>char::is_whitespace\<close> holds of the code points with the \<open>White_Space\<close> property; on
  the bytes of a string a white-space character is one of the sequences below.
\<close>

definition is_ascii_ws :: "char \<Rightarrow> bool" where
  "is_ascii_ws c \<longleftrightarrow> c = CHR '' '' \<or> (9 \<le> (of_char c :: nat) \<and> (of_char c :: nat) \<le> 13)"

definition ws_pair :: "char \<Rightarrow> char \<Rightarrow> bool" where
  "ws_pair a b \<longleftrightarrow> a = CHR 0xC2 \<and> (b = CHR 0x85 \<or> b = CHR 0xA0)"

definition ws_triple :: "char \<Rightarrow> char \<Rightarrow> char \<Rightarrow> bool" where
  "ws_triple a b c \<longleftrightarrow>
     (a = CHR 0xE1 \<and> b = CHR 0x9A \<and> c = CHR 0x80)
   \<or> (a = CHR 0xE2 \<and> b = CHR 0x80 \<and>
        (128 \<le> (of_char c :: nat) \<and> (of_char c :: nat) \<le> 138
         \<or> c = CHR 0xA8 \<or> c = CHR 0xA9 \<or> c = CHR 0xAF))
   \<or> (a = CHR 0xE2 \<and> b = CHR 0x81 \<and> c = CHR 0x9F)
   \<or> (a = CHR 0xE3 \<and> b = CHR 0x80 \<and> c = CHR 0x80)"

text \<open>The length of the white-space character a string starts with, 0 if it starts with none.\<close>

fun ws_len :: "string \<Rightarrow> nat" where
  "ws_len (a # b # c # s) =
     (if is_ascii_ws a then 1 else if ws_pair a b then 2 else if ws_triple a b c then 3 else 0)"
| "ws_len [a, b] = (if is_ascii_ws a then 1 else if ws_pair a b then 2 else 0)"
| "ws_len [a] = (if is_ascii_ws a then 1 else 0)"
| "ws_len [] = 0"

text \<open>The same at the end of a string, read on the reversed bytes.\<close>

fun ws_len_rev :: "string \<Rightarrow> nat" where
  "ws_len_rev (a # b # c # s) =
     (if is_ascii_ws a then 1 else if ws_pair b a then 2 else if ws_triple c b a then 3 else 0)"
| "ws_len_rev [a, b] = (if is_ascii_ws a then 1 else if ws_pair b a then 2 else 0)"
| "ws_len_rev [a] = (if is_ascii_ws a then 1 else 0)"
| "ws_len_rev [] = 0"

lemma ws_len_pos: "0 < ws_len s \<Longrightarrow> 0 < length s"
  by (cases s) auto

lemma ws_len_rev_pos: "0 < ws_len_rev s \<Longrightarrow> 0 < length s"
  by (cases s) auto

function trim_start :: "string \<Rightarrow> string" where
  "trim_start s = (if ws_len s = 0 then s else trim_start (drop (ws_len s) s))"
  by pat_completeness auto
termination
  by (relation "measure length") (use ws_len_pos in force)+

function trim_start_rev :: "string \<Rightarrow> string" where
  "trim_start_rev s = (if ws_len_rev s = 0 then s else trim_start_rev (drop (ws_len_rev s) s))"
  by pat_completeness auto
termination
  by (relation "measure length") (use ws_len_rev_pos in force)+

declare trim_start.simps [simp del] trim_start_rev.simps [simp del]

definition trim_end :: "string \<Rightarrow> string" where
  "trim_end s = rev (trim_start_rev (rev s))"

definition trim :: "string \<Rightarrow> string" where
  "trim s = trim_end (trim_start s)"

lemma trim_start_done [simp]: "ws_len (trim_start s) = 0"
  by (induction s rule: trim_start.induct) (subst trim_start.simps, auto)

lemma trim_start_id: "ws_len s = 0 \<Longrightarrow> trim_start s = s"
  by (simp add: trim_start.simps)

lemma trim_start_idem [simp]: "trim_start (trim_start s) = trim_start s"
  by (simp add: trim_start_id)

lemma trim_start_suffix: "suffix (trim_start s) s"
proof (induction s rule: trim_start.induct)
  case (1 s)
  then show ?case
    by (cases "ws_len s = 0")
       (auto simp: trim_start.simps [of s] intro: suffix_order.trans suffix_drop)
qed

subsection \<open>UTF-8 validation\<close>

text \<open>
  \<open>std::str::from_utf8\<close> accepts exactly the well-formed byte sequences of the Unicode
  standard: no overlong forms, no surrogates, nothing above U+10FFFF.
\<close>

definition in_range :: "nat \<Rightarrow> nat \<Rightarrow> char \<Rightarrow> bool" where
  "in_range lo hi c \<longleftrightarrow> lo \<le> of_char c \<and> of_char c \<le> hi"

fun utf8_valid :: "string \<Rightarrow> bool" where
  "utf8_valid [] = True"
| "utf8_valid (a # s) =
     (if in_range 0 127 a then utf8_valid s
      else if in_range 194 223 a then
        (case s of b # s' \<Rightarrow> in_range 128 191 b \<and> utf8_valid s' | _ \<Rightarrow> False)
      else if in_range 224 239 a then
        (case s of b # c # s' \<Rightarrow>
           in_range (if of_char a = (224::nat) then 160 else 128)
                    (if of_char a = (237::nat) then 159 else 191) b
           \<and> in_range 128 191 c \<and> utf8_valid s'
         | _ \<Rightarrow> False)
      else if in_range 240 244 a then
        (case s of b # c # d # s' \<Rightarrow>
           in_range (if of_char a = (240::nat) then 144 else 128)
                    (if of_char a = (244::nat) then 143 else 191) b
           \<and> in_range 128 191 c \<and> in_range 128 191 d \<and> utf8_valid s'
         | _ \<Rightarrow> False)
      else False)"

subsection \<open>Trimmed and joined text\<close>

lemma ws_len_prefix: "0 < ws_len a \<Longrightarrow> 0 < ws_len (a @ b)"
  by (cases a rule: ws_len.cases; cases b rule: ws_len.cases) (auto split: if_splits)

lemma ws_len_rev_suffix: "ws_len_rev s = 0 \<Longrightarrow> trim_start_rev s = s"
  by (simp add: trim_start_rev.simps)

lemma trim_start_rev_done: "ws_len_rev (trim_start_rev s) = 0"
proof (induction s rule: trim_start_rev.induct)
  case (1 s)
  then show ?case by (cases "ws_len_rev s = 0") (simp_all add: trim_start_rev.simps [of s])
qed

lemma trim_start_rev_suffix: "suffix (trim_start_rev s) s"
proof (induction s rule: trim_start_rev.induct)
  case (1 s)
  then show ?case
    by (cases "ws_len_rev s = 0")
       (auto simp: trim_start_rev.simps [of s] intro: suffix_order.trans suffix_drop)
qed

lemma trim_end_prefix: "prefix (trim_end s) s"
  using trim_start_rev_suffix [of "rev s"] by (simp add: trim_end_def suffix_to_prefix)

lemma trim_idem [simp]: "trim (trim s) = trim s"
proof -
  let ?t = "trim_start s"
  obtain rest where rest: "?t = trim_end ?t @ rest" using trim_end_prefix by (auto simp: prefix_def)
  have "ws_len (trim_end ?t) = 0"
    using ws_len_prefix [of "trim_end ?t" rest] trim_start_done [of s] rest by (metis gr0I less_numeral_extra(3))
  then have "trim_start (trim_end ?t) = trim_end ?t" by (rule trim_start_id)
  moreover have "trim_end (trim_end ?t) = trim_end ?t"
    by (simp add: trim_end_def ws_len_rev_suffix trim_start_rev_done)
  ultimately show ?thesis by (simp add: trim_def)
qed

lemma set_trim: "set (trim s) \<subseteq> set s"
  using trim_end_prefix [of "trim_start s"] trim_start_suffix [of s]
  unfolding trim_def by (meson set_mono_prefix set_mono_suffix subset_trans)

lemma visible_not_ws:
  assumes "in_range 33 127 c"
  shows "\<not> is_ascii_ws c" "\<not> ws_pair c x" "\<not> ws_triple c x y" "\<not> ws_pair x c" "\<not> ws_triple x y c"
  using assms by (auto simp: is_ascii_ws_def ws_pair_def ws_triple_def in_range_def)

lemma ws_len_visible:
  assumes "in_range 33 127 c"
  shows "ws_len (c # a) = 0" and "ws_len_rev (c # a) = 0"
  using visible_not_ws [OF assms]
  by (cases "c # a" rule: ws_len.cases, simp_all) (cases "c # a" rule: ws_len_rev.cases, simp_all)

lemma trim_visible:
  assumes "in_range 33 127 c" and "in_range 33 127 d" and "s = c # a" and "s = b @ [d]"
  shows "trim s = s"
proof -
  have "trim_start s = s" using ws_len_visible(1) [OF assms(1)] by (simp add: assms(3) trim_start_id)
  moreover have "trim_start_rev (rev s) = rev s"
    using ws_len_visible(2) [OF assms(2)] by (simp add: assms(4) ws_len_rev_suffix)
  ultimately show ?thesis by (simp add: trim_def trim_end_def)
qed

lemma trim_show_nat: "trim (show_nat n) = show_nat n"
proof -
  obtain c a where c: "show_nat n = c # a" using show_nat_nonempty by (cases "show_nat n") auto
  obtain b d where d: "show_nat n = b @ [d]" using show_nat_nonempty by (cases "show_nat n" rule: rev_cases) auto
  have "in_range 33 127 x" if "x \<in> set (show_nat n)" for x
    using show_nat_digits [OF that] by (auto simp: is_ascii_digit_def in_range_def)
  from this [of c] this [of d] have "in_range 33 127 c" "in_range 33 127 d"
    by (simp add: c, simp add: d)
  from trim_visible [OF this c d] show ?thesis .
qed

fun joined_with :: "char \<Rightarrow> string list \<Rightarrow> string" where
  "joined_with c [] = []"
| "joined_with c [s] = s"
| "joined_with c (s # ss) = s @ c # joined_with c ss"

lemma split_on_nonempty: "split_on c s \<noteq> []"
  by (induction s) (auto split: list.splits)

lemma split_on_fresh: "c \<notin> set s \<Longrightarrow> split_on c s = [s]"
  by (induction s) auto

lemma split_on_append: "c \<notin> set s \<Longrightarrow> split_on c (s @ c # t) = s # split_on c t"
  by (induction s) auto

lemma split_on_joined:
  "ss \<noteq> [] \<Longrightarrow> \<forall>s \<in> set ss. c \<notin> set s \<Longrightarrow> split_on c (joined_with c ss) = ss"
  by (induction c ss rule: joined_with.induct) (simp_all add: split_on_fresh split_on_append)

lemma split_on_parts: "part \<in> set (split_on c s) \<Longrightarrow> c \<notin> set part"
  by (induction s arbitrary: part) (auto split: if_splits list.splits)

subsection \<open>Hash maps as entries in iteration order\<close>

text \<open>
  A \<open>HashMap\<close> is its list of entries in iteration order.  The order is the hasher's, so
  no property depends on it: they speak of lookups, sets and multisets of entries.
\<close>

type_synonym ('k, 'v) hmap = "('k \<times> 'v) list"

definition hm_get :: "'k \<Rightarrow> ('k, 'v) hmap \<Rightarrow> 'v option" where
  "hm_get k m = map_of m k"

definition hm_remove :: "'k \<Rightarrow> ('k, 'v) hmap \<Rightarrow> ('k, 'v) hmap" where
  "hm_remove k m = filter (\<lambda>e. fst e \<noteq> k) m"

definition hm_insert :: "'k \<Rightarrow> 'v \<Rightarrow> ('k, 'v) hmap \<Rightarrow> ('k, 'v) hmap" where
  "hm_insert k v m = (k, v) # hm_remove k m"

definition hm_retain :: "('k \<Rightarrow> 'v \<Rightarrow> bool) \<Rightarrow> ('k, 'v) hmap \<Rightarrow> ('k, 'v) hmap" where
  "hm_retain P m = filter (\<lambda>e. P (fst e) (snd e)) m"

definition hm_keys :: "('k, 'v) hmap \<Rightarrow> 'k list" where
  "hm_keys m = map fst m"

definition hm_values :: "('k, 'v) hmap \<Rightarrow> 'v list" where
  "hm_values m = map snd m"

abbreviation hm_wf :: "('k, 'v) hmap \<Rightarrow> bool" where
  "hm_wf m \<equiv> distinct (map fst m)"

lemma hm_wf_filter [simp, intro]: "hm_wf m \<Longrightarrow> hm_wf (filter P m)"
  by (induction m) auto

lemma hm_wf_remove [simp, intro]: "hm_wf m \<Longrightarrow> hm_wf (hm_remove k m)"
  by (simp add: hm_remove_def)

lemma hm_wf_retain [simp, intro]: "hm_wf m \<Longrightarrow> hm_wf (hm_retain P m)"
  by (simp add: hm_retain_def)

lemma hm_wf_insert [simp, intro]: "hm_wf m \<Longrightarrow> hm_wf (hm_insert k v m)"
  by (auto simp: hm_insert_def hm_remove_def)

lemma hm_get_Nil [simp, map_simps]: "hm_get k [] = None"
  by (simp add: hm_get_def)

lemma hm_get_remove [map_simps]: "hm_get k (hm_remove k' m) = (if k = k' then None else hm_get k m)"
  by (induction m) (auto simp: hm_get_def hm_remove_def)

lemma hm_get_insert [map_simps]: "hm_get k (hm_insert k' v m) = (if k = k' then Some v else hm_get k m)"
  by (auto simp: hm_insert_def hm_get_def hm_get_remove [unfolded hm_get_def])

lemma hm_get_filter:
  "hm_wf m \<Longrightarrow> hm_get k (filter P m) =
     (case hm_get k m of None \<Rightarrow> None | Some v \<Rightarrow> if P (k, v) then Some v else None)"
proof (induction m)
  case (Cons e m)
  then show ?case
    by (cases e) (auto simp: hm_get_def map_of_eq_None_iff split: option.splits)
qed simp

lemma hm_get_retain [map_simps]:
  "hm_wf m \<Longrightarrow> hm_get k (hm_retain P m) =
     (case hm_get k m of None \<Rightarrow> None | Some v \<Rightarrow> if P k v then Some v else None)"
  by (cases "hm_get k m") (simp_all add: hm_retain_def hm_get_filter)

lemma hm_get_in: "hm_get k m = Some v \<Longrightarrow> (k, v) \<in> set m"
  by (simp add: hm_get_def map_of_SomeD)

lemma hm_get_iff: "hm_wf m \<Longrightarrow> hm_get k m = Some v \<longleftrightarrow> (k, v) \<in> set m"
  by (simp add: hm_get_def map_of_eq_Some_iff)

lemma hm_get_None: "hm_get k m = None \<longleftrightarrow> k \<notin> fst ` set m"
  by (simp add: hm_get_def map_of_eq_None_iff)

lemma hm_remove_fresh: "hm_get k m = None \<Longrightarrow> hm_remove k m = m"
  by (force simp: hm_get_None hm_remove_def filter_id_conv)

lemma set_hm_remove: "set (hm_remove k m) = {e \<in> set m. fst e \<noteq> k}"
  by (simp add: hm_remove_def)

lemma mset_hm_remove:
  assumes "hm_wf m" and "hm_get k m = Some v"
  shows "mset m = add_mset (k, v) (mset (hm_remove k m))"
  using assms
proof (induction m)
  case (Cons e m)
  show ?case
  proof (cases "fst e = k")
    case True
    with Cons.prems have "hm_get k m = None"
      by (auto simp: hm_get_None)
    then have "hm_remove k (e # m) = m"
      using True by (simp add: hm_remove_def hm_remove_fresh [unfolded hm_remove_def])
    with True Cons.prems show ?thesis by (cases e) (simp add: hm_get_def)
  next
    case False
    with Cons show ?thesis by (cases e) (auto simp: hm_get_def hm_remove_def)
  qed
qed simp

lemma image_mset_partition:
  "image_mset f M = image_mset f (filter_mset P M) + image_mset f (filter_mset (\<lambda>x. \<not> P x) M)"
  by (metis image_mset_union multiset_partition)

subsection \<open>The contract of a keyed store\<close>

text \<open>
  What the session tables, the pool's registry and JSON objects promise their callers:
  lookups after an insertion and after a removal, under the representation invariant.
\<close>

locale dictionary =
  fixes get :: "'k \<Rightarrow> 'm \<Rightarrow> 'v option"
    and ins :: "'k \<Rightarrow> 'v \<Rightarrow> 'm \<Rightarrow> 'm"
    and del :: "'k \<Rightarrow> 'm \<Rightarrow> 'm"
    and invar :: "'m \<Rightarrow> bool"
  assumes get_ins: "invar m \<Longrightarrow> get k (ins k' v m) = (if k = k' then Some v else get k m)"
    and get_del: "invar m \<Longrightarrow> get k (del k' m) = (if k = k' then None else get k m)"
    and invar_ins: "invar m \<Longrightarrow> invar (ins k v m)"
    and invar_del: "invar m \<Longrightarrow> invar (del k m)"
begin

lemma get_del_ins: "invar m \<Longrightarrow> get k (del k' (ins k' v m)) = (if k = k' then None else get k m)"
  by (simp add: get_ins get_del invar_ins)

lemma invar_fold_ins: "invar m \<Longrightarrow> invar (fold (\<lambda>(k, v). ins k v) kvs m)"
  by (induction kvs arbitrary: m) (auto simp: invar_ins split: prod.splits)

text \<open>\<open>extend\<close> inserts the entries in order, so the last entry of a key wins.\<close>

lemma get_fold_ins:
  "invar m \<Longrightarrow> get k (fold (\<lambda>(k, v). ins k v) kvs m) =
     (case map_of (rev kvs) k of Some v \<Rightarrow> Some v | None \<Rightarrow> get k m)"
  by (induction kvs arbitrary: m)
     (auto simp: get_ins invar_ins map_add_def split: prod.splits option.splits)

lemma invar_fold_del: "invar m \<Longrightarrow> invar (fold del ks m)"
  by (induction ks arbitrary: m) (auto simp: invar_del)

lemma get_fold_del: "invar m \<Longrightarrow> get k (fold del ks m) = (if k \<in> set ks then None else get k m)"
  by (induction ks arbitrary: m) (auto simp: get_del invar_del)

end

interpretation hm: dictionary hm_get hm_insert hm_remove hm_wf
  by unfold_locales (auto simp: hm_get_insert hm_get_remove)

subsection \<open>Time\<close>

text \<open>
  An \<open>Instant\<close> is a number of milliseconds on the monotonic clock and a \<open>Duration\<close> a number
  of milliseconds.  An operation of the program may read the clock several times; it is given
  the readings in order (\<open>now c 0\<close>, \<open>now c 1\<close>, \<dots>).  \<open>last_instant\<close> is the last
  instant the platform can represent, which bounds \<open>Instant::checked_add\<close>.
\<close>

type_synonym instant = nat
type_synonym duration = nat

record clock =
  now :: "nat \<Rightarrow> instant"
  last_instant :: instant

definition checked_add :: "clock \<Rightarrow> instant \<Rightarrow> duration \<Rightarrow> instant option" where
  "checked_add c t d = (if t + d \<le> last_instant c then Some (t + d) else None)"

definition later :: "nat \<Rightarrow> clock \<Rightarrow> clock" where
  "later k c = c\<lparr>now := (\<lambda>i. now c (k + i))\<rparr>"

definition monotonic :: "clock \<Rightarrow> bool" where
  "monotonic c \<longleftrightarrow> mono (now c)"

lemma checked_add_Some: "checked_add c t d = Some u \<Longrightarrow> u = t + d \<and> u \<le> last_instant c"
  by (auto simp: checked_add_def split: if_splits)

lemma now_later [simp]: "now (later k c) i = now c (k + i)"
  by (simp add: later_def)

lemma last_instant_later [simp]: "last_instant (later k c) = last_instant c"
  by (simp add: later_def)

lemma checked_add_later [simp]: "checked_add (later k c) = checked_add c"
  by (simp add: checked_add_def fun_eq_iff)

lemma monotonic_later [simp, intro]: "monotonic c \<Longrightarrow> monotonic (later k c)"
  by (auto simp: monotonic_def mono_def)

lemma monotonicD: "monotonic c \<Longrightarrow> i \<le> j \<Longrightarrow> now c i \<le> now c j"
  by (auto simp: monotonic_def mono_def)

text \<open>A clock on which the examples of the development run.\<close>

definition sample_clock :: clock where
  "sample_clock = \<lparr>now = (\<lambda>i. 5), last_instant = 1000000\<rparr>"

end
