(* ===== verification/Json.thy ===== *)
theory Json
  imports Prelude
begin

text \<open>
  The JSON values the program exchanges: \<open>serde_json::Value\<close> as its documented enum, with the
  accessors the program calls.  The program enables \<open>preserve_order\<close>, so an object is its list
  of entries in insertion order: inserting an existing key replaces the value in place, a new key
  goes to the end, and \<open>remove\<close> moves the last entry into the gap (\<open>swap_remove\<close>).
  Printing and parsing of the text are the library's: the definitions that use them take them as
  arguments (\<open>ser\<close>, \<open>parse\<close>).
\<close>

text \<open>
  A number is an unsigned integer, a negative \<open>i64\<close> (its two's complement), or a float
  (its IEEE bits).
\<close>

datatype number = PosInt u64 | NegInt u64 | Float u64

datatype json =
    JNull
  | JBool bool
  | JNumber number
  | JString string
  | JArray "json list"
  | JObject "(string \<times> json) list"

type_synonym obj = "(string \<times> json) list"

subsection \<open>Objects\<close>

definition obj_get :: "string \<Rightarrow> obj \<Rightarrow> json option" where
  "obj_get k m = map_of m k"

fun obj_insert :: "string \<Rightarrow> json \<Rightarrow> obj \<Rightarrow> obj" where
  "obj_insert k v [] = [(k, v)]"
| "obj_insert k v (e # m) = (if fst e = k then (k, v) # m else e # obj_insert k v m)"

fun obj_remove :: "string \<Rightarrow> obj \<Rightarrow> obj" where
  "obj_remove k [] = []"
| "obj_remove k (e # m) =
     (if fst e = k then (if m = [] then [] else last m # butlast m)
      else e # obj_remove k m)"

abbreviation obj_extend :: "obj \<Rightarrow> obj \<Rightarrow> obj" where
  "obj_extend m kvs \<equiv> fold (\<lambda>(k, v). obj_insert k v) kvs m"

abbreviation obj_wf :: "obj \<Rightarrow> bool" where
  "obj_wf m \<equiv> distinct (map fst m)"

lemma fst_set_obj_insert: "fst ` set (obj_insert k v m) = insert k (fst ` set m)"
  by (induction m) auto

lemma obj_wf_insert: "obj_wf m \<Longrightarrow> obj_wf (obj_insert k v m)"
  by (induction m) (auto simp: fst_set_obj_insert simp flip: image_set)

lemma obj_get_insert [map_simps]: "obj_get k (obj_insert k' v m) = (if k = k' then Some v else obj_get k m)"
  by (induction m) (auto simp: obj_get_def)

lemma mset_last_butlast: "m \<noteq> [] \<Longrightarrow> mset (last m # butlast m) = mset m"
  by (metis append_butlast_last_id mset.simps(2) mset_append mset_single_iff_right
      add_mset_add_single union_mset_add_mset_right add.right_neutral mset.simps(1))

lemma mset_obj_remove: "obj_wf m \<Longrightarrow> mset (obj_remove k m) = filter_mset (\<lambda>e. fst e \<noteq> k) (mset m)"
proof (induction m)
  case (Cons e m)
  show ?case
  proof (cases "fst e = k")
    case True
    with Cons.prems have "k \<notin> fst ` set m" by simp
    then have "\<forall>x \<in> set m. fst x \<noteq> k" by (metis image_eqI)
    then have "filter_mset (\<lambda>e. fst e \<noteq> k) (mset m) = mset m"
      by (simp add: filter_mset_eq_conv)
    with True show ?thesis by (simp add: mset_last_butlast del: mset.simps(2)) simp
  next
    case False
    with Cons show ?thesis by simp
  qed
qed simp

lemma set_obj_remove: "obj_wf m \<Longrightarrow> set (obj_remove k m) = {e \<in> set m. fst e \<noteq> k}"
  by (metis mset_obj_remove set_mset_filter set_mset_mset)

lemma obj_wf_remove: "obj_wf m \<Longrightarrow> obj_wf (obj_remove k m)"
proof -
  assume wf: "obj_wf m"
  then have "distinct (map fst (filter (\<lambda>e. fst e \<noteq> k) m))" by (rule hm_wf_filter)
  moreover have "mset (map fst (obj_remove k m)) = mset (map fst (filter (\<lambda>e. fst e \<noteq> k) m))"
    by (simp add: mset_obj_remove [OF wf] mset_filter mset_map)
  ultimately show ?thesis by (metis mset_eq_imp_distinct_iff)
qed

lemma obj_get_iff: "obj_wf m \<Longrightarrow> obj_get k m = Some v \<longleftrightarrow> (k, v) \<in> set m"
  by (simp add: obj_get_def map_of_eq_Some_iff)

lemma obj_get_remove:
  assumes "obj_wf m"
  shows "obj_get k (obj_remove k' m) = (if k = k' then None else obj_get k m)"
proof -
  have "obj_get k (obj_remove k' m) = Some v \<longleftrightarrow> k \<noteq> k' \<and> obj_get k m = Some v" for v
    using assms by (auto simp: obj_get_iff obj_wf_remove set_obj_remove)
  then show ?thesis by (metis not_None_eq)
qed

interpretation obj: dictionary obj_get obj_insert obj_remove obj_wf
  by unfold_locales (auto simp: obj_get_insert obj_get_remove obj_wf_insert obj_wf_remove)

lemma obj_insert_fresh: "k \<notin> fst ` set m \<Longrightarrow> obj_insert k v m = m @ [(k, v)]"
  by (induction m) auto

lemma obj_extend_distinct: "obj_wf (a @ m) \<Longrightarrow> obj_extend a m = a @ m"
proof (induction m arbitrary: a)
  case (Cons e m)
  obtain k v where e: "e = (k, v)" by fastforce
  with Cons.prems have "obj_insert k v a = a @ [e]"
    by (intro trans [OF obj_insert_fresh]) auto
  with Cons.IH [of "a @ [e]"] Cons.prems e show ?case by simp
qed simp

lemma obj_extend_empty [simp]: "obj_wf m \<Longrightarrow> obj_extend [] m = m"
  using obj_extend_distinct [of "[]" m] by simp

subsection \<open>Values\<close>

text \<open>Objects at every depth have distinct keys.\<close>

fun json_wf :: "json \<Rightarrow> bool" where
  "json_wf (JArray xs) = (\<forall>v \<in> set xs. json_wf v)"
| "json_wf (JObject m) = (obj_wf m \<and> (\<forall>e \<in> set m. json_wf (snd e)))"
| "json_wf _ = True"

fun vget :: "string \<Rightarrow> json \<Rightarrow> json option" where
  "vget k (JObject m) = obj_get k m"
| "vget k _ = None"

fun as_str :: "json \<Rightarrow> string option" where
  "as_str (JString s) = Some s"
| "as_str _ = None"

fun as_bool :: "json \<Rightarrow> bool option" where
  "as_bool (JBool b) = Some b"
| "as_bool _ = None"

fun as_array :: "json \<Rightarrow> json list option" where
  "as_array (JArray xs) = Some xs"
| "as_array _ = None"

fun as_object :: "json \<Rightarrow> obj option" where
  "as_object (JObject m) = Some m"
| "as_object _ = None"

fun as_u64 :: "json \<Rightarrow> u64 option" where
  "as_u64 (JNumber (PosInt n)) = Some n"
| "as_u64 _ = None"

fun as_i64 :: "json \<Rightarrow> int option" where
  "as_i64 (JNumber (PosInt n)) = (if unat n < 2 ^ 63 then Some (uint n) else None)"
| "as_i64 (JNumber (NegInt n)) = Some (sint n)"
| "as_i64 _ = None"

fun is_null :: "json \<Rightarrow> bool" where
  "is_null JNull = True"
| "is_null _ = False"

fun is_object :: "json \<Rightarrow> bool" where
  "is_object (JObject m) = True"
| "is_object _ = False"

fun is_array :: "json \<Rightarrow> bool" where
  "is_array (JArray xs) = True"
| "is_array _ = False"

fun is_string :: "json \<Rightarrow> bool" where
  "is_string (JString s) = True"
| "is_string _ = False"

fun is_boolean :: "json \<Rightarrow> bool" where
  "is_boolean (JBool b) = True"
| "is_boolean _ = False"

fun is_number :: "json \<Rightarrow> bool" where
  "is_number (JNumber n) = True"
| "is_number _ = False"

text \<open>
  Equality of values: the order of the entries of an object does not count, numbers of different
  representations differ, and the two zeros of a float are equal.
\<close>

fun number_eq :: "number \<Rightarrow> number \<Rightarrow> bool" where
  "number_eq (PosInt a) (PosInt b) \<longleftrightarrow> a = b"
| "number_eq (NegInt a) (NegInt b) \<longleftrightarrow> a = b"
| "number_eq (Float a) (Float b) \<longleftrightarrow> a = b \<or> a \<in> {0, 0x8000000000000000} \<and> b \<in> {0, 0x8000000000000000}"
| "number_eq _ _ \<longleftrightarrow> False"

function (sequential) json_eq :: "json \<Rightarrow> json \<Rightarrow> bool" where
  "json_eq JNull JNull \<longleftrightarrow> True"
| "json_eq (JBool a) (JBool b) \<longleftrightarrow> a = b"
| "json_eq (JNumber a) (JNumber b) \<longleftrightarrow> number_eq a b"
| "json_eq (JString a) (JString b) \<longleftrightarrow> a = b"
| "json_eq (JArray xs) (JArray ys) \<longleftrightarrow>
     length xs = length ys \<and> list_all (\<lambda>(x, y). json_eq x y) (zip xs ys)"
| "json_eq (JObject m) (JObject m') \<longleftrightarrow>
     length m = length m'
     \<and> list_all (\<lambda>e. case obj_get (fst e) m' of None \<Rightarrow> False | Some w \<Rightarrow> json_eq (snd e) w) m"
| "json_eq _ _ \<longleftrightarrow> False"
  by pat_completeness auto
termination
proof (relation "measure (\<lambda>(v, w). size v)")
  fix xs ys :: "json list" and z x y
  assume "z \<in> set (zip xs ys)" and "(x, y) = z"
  then have "x \<in> set xs" by (auto dest: set_zip_leftD)
  then show "((x, y), JArray xs, JArray ys) \<in> measure (\<lambda>(v, w). size v)"
    by (simp add: size_list_estimation' less_Suc_eq_le)
next
  fix m m' :: obj and e w
  assume "e \<in> set m"
  then have "size (snd e) \<le> size_list (\<lambda>x. Suc (size (snd x))) m"
    by (rule size_list_estimation') simp
  then show "((snd e, w), JObject m, JObject m') \<in> measure (\<lambda>(v, w). size v)"
    by (cases e) (simp add: size_prod_simp comp_def case_prod_unfold less_Suc_eq_le)
qed simp

text \<open>\<open>Value::from\<close> for \<open>u64\<close> and \<open>i64\<close>.\<close>

definition from_u64 :: "u64 \<Rightarrow> json" where
  "from_u64 n = JNumber (PosInt n)"

definition from_i64 :: "int \<Rightarrow> json" where
  "from_i64 i = JNumber (if 0 \<le> i then PosInt (word_of_int i) else NegInt (word_of_int i))"

lemma is_object_iff: "is_object v \<longleftrightarrow> (\<exists>m. v = JObject m)"
  by (cases v) auto

lemma as_str_Some: "as_str v = Some s \<longleftrightarrow> v = JString s"
  by (cases v) auto

lemma as_object_Some: "as_object v = Some m \<longleftrightarrow> v = JObject m"
  by (cases v) auto

lemma as_array_Some: "as_array v = Some xs \<longleftrightarrow> v = JArray xs"
  by (cases v) auto

lemma as_u64_Some: "as_u64 v = Some n \<longleftrightarrow> v = JNumber (PosInt n)"
  by (cases v rule: as_u64.cases) auto

lemma is_null_iff: "is_null v \<longleftrightarrow> v = JNull"
  by (cases v) auto

lemma from_u64_inject [simp]: "from_u64 a = from_u64 b \<longleftrightarrow> a = b"
  by (simp add: from_u64_def)

lemma as_i64_from_i64:
  assumes "- (2 ^ 63) \<le> i" and "i < 2 ^ 63"
  shows "as_i64 (from_i64 i) = Some i"
proof (cases "0 \<le> i")
  case True
  with assms have "uint (word_of_int i :: u64) = i"
    by (simp add: uint_word_of_int take_bit_int_eq_self)
  with True assms show ?thesis
    by (auto simp: from_i64_def unat_eq_nat_uint nat_less_iff)
next
  case False
  with assms have "sint (word_of_int i :: u64) = i"
    by (simp add: sint_sbintrunc' signed_take_bit_int_eq_self)
  with False show ?thesis by (simp add: from_i64_def)
qed

end
