(* ===== verification/Deadline.thy ===== *)
theory Deadline
  imports Json
begin

text \<open>
  Request deadlines (\<open>src/request_deadline.rs\<close>).  A \<open>SharedDeadline\<close> is a handle to a watch
  channel: cloning it copies the handle, so the session cache and the upstream transport that
  received the clone read and extend one instant.  The handles are cell numbers and the channels
  an explicit store of cells, which makes the sharing visible.
\<close>

type_synonym shared_deadline = nat

record cells =
  next_cell :: nat
  cell :: "nat \<Rightarrow> instant"

definition sd_new :: "instant \<Rightarrow> cells \<Rightarrow> shared_deadline \<times> cells" where
  "sd_new d s =
     (next_cell s, s\<lparr>next_cell := Suc (next_cell s), cell := (cell s)(next_cell s := d)\<rparr>)"

definition sd_current :: "shared_deadline \<Rightarrow> cells \<Rightarrow> instant" where
  "sd_current r s = cell s r"

definition sd_extend :: "shared_deadline \<Rightarrow> instant \<Rightarrow> cells \<Rightarrow> cells" where
  "sd_extend r d s =
     (if sd_current r s < d then s\<lparr>cell := (cell s)(r := d)\<rparr> else s)"

lemma sd_current_new: "sd_new d s = (r, s') \<Longrightarrow> sd_current r s' = d"
  by (auto simp: sd_new_def sd_current_def)

lemma sd_new_frame: "sd_new d s = (r, s') \<Longrightarrow> q < next_cell s \<Longrightarrow> sd_current q s' = sd_current q s"
  by (auto simp: sd_new_def sd_current_def)

lemma next_cell_extend [simp]: "next_cell (sd_extend r d s) = next_cell s"
  by (simp add: sd_extend_def)

lemma sd_current_extend:
  "sd_current q (sd_extend r d s) = (if q = r then max (sd_current r s) d else sd_current q s)"
  by (auto simp: sd_extend_def sd_current_def)

lemma sd_extend_mono: "sd_current q s \<le> sd_current q (sd_extend r d s)"
  by (simp add: sd_current_extend)

subsection \<open>Waiting under a shared deadline\<close>

text \<open>
  \<open>SharedDeadline::wait\<close> is a loop around a \<open>select!\<close>.  What can wake it is an event: the future
  finishes, the channel reports a change, the channel is closed, or the timer armed for the
  deadline read at the head of the loop fires.  An event carries the store and the clock of the
  moment it is handled; a timer cannot fire before the instant it was armed for.
\<close>

datatype wait_event =
    FutureReady
  | Changed cells
  | ChannelClosed
  | TimerFired cells instant

datatype wait_result = WaitOutput | WaitExpired

fun wait_run :: "shared_deadline \<Rightarrow> instant \<Rightarrow> wait_event list \<Rightarrow> wait_result option" where
  "wait_run r armed [] = None"
| "wait_run r armed (FutureReady # es) = Some WaitOutput"
| "wait_run r armed (Changed s # es) = wait_run r (sd_current r s) es"
| "wait_run r armed (ChannelClosed # es) = Some WaitExpired"
| "wait_run r armed (TimerFired s t # es) =
     (if t < armed then wait_run r armed es
      else if sd_current r s \<le> t then Some WaitExpired
      else wait_run r (sd_current r s) es)"

text \<open>The wait starts by reading the deadline it arms the first timer for.\<close>

definition sd_wait :: "shared_deadline \<Rightarrow> cells \<Rightarrow> wait_event list \<Rightarrow> wait_result option" where
  "sd_wait r s es = wait_run r (sd_current r s) es"

lemma wait_run_expired:
  "wait_run r armed es = Some WaitExpired \<Longrightarrow>
     ChannelClosed \<in> set es \<or> (\<exists>s t. TimerFired s t \<in> set es \<and> sd_current r s \<le> t)"
  by (induction r armed es rule: wait_run.induct) (auto split: if_splits)

lemma wait_run_returns:
  "wait_run r armed (es @ [FutureReady]) \<noteq> None"
  by (induction r armed es rule: wait_run.induct) auto

text \<open>A request that shares a deadline with later callers is not given up early: whenever
  the wait ends with an expiry and the channel was not closed, the timer fired at an instant at
  which the deadline, with every extension made so far, had passed.\<close>

theorem wait_expires_only_after_the_deadline:
  assumes "sd_wait r s es = Some WaitExpired" and "ChannelClosed \<notin> set es"
  shows "\<exists>s' t. TimerFired s' t \<in> set es \<and> sd_current r s' \<le> t"
  using assms wait_run_expired by (fastforce simp: sd_wait_def)

theorem wait_expires_only_after_the_deadline_witness:
  "\<exists>s' t. TimerFired s' t \<in> set
       [TimerFired \<lparr>next_cell = 1, cell = (\<lambda>_. 9)\<rparr> 5, TimerFired \<lparr>next_cell = 1, cell = (\<lambda>_. 9)\<rparr> 9]
     \<and> sd_current 0 s' \<le> t"
  by (rule wait_expires_only_after_the_deadline [where s = "\<lparr>next_cell = 1, cell = (\<lambda>_. 5)\<rparr>"])
     (simp_all add: sd_wait_def sd_current_def)

subsection \<open>The timeout field of a request\<close>

definition TIMEOUT_FIELD :: string where
  "TIMEOUT_FIELD = ''_mcp_pool_timeout_ms''"

definition timeout_ms :: "clock \<Rightarrow> json \<Rightarrow> string + u64 option" where
  "timeout_ms c message =
     (case vget TIMEOUT_FIELD message of
        None \<Rightarrow> Inr None
      | Some value \<Rightarrow>
          (case as_u64 value of
             None \<Rightarrow> Inl ''Pool request timeout must be positive u64 milliseconds''
           | Some milliseconds \<Rightarrow>
               if milliseconds = 0
               then Inl ''Pool request timeout must be positive u64 milliseconds''
               else (case checked_add c (now c 0) (unat milliseconds) of
                       None \<Rightarrow> Inl ''Pool request timeout exceeds the clock range''
                     | Some _ \<Rightarrow> Inr (Some milliseconds))))"

lemma timeout_ms_Some:
  assumes "timeout_ms c message = Inr (Some ms)"
  shows "vget TIMEOUT_FIELD message = Some (from_u64 ms) \<and> 0 < unat ms
       \<and> now c 0 + unat ms \<le> last_instant c"
  using assms
  by (auto simp: timeout_ms_def from_u64_def as_u64_Some unat_gt_0 split: option.splits if_splits
      dest!: checked_add_Some)

lemma timeout_ms_None:
  "timeout_ms c message = Inr None \<longleftrightarrow> vget TIMEOUT_FIELD message = None"
  by (auto simp: timeout_ms_def split: option.splits if_splits)

end
