(* ===== verification/Protocol.thy ===== *)
theory Protocol
  imports Json
begin

text \<open>
  Protocol versions and request identifiers (\<open>src/mcp_protocol.rs\<close>, \<open>src/jsonrpc.rs\<close>): which
  versions the program speaks, how it negotiates them, how it recognises a server's modern
  discovery answer, how it stamps a request with the modern version, and the identifiers it
  gives to the requests it multiplexes.
\<close>

definition MODERN_VERSION :: string where "MODERN_VERSION = ''2026-07-28''"

definition LEGACY_VERSION :: string where "LEGACY_VERSION = ''2025-11-25''"

definition VERSION_META_KEY :: string where
  "VERSION_META_KEY = ''io.modelcontextprotocol/protocolVersion''"

definition SUBSCRIPTION_ID_META_KEY :: string where
  "SUBSCRIPTION_ID_META_KEY = ''io.modelcontextprotocol/subscriptionId''"

definition SERVER_INFO_META_KEY :: string where
  "SERVER_INFO_META_KEY = ''io.modelcontextprotocol/serverInfo''"

definition DISCOVERY_UNSUPPORTED :: int where "DISCOVERY_UNSUPPORTED = -32004"

definition LEGACY_VERSIONS :: "string list" where
  "LEGACY_VERSIONS = [LEGACY_VERSION, ''2025-06-18'', ''2025-03-26'', ''2024-11-05'']"

definition discovery_http_rejection :: "u64 \<Rightarrow> bool" where
  "discovery_http_rejection status \<longleftrightarrow> status = 400 \<or> status = 404 \<or> status = 405 \<or> status = 415"

definition discovery_unsupported :: "int \<Rightarrow> json option \<Rightarrow> bool" where
  "discovery_unsupported code data \<longleftrightarrow>
     code = -32601
     \<or> (code = DISCOVERY_UNSUPPORTED \<and>
        (case Option.bind (Option.bind data (vget ''httpStatus'')) as_u64 of
           None \<Rightarrow> False | Some status \<Rightarrow> discovery_http_rejection status))"

definition discovery_rejection_data :: "u64 \<Rightarrow> json" where
  "discovery_rejection_data status =
     JObject [(''httpStatus'', from_u64 status),
              (''mcpCliFailure'',
               JObject [(''kind'', JString ''http''), (''statusCode'', from_u64 status)])]"

definition legacy_http_rejection :: "u64 \<Rightarrow> bool" where
  "legacy_http_rejection status \<longleftrightarrow> status = 404 \<or> status = 405"

definition supports_version :: "string \<Rightarrow> bool" where
  "supports_version version \<longleftrightarrow> version = MODERN_VERSION \<or> version \<in> set LEGACY_VERSIONS"

definition negotiate_legacy_version :: "string \<Rightarrow> string" where
  "negotiate_legacy_version requested =
     (if requested \<in> set LEGACY_VERSIONS then requested else LEGACY_VERSION)"

definition protocol_metadata :: "json \<Rightarrow> string option" where
  "protocol_metadata parameters =
     Option.bind (Option.bind (vget ''_meta'' parameters) (vget VERSION_META_KEY)) as_str"

definition is_modern :: "json \<Rightarrow> bool" where
  "is_modern parameters \<longleftrightarrow> protocol_metadata parameters = Some MODERN_VERSION"

definition stamp :: "json \<Rightarrow> string + json" where
  "stamp parameters =
     (case as_object parameters of
        None \<Rightarrow> Inl ''Modern MCP parameters must be an object''
      | Some params \<Rightarrow>
          (case as_object (case obj_get ''_meta'' params of None \<Rightarrow> JObject [] | Some m \<Rightarrow> m) of
             None \<Rightarrow> Inl ''Modern MCP _meta must be an object''
           | Some metadata \<Rightarrow>
               Inr (JObject (obj_insert ''_meta''
                  (JObject (obj_insert VERSION_META_KEY (JString MODERN_VERSION) metadata))
                  params))))"

definition discovery_offers_modern :: "json \<Rightarrow> string + bool" where
  "discovery_offers_modern result =
     (case Option.bind (vget ''supportedVersions'' result) as_array of
        None \<Rightarrow> Inl ''MCP server/discover omitted a nonempty supportedVersions array''
      | Some versions \<Rightarrow>
          if versions = [] then Inl ''MCP server/discover omitted a nonempty supportedVersions array''
          else if \<exists>version \<in> set versions. as_str version = None \<or> as_str version = Some []
          then Inl ''MCP server/discover returned invalid supportedVersions''
          else Inr (\<exists>version \<in> set versions. version = JString MODERN_VERSION))"

datatype era = LegacyEra | ModernEra

datatype protocol_preference = AutoProtocol | LegacyProtocol | ModernProtocol

record connection_info =
  ci_protocol_version :: string
  ci_era :: era
  ci_instructions :: "string option"

definition negotiated_version :: "json \<Rightarrow> era \<Rightarrow> string + string" where
  "negotiated_version result e =
     (if e = ModernEra
      then (case discovery_offers_modern result of
              Inl err \<Rightarrow> Inl err
            | Inr offers \<Rightarrow>
                if \<not> offers
                then Inl (''MCP server does not support pinned protocol version '' @ MODERN_VERSION)
                else Inr MODERN_VERSION)
      else (case Option.bind (vget ''protocolVersion'' result) as_str of
              None \<Rightarrow> Inl ''MCP initialize result omitted protocolVersion''
            | Some version \<Rightarrow>
                if version \<notin> set LEGACY_VERSIONS
                then Inl (''unsupported MCP protocol version: '' @ version)
                else Inr version))"

definition connection_info :: "json \<Rightarrow> era \<Rightarrow> string + connection_info" where
  "connection_info result e =
     (if \<not> (case vget ''capabilities'' result of None \<Rightarrow> False | Some v \<Rightarrow> is_object v)
      then Inl ''MCP handshake omitted capabilities''
      else (case negotiated_version result e of
              Inl err \<Rightarrow> Inl err
            | Inr version \<Rightarrow>
                (case vget ''instructions'' result of
                   None \<Rightarrow> Inr \<lparr>ci_protocol_version = version, ci_era = e, ci_instructions = None\<rparr>
                 | Some instructions \<Rightarrow>
                     (case as_str instructions of
                        None \<Rightarrow> Inl ''MCP handshake instructions must be a string''
                      | Some text \<Rightarrow>
                          Inr \<lparr>ci_protocol_version = version, ci_era = e,
                               ci_instructions = Some text\<rparr>))))"

subsection \<open>Negotiation\<close>

lemma negotiate_supported: "negotiate_legacy_version v \<in> set LEGACY_VERSIONS"
  by (simp add: negotiate_legacy_version_def LEGACY_VERSIONS_def)

lemma legacy_not_modern: "v \<in> set LEGACY_VERSIONS \<Longrightarrow> v \<noteq> MODERN_VERSION"
  by (auto simp: LEGACY_VERSIONS_def LEGACY_VERSION_def MODERN_VERSION_def)

lemma negotiated_version_era:
  "negotiated_version result e = Inr v \<Longrightarrow>
     supports_version v \<and> (e = ModernEra \<longleftrightarrow> v = MODERN_VERSION)"
  by (cases e)
     (auto simp: negotiated_version_def supports_version_def dest: legacy_not_modern
       split: if_splits sum.splits option.splits)

lemma discovery_offers_modern_Inr:
  "discovery_offers_modern result = Inr b \<Longrightarrow>
     \<exists>vs. vget ''supportedVersions'' result = Some (JArray vs) \<and> vs \<noteq> [] \<and>
          (\<forall>v \<in> set vs. \<exists>s. v = JString s \<and> s \<noteq> []) \<and>
          b = (JString MODERN_VERSION \<in> set vs)"
  by (fastforce simp: discovery_offers_modern_def as_array_Some as_str_Some bind_eq_Some_conv
      split: option.splits if_splits)

text \<open>An accepted handshake fixes a protocol version the program supports, and the version
  is the modern one exactly for a modern handshake; a modern handshake is accepted only when the
  server's discovery answer lists the modern version.\<close>

theorem connection_info_supported:
  assumes "connection_info result e = Inr info"
  shows "supports_version (ci_protocol_version info)
       \<and> ci_era info = e
       \<and> (e = ModernEra \<longleftrightarrow> ci_protocol_version info = MODERN_VERSION)
       \<and> (e = ModernEra \<longrightarrow> discovery_offers_modern result = Inr True)"
proof -
  from assms obtain v where v: "negotiated_version result e = Inr v"
    and info: "ci_protocol_version info = v" "ci_era info = e"
    by (auto simp: connection_info_def split: if_splits sum.splits option.splits)
  have "e = ModernEra \<Longrightarrow> discovery_offers_modern result = Inr True"
    using v by (auto simp: negotiated_version_def split: sum.splits if_splits)
  with info negotiated_version_era [OF v] show ?thesis by auto
qed

theorem connection_info_supported_witness:
  "\<exists>info. connection_info
       (JObject [(''capabilities'', JObject []), (''supportedVersions'', JArray [JString ''2026-07-28''])])
       ModernEra = Inr info \<and> supports_version (ci_protocol_version info)"
proof -
  have "connection_info
       (JObject [(''capabilities'', JObject []), (''supportedVersions'', JArray [JString ''2026-07-28''])])
       ModernEra = Inr \<lparr>ci_protocol_version = MODERN_VERSION, ci_era = ModernEra, ci_instructions = None\<rparr>"
    by (simp add: connection_info_def negotiated_version_def discovery_offers_modern_def obj_get_def
        MODERN_VERSION_def)
  with connection_info_supported [OF this] show ?thesis by blast
qed

subsection \<open>Stamping\<close>

text \<open>Stamping parameters makes them modern and changes nothing else: every other parameter
  and every other metadata entry is kept; it fails only when the parameters or their metadata are
  not objects.\<close>

theorem stamp_modern:
  assumes "stamp (JObject params) = Inr stamped"
  shows "is_modern stamped
       \<and> (\<forall>k. k \<noteq> ''_meta'' \<longrightarrow> vget k stamped = obj_get k params)
       \<and> (\<forall>k. k \<noteq> VERSION_META_KEY \<longrightarrow>
            Option.bind (vget ''_meta'' stamped) (vget k)
              = Option.bind (obj_get ''_meta'' params) (vget k))"
proof -
  from assms obtain metadata where
    m: "(case obj_get ''_meta'' params of None \<Rightarrow> JObject [] | Some m \<Rightarrow> m) = JObject metadata"
    and s: "stamped = JObject (obj_insert ''_meta''
        (JObject (obj_insert VERSION_META_KEY (JString MODERN_VERSION) metadata)) params)"
    by (auto simp: stamp_def as_object_Some split: option.splits)
  have "Option.bind (obj_get ''_meta'' params) (vget k) = obj_get k metadata" for k
    using m by (auto simp: obj_get_def [of k "[]"] split: option.splits)
  then show ?thesis
    by (simp add: s is_modern_def protocol_metadata_def obj_get_insert)
qed

theorem stamp_modern_witness:
  "is_modern (JObject [(''name'', JString ''echo''),
      (''_meta'', JObject [(VERSION_META_KEY, JString MODERN_VERSION)])])"
  using stamp_modern [of "[(''name'', JString ''echo'')]"]
  by (simp add: stamp_def obj_get_def)

subsection \<open>Request identifiers\<close>

text \<open>
  \<open>IdAllocator::allocate\<close> is an atomic \<open>fetch_add\<close> on a \<open>u64\<close>, which wraps around.
\<close>

definition id_allocator_new :: u64 where
  "id_allocator_new = 1"

definition allocate :: "u64 \<Rightarrow> u64 \<times> u64" where
  "allocate next = (next, next + 1)"

definition id_key :: "(json \<Rightarrow> string) \<Rightarrow> json \<Rightarrow> string" where
  "id_key ser v = ser v"

definition with_id :: "(json \<Rightarrow> string) \<Rightarrow> obj \<Rightarrow> json \<Rightarrow> string" where
  "with_id ser object new_id = ser (JObject (obj_insert ''id'' new_id object))"

fun allocate_n :: "nat \<Rightarrow> u64 \<Rightarrow> u64 list" where
  "allocate_n 0 next = []"
| "allocate_n (Suc n) next = (case allocate next of (i, next') \<Rightarrow> i # allocate_n n next')"

lemma allocate_n_nth: "i < n \<Longrightarrow> allocate_n n next ! i = next + of_nat i"
  by (induction n arbitrary: i "next")
     (auto simp: allocate_def nth_Cons algebra_simps split: nat.splits)

lemma length_allocate_n [simp]: "length (allocate_n n next) = n"
  by (induction n arbitrary: "next") (auto simp: allocate_def)

text \<open>The allocator gives distinct identifiers to any run of at most 2^64 consecutive
  requests, whatever value the counter starts from: an identifier comes back only after the
  counter has wrapped all the way round.\<close>

theorem allocate_distinct:
  assumes "n \<le> 2 ^ 64"
  shows "distinct (allocate_n n next)"
proof -
  have "next + of_nat i \<noteq> next + (of_nat j :: u64)" if "i < n" "j < n" "i \<noteq> j" for i j
  proof
    assume "next + of_nat i = next + (of_nat j :: u64)"
    then have "unat (of_nat i :: u64) = unat (of_nat j :: u64)" by simp
    with that assms show False by (simp add: unat_of_nat take_bit_nat_eq_self)
  qed
  then show ?thesis
    by (auto simp: distinct_conv_nth allocate_n_nth)
qed

theorem allocate_distinct_witness: "distinct (allocate_n 3 18446744073709551615)"
  by (rule allocate_distinct) simp

end
