(* ===== verification/Session.thy ===== *)
theory Session
  imports Deadline Protocol
begin

text \<open>
  The shared handshake cache of one upstream (\<open>src/mcp_session.rs\<close>, \<open>src/session_cache.rs\<close>).
  Several clients share one upstream session: the first \<open>initialize\<close>, \<open>server/discover\<close> or
  first-page \<open>tools/list\<close> request goes upstream (the leader), later ones wait for its answer
  (coalesced) or are served from the cache.  The theory holds the pending-request data, the
  per-method request cache, the cache of all three methods, and the pure predicates on messages.
\<close>

type_synonym serializer = "json \<Rightarrow> string"

datatype shared_request_action = Cached string | Coalesced | Leader

datatype cacheable_method = Initialize | ServerDiscover | ToolsList

datatype cache_event = Stored string | DiscoveryStored bool | DiscoveryUnsupported

fun timeout_message :: "cacheable_method \<Rightarrow> string" where
  "timeout_message Initialize = ''initialize timed out''"
| "timeout_message ServerDiscover = ''server/discover discovery timed out''"
| "timeout_message ToolsList = ''tools/list discovery timed out''"

record client_capabilities =
  cap_sampling :: bool
  cap_roots :: bool

record pending_request =
  pr_client_id :: string
  pr_original_id :: json
  pr_method :: "string option"
  pr_cache_key :: "cacheable_method option"
  pr_tool :: "string option"
  pr_inserted_at :: instant
  pr_expires_after :: duration

record pending_waiter =
  pw_client_id :: string
  pw_original_id :: json
  pw_inserted_at :: instant
  pw_expires_after :: duration

record shared_request_completion =
  sc_waiters :: "pending_waiter list"
  sc_cache_event :: "cache_event option"

datatype discovery_support = Unknown | Modern | Legacy | Unsupported

datatype initialization =
    Empty
  | InFlight "pending_waiter list" shared_deadline
  | Ready json bool

subsection \<open>Predicates on messages\<close>

definition cacheable_method :: "string \<Rightarrow> cacheable_method option" where
  "cacheable_method m =
     (if m = ''initialize'' then Some Initialize
      else if m = ''server/discover'' then Some ServerDiscover
      else if m = ''tools/list'' then Some ToolsList
      else None)"

definition cacheable_request :: "json \<Rightarrow> cacheable_method option" where
  "cacheable_request value =
     (case Option.bind (vget ''method'' value) as_str of
        None \<Rightarrow> None
      | Some name \<Rightarrow>
          (case cacheable_method name of
             None \<Rightarrow> None
           | Some m \<Rightarrow>
               if m = ToolsList
                  \<and> is_some (Option.bind (vget ''params'' value) (vget ''cursor''))
               then None
               else Some m))"

definition build_success_response :: "serializer \<Rightarrow> json \<Rightarrow> json \<Rightarrow> string" where
  "build_success_response ser original_id result =
     ser (JObject [(''jsonrpc'', JString ''2.0''), (''id'', original_id), (''result'', result)])"

definition build_error_response :: "serializer \<Rightarrow> json \<Rightarrow> int \<Rightarrow> string \<Rightarrow> string" where
  "build_error_response ser original_id code message =
     ser (JObject [(''jsonrpc'', JString ''2.0''), (''id'', original_id),
       (''error'', JObject [(''code'', from_i64 code), (''message'', JString message)])])"

definition tool_name :: "json \<Rightarrow> string option" where
  "tool_name value =
     Option.bind (Option.bind (vget ''params'' value) (vget ''name'')) as_str"

definition has_object_capability :: "json option \<Rightarrow> string \<Rightarrow> bool" where
  "has_object_capability capabilities name =
     (case Option.bind capabilities (vget name) of None \<Rightarrow> False | Some v \<Rightarrow> is_object v)"

definition parse_client_capabilities :: "json \<Rightarrow> client_capabilities" where
  "parse_client_capabilities initialize_request =
     (let capabilities = Option.bind (vget ''params'' initialize_request) (vget ''capabilities'')
      in \<lparr>cap_sampling = has_object_capability capabilities ''sampling'',
          cap_roots = has_object_capability capabilities ''roots''\<rparr>)"

definition is_session_not_found_error :: "json \<Rightarrow> bool" where
  "is_session_not_found_error value =
     (case vget ''error'' value of
        None \<Rightarrow> False
      | Some error \<Rightarrow>
          Option.bind (vget ''code'' error) as_i64 = Some (-32001)
          \<and> (case Option.bind (vget ''message'' error) as_str of
               None \<Rightarrow> False
             | Some message \<Rightarrow> str_contains ''Session not found'' message))"

definition is_definitive_discovery_unsupported :: "json \<Rightarrow> bool" where
  "is_definitive_discovery_unsupported value =
     (case vget ''error'' value of
        None \<Rightarrow> False
      | Some error \<Rightarrow>
          (case Option.bind (vget ''code'' error) as_i64 of
             None \<Rightarrow> False
           | Some code \<Rightarrow> discovery_unsupported code (vget ''data'' error)))"

definition cache_deadline :: "clock \<Rightarrow> json \<Rightarrow> instant option" where
  "cache_deadline c result =
     (if (case Option.bind (vget ''cacheScope'' result) as_str of
            None \<Rightarrow> False | Some scope \<Rightarrow> scope \<noteq> ''public'')
      then Some (now c 0)
      else (case Option.bind (vget ''ttlMs'' result) as_u64 of
              None \<Rightarrow> None
            | Some ms \<Rightarrow> if ms = 0 then Some (now c 0) else checked_add c (now c 0) (unat ms)))"

subsection \<open>The cache of one method\<close>

record request_cache =
  rc_result :: "json option"
  rc_until :: "instant option"
  rc_invalidated :: bool
  rc_waiters :: "pending_waiter list"
  rc_in_flight :: "shared_deadline option"

definition rc_default :: request_cache where
  "rc_default = \<lparr>rc_result = None, rc_until = None, rc_invalidated = False,
     rc_waiters = [], rc_in_flight = None\<rparr>"

definition rc_expired :: "instant \<Rightarrow> request_cache \<Rightarrow> bool" where
  "rc_expired t rc = (case rc_until rc of None \<Rightarrow> False | Some deadline \<Rightarrow> deadline \<le> t)"

definition rc_get :: "instant \<Rightarrow> request_cache \<Rightarrow> json option" where
  "rc_get t rc = (if rc_expired t rc then None else rc_result rc)"

definition rc_store :: "clock \<Rightarrow> json \<Rightarrow> request_cache \<Rightarrow> request_cache" where
  "rc_store c result rc =
     (let rc' = rc\<lparr>rc_until := cache_deadline c result\<rparr>
      in rc'\<lparr>rc_result := (if rc_expired (now c 1) rc' then None else Some result)\<rparr>)"

definition rc_invalidate :: "request_cache \<Rightarrow> request_cache" where
  "rc_invalidate rc =
     rc\<lparr>rc_result := None, rc_until := None, rc_invalidated := is_some (rc_in_flight rc)\<rparr>"

definition rc_clear_expired :: "instant \<Rightarrow> request_cache \<Rightarrow> request_cache" where
  "rc_clear_expired t rc =
     (if rc_expired t rc then rc\<lparr>rc_result := None, rc_until := None\<rparr> else rc)"

definition rc_prepare ::
  "serializer \<Rightarrow> instant \<Rightarrow> pending_waiter \<Rightarrow> instant \<Rightarrow> cells \<Rightarrow> request_cache
     \<Rightarrow> shared_request_action \<times> cells \<times> request_cache" where
  "rc_prepare ser t waiter transport_deadline s rc =
     (case rc_get t rc of
        Some result \<Rightarrow> (Cached (build_success_response ser (pw_original_id waiter) result), s, rc)
      | None \<Rightarrow>
          (case rc_in_flight rc of
             Some deadline \<Rightarrow>
               (Coalesced, sd_extend deadline transport_deadline s,
                rc\<lparr>rc_waiters := rc_waiters rc @ [waiter]\<rparr>)
           | None \<Rightarrow>
               (case sd_new transport_deadline s of
                  (deadline, s') \<Rightarrow>
                    (Leader, s', rc\<lparr>rc_invalidated := False, rc_in_flight := Some deadline\<rparr>))))"

definition rc_finish :: "request_cache \<Rightarrow> (pending_waiter list \<times> bool) \<times> request_cache" where
  "rc_finish rc =
     ((rc_waiters rc, rc_invalidated rc),
      rc\<lparr>rc_in_flight := None, rc_waiters := [], rc_invalidated := False\<rparr>)"

subsection \<open>The cache of all methods\<close>

record server_discovery_cache =
  sd_requests :: request_cache
  sd_support :: discovery_support

record handshake_cache =
  hc_initialize :: initialization
  hc_discovery :: server_discovery_cache
  hc_tools :: request_cache

definition hc_default :: handshake_cache where
  "hc_default = \<lparr>hc_initialize = Empty,
     hc_discovery = \<lparr>sd_requests = rc_default, sd_support = Unknown\<rparr>, hc_tools = rc_default\<rparr>"

definition hc_clear_expired_results :: "clock \<Rightarrow> handshake_cache \<Rightarrow> handshake_cache" where
  "hc_clear_expired_results c hc =
     hc\<lparr>hc_discovery :=
          (hc_discovery hc)\<lparr>sd_requests := rc_clear_expired (now c 0) (sd_requests (hc_discovery hc))\<rparr>,
        hc_tools := rc_clear_expired (now c 1) (hc_tools hc)\<rparr>"

definition hc_rejection :: "cacheable_method \<Rightarrow> handshake_cache \<Rightarrow> string option" where
  "hc_rejection m hc =
     (case m of
        Initialize \<Rightarrow>
          if sd_support (hc_discovery hc) = Modern
             \<or> is_some (rc_in_flight (sd_requests (hc_discovery hc)))
          then Some ''initialize is unavailable because modern server discovery selected the upstream protocol''
          else None
      | ServerDiscover \<Rightarrow>
          if sd_support (hc_discovery hc) = Unsupported
          then Some ''server/discover is unsupported by this upstream; use legacy initialize''
          else if hc_initialize hc \<noteq> Empty
          then Some ''server/discover is unavailable after a legacy initialize handshake''
          else None
      | ToolsList \<Rightarrow> None)"

definition init_prepare ::
  "serializer \<Rightarrow> pending_waiter \<Rightarrow> instant \<Rightarrow> cells \<Rightarrow> initialization
     \<Rightarrow> shared_request_action \<times> cells \<times> initialization" where
  "init_prepare ser waiter transport_deadline s i =
     (case i of
        Ready result forwarded \<Rightarrow>
          (Cached (build_success_response ser (pw_original_id waiter) result), s, i)
      | InFlight waiters deadline \<Rightarrow>
          (Coalesced, sd_extend deadline transport_deadline s, InFlight (waiters @ [waiter]) deadline)
      | Empty \<Rightarrow>
          (case sd_new transport_deadline s of
             (deadline, s') \<Rightarrow> (Leader, s', InFlight [] deadline)))"

definition hc_prepare ::
  "serializer \<Rightarrow> clock \<Rightarrow> cacheable_method \<Rightarrow> pending_waiter \<Rightarrow> instant \<Rightarrow> cells \<Rightarrow> handshake_cache
     \<Rightarrow> shared_request_action \<times> cells \<times> handshake_cache" where
  "hc_prepare ser c m waiter transport_deadline s hc0 =
     (let hc = hc_clear_expired_results c hc0 in
      case hc_rejection m hc of
        Some message \<Rightarrow>
          (Cached (build_error_response ser (pw_original_id waiter) (-32601) message), s, hc)
      | None \<Rightarrow>
          (case m of
             Initialize \<Rightarrow>
               (case init_prepare ser waiter transport_deadline s (hc_initialize hc) of
                  (a, s', i) \<Rightarrow> (a, s', hc\<lparr>hc_initialize := i\<rparr>))
           | ServerDiscover \<Rightarrow>
               (case rc_prepare ser (now c 2) waiter transport_deadline s (sd_requests (hc_discovery hc)) of
                  (a, s', rc) \<Rightarrow>
                    (a, s', hc\<lparr>hc_discovery := (hc_discovery hc)\<lparr>sd_requests := rc\<rparr>\<rparr>))
           | ToolsList \<Rightarrow>
               (case rc_prepare ser (now c 2) waiter transport_deadline s (hc_tools hc) of
                  (a, s', rc) \<Rightarrow> (a, s', hc\<lparr>hc_tools := rc\<rparr>))))"

definition init_finish :: "initialization \<Rightarrow> (pending_waiter list \<times> bool) \<times> initialization" where
  "init_finish i = (case i of InFlight waiters deadline \<Rightarrow> ((waiters, False), Empty)
                            | state \<Rightarrow> (([], False), state))"

definition hc_finish ::
  "cacheable_method \<Rightarrow> handshake_cache \<Rightarrow> (pending_waiter list \<times> bool) \<times> handshake_cache" where
  "hc_finish m hc =
     (case m of
        Initialize \<Rightarrow>
          (case init_finish (hc_initialize hc) of (r, i) \<Rightarrow> (r, hc\<lparr>hc_initialize := i\<rparr>))
      | ServerDiscover \<Rightarrow>
          (case rc_finish (sd_requests (hc_discovery hc)) of
             (r, rc) \<Rightarrow> (r, hc\<lparr>hc_discovery := (hc_discovery hc)\<lparr>sd_requests := rc\<rparr>\<rparr>))
      | ToolsList \<Rightarrow>
          (case rc_finish (hc_tools hc) of (r, rc) \<Rightarrow> (r, hc\<lparr>hc_tools := rc\<rparr>)))"

definition hc_store_result :: "clock \<Rightarrow> string \<Rightarrow> json \<Rightarrow> handshake_cache \<Rightarrow> handshake_cache" where
  "hc_store_result c name result hc =
     (case cacheable_method name of
        Some Initialize \<Rightarrow> hc\<lparr>hc_initialize := Ready result False\<rparr>
      | Some ServerDiscover \<Rightarrow>
          (let d = hc_discovery hc;
               support = (case discovery_offers_modern result of
                            Inr modern \<Rightarrow> if modern then Modern else Legacy
                          | Inl _ \<Rightarrow> sd_support d)
           in hc\<lparr>hc_discovery := d\<lparr>sd_support := support,
                                     sd_requests := rc_store c result (sd_requests d)\<rparr>\<rparr>)
      | Some ToolsList \<Rightarrow> hc\<lparr>hc_tools := rc_store c result (hc_tools hc)\<rparr>
      | None \<Rightarrow> hc)"

definition hc_complete ::
  "clock \<Rightarrow> cacheable_method \<Rightarrow> json \<Rightarrow> handshake_cache
     \<Rightarrow> shared_request_completion \<times> handshake_cache" where
  "hc_complete c m value hc0 =
     (case hc_finish m hc0 of ((waiters, invalidated), hc) \<Rightarrow>
        let result = (if vget ''error'' value = None then vget ''result'' value else None);
            done = (\<lambda>event hc'. (\<lparr>sc_waiters = waiters, sc_cache_event = event\<rparr>, hc'))
        in (case m of
              Initialize \<Rightarrow>
                (case result of
                   Some r \<Rightarrow> done (Some (Stored ''initialize'')) (hc_store_result c ''initialize'' r hc)
                 | None \<Rightarrow> done None hc)
            | ServerDiscover \<Rightarrow>
                (case Option.bind result (\<lambda>r. case discovery_offers_modern r of
                         Inr modern \<Rightarrow> Some (r, modern) | Inl _ \<Rightarrow> None) of
                   Some (r, modern) \<Rightarrow>
                     done (Some (DiscoveryStored modern)) (hc_store_result c ''server/discover'' r hc)
                 | None \<Rightarrow>
                     if is_definitive_discovery_unsupported value
                     then done (Some DiscoveryUnsupported)
                            (hc\<lparr>hc_discovery := \<lparr>sd_requests = rc_invalidate (sd_requests (hc_discovery hc)),
                                                  sd_support = Unsupported\<rparr>\<rparr>)
                     else done None hc)
            | ToolsList \<Rightarrow>
                (case result of
                   Some r \<Rightarrow>
                     if invalidated then done None hc
                     else done (Some (Stored ''tools/list'')) (hc_store_result c ''tools/list'' r hc)
                 | None \<Rightarrow> done None hc)))"

definition hc_invalidate_tools_list :: "handshake_cache \<Rightarrow> handshake_cache" where
  "hc_invalidate_tools_list hc = hc\<lparr>hc_tools := rc_invalidate (hc_tools hc)\<rparr>"

definition hc_clear_all :: "handshake_cache \<Rightarrow> handshake_cache" where
  "hc_clear_all hc = hc_default"

definition hc_initialization_ready :: "handshake_cache \<Rightarrow> bool" where
  "hc_initialization_ready hc = (case hc_initialize hc of Ready _ _ \<Rightarrow> True | _ \<Rightarrow> False)"

definition hc_swallow_initialized :: "json \<Rightarrow> handshake_cache \<Rightarrow> bool \<times> handshake_cache" where
  "hc_swallow_initialized value hc =
     (if Option.bind (vget ''method'' value) as_str \<noteq> Some ''notifications/initialized''
         \<or> (case vget ''id'' value of None \<Rightarrow> False | Some v \<Rightarrow> \<not> is_null v)
      then (False, hc)
      else (case hc_initialize hc of
              Ready result forwarded \<Rightarrow> (forwarded, hc\<lparr>hc_initialize := Ready result True\<rparr>)
            | _ \<Rightarrow> (False, hc)))"

definition hc_deadline :: "cacheable_method \<Rightarrow> handshake_cache \<Rightarrow> shared_deadline option" where
  "hc_deadline m hc =
     (case m of
        Initialize \<Rightarrow> (case hc_initialize hc of InFlight _ deadline \<Rightarrow> Some deadline | _ \<Rightarrow> None)
      | ServerDiscover \<Rightarrow> rc_in_flight (sd_requests (hc_discovery hc))
      | ToolsList \<Rightarrow> rc_in_flight (hc_tools hc))"

text \<open>The waiters of a method (\<open>waiter_count\<close> counts them).\<close>

definition hc_waiters :: "cacheable_method \<Rightarrow> handshake_cache \<Rightarrow> pending_waiter list" where
  "hc_waiters m hc =
     (case m of
        Initialize \<Rightarrow> (case hc_initialize hc of InFlight waiters _ \<Rightarrow> waiters | _ \<Rightarrow> [])
      | ServerDiscover \<Rightarrow> rc_waiters (sd_requests (hc_discovery hc))
      | ToolsList \<Rightarrow> rc_waiters (hc_tools hc))"

subsection \<open>The contract of a single flight\<close>

text \<open>
  A request cache and the initialization state make the same promise: the first request that finds
  no cached result and no flight becomes the leader and opens a flight, later ones wait in it and
  push its deadline out, and closing the flight hands back everyone who waited.  The first argument
  of \<open>enter\<close> is the time the operation reads.
\<close>

locale single_flight =
  fixes flight :: "'c \<Rightarrow> shared_deadline option"
    and waiting :: "'c \<Rightarrow> pending_waiter list"
    and enter :: "'t \<Rightarrow> pending_waiter \<Rightarrow> instant \<Rightarrow> cells \<Rightarrow> 'c
                    \<Rightarrow> shared_request_action \<times> cells \<times> 'c"
    and leave :: "'c \<Rightarrow> (pending_waiter list \<times> bool) \<times> 'c"
  assumes enter_cached:
      "enter t w td s c = (Cached r, s', c') \<Longrightarrow> flight c' = flight c \<and> waiting c' = waiting c \<and> s' = s"
    and enter_coalesced:
      "enter t w td s c = (Coalesced, s', c') \<Longrightarrow>
         \<exists>d. flight c = Some d \<and> flight c' = Some d \<and> waiting c' = waiting c @ [w] \<and> s' = sd_extend d td s"
    and enter_leader:
      "enter t w td s c = (Leader, s', c') \<Longrightarrow>
         flight c = None \<and> waiting c' = waiting c \<and> (\<exists>d. flight c' = Some d \<and> sd_new td s = (d, s'))"
    and leave_all:
      "leave c = ((ws, b), c') \<Longrightarrow> ws = waiting c \<and> waiting c' = [] \<and> flight c' = None"
begin

lemma flight_persists:
  "enter t w td s c = (a, s', c') \<Longrightarrow> flight c = Some d \<Longrightarrow> flight c' = Some d \<and> a \<noteq> Leader"
  by (cases a) (auto dest: enter_cached enter_coalesced enter_leader)

lemma leader_opens_flight:
  "enter t w td s c = (Leader, s', c') \<Longrightarrow> \<exists>d. flight c' = Some d \<and> sd_current d s' = td"
  by (auto dest!: enter_leader simp: sd_current_new)

lemma entry_extends_deadline:
  "enter t w td s c = (a, s', c') \<Longrightarrow> a = Coalesced \<or> a = Leader \<Longrightarrow>
     \<exists>d. flight c' = Some d \<and> td \<le> sd_current d s'"
  by (auto dest!: enter_coalesced leader_opens_flight simp: sd_current_extend)

lemma waiting_grows:
  "enter t w td s c = (a, s', c') \<Longrightarrow>
     waiting c' = waiting c @ (if a = Coalesced then [w] else [])"
  by (cases a) (auto dest: enter_cached enter_coalesced enter_leader)

lemma waiting_needs_flight:
  "enter t w td s c = (a, s', c') \<Longrightarrow> (waiting c \<noteq> [] \<longrightarrow> flight c \<noteq> None) \<Longrightarrow>
     (waiting c' \<noteq> [] \<longrightarrow> flight c' \<noteq> None)"
  by (cases a) (auto dest: enter_cached enter_coalesced enter_leader)

lemma flight_opened_by_leader:
  "enter t w td s c = (a, s', c') \<Longrightarrow> flight c' \<noteq> None \<longleftrightarrow> flight c \<noteq> None \<or> a = Leader"
  by (cases a) (auto dest: enter_cached enter_coalesced enter_leader)

end

definition init_flight :: "initialization \<Rightarrow> shared_deadline option" where
  "init_flight i = (case i of InFlight _ deadline \<Rightarrow> Some deadline | _ \<Rightarrow> None)"

definition init_waiters :: "initialization \<Rightarrow> pending_waiter list" where
  "init_waiters i = (case i of InFlight waiters _ \<Rightarrow> waiters | _ \<Rightarrow> [])"

interpretation init: single_flight init_flight init_waiters "\<lambda>t::instant. init_prepare ser" init_finish
  for ser
  by unfold_locales
     (auto simp: init_flight_def init_waiters_def init_prepare_def init_finish_def
       split: initialization.splits prod.splits)

interpretation rc: single_flight rc_in_flight rc_waiters "rc_prepare ser" rc_finish
  for ser
  by unfold_locales
     (auto simp: rc_prepare_def rc_finish_def split: option.splits prod.splits)

end
