(* ===== verification/Expiry.thy ===== *)
theory Expiry
  imports Session
begin

text \<open>
  The rest of \<open>src/session_cache.rs\<close>: what the handshake cache does when a client disconnects and
  when deadlines pass, and the facts about the whole cache that the routing layer rests on.  The
  table of pending requests is a hash map keyed by the text of the upstream identifier.
\<close>

type_synonym request_map = "(string, pending_request) hmap"

definition expiration :: "clock \<Rightarrow> instant \<Rightarrow> duration \<Rightarrow> instant" where
  "expiration c inserted_at expires_after =
     (case checked_add c inserted_at expires_after of Some t \<Rightarrow> t | None \<Rightarrow> now c 0)"

definition timeout_response ::
  "serializer \<Rightarrow> string \<Rightarrow> json \<Rightarrow> string \<Rightarrow> string \<times> string" where
  "timeout_response ser client_id original_id message =
     (client_id, build_error_response ser original_id (-32001) message)"

definition waiter_stale :: "clock \<Rightarrow> instant \<Rightarrow> pending_waiter \<Rightarrow> bool" where
  "waiter_stale c t w \<longleftrightarrow> expiration c (pw_inserted_at w) (pw_expires_after w) \<le> t"

definition expire_waiters ::
  "serializer \<Rightarrow> clock \<Rightarrow> cacheable_method \<Rightarrow> instant \<Rightarrow> pending_waiter list
     \<Rightarrow> (string \<times> string) list \<times> pending_waiter list" where
  "expire_waiters ser c m t waiters =
     (map (\<lambda>w. timeout_response ser (pw_client_id w) (pw_original_id w) (timeout_message m))
        (filter (waiter_stale c t) waiters),
      filter (\<lambda>w. \<not> waiter_stale c t w) waiters)"

definition hc_disconnect ::
  "request_map \<Rightarrow> string \<Rightarrow> handshake_cache \<Rightarrow> request_map \<times> handshake_cache" where
  "hc_disconnect requests client_id hc =
     (let others = filter (\<lambda>w. pw_client_id w \<noteq> client_id);
          d = hc_discovery hc
      in (hm_retain (\<lambda>_ p. pr_client_id p \<noteq> client_id \<or> is_some (pr_cache_key p)) requests,
          hc\<lparr>hc_initialize := (case hc_initialize hc of
                                 InFlight waiters deadline \<Rightarrow> InFlight (others waiters) deadline
                               | i \<Rightarrow> i),
             hc_discovery := d\<lparr>sd_requests :=
               (sd_requests d)\<lparr>rc_waiters := others (rc_waiters (sd_requests d))\<rparr>\<rparr>,
             hc_tools := (hc_tools hc)\<lparr>rc_waiters := others (rc_waiters (hc_tools hc))\<rparr>\<rparr>))"

definition hc_pending_expiration ::
  "clock \<Rightarrow> cells \<Rightarrow> handshake_cache \<Rightarrow> pending_request \<Rightarrow> instant" where
  "hc_pending_expiration c s hc p =
     (let deadline = expiration c (pr_inserted_at p) (pr_expires_after p)
      in case Option.bind (pr_cache_key p) (\<lambda>m. hc_deadline m hc) of
           None \<Rightarrow> deadline
         | Some shared \<Rightarrow> max deadline (sd_current shared s))"

definition hc_next_deadline ::
  "clock \<Rightarrow> cells \<Rightarrow> handshake_cache \<Rightarrow> pending_request list \<Rightarrow> instant option" where
  "hc_next_deadline c s hc requests =
     (case map (hc_pending_expiration c s hc) requests
           @ map (\<lambda>w. expiration c (pw_inserted_at w) (pw_expires_after w))
               (rc_waiters (hc_tools hc) @ rc_waiters (sd_requests (hc_discovery hc))) of
        [] \<Rightarrow> None
      | d # ds \<Rightarrow> Some (fold min ds d))"

fun take_requests :: "string list \<Rightarrow> request_map \<Rightarrow> pending_request list \<times> request_map" where
  "take_requests [] requests = ([], requests)"
| "take_requests (key # keys) requests =
     (case hm_get key requests of
        None \<Rightarrow> take_requests keys requests
      | Some p \<Rightarrow> (case take_requests keys (hm_remove key requests) of
                     (stale, rest) \<Rightarrow> (p # stale, rest)))"

fun expire_methods ::
  "serializer \<Rightarrow> cacheable_method list \<Rightarrow> pending_request list \<Rightarrow> handshake_cache
     \<Rightarrow> (string \<times> string) list \<times> handshake_cache" where
  "expire_methods ser [] stale hc = ([], hc)"
| "expire_methods ser (m # ms) stale hc =
     (let mine = filter (\<lambda>p. pr_cache_key p = Some m) stale
      in if mine = [] then expire_methods ser ms stale hc
         else (case hc_finish m hc of ((waiters, _), hc') \<Rightarrow>
                 (case expire_methods ser ms stale hc' of (responses, hc'') \<Rightarrow>
                    (map (\<lambda>p. timeout_response ser (pr_client_id p) (pr_original_id p) (timeout_message m)) mine
                     @ map (\<lambda>w. timeout_response ser (pw_client_id w) (pw_original_id w) (timeout_message m)) waiters
                     @ responses, hc''))))"

definition hc_expire ::
  "serializer \<Rightarrow> clock \<Rightarrow> cells \<Rightarrow> request_map \<Rightarrow> instant \<Rightarrow> handshake_cache
     \<Rightarrow> (string \<times> string) list \<times> request_map \<times> handshake_cache" where
  "hc_expire ser c s requests t hc =
     (let stale_keys = map fst (filter (\<lambda>(_, p). hc_pending_expiration c s hc p \<le> t) requests)
      in case take_requests stale_keys requests of (stale, requests') \<Rightarrow>
         (case expire_methods ser [Initialize, ServerDiscover, ToolsList] stale hc of (r1, hc1) \<Rightarrow>
          (case expire_waiters ser c ToolsList t (rc_waiters (hc_tools hc1)) of (r2, ws2) \<Rightarrow>
           (let hc2 = hc1\<lparr>hc_tools := (hc_tools hc1)\<lparr>rc_waiters := ws2\<rparr>\<rparr>;
                d = hc_discovery hc2
            in case expire_waiters ser c ServerDiscover t (rc_waiters (sd_requests d)) of (r3, ws3) \<Rightarrow>
              (r1 @ r2 @ r3
                 @ map (\<lambda>p. timeout_response ser (pr_client_id p) (pr_original_id p) ''request timed out'')
                     (filter (\<lambda>p. pr_cache_key p = None) stale),
               requests',
               hc2\<lparr>hc_discovery := d\<lparr>sd_requests := (sd_requests d)\<lparr>rc_waiters := ws3\<rparr>\<rparr>\<rparr>)))))"

subsection \<open>A table of flights\<close>

text \<open>
  The cache keeps one flight per method.  Entering the flight of one method leaves the flights of
  the others alone.
\<close>

locale flight_table =
  fixes flights :: "'m \<Rightarrow> 'c \<Rightarrow> shared_deadline option"
    and waitings :: "'m \<Rightarrow> 'c \<Rightarrow> pending_waiter list"
    and enters :: "'m \<Rightarrow> 't \<Rightarrow> pending_waiter \<Rightarrow> instant \<Rightarrow> cells \<Rightarrow> 'c
                    \<Rightarrow> shared_request_action \<times> cells \<times> 'c"
    and leaves :: "'m \<Rightarrow> 'c \<Rightarrow> (pending_waiter list \<times> bool) \<times> 'c"
  assumes each: "single_flight (flights m) (waitings m) (enters m) (leaves m)"
    and enter_frame: "enters m t w td s c = (a, s', c') \<Longrightarrow> m' \<noteq> m \<Longrightarrow>
          flights m' c' = flights m' c \<and> waitings m' c' = waitings m' c"
    and leave_frame: "leaves m c = (r, c') \<Longrightarrow> m' \<noteq> m \<Longrightarrow>
          flights m' c' = flights m' c \<and> waitings m' c' = waitings m' c"
begin

sublocale each: single_flight "flights m" "waitings m" "enters m" "leaves m" for m
  by (rule each)

lemma flights_after_enter:
  "enters m t w td s c = (a, s', c') \<Longrightarrow>
     (flights m' c' \<noteq> None) = (flights m' c \<noteq> None \<or> m' = m \<and> a = Leader)"
  using each.flight_opened_by_leader enter_frame by metis

lemma waitings_after_enter:
  "enters m t w td s c = (a, s', c') \<Longrightarrow>
     waitings m' c' = waitings m' c @ (if m' = m \<and> a = Coalesced then [w] else [])"
  by (cases "m' = m") (auto dest: each.waiting_grows enter_frame)

lemma flights_after_leave:
  "leaves m c = ((ws, b), c') \<Longrightarrow> flights m' c' = (if m' = m then None else flights m' c)"
  by (cases "m' = m") (auto dest: each.leave_all leave_frame)

lemma waitings_after_leave:
  "leaves m c = ((ws, b), c') \<Longrightarrow>
     ws = waitings m c \<and> waitings m' c' = (if m' = m then [] else waitings m' c)"
  by (cases "m' = m") (auto dest: each.leave_all leave_frame)

end

lemma hc_deadline_clear_expired [simp]:
  "hc_deadline m (hc_clear_expired_results c hc) = hc_deadline m hc"
  by (simp add: hc_deadline_def hc_clear_expired_results_def rc_clear_expired_def
      split: cacheable_method.splits)

lemma hc_waiters_clear_expired [simp]:
  "hc_waiters m (hc_clear_expired_results c hc) = hc_waiters m hc"
  by (simp add: hc_waiters_def hc_clear_expired_results_def rc_clear_expired_def
      split: cacheable_method.splits)

lemmas hc_view_defs = hc_deadline_def hc_waiters_def

lemma hc_prepare_frame:
  assumes "hc_prepare ser c m w td s hc = (a, s', hc')" and "m' \<noteq> m"
  shows "hc_deadline m' hc' = hc_deadline m' hc \<and> hc_waiters m' hc' = hc_waiters m' hc"
proof -
  let ?hc = "hc_clear_expired_results c hc"
  have "hc_deadline m' hc' = hc_deadline m' ?hc \<and> hc_waiters m' hc' = hc_waiters m' ?hc"
    using assms
    by (cases m; cases m')
       (auto simp: hc_prepare_def Let_def hc_deadline_def hc_waiters_def
         split: option.splits prod.splits)
  then show ?thesis by simp
qed

lemma hc_finish_frame:
  "hc_finish m hc = (r, hc') \<Longrightarrow> m' \<noteq> m \<Longrightarrow>
     hc_deadline m' hc' = hc_deadline m' hc \<and> hc_waiters m' hc' = hc_waiters m' hc"
  by (cases m; cases m')
     (auto simp: hc_finish_def hc_deadline_def hc_waiters_def split: prod.splits)

lemma hc_deadline_init: "hc_deadline Initialize hc = init_flight (hc_initialize hc)"
  by (simp add: hc_deadline_def init_flight_def)

lemma hc_waiters_init: "hc_waiters Initialize hc = init_waiters (hc_initialize hc)"
  by (simp add: hc_waiters_def init_waiters_def)

lemma hc_prepare_cases:
  assumes "hc_prepare ser c m w td s hc = (a, s', hc')"
  obtains (rejected) message where
      "a = Cached (build_error_response ser (pw_original_id w) (-32601) message)"
      "hc_rejection m (hc_clear_expired_results c hc) = Some message"
      "s' = s" "hc' = hc_clear_expired_results c hc"
  | (init) i where "m = Initialize"
      "init_prepare ser w td s (hc_initialize hc) = (a, s', i)"
      "hc' = (hc_clear_expired_results c hc)\<lparr>hc_initialize := i\<rparr>"
      "hc_rejection m (hc_clear_expired_results c hc) = None"
  | (discover) rc where "m = ServerDiscover"
      "rc_prepare ser (now c 2) w td s (rc_clear_expired (now c 0) (sd_requests (hc_discovery hc))) = (a, s', rc)"
      "hc' = (hc_clear_expired_results c hc)\<lparr>hc_discovery := (hc_discovery hc)\<lparr>sd_requests := rc\<rparr>\<rparr>"
      "hc_rejection m (hc_clear_expired_results c hc) = None"
  | (tools) rc where "m = ToolsList"
      "rc_prepare ser (now c 2) w td s (rc_clear_expired (now c 1) (hc_tools hc)) = (a, s', rc)"
      "hc' = (hc_clear_expired_results c hc)\<lparr>hc_tools := rc\<rparr>"
      "hc_rejection m (hc_clear_expired_results c hc) = None"
proof -
  let ?hc = "hc_clear_expired_results c hc"
  have [simp]: "hc_initialize ?hc = hc_initialize hc"
    "sd_requests (hc_discovery ?hc) = rc_clear_expired (now c 0) (sd_requests (hc_discovery hc))"
    "hc_tools ?hc = rc_clear_expired (now c 1) (hc_tools hc)"
    "hc_discovery ?hc\<lparr>sd_requests := rc\<rparr> = hc_discovery hc\<lparr>sd_requests := rc\<rparr>" for rc
    by (simp_all add: hc_clear_expired_results_def)
  show ?thesis
  proof (cases "hc_rejection m ?hc")
    case (Some message)
    with assms show ?thesis
      by (intro rejected [of message]) (auto simp: hc_prepare_def Let_def)
  next
    case None
    show ?thesis
    proof (cases m)
      case Initialize
      with assms None init show ?thesis
        by (auto simp: hc_prepare_def Let_def split: prod.splits)
    next
      case ServerDiscover
      with assms None discover show ?thesis
        by (auto simp: hc_prepare_def Let_def split: prod.splits)
    next
      case ToolsList
      with assms None tools show ?thesis
        by (auto simp: hc_prepare_def Let_def split: prod.splits)
    qed
  qed
qed

lemma rc_clear_expired_view [simp]:
  "rc_in_flight (rc_clear_expired t rc) = rc_in_flight rc"
  "rc_waiters (rc_clear_expired t rc) = rc_waiters rc"
  by (simp_all add: rc_clear_expired_def)

lemma hc_single_flight:
  "single_flight (hc_deadline m) (hc_waiters m) (\<lambda>c. hc_prepare ser c m) (hc_finish m)"
proof unfold_locales
  fix t w td s c r s' c'
  assume "hc_prepare ser t m w td s c = (Cached r, s', c')"
  then show "hc_deadline m c' = hc_deadline m c \<and> hc_waiters m c' = hc_waiters m c \<and> s' = s"
    by (rule hc_prepare_cases)
       (auto simp: hc_deadline_init hc_waiters_init hc_deadline_def [of ServerDiscover]
         hc_deadline_def [of ToolsList] hc_waiters_def [of ServerDiscover] hc_waiters_def [of ToolsList]
         dest!: init.enter_cached rc.enter_cached)
next
  fix t w td s c s' c'
  assume "hc_prepare ser t m w td s c = (Coalesced, s', c')"
  then show "\<exists>d. hc_deadline m c = Some d \<and> hc_deadline m c' = Some d \<and>
      hc_waiters m c' = hc_waiters m c @ [w] \<and> s' = sd_extend d td s"
    by (rule hc_prepare_cases)
       (auto simp: hc_deadline_init hc_waiters_init hc_deadline_def [of ServerDiscover]
         hc_deadline_def [of ToolsList] hc_waiters_def [of ServerDiscover] hc_waiters_def [of ToolsList]
         dest!: init.enter_coalesced rc.enter_coalesced)
next
  fix t w td s c s' c'
  assume "hc_prepare ser t m w td s c = (Leader, s', c')"
  then show "hc_deadline m c = None \<and> hc_waiters m c' = hc_waiters m c \<and>
      (\<exists>d. hc_deadline m c' = Some d \<and> sd_new td s = (d, s'))"
    by (rule hc_prepare_cases)
       (auto simp: hc_deadline_init hc_waiters_init hc_deadline_def [of ServerDiscover]
         hc_deadline_def [of ToolsList] hc_waiters_def [of ServerDiscover] hc_waiters_def [of ToolsList]
         dest!: init.enter_leader rc.enter_leader)
next
  fix c ws b c'
  assume "hc_finish m c = ((ws, b), c')"
  then show "ws = hc_waiters m c \<and> hc_waiters m c' = [] \<and> hc_deadline m c' = None"
    by (cases m)
       (auto simp: hc_finish_def rc_finish_def init_finish_def hc_view_defs
         split: prod.splits initialization.splits)
qed

interpretation hc: flight_table hc_deadline hc_waiters "\<lambda>m c. hc_prepare ser c m" hc_finish
  for ser
  by (rule flight_table.intro) (auto intro: hc_single_flight dest: hc_prepare_frame hc_finish_frame)

end
