(* ===== verification/Routes.thy ===== *)
theory Routes
  imports Expiry
begin

text \<open>
  The route table of one upstream generation (\<open>SessionRoutes\<close> in \<open>src/socket_proxy_cache.rs\<close>):
  the requests waiting for an upstream answer keyed by the text of their pool identifier, the
  handshake cache, the identifier counter and the deadline cells.  Every operation takes both locks
  of the code at once, so it is one function from state to state.  Log lines are not modelled.
\<close>

record routes =
  rt_requests :: request_map
  rt_cache :: handshake_cache
  rt_next_id :: u64
  rt_cells :: cells

datatype route_admission = RouteCached string | RouteCoalesced | RouteLeader u64

record upstream_request =
  ur_line :: string
  ur_deadline :: "shared_deadline option"

definition routes_new :: routes where
  "routes_new = \<lparr>rt_requests = [], rt_cache = hc_default, rt_next_id = id_allocator_new,
     rt_cells = \<lparr>next_cell = 0, cell = (\<lambda>_. 0)\<rparr>\<rparr>"

definition pool_key :: "serializer \<Rightarrow> u64 \<Rightarrow> string" where
  "pool_key ser pool_id = id_key ser (from_u64 pool_id)"

definition waiter_of :: "pending_request \<Rightarrow> pending_waiter" where
  "waiter_of p = \<lparr>pw_client_id = pr_client_id p, pw_original_id = pr_original_id p,
     pw_inserted_at = pr_inserted_at p, pw_expires_after = pr_expires_after p\<rparr>"

definition rt_admit ::
  "serializer \<Rightarrow> clock \<Rightarrow> pending_request \<Rightarrow> instant \<Rightarrow> routes \<Rightarrow> route_admission \<times> routes" where
  "rt_admit ser c p transport_deadline rt =
     (case (case pr_cache_key p of
              None \<Rightarrow> (Leader, rt_cells rt, rt_cache rt)
            | Some m \<Rightarrow> hc_prepare ser c m (waiter_of p) transport_deadline (rt_cells rt) (rt_cache rt)) of
        (action, s, hc) \<Rightarrow>
          (let rt' = rt\<lparr>rt_cells := s, rt_cache := hc\<rparr> in
           case action of
             Cached response \<Rightarrow> (RouteCached response, rt')
           | Coalesced \<Rightarrow> (RouteCoalesced, rt')
           | Leader \<Rightarrow>
               (case allocate (rt_next_id rt) of
                  (pool_id, next) \<Rightarrow>
                    (RouteLeader pool_id,
                     rt'\<lparr>rt_next_id := next,
                         rt_requests := hm_insert (pool_key ser pool_id) p (rt_requests rt)\<rparr>))))"

definition rt_contains :: "serializer \<Rightarrow> u64 \<Rightarrow> routes \<Rightarrow> bool" where
  "rt_contains ser pool_id rt \<longleftrightarrow> is_some (hm_get (pool_key ser pool_id) (rt_requests rt))"

text \<open>\<open>publish\<close>: \<open>None\<close> when nothing is sent upstream, otherwise the request that is.\<close>

definition rt_publish ::
  "serializer \<Rightarrow> u64 option \<Rightarrow> bool \<Rightarrow> string \<Rightarrow> routes \<Rightarrow> upstream_request option" where
  "rt_publish ser pool_id shutdown line rt =
     (if shutdown then None
      else (case pool_id of
              None \<Rightarrow> Some \<lparr>ur_line = line, ur_deadline = None\<rparr>
            | Some pid \<Rightarrow>
                (case hm_get (pool_key ser pid) (rt_requests rt) of
                   None \<Rightarrow> None
                 | Some p \<Rightarrow>
                     Some \<lparr>ur_line = line,
                           ur_deadline = Option.bind (pr_cache_key p) (\<lambda>m. hc_deadline m (rt_cache rt))\<rparr>)))"

definition complete_cached_response ::
  "serializer \<Rightarrow> json \<Rightarrow> pending_request \<Rightarrow> shared_request_completion \<Rightarrow> (string \<times> string) list" where
  "complete_cached_response ser value leader completion =
     (case value of
        JObject object \<Rightarrow>
          (pr_client_id leader, with_id ser object (pr_original_id leader))
          # map (\<lambda>w. (pw_client_id w, with_id ser object (pw_original_id w))) (sc_waiters completion)
      | _ \<Rightarrow> [])"

definition rt_complete ::
  "serializer \<Rightarrow> clock \<Rightarrow> json \<Rightarrow> json \<Rightarrow> routes \<Rightarrow> (string \<times> string) list option \<times> routes" where
  "rt_complete ser c ident value rt =
     (case hm_get (id_key ser ident) (rt_requests rt) of
        None \<Rightarrow> (None, rt)
      | Some p \<Rightarrow>
          (let rt' = rt\<lparr>rt_requests := hm_remove (id_key ser ident) (rt_requests rt)\<rparr> in
           case pr_cache_key p of
             Some m \<Rightarrow>
               (case hc_complete c m value (rt_cache rt) of
                  (completion, hc) \<Rightarrow>
                    (Some (complete_cached_response ser value p completion), rt'\<lparr>rt_cache := hc\<rparr>))
           | None \<Rightarrow>
               (Some (case value of
                        JObject object \<Rightarrow> [(pr_client_id p, with_id ser object (pr_original_id p))]
                      | _ \<Rightarrow> []), rt')))"

definition rt_disconnect :: "string \<Rightarrow> routes \<Rightarrow> routes" where
  "rt_disconnect client_id rt =
     (case hc_disconnect (rt_requests rt) client_id (rt_cache rt) of
        (requests, hc) \<Rightarrow> rt\<lparr>rt_requests := requests, rt_cache := hc\<rparr>)"

definition rt_next_deadline :: "clock \<Rightarrow> routes \<Rightarrow> instant option" where
  "rt_next_deadline c rt = hc_next_deadline c (rt_cells rt) (rt_cache rt) (hm_values (rt_requests rt))"

definition rt_expire ::
  "serializer \<Rightarrow> clock \<Rightarrow> instant \<Rightarrow> routes \<Rightarrow> (string \<times> string) list \<times> routes" where
  "rt_expire ser c t rt =
     (case hc_expire ser c (rt_cells rt) (rt_requests rt) t (rt_cache rt) of
        (responses, requests, hc) \<Rightarrow> (responses, rt\<lparr>rt_requests := requests, rt_cache := hc\<rparr>))"

definition rt_clear :: "routes \<Rightarrow> routes" where
  "rt_clear rt = rt\<lparr>rt_requests := [], rt_cache := hc_clear_all (rt_cache rt)\<rparr>"

definition rt_clear_handshake :: "routes \<Rightarrow> routes" where
  "rt_clear_handshake rt = rt\<lparr>rt_cache := hc_clear_all (rt_cache rt)\<rparr>"

definition rt_initialization_ready :: "routes \<Rightarrow> bool" where
  "rt_initialization_ready rt = hc_initialization_ready (rt_cache rt)"

definition rt_swallow_initialized :: "json \<Rightarrow> routes \<Rightarrow> bool \<times> routes" where
  "rt_swallow_initialized value rt =
     (case hc_swallow_initialized value (rt_cache rt) of (b, hc) \<Rightarrow> (b, rt\<lparr>rt_cache := hc\<rparr>))"

definition rt_invalidate_tools_list :: "routes \<Rightarrow> routes" where
  "rt_invalidate_tools_list rt = rt\<lparr>rt_cache := hc_invalidate_tools_list (rt_cache rt)\<rparr>"

subsection \<open>Who is owed an answer\<close>

type_synonym owner = "string \<times> json"

definition request_owner :: "pending_request \<Rightarrow> owner" where
  "request_owner p = (pr_client_id p, pr_original_id p)"

definition waiter_owner :: "pending_waiter \<Rightarrow> owner" where
  "waiter_owner w = (pw_client_id w, pw_original_id w)"

definition cache_owners :: "handshake_cache \<Rightarrow> owner multiset" where
  "cache_owners hc =
     image_mset waiter_owner
       (mset (hc_waiters Initialize hc) + mset (hc_waiters ServerDiscover hc) + mset (hc_waiters ToolsList hc))"

definition outstanding :: "routes \<Rightarrow> owner multiset" where
  "outstanding rt =
     image_mset (request_owner \<circ> snd) (mset (rt_requests rt)) + cache_owners (rt_cache rt)"

text \<open>A response answers an owner with a successful upstream object, or with a timeout.\<close>

definition answers_with :: "serializer \<Rightarrow> obj \<Rightarrow> owner \<Rightarrow> string \<times> string" where
  "answers_with ser object ow = (fst ow, with_id ser object (snd ow))"

lemma cache_owners_clear_expired [simp]:
  "cache_owners (hc_clear_expired_results c hc) = cache_owners hc"
  by (simp add: cache_owners_def)

lemma cache_owners_default [simp]: "cache_owners hc_default = {#}"
  by (simp add: cache_owners_def hc_waiters_def hc_default_def rc_default_def)

lemma cache_owners_prepare:
  assumes "hc_prepare ser c m w td s hc = (a, s', hc')"
  shows "cache_owners hc' =
     cache_owners hc + (if a = Coalesced then {#waiter_owner w#} else {#})"
  using hc.waitings_after_enter [OF assms]
  by (cases m) (auto simp: cache_owners_def)

lemma cache_owners_finish:
  assumes "hc_finish m hc = ((ws, b), hc')"
  shows "cache_owners hc = cache_owners hc' + image_mset waiter_owner (mset ws)"
  using hc.waitings_after_leave [OF assms]
  by (cases m) (auto simp: cache_owners_def)

text \<open>What an operation does to flights and waiters, for the operations that touch neither.\<close>

lemma hc_views_complete:
  assumes "hc_complete c m value hc0 = (completion, hc)" and "hc_finish m hc0 = ((ws, b), hc1)"
  shows "sc_waiters completion = ws
       \<and> hc_waiters m' hc = hc_waiters m' hc1 \<and> hc_deadline m' hc = hc_deadline m' hc1"
proof -
  note fin = hc.waitings_after_leave [OF assms(2)] hc.flights_after_leave [OF assms(2)]
  show ?thesis
  proof (cases m)
    case Initialize
    with fin [of Initialize] fin [of m'] assms show ?thesis
      by (cases m')
         (auto simp: hc_complete_def Let_def hc_store_result_def cacheable_method_def hc_view_defs
           split: option.splits initialization.splits if_splits)
  next
    case ServerDiscover
    with assms show ?thesis
      by (cases m')
         (auto simp: hc_complete_def Let_def hc_store_result_def cacheable_method_def hc_view_defs
           rc_store_def rc_invalidate_def split: option.splits if_splits)
  next
    case ToolsList
    with assms show ?thesis
      by (cases m')
         (auto simp: hc_complete_def Let_def hc_store_result_def cacheable_method_def hc_view_defs
           rc_store_def split: option.splits if_splits)
  qed
qed

lemma cache_owners_complete:
  assumes "hc_complete c m value hc0 = (completion, hc)"
  shows "cache_owners hc0 = cache_owners hc + image_mset waiter_owner (mset (sc_waiters completion))"
proof -
  obtain ws b hc1 where fin: "hc_finish m hc0 = ((ws, b), hc1)" by (metis prod.exhaust)
  from hc_views_complete [OF assms fin] have "cache_owners hc = cache_owners hc1"
    and "sc_waiters completion = ws"
    by (simp_all add: cache_owners_def)
  with cache_owners_finish [OF fin] show ?thesis by simp
qed

lemma cache_owners_swallow [simp]:
  "hc_swallow_initialized value hc = (b, hc') \<Longrightarrow> cache_owners hc' = cache_owners hc"
  by (auto simp: hc_swallow_initialized_def cache_owners_def hc_waiters_def
      split: if_splits initialization.splits option.splits)

lemma cache_owners_invalidate [simp]:
  "cache_owners (hc_invalidate_tools_list hc) = cache_owners hc"
  by (simp add: hc_invalidate_tools_list_def cache_owners_def hc_waiters_def rc_invalidate_def)

subsection \<open>Expiry on the whole table\<close>

lemma take_requests_known:
  assumes "hm_wf m" and "distinct ks" and "set ks \<subseteq> fst ` set m"
  shows "take_requests ks m =
     (map (\<lambda>k. the (hm_get k m)) ks, filter (\<lambda>e. fst e \<notin> set ks) m)"
  using assms
proof (induction ks arbitrary: m)
  case (Cons k ks)
  then obtain p where p: "hm_get k m = Some p"
    by (metis hm_get_None insert_subset list.simps(15) not_None_eq)
  let ?m = "hm_remove k m"
  have "set ks \<subseteq> fst ` set ?m"
    using Cons.prems by (force simp: set_hm_remove)
  with Cons have "take_requests ks ?m =
      (map (\<lambda>k. the (hm_get k ?m)) ks, filter (\<lambda>e. fst e \<notin> set ks) ?m)"
    by simp
  moreover have "map (\<lambda>k. the (hm_get k ?m)) ks = map (\<lambda>k. the (hm_get k m)) ks"
    using Cons.prems by (auto simp: hm_get_remove)
  moreover have "filter (\<lambda>e. fst e \<notin> set ks) ?m = filter (\<lambda>e. fst e \<notin> set (k # ks)) m"
    by (auto simp: hm_remove_def intro: filter_cong)
  ultimately show ?case using p by simp
qed (simp add: filter_id_conv)

lemma take_requests_filter:
  assumes "hm_wf m"
  shows "take_requests (map fst (filter P m)) m = (map snd (filter P m), filter (\<lambda>e. \<not> P e) m)"
proof -
  have get: "the (hm_get (fst e) m) = snd e" if "e \<in> set m" for e
    using assms that by (metis hm_get_iff option.sel prod.collapse)
  have mem: "fst e \<in> set (map fst (filter P m)) \<longleftrightarrow> P e" if "e \<in> set m" for e
  proof
    assume "fst e \<in> set (map fst (filter P m))"
    then obtain e' where e': "e' \<in> set m" "P e'" "fst e' = fst e" by auto
    with that get have "snd e' = snd e" by metis
    with e' show "P e" by (metis prod.collapse)
  qed (use that in auto)
  have "take_requests (map fst (filter P m)) m =
      (map (\<lambda>k. the (hm_get k m)) (map fst (filter P m)),
       filter (\<lambda>e. fst e \<notin> set (map fst (filter P m))) m)"
    using assms by (intro take_requests_known) (auto simp: hm_wf_filter)
  also have "map (\<lambda>k. the (hm_get k m)) (map fst (filter P m)) = map snd (filter P m)"
    using get by auto
  also have "filter (\<lambda>e. fst e \<notin> set (map fst (filter P m))) m = filter (\<lambda>e. \<not> P e) m"
    using mem by (intro filter_cong) auto
  finally show ?thesis .
qed

definition times_out :: "serializer \<Rightarrow> string \<times> string \<Rightarrow> owner \<Rightarrow> bool" where
  "times_out ser r ow \<longleftrightarrow> (\<exists>message. r = timeout_response ser (fst ow) (snd ow) message)"

lemma times_out_requests:
  "list_all2 (times_out ser)
     (map (\<lambda>p. timeout_response ser (pr_client_id p) (pr_original_id p) message) ps) (map request_owner ps)"
  by (auto simp: list_all2_conv_all_nth times_out_def request_owner_def)

lemma times_out_waiters:
  "list_all2 (times_out ser)
     (map (\<lambda>w. timeout_response ser (pw_client_id w) (pw_original_id w) message) ws) (map waiter_owner ws)"
  by (auto simp: list_all2_conv_all_nth times_out_def waiter_owner_def)

lemmas times_out_append = list_all2_appendI [of "times_out ser" for ser]

text \<open>The stale requests of the listed methods, and everyone who waited for them, are answered.\<close>

abbreviation stale_of :: "cacheable_method set \<Rightarrow> pending_request list \<Rightarrow> pending_request list" where
  "stale_of ms stale \<equiv> filter (\<lambda>p. \<exists>m \<in> ms. pr_cache_key p = Some m) stale"

lemma stale_of_insert:
  "m \<notin> ms \<Longrightarrow> mset (stale_of (insert m ms) stale) =
     mset (filter (\<lambda>p. pr_cache_key p = Some m) stale) + mset (stale_of ms stale)"
  by (induction stale) auto

lemma expire_methods_owners:
  assumes "expire_methods ser ms stale hc = (rs, hc')" and "distinct ms"
  shows "\<exists>ows. list_all2 (times_out ser) rs ows
       \<and> cache_owners hc + image_mset request_owner (mset (stale_of (set ms) stale))
         = mset ows + cache_owners hc'"
  using assms
proof (induction ms arbitrary: hc rs hc')
  case (Cons m ms)
  let ?mine = "filter (\<lambda>p. pr_cache_key p = Some m) stale"
  have split: "mset (stale_of (set (m # ms)) stale) = mset ?mine + mset (stale_of (set ms) stale)"
    using Cons.prems(2) stale_of_insert [of m "set ms" stale] by simp
  show ?case
  proof (cases "?mine = []")
    case True
    with Cons.prems have "expire_methods ser ms stale hc = (rs, hc')" "distinct ms" by simp_all
    from Cons.IH [OF this] True split show ?thesis by simp
  next
    case False
    obtain ws b hc1 where fin: "hc_finish m hc = ((ws, b), hc1)" by (metis prod.exhaust)
    obtain rs2 hc2 where rest: "expire_methods ser ms stale hc1 = (rs2, hc2)" by fastforce
    from Cons.IH [OF rest] Cons.prems(2) obtain ows where ows: "list_all2 (times_out ser) rs2 ows"
      "cache_owners hc1 + image_mset request_owner (mset (stale_of (set ms) stale)) = mset ows + cache_owners hc2"
      by auto
    from False fin rest Cons.prems(1) have "hc' = hc2" and
      rs: "rs = map (\<lambda>p. timeout_response ser (pr_client_id p) (pr_original_id p) (timeout_message m)) ?mine
        @ map (\<lambda>w. timeout_response ser (pw_client_id w) (pw_original_id w) (timeout_message m)) ws @ rs2"
      by (simp_all add: Let_def)
    let ?ows = "map request_owner ?mine @ map waiter_owner ws @ ows"
    have "list_all2 (times_out ser) rs ?ows"
      unfolding rs by (intro times_out_append times_out_requests times_out_waiters ows)
    moreover have "cache_owners hc + image_mset request_owner (mset (stale_of (set (m # ms)) stale))
        = mset ?ows + cache_owners hc'"
      using ows(2) split cache_owners_finish [OF fin] \<open>hc' = hc2\<close> by (simp add: ac_simps)
    ultimately show ?thesis by blast
  qed
qed simp

lemma hc_waiters_update_tools [simp]:
  "hc_waiters m (hc\<lparr>hc_tools := (hc_tools hc)\<lparr>rc_waiters := ws\<rparr>\<rparr>) =
     (if m = ToolsList then ws else hc_waiters m hc)"
  by (cases m) (simp_all add: hc_waiters_def)

lemma hc_waiters_update_discovery [simp]:
  "hc_waiters m (hc\<lparr>hc_discovery := (hc_discovery hc)\<lparr>sd_requests :=
        (sd_requests (hc_discovery hc))\<lparr>rc_waiters := ws\<rparr>\<rparr>\<rparr>) =
     (if m = ServerDiscover then ws else hc_waiters m hc)"
  by (cases m) (simp_all add: hc_waiters_def)

lemma hc_deadline_update_waiters [simp]:
  "hc_deadline m (hc\<lparr>hc_tools := (hc_tools hc)\<lparr>rc_waiters := ws\<rparr>\<rparr>) = hc_deadline m hc"
  "hc_deadline m (hc\<lparr>hc_discovery := (hc_discovery hc)\<lparr>sd_requests :=
        (sd_requests (hc_discovery hc))\<lparr>rc_waiters := ws\<rparr>\<rparr>\<rparr>) = hc_deadline m hc"
  by (cases m; simp add: hc_deadline_def)+

lemma mset_partition: "mset xs = mset (filter P xs) + mset (filter (\<lambda>x. \<not> P x) xs)"
  by (induction xs) auto

end
