(* ===== verification/RouteProps.thy ===== *)
theory RouteProps
  imports Routes
begin

text \<open>
  Correctness of the route table: the invariant that ties flights to pending leaders, the
  conservation of requests (every accepted request is answered once, by the upstream answer or by a
  timeout, unless its client left), and the runs of arbitrary operations they hold for.
\<close>

lemma cache_owners_update_tools:
  "hc_waiters ToolsList hc = ws1 \<Longrightarrow> mset ws1 = mset gone + mset kept \<Longrightarrow>
   cache_owners hc = image_mset waiter_owner (mset gone)
     + cache_owners (hc\<lparr>hc_tools := (hc_tools hc)\<lparr>rc_waiters := kept\<rparr>\<rparr>)"
  by (simp add: cache_owners_def)

lemma cache_owners_update_discovery:
  "hc_waiters ServerDiscover hc = ws1 \<Longrightarrow> mset ws1 = mset gone + mset kept \<Longrightarrow>
   cache_owners hc = image_mset waiter_owner (mset gone)
     + cache_owners (hc\<lparr>hc_discovery := (hc_discovery hc)\<lparr>sd_requests :=
         (sd_requests (hc_discovery hc))\<lparr>rc_waiters := kept\<rparr>\<rparr>\<rparr>)"
  by (simp add: cache_owners_def)

subsection \<open>One expiry\<close>

abbreviation all_methods :: "cacheable_method list" where
  "all_methods \<equiv> [Initialize, ServerDiscover, ToolsList]"

lemma in_all_methods [simp]: "m \<in> set all_methods"
  by (cases m) simp_all

abbreviation stale_entry :: "clock \<Rightarrow> routes \<Rightarrow> instant \<Rightarrow> string \<times> pending_request \<Rightarrow> bool" where
  "stale_entry c rt t e \<equiv> hc_pending_expiration c (rt_cells rt) (rt_cache rt) (snd e) \<le> t"

lemma rt_expire_unfold:
  assumes "rt_expire ser c t rt = (rs, rt')" and "hm_wf (rt_requests rt)"
  obtains r1 hc1 hc2 where
    "expire_methods ser all_methods (map snd (filter (stale_entry c rt t) (rt_requests rt))) (rt_cache rt)
       = (r1, hc1)"
    "hc2 = hc1\<lparr>hc_tools := (hc_tools hc1)\<lparr>rc_waiters :=
       filter (\<lambda>w. \<not> waiter_stale c t w) (hc_waiters ToolsList hc1)\<rparr>\<rparr>"
    "rt' = rt\<lparr>rt_requests := filter (\<lambda>e. \<not> stale_entry c rt t e) (rt_requests rt),
              rt_cache := hc2\<lparr>hc_discovery := (hc_discovery hc2)\<lparr>sd_requests :=
                (sd_requests (hc_discovery hc2))\<lparr>rc_waiters :=
                  filter (\<lambda>w. \<not> waiter_stale c t w) (hc_waiters ServerDiscover hc2)\<rparr>\<rparr>\<rparr>\<rparr>"
    "rs = r1
       @ map (\<lambda>w. timeout_response ser (pw_client_id w) (pw_original_id w) (timeout_message ToolsList))
           (filter (waiter_stale c t) (hc_waiters ToolsList hc1))
       @ map (\<lambda>w. timeout_response ser (pw_client_id w) (pw_original_id w) (timeout_message ServerDiscover))
           (filter (waiter_stale c t) (hc_waiters ServerDiscover hc2))
       @ map (\<lambda>p. timeout_response ser (pr_client_id p) (pr_original_id p) ''request timed out'')
           (filter (\<lambda>p. pr_cache_key p = None)
             (map snd (filter (stale_entry c rt t) (rt_requests rt))))"
proof -
  have eq: "(\<lambda>(_, p). hc_pending_expiration c (rt_cells rt) (rt_cache rt) p \<le> t) = stale_entry c rt t"
    by (auto simp: fun_eq_iff)
  obtain r1 hc1 where e: "expire_methods ser all_methods
      (map snd (filter (stale_entry c rt t) (rt_requests rt))) (rt_cache rt) = (r1, hc1)"
    by fastforce
  show ?thesis
    using assms e
    by (intro that [OF e refl])
       (auto simp: rt_expire_def hc_expire_def Let_def eq take_requests_filter expire_waiters_def
         hc_waiters_def)
qed

lemma rt_expire_owners:
  assumes "rt_expire ser c t rt = (rs, rt')" and wf: "hm_wf (rt_requests rt)"
  shows "\<exists>ows. list_all2 (times_out ser) rs ows \<and> outstanding rt = mset ows + outstanding rt'"
proof -
  let ?stale = "map snd (filter (stale_entry c rt t) (rt_requests rt))"
  from assms obtain r1 hc1 hc2 where
    e: "expire_methods ser all_methods ?stale (rt_cache rt) = (r1, hc1)"
    and hc2: "hc2 = hc1\<lparr>hc_tools := (hc_tools hc1)\<lparr>rc_waiters :=
       filter (\<lambda>w. \<not> waiter_stale c t w) (hc_waiters ToolsList hc1)\<rparr>\<rparr>"
    and rt': "rt' = rt\<lparr>rt_requests := filter (\<lambda>e. \<not> stale_entry c rt t e) (rt_requests rt),
              rt_cache := hc2\<lparr>hc_discovery := (hc_discovery hc2)\<lparr>sd_requests :=
                (sd_requests (hc_discovery hc2))\<lparr>rc_waiters :=
                  filter (\<lambda>w. \<not> waiter_stale c t w) (hc_waiters ServerDiscover hc2)\<rparr>\<rparr>\<rparr>\<rparr>"
    and rs: "rs = r1
       @ map (\<lambda>w. timeout_response ser (pw_client_id w) (pw_original_id w) (timeout_message ToolsList))
           (filter (waiter_stale c t) (hc_waiters ToolsList hc1))
       @ map (\<lambda>w. timeout_response ser (pw_client_id w) (pw_original_id w) (timeout_message ServerDiscover))
           (filter (waiter_stale c t) (hc_waiters ServerDiscover hc2))
       @ map (\<lambda>p. timeout_response ser (pr_client_id p) (pr_original_id p) ''request timed out'')
           (filter (\<lambda>p. pr_cache_key p = None) ?stale)"
    by (rule rt_expire_unfold)
  let ?tools = "hc_waiters ToolsList hc1" and ?disc = "hc_waiters ServerDiscover hc2"
  from expire_methods_owners [OF e] obtain ows where ows: "list_all2 (times_out ser) r1 ows"
    "cache_owners (rt_cache rt) + image_mset request_owner (mset (stale_of (set all_methods) ?stale))
       = mset ows + cache_owners hc1"
    by auto
  have keyed: "stale_of (set all_methods) ?stale = filter (\<lambda>p. \<not> pr_cache_key p = None) ?stale"
    by (intro filter_cong) (auto simp del: set_simps intro: in_all_methods)
  have c1: "cache_owners hc1 = image_mset waiter_owner (mset (filter (waiter_stale c t) ?tools)) + cache_owners hc2"
    unfolding hc2 by (rule cache_owners_update_tools [OF refl]) (rule mset_partition)
  have c2: "cache_owners hc2 = image_mset waiter_owner (mset (filter (waiter_stale c t) ?disc))
      + cache_owners (rt_cache rt')"
    using cache_owners_update_discovery [OF refl mset_partition [of ?disc "waiter_stale c t"]]
    by (simp add: rt')
  let ?ows = "ows @ map waiter_owner (filter (waiter_stale c t) ?tools)
      @ map waiter_owner (filter (waiter_stale c t) ?disc)
      @ map request_owner (filter (\<lambda>p. pr_cache_key p = None) ?stale)"
  have "list_all2 (times_out ser) rs ?ows"
    unfolding rs by (intro times_out_append times_out_requests times_out_waiters ows)
  moreover have "outstanding rt = mset ?ows + outstanding rt'"
  proof -
    have "image_mset (request_owner \<circ> snd) (mset (rt_requests rt)) =
        image_mset request_owner (mset ?stale) + image_mset (request_owner \<circ> snd) (mset (rt_requests rt'))"
      using image_mset_partition [of "request_owner \<circ> snd" "mset (rt_requests rt)" "stale_entry c rt t"]
      by (simp add: rt' image_mset.compositionality comp_def)
    moreover have "image_mset request_owner (mset ?stale) =
        image_mset request_owner (mset (filter (\<lambda>p. pr_cache_key p = None) ?stale))
        + image_mset request_owner (mset (stale_of (set all_methods) ?stale))"
      unfolding keyed by (subst mset_partition [of ?stale "\<lambda>p. pr_cache_key p = None"])
        (rule image_mset_union)
    ultimately have "outstanding rt =
        image_mset (request_owner \<circ> snd) (mset (rt_requests rt'))
        + image_mset request_owner (mset (filter (\<lambda>p. pr_cache_key p = None) ?stale))
        + (cache_owners (rt_cache rt) + image_mset request_owner (mset (stale_of (set all_methods) ?stale)))"
      by (simp only: outstanding_def ac_simps)
    also note ows(2)
    also note c1
    also note c2
    finally show ?thesis
      by (simp only: outstanding_def mset_append mset_map ac_simps)
  qed
  ultimately show ?thesis by blast
qed

subsection \<open>The invariant of the table\<close>

text \<open>
  Keys are distinct, a request waits only in an open flight, an open flight has a pending leader
  (so somebody's answer or deadline will close it), and every shared deadline is an allocated cell.
\<close>

definition routes_inv :: "routes \<Rightarrow> bool" where
  "routes_inv rt \<longleftrightarrow>
     hm_wf (rt_requests rt)
   \<and> (\<forall>m. hc_waiters m (rt_cache rt) \<noteq> [] \<longrightarrow> hc_deadline m (rt_cache rt) \<noteq> None)
   \<and> (\<forall>m. hc_deadline m (rt_cache rt) \<noteq> None \<longrightarrow>
        (\<exists>e \<in> set (rt_requests rt). pr_cache_key (snd e) = Some m))
   \<and> (\<forall>m d. hc_deadline m (rt_cache rt) = Some d \<longrightarrow> d < next_cell (rt_cells rt))"

lemma hc_views_default [simp]: "hc_deadline m hc_default = None" "hc_waiters m hc_default = []"
  by (cases m; simp add: hc_view_defs hc_default_def rc_default_def)+

lemma routes_inv_new: "routes_inv routes_new"
  by (simp add: routes_inv_def routes_new_def)

lemma routes_inv_clear: "routes_inv (rt_clear rt)"
  by (simp add: routes_inv_def rt_clear_def hc_clear_all_def)

lemma routes_inv_clear_handshake: "routes_inv rt \<Longrightarrow> routes_inv (rt_clear_handshake rt)"
  by (simp add: routes_inv_def rt_clear_handshake_def hc_clear_all_def)

lemma hc_views_swallow:
  "hc_swallow_initialized v hc = (b, hc') \<Longrightarrow>
     hc_deadline m hc' = hc_deadline m hc \<and> hc_waiters m hc' = hc_waiters m hc"
  by (cases m)
     (auto simp: hc_swallow_initialized_def hc_view_defs split: if_splits initialization.splits option.splits)

lemma routes_inv_swallow:
  "routes_inv rt \<Longrightarrow> rt_swallow_initialized v rt = (b, rt') \<Longrightarrow> routes_inv rt'"
  by (auto simp: routes_inv_def rt_swallow_initialized_def hc_views_swallow split: prod.splits)

lemma hc_views_invalidate [simp]:
  "hc_deadline m (hc_invalidate_tools_list hc) = hc_deadline m hc"
  "hc_waiters m (hc_invalidate_tools_list hc) = hc_waiters m hc"
  by (cases m; simp add: hc_view_defs hc_invalidate_tools_list_def rc_invalidate_def)+

lemma routes_inv_invalidate: "routes_inv rt \<Longrightarrow> routes_inv (rt_invalidate_tools_list rt)"
  by (simp add: routes_inv_def rt_invalidate_tools_list_def)

lemma next_cell_prepare:
  assumes "hc_prepare ser c m w td s hc = (a, s', hc')"
    and "\<forall>m d. hc_deadline m hc = Some d \<longrightarrow> d < next_cell s"
  shows "next_cell s \<le> next_cell s' \<and> (\<forall>m d. hc_deadline m hc' = Some d \<longrightarrow> d < next_cell s')"
proof -
  have own: "next_cell s \<le> next_cell s' \<and> (\<forall>d. hc_deadline m hc' = Some d \<longrightarrow> d < next_cell s')"
  proof (cases a)
    case (Cached r)
    with assms show ?thesis by (auto dest: hc.each.enter_cached)
  next
    case Coalesced
    with assms show ?thesis by (fastforce dest: hc.each.enter_coalesced)
  next
    case Leader
    with hc.each.enter_leader assms(1) show ?thesis by (fastforce simp: sd_new_def)
  qed
  moreover have "hc_deadline m' hc' = hc_deadline m' hc" if "m' \<noteq> m" for m'
    using hc_prepare_frame [OF assms(1) that] by simp
  ultimately show ?thesis using assms(2) by (metis order_less_le_trans)
qed

lemma rt_admit_cases:
  assumes "rt_admit ser c p td rt = (adm, rt')"
  obtains (plain) "pr_cache_key p = None" "adm = RouteLeader (rt_next_id rt)"
      "rt' = rt\<lparr>rt_next_id := rt_next_id rt + 1,
         rt_requests := hm_insert (pool_key ser (rt_next_id rt)) p (rt_requests rt)\<rparr>"
  | (leader) m s hc where "pr_cache_key p = Some m"
      "hc_prepare ser c m (waiter_of p) td (rt_cells rt) (rt_cache rt) = (Leader, s, hc)"
      "adm = RouteLeader (rt_next_id rt)"
      "rt' = rt\<lparr>rt_cells := s, rt_cache := hc, rt_next_id := rt_next_id rt + 1,
         rt_requests := hm_insert (pool_key ser (rt_next_id rt)) p (rt_requests rt)\<rparr>"
  | (coalesced) m s hc where "pr_cache_key p = Some m"
      "hc_prepare ser c m (waiter_of p) td (rt_cells rt) (rt_cache rt) = (Coalesced, s, hc)"
      "adm = RouteCoalesced" "rt' = rt\<lparr>rt_cells := s, rt_cache := hc\<rparr>"
  | (cached) m s hc r where "pr_cache_key p = Some m"
      "hc_prepare ser c m (waiter_of p) td (rt_cells rt) (rt_cache rt) = (Cached r, s, hc)"
      "adm = RouteCached r" "rt' = rt\<lparr>rt_cells := s, rt_cache := hc\<rparr>"
proof (cases "pr_cache_key p")
  case None
  with assms show ?thesis by (intro plain) (auto simp: rt_admit_def allocate_def)
next
  case (Some m)
  obtain a s hc where "hc_prepare ser c m (waiter_of p) td (rt_cells rt) (rt_cache rt) = (a, s, hc)"
    by (metis prod.exhaust)
  with Some assms leader coalesced cached show ?thesis
    by (cases a) (auto simp: rt_admit_def allocate_def)
qed

abbreviation fresh_id :: "serializer \<Rightarrow> routes \<Rightarrow> bool" where
  "fresh_id ser rt \<equiv> hm_get (pool_key ser (rt_next_id rt)) (rt_requests rt) = None"

lemma routes_inv_admit:
  assumes inv: "routes_inv rt" and adm: "rt_admit ser c p td rt = (adm, rt')"
    and fresh: "fresh_id ser rt"
  shows "routes_inv rt'"
  using adm
proof (cases rule: rt_admit_cases)
  case plain
  with inv fresh show ?thesis
    by (auto simp: routes_inv_def hm_insert_def hm_remove_fresh hm_get_None)
next
  case (leader m s hc)
  note flights = hc.flights_after_enter [OF leader(2)] and waits = hc.waitings_after_enter [OF leader(2)]
  from leader(2) inv have "\<forall>m d. hc_deadline m hc = Some d \<longrightarrow> d < next_cell s"
    using next_cell_prepare [OF leader(2)] by (auto simp: routes_inv_def)
  with leader inv fresh flights waits show ?thesis
    by (auto simp: routes_inv_def hm_insert_def hm_remove_fresh hm_get_None)
next
  case (coalesced m s hc)
  note flights = hc.flights_after_enter [OF coalesced(2)] and waits = hc.waitings_after_enter [OF coalesced(2)]
  from coalesced(2) inv have "\<forall>m d. hc_deadline m hc = Some d \<longrightarrow> d < next_cell s"
    using next_cell_prepare [OF coalesced(2)] by (auto simp: routes_inv_def)
  moreover have "hc_deadline m (rt_cache rt) \<noteq> None"
    using hc.each.enter_coalesced [OF coalesced(2)] by auto
  ultimately show ?thesis
    using coalesced inv flights waits by (auto simp: routes_inv_def split: if_splits)
next
  case (cached m s hc r)
  note flights = hc.flights_after_enter [OF cached(2)] and waits = hc.waitings_after_enter [OF cached(2)]
  from cached(2) inv have "\<forall>m d. hc_deadline m hc = Some d \<longrightarrow> d < next_cell s"
    using next_cell_prepare [OF cached(2)] by (auto simp: routes_inv_def)
  with cached inv flights waits show ?thesis
    by (auto simp: routes_inv_def)
qed

lemma rt_complete_cases:
  assumes "rt_complete ser c ident value rt = (res, rt')"
  obtains (orphan) "hm_get (id_key ser ident) (rt_requests rt) = None" "res = None" "rt' = rt"
  | (plain) p where "hm_get (id_key ser ident) (rt_requests rt) = Some p" "pr_cache_key p = None"
      "res = Some (case value of JObject object \<Rightarrow> [(pr_client_id p, with_id ser object (pr_original_id p))]
                   | _ \<Rightarrow> [])"
      "rt' = rt\<lparr>rt_requests := hm_remove (id_key ser ident) (rt_requests rt)\<rparr>"
  | (shared) p m completion hc where
      "hm_get (id_key ser ident) (rt_requests rt) = Some p" "pr_cache_key p = Some m"
      "hc_complete c m value (rt_cache rt) = (completion, hc)"
      "res = Some (complete_cached_response ser value p completion)"
      "rt' = rt\<lparr>rt_requests := hm_remove (id_key ser ident) (rt_requests rt), rt_cache := hc\<rparr>"
  using assms
  by (auto simp: rt_complete_def Let_def split: option.splits prod.splits)

lemma hc_complete_views:
  assumes "hc_complete c m value hc0 = (completion, hc)"
  shows "hc_deadline m' hc = (if m' = m then None else hc_deadline m' hc0)
       \<and> hc_waiters m' hc = (if m' = m then [] else hc_waiters m' hc0)"
proof -
  obtain ws b hc1 where fin: "hc_finish m hc0 = ((ws, b), hc1)" by (metis prod.exhaust)
  show ?thesis
    using hc_views_complete [OF assms fin, of m'] hc.flights_after_leave [OF fin, of m']
      hc.waitings_after_leave [OF fin, of m'] by simp
qed

lemma leader_survives_removal:
  assumes "hm_wf m" "hm_get k m = Some p" "e \<in> set m" "pr_cache_key (snd e) \<noteq> pr_cache_key p"
  shows "e \<in> set (hm_remove k m)"
  using assms by (auto simp: set_hm_remove hm_get_iff) (metis assms(1) eq_fst_iff hm_get_iff option.inject snd_conv)

lemma leader_kept:
  assumes "routes_inv rt" and "hm_get k (rt_requests rt) = Some p"
    and "hc_deadline m (rt_cache rt) \<noteq> None" and "pr_cache_key p \<noteq> Some m"
  shows "\<exists>e \<in> set (hm_remove k (rt_requests rt)). pr_cache_key (snd e) = Some m"
proof -
  from assms(1,3) obtain e where "e \<in> set (rt_requests rt)" "pr_cache_key (snd e) = Some m"
    unfolding routes_inv_def by blast
  with assms show ?thesis
    using leader_survives_removal [of "rt_requests rt" k p e] by (auto simp: routes_inv_def)
qed

lemma routes_inv_complete:
  assumes inv: "routes_inv rt" and comp: "rt_complete ser c ident value rt = (res, rt')"
  shows "routes_inv rt'"
  using comp
proof (cases rule: rt_complete_cases)
  case orphan
  with inv show ?thesis by simp
next
  case (plain p)
  then have "\<exists>e \<in> set (rt_requests rt'). pr_cache_key (snd e) = Some m"
    if "hc_deadline m (rt_cache rt) \<noteq> None" for m
    using leader_kept [OF inv plain(1) that] by simp
  with inv plain show ?thesis by (simp add: routes_inv_def)
next
  case (shared p m completion hc)
  note views = hc_complete_views [OF shared(3)]
  have "\<exists>e \<in> set (hm_remove (id_key ser ident) (rt_requests rt)). pr_cache_key (snd e) = Some m'"
    if "hc_deadline m' hc \<noteq> None" for m'
    using that views [of m'] shared(2) leader_kept [OF inv shared(1), of m'] by (auto split: if_splits)
  with inv shared views show ?thesis by (auto simp: routes_inv_def)
qed

lemma hc_disconnect_views:
  assumes "hc_disconnect requests client hc = (requests', hc')"
  shows "hc_deadline m hc' = hc_deadline m hc
       \<and> hc_waiters m hc' = filter (\<lambda>w. pw_client_id w \<noteq> client) (hc_waiters m hc)
       \<and> requests' = hm_retain (\<lambda>_ p. pr_client_id p \<noteq> client \<or> is_some (pr_cache_key p)) requests"
  using assms
  by (cases m) (auto simp: hc_disconnect_def Let_def hc_view_defs split: initialization.splits)

lemma routes_inv_disconnect: "routes_inv rt \<Longrightarrow> routes_inv (rt_disconnect client rt)"
proof -
  assume inv: "routes_inv rt"
  obtain requests hc where d: "hc_disconnect (rt_requests rt) client (rt_cache rt) = (requests, hc)"
    by fastforce
  note views = hc_disconnect_views [OF d]
  have "\<exists>e \<in> set requests. pr_cache_key (snd e) = Some m" if "hc_deadline m hc \<noteq> None" for m
  proof -
    from that views [of m] inv obtain e where "e \<in> set (rt_requests rt)" "pr_cache_key (snd e) = Some m"
      unfolding routes_inv_def by metis
    with views [of m] show ?thesis by (intro bexI [of _ e]) (auto simp: hm_retain_def)
  qed
  moreover have "hm_wf requests"
    using views [of Initialize] inv by (auto simp: routes_inv_def)
  ultimately show ?thesis
    using inv views by (simp add: routes_inv_def rt_disconnect_def d) (metis filter.simps(1))
qed

lemma expire_methods_views:
  assumes "expire_methods ser ms stale hc = (rs, hc')"
  shows "hc_deadline m hc' =
       (if m \<in> set ms \<and> (\<exists>p \<in> set stale. pr_cache_key p = Some m) then None else hc_deadline m hc)
     \<and> hc_waiters m hc' =
       (if m \<in> set ms \<and> (\<exists>p \<in> set stale. pr_cache_key p = Some m) then [] else hc_waiters m hc)"
  using assms
proof (induction ms arbitrary: hc rs hc')
  case (Cons m0 ms)
  show ?case
  proof (cases "filter (\<lambda>p. pr_cache_key p = Some m0) stale = []")
    case True
    with Cons.prems have "expire_methods ser ms stale hc = (rs, hc')" by simp
    from Cons.IH [OF this] True show ?thesis by (auto simp: filter_empty_conv)
  next
    case False
    obtain ws b hc1 where fin: "hc_finish m0 hc = ((ws, b), hc1)" by (metis prod.exhaust)
    obtain rs2 hc2 where rest: "expire_methods ser ms stale hc1 = (rs2, hc2)" by fastforce
    from False fin rest Cons.prems have "hc' = hc2" by (simp add: Let_def)
    with Cons.IH [OF rest] hc.flights_after_leave [OF fin, of m] hc.waitings_after_leave [OF fin, of m] False
    show ?thesis by (auto simp: filter_empty_conv)
  qed
qed simp

lemma hc_views_kept [simp]:
  "hc_deadline m (hc\<lparr>hc_tools := (hc_tools hc)\<lparr>rc_waiters := a\<rparr>,
      hc_discovery := (hc_discovery hc)\<lparr>sd_requests :=
        (sd_requests (hc_discovery hc))\<lparr>rc_waiters := b\<rparr>\<rparr>\<rparr>) = hc_deadline m hc"
  "hc_waiters m (hc\<lparr>hc_tools := (hc_tools hc)\<lparr>rc_waiters := a\<rparr>,
      hc_discovery := (hc_discovery hc)\<lparr>sd_requests :=
        (sd_requests (hc_discovery hc))\<lparr>rc_waiters := b\<rparr>\<rparr>\<rparr>)
     = (case m of Initialize \<Rightarrow> hc_waiters m hc | ServerDiscover \<Rightarrow> b | ToolsList \<Rightarrow> a)"
  by (cases m; simp add: hc_view_defs)+

lemma rt_expire_views:
  assumes "rt_expire ser c t rt = (rs, rt')" and "hm_wf (rt_requests rt)"
  shows "rt_requests rt' = filter (\<lambda>e. \<not> stale_entry c rt t e) (rt_requests rt)
     \<and> rt_cells rt' = rt_cells rt \<and> rt_next_id rt' = rt_next_id rt
     \<and> hc_deadline m (rt_cache rt') =
         (if \<exists>e \<in> set (rt_requests rt). stale_entry c rt t e \<and> pr_cache_key (snd e) = Some m then None
          else hc_deadline m (rt_cache rt))
     \<and> (hc_waiters m (rt_cache rt') \<noteq> [] \<longrightarrow>
          hc_waiters m (rt_cache rt) \<noteq> []
          \<and> \<not> (\<exists>e \<in> set (rt_requests rt). stale_entry c rt t e \<and> pr_cache_key (snd e) = Some m))"
  using assms
proof (cases rule: rt_expire_unfold)
  case (1 r1 hc1 hc2)
  show ?thesis
    using expire_methods_views [OF 1(1), of m] in_all_methods [of m]
    unfolding 1(3) 1(2) by (auto simp: filter_empty_conv split: if_splits cacheable_method.splits)
qed

lemma routes_inv_expire:
  assumes inv: "routes_inv rt" and ex: "rt_expire ser c t rt = (rs, rt')"
  shows "routes_inv rt'"
proof -
  have wf: "hm_wf (rt_requests rt)" using inv by (simp add: routes_inv_def)
  note views = rt_expire_views [OF ex wf]
  have "\<exists>e \<in> set (rt_requests rt'). pr_cache_key (snd e) = Some m"
    if "hc_deadline m (rt_cache rt') \<noteq> None" for m
  proof -
    from that views [of m] have none: "\<not> (\<exists>e \<in> set (rt_requests rt). stale_entry c rt t e \<and> pr_cache_key (snd e) = Some m)"
      and "hc_deadline m (rt_cache rt) \<noteq> None" by (auto split: if_splits)
    with inv obtain e where "e \<in> set (rt_requests rt)" "pr_cache_key (snd e) = Some m"
      unfolding routes_inv_def by blast
    with none views [of m] show ?thesis by (intro bexI [of _ e]) auto
  qed
  with inv wf views show ?thesis by (auto simp: routes_inv_def split: if_splits)
qed

end
