(* ===== verification/RouteRuns.thy ===== *)
theory RouteRuns
  imports RouteProps
begin

text \<open>
  Runs of the route table.  A run is a list of operations in the order their critical sections
  execute; the operations of all clients, of the router, of the expiration loop and of the
  lifecycle owner interleave in it arbitrarily.
\<close>

subsection \<open>What each operation does to the owed answers\<close>

lemma outstanding_insert:
  assumes "hm_get k (rt_requests rt) = None"
  shows "outstanding (rt\<lparr>rt_requests := hm_insert k p (rt_requests rt), rt_next_id := i,
           rt_cells := s, rt_cache := hc\<rparr>)
       = add_mset (request_owner p)
           (image_mset (request_owner \<circ> snd) (mset (rt_requests rt)) + cache_owners hc)"
  using assms by (simp add: outstanding_def hm_insert_def hm_remove_fresh)

lemma waiter_owner_of [simp]: "waiter_owner (waiter_of p) = request_owner p"
  by (simp add: waiter_owner_def waiter_of_def request_owner_def)

definition accepted_owner :: "route_admission \<Rightarrow> pending_request \<Rightarrow> owner multiset" where
  "accepted_owner adm p = (case adm of RouteCached _ \<Rightarrow> {#} | _ \<Rightarrow> {#request_owner p#})"

lemma rt_admit_outstanding:
  assumes adm: "rt_admit ser c p td rt = (adm, rt')" and fresh: "fresh_id ser rt"
  shows "outstanding rt' = outstanding rt + accepted_owner adm p"
  using adm
proof (cases rule: rt_admit_cases)
  case plain
  with fresh show ?thesis
    by (simp add: outstanding_def accepted_owner_def hm_insert_def hm_remove_fresh)
next
  case (leader m s hc)
  with fresh cache_owners_prepare [OF leader(2)] show ?thesis
    by (simp add: outstanding_def accepted_owner_def hm_insert_def hm_remove_fresh)
next
  case (coalesced m s hc)
  with cache_owners_prepare [OF coalesced(2)] show ?thesis
    by (simp add: outstanding_def accepted_owner_def)
next
  case (cached m s hc r)
  with cache_owners_prepare [OF cached(2)] show ?thesis
    by (simp add: outstanding_def accepted_owner_def)
qed

lemma outstanding_remove:
  assumes "hm_wf (rt_requests rt)" and "hm_get k (rt_requests rt) = Some p"
  shows "outstanding rt = add_mset (request_owner p)
           (image_mset (request_owner \<circ> snd) (mset (hm_remove k (rt_requests rt))) + cache_owners (rt_cache rt))"
  using mset_hm_remove [OF assms] by (simp add: outstanding_def)

lemma rt_complete_owners:
  assumes wf: "hm_wf (rt_requests rt)"
    and comp: "rt_complete ser c ident (JObject object) rt = (Some rs, rt')"
  shows "\<exists>ows. ows \<noteq> [] \<and> rs = map (answers_with ser object) ows
       \<and> outstanding rt = mset ows + outstanding rt'"
  using comp
proof (cases rule: rt_complete_cases)
  case (plain p)
  then have "rs = map (answers_with ser object) [request_owner p]"
    by (simp add: answers_with_def request_owner_def)
  moreover have "outstanding rt = mset [request_owner p] + outstanding rt'"
    using plain outstanding_remove [OF wf plain(1)] by (simp add: outstanding_def)
  ultimately show ?thesis by blast
next
  case (shared p m completion hc)
  let ?ows = "request_owner p # map waiter_owner (sc_waiters completion)"
  have "rs = map (answers_with ser object) ?ows"
    using shared by (simp add: complete_cached_response_def answers_with_def request_owner_def waiter_owner_def)
  moreover have "outstanding rt = mset ?ows + outstanding rt'"
    using shared outstanding_remove [OF wf shared(1)] cache_owners_complete [OF shared(3)]
    by (simp add: outstanding_def ac_simps)
  ultimately show ?thesis by blast
qed simp

lemma rt_complete_orphan:
  "rt_complete ser c ident value rt = (None, rt') \<Longrightarrow> rt' = rt"
  by (auto elim: rt_complete_cases)

lemma mset_filter_sub: "mset (filter P xs) \<subseteq># mset xs"
  by (simp add: multiset_filter_subset)

lemma rt_disconnect_outstanding: "outstanding (rt_disconnect client rt) \<subseteq># outstanding rt"
proof -
  obtain requests hc where d: "hc_disconnect (rt_requests rt) client (rt_cache rt) = (requests, hc)"
    by fastforce
  have "cache_owners hc \<subseteq># cache_owners (rt_cache rt)"
    unfolding cache_owners_def
    using hc_disconnect_views [OF d]
    by (intro image_mset_subseteq_mono subset_mset.add_mono) (simp_all add: multiset_filter_subset)
  moreover have "mset requests \<subseteq># mset (rt_requests rt)"
    using hc_disconnect_views [OF d] by (simp add: hm_retain_def multiset_filter_subset)
  ultimately show ?thesis
    by (simp add: outstanding_def rt_disconnect_def d image_mset_subseteq_mono subset_mset.add_mono)
qed

lemma outstanding_unchanged [simp]:
  "outstanding (rt_invalidate_tools_list rt) = outstanding rt"
  "rt_swallow_initialized v rt = (b, rt') \<Longrightarrow> outstanding rt' = outstanding rt"
  by (auto simp: outstanding_def rt_invalidate_tools_list_def rt_swallow_initialized_def split: prod.splits)

lemma outstanding_clears:
  "outstanding (rt_clear rt) = {#}"
  "outstanding (rt_clear_handshake rt) \<subseteq># outstanding rt"
  by (simp_all add: outstanding_def rt_clear_def rt_clear_handshake_def hc_clear_all_def)

subsection \<open>Operations and runs\<close>

datatype route_op =
    OpAdmit clock pending_request instant
  | OpComplete clock json obj
  | OpDisconnect string
  | OpExpire clock instant
  | OpClear
  | OpClearHandshake
  | OpSwallow json
  | OpInvalidateTools

text \<open>A step returns the responses it addresses to clients.\<close>

fun route_step :: "serializer \<Rightarrow> route_op \<Rightarrow> routes \<Rightarrow> (string \<times> string) list \<times> routes" where
  "route_step ser (OpAdmit c p td) rt =
     (case rt_admit ser c p td rt of
        (RouteCached response, rt') \<Rightarrow> ([(pr_client_id p, response)], rt')
      | (_, rt') \<Rightarrow> ([], rt'))"
| "route_step ser (OpComplete c ident object) rt =
     (case rt_complete ser c ident (JObject object) rt of
        (None, rt') \<Rightarrow> ([], rt')
      | (Some responses, rt') \<Rightarrow> (responses, rt'))"
| "route_step ser (OpDisconnect client) rt = ([], rt_disconnect client rt)"
| "route_step ser (OpExpire c t) rt = rt_expire ser c t rt"
| "route_step ser OpClear rt = ([], rt_clear rt)"
| "route_step ser OpClearHandshake rt = ([], rt_clear_handshake rt)"
| "route_step ser (OpSwallow v) rt = ([], snd (rt_swallow_initialized v rt))"
| "route_step ser OpInvalidateTools rt = ([], rt_invalidate_tools_list rt)"

fun route_run :: "serializer \<Rightarrow> route_op list \<Rightarrow> routes \<Rightarrow> (string \<times> string) list \<times> routes" where
  "route_run ser [] rt = ([], rt)"
| "route_run ser (op # ops) rt =
     (case route_step ser op rt of (rs, rt1) \<Rightarrow>
        (case route_run ser ops rt1 of (rs', rt2) \<Rightarrow> (rs @ rs', rt2)))"

fun op_clients :: "route_op \<Rightarrow> string list" where
  "op_clients (OpAdmit c p td) = [pr_client_id p]"
| "op_clients _ = []"

fun keeps_requests :: "route_op \<Rightarrow> bool" where
  "keeps_requests (OpDisconnect _) = False"
| "keeps_requests OpClear = False"
| "keeps_requests OpClearHandshake = False"
| "keeps_requests _ = True"

text \<open>How the identifiers of a run of at most 2^64 admissions stay fresh.\<close>

definition ids_ok :: "serializer \<Rightarrow> nat \<Rightarrow> routes \<Rightarrow> bool" where
  "ids_ok ser k rt \<longleftrightarrow>
     rt_next_id rt = of_nat (Suc k)
   \<and> (\<forall>key \<in> fst ` set (rt_requests rt). \<exists>i. 1 \<le> i \<and> i \<le> k \<and> key = pool_key ser (of_nat i))"

definition ids_inject :: "serializer \<Rightarrow> bool" where
  "ids_inject ser \<longleftrightarrow> inj (\<lambda>i::u64. ser (from_u64 i))"

lemma ids_ok_fresh:
  assumes "ids_ok ser k rt" and "ids_inject ser" and "k < 2 ^ 64"
  shows "fresh_id ser rt"
proof (rule ccontr)
  assume "\<not> fresh_id ser rt"
  then obtain i where i: "1 \<le> i" "i \<le> k" and "pool_key ser (rt_next_id rt) = pool_key ser (of_nat i)"
    using assms(1) by (auto simp: hm_get_None ids_ok_def)
  then have eq: "of_nat (Suc k) = (of_nat i :: u64)"
    using assms(1,2) by (auto simp: ids_ok_def ids_inject_def pool_key_def id_key_def dest: injD)
  show False
  proof (cases "Suc k < 2 ^ 64")
    case True
    have "unat (of_nat (Suc k) :: u64) = Suc k" "unat (of_nat i :: u64) = i"
      using True i by (intro of_nat_inverse; simp)+
    then have "Suc k = i" using arg_cong [OF eq, of unat] by argo
    with i show False by linarith
  next
    case False
    with assms(3) have "Suc k = 2 ^ 64" by simp
    then have "(of_nat (Suc k) :: u64) = 0" by (simp only: word_of_nat_eq_0_iff) simp
    with eq have "unat (of_nat i :: u64) = 0" by simp
    with i assms(3) show False by (simp add: unat_of_nat take_bit_nat_eq_self)
  qed
qed

lemma ids_ok_subset:
  "ids_ok ser k rt \<Longrightarrow> set (rt_requests rt') \<subseteq> set (rt_requests rt) \<Longrightarrow>
     rt_next_id rt' = rt_next_id rt \<Longrightarrow> ids_ok ser k rt'"
  unfolding ids_ok_def by (metis image_mono subsetD)

lemma ids_ok_insert:
  "ids_ok ser k rt \<Longrightarrow>
     ids_ok ser (Suc k) (rt\<lparr>rt_next_id := rt_next_id rt + 1,
       rt_requests := hm_insert (pool_key ser (rt_next_id rt)) p (rt_requests rt)\<rparr>)"
  by (auto simp: ids_ok_def hm_insert_def set_hm_remove intro: exI [of _ "Suc k"] le_SucI)
     (metis fst_conv image_eqI le_SucI)

lemma rt_admit_inv_ids:
  assumes "routes_inv rt" "ids_ok ser k rt" "ids_inject ser" "k < 2 ^ 64"
    and adm: "rt_admit ser c p td rt = (adm, rt')"
  shows "routes_inv rt' \<and> (\<exists>k'. k' \<le> Suc k \<and> ids_ok ser k' rt')"
proof -
  have fresh: "fresh_id ser rt" by (rule ids_ok_fresh) fact+
  have "routes_inv rt'" by (rule routes_inv_admit) fact+
  moreover have "\<exists>k'. k' \<le> Suc k \<and> ids_ok ser k' rt'"
    using adm
  proof (cases rule: rt_admit_cases)
    case plain
    with ids_ok_insert [OF assms(2)] show ?thesis by auto
  next
    case (leader m s hc)
    with ids_ok_insert [OF assms(2), of p] have "ids_ok ser (Suc k) rt'"
      by (simp add: ids_ok_def)
    then show ?thesis by blast
  next
    case (coalesced m s hc)
    with assms(2) have "ids_ok ser k rt'" by (simp add: ids_ok_def)
    then show ?thesis using le_SucI by blast
  next
    case (cached m s hc r)
    with assms(2) have "ids_ok ser k rt'" by (simp add: ids_ok_def)
    then show ?thesis using le_SucI by blast
  qed
  ultimately show ?thesis by blast
qed

lemma rt_complete_ids:
  assumes "ids_ok ser k rt" "rt_complete ser c ident v rt = (r, rt')"
  shows "ids_ok ser k rt'"
  using assms(2)
  by (cases rule: rt_complete_cases)
     (use assms(1) in \<open>auto intro: ids_ok_subset [OF assms(1)] simp: set_hm_remove\<close>)

lemma rt_disconnect_ids: "ids_ok ser k rt \<Longrightarrow> ids_ok ser k (rt_disconnect client rt)"
proof -
  assume ids: "ids_ok ser k rt"
  obtain requests hc where d: "hc_disconnect (rt_requests rt) client (rt_cache rt) = (requests, hc)"
    by fastforce
  from ids show ?thesis
    using hc_disconnect_views [OF d]
    by (intro ids_ok_subset [OF ids]) (auto simp: rt_disconnect_def d hm_retain_def)
qed

lemma route_step_inv:
  assumes inv: "routes_inv rt" and ids: "ids_ok ser k rt" "ids_inject ser" "k < 2 ^ 64"
    and step: "route_step ser op rt = (rs, rt')"
  shows "routes_inv rt' \<and> (\<exists>k'. k' \<le> Suc k \<and> ids_ok ser k' rt')"
proof -
  have same: "ids_ok ser k rt' \<Longrightarrow> \<exists>k'. k' \<le> Suc k \<and> ids_ok ser k' rt'"
    using le_SucI by blast
  show ?thesis
  proof (cases op)
    case (OpAdmit c p td)
    obtain adm rt1 where adm: "rt_admit ser c p td rt = (adm, rt1)" by fastforce
    with step OpAdmit have "rt1 = rt'" by (cases adm) auto
    with rt_admit_inv_ids [OF inv ids adm] show ?thesis by simp
  next
    case (OpComplete c ident object)
    obtain r where comp: "rt_complete ser c ident (JObject object) rt = (r, rt')"
      using step OpComplete by (auto split: prod.splits option.splits)
    from routes_inv_complete [OF inv comp] rt_complete_ids [OF ids(1) comp] same show ?thesis by blast
  next
    case (OpExpire c t)
    with step have ex: "rt_expire ser c t rt = (rs, rt')" by simp
    have "ids_ok ser k rt'"
      using rt_expire_views [OF ex] inv
      by (intro ids_ok_subset [OF ids(1)]) (auto simp: routes_inv_def)
    with routes_inv_expire [OF inv ex] same show ?thesis by blast
  next
    case (OpDisconnect client)
    with step routes_inv_disconnect [OF inv] rt_disconnect_ids [OF ids(1)] same show ?thesis by auto
  next
    case OpClear
    with step ids(1) same show ?thesis
      by (auto simp: routes_inv_clear) (simp add: ids_ok_def rt_clear_def)
  next
    case OpClearHandshake
    with step ids(1) same show ?thesis
      by (auto simp: routes_inv_clear_handshake inv) (simp add: ids_ok_def rt_clear_handshake_def)
  next
    case (OpSwallow v)
    obtain b where sw: "rt_swallow_initialized v rt = (b, rt')"
      using step OpSwallow by (metis prod.collapse route_step.simps(7) prod.inject)
    have "ids_ok ser k rt'"
      using sw by (intro ids_ok_subset [OF ids(1)])
        (auto simp: rt_swallow_initialized_def split: prod.splits)
    with routes_inv_swallow [OF inv sw] same show ?thesis by blast
  next
    case OpInvalidateTools
    with step ids(1) same show ?thesis
      by (auto simp: routes_inv_invalidate inv) (simp add: ids_ok_def rt_invalidate_tools_list_def)
  qed
qed

lemma map_fst_answers [simp]: "map fst (map (answers_with ser object) ows) = map fst ows"
  by (simp add: answers_with_def)

lemma times_out_clients: "list_all2 (times_out ser) rs ows \<Longrightarrow> map fst rs = map fst ows"
  by (induction rule: list_all2_induct) (auto simp: times_out_def timeout_response_def)

lemma route_step_accounting:
  assumes inv: "routes_inv rt" and fresh: "fresh_id ser rt"
    and step: "route_step ser op rt = (rs, rt')"
  shows "mset (map fst rs) + image_mset fst (outstanding rt')
           \<subseteq># mset (op_clients op) + image_mset fst (outstanding rt)
       \<and> (keeps_requests op \<longrightarrow>
           mset (map fst rs) + image_mset fst (outstanding rt')
             = mset (op_clients op) + image_mset fst (outstanding rt))"
proof -
  have wf: "hm_wf (rt_requests rt)" using inv by (simp add: routes_inv_def)
  have eq: ?thesis if "mset (map fst rs) + image_mset fst (outstanding rt')
      = mset (op_clients op) + image_mset fst (outstanding rt)"
    using that by simp
  show ?thesis
  proof (cases op)
    case (OpAdmit c p td)
    obtain adm rt1 where adm: "rt_admit ser c p td rt = (adm, rt1)" by fastforce
    with step OpAdmit rt_admit_outstanding [OF adm fresh] show ?thesis
      by (intro eq) (cases adm, auto simp: accepted_owner_def request_owner_def)
  next
    case (OpComplete c ident object)
    obtain r where comp: "rt_complete ser c ident (JObject object) rt = (r, rt')"
      using step OpComplete by (auto split: prod.splits option.splits)
    show ?thesis
    proof (cases r)
      case None
      with comp step OpComplete rt_complete_orphan [of ser c ident "JObject object" rt rt']
      show ?thesis by (intro eq) simp
    next
      case (Some rs')
      with comp step OpComplete have "rs' = rs" by simp
      from rt_complete_owners [OF wf comp [unfolded Some this]]
      obtain ows where "rs = map (answers_with ser object) ows" "outstanding rt = mset ows + outstanding rt'"
        by blast
      with OpComplete show ?thesis
        by (intro eq) (simp del: map_map add: map_fst_answers flip: mset_map)
    qed
  next
    case (OpExpire c t)
    with step have "rt_expire ser c t rt = (rs, rt')" by simp
    from rt_expire_owners [OF this wf] obtain ows where
      ows: "list_all2 (times_out ser) rs ows" "outstanding rt = mset ows + outstanding rt'" by blast
    from times_out_clients [OF ows(1)] have "mset (map fst rs) = image_mset fst (mset ows)" by simp
    with OpExpire ows(2) show ?thesis by (intro eq) (simp del: mset_map)
  next
    case (OpDisconnect client)
    with step show ?thesis
      by (auto intro: image_mset_subseteq_mono rt_disconnect_outstanding)
  next
    case OpClear
    with step show ?thesis by (auto simp: outstanding_clears)
  next
    case OpClearHandshake
    with step show ?thesis by (auto intro: image_mset_subseteq_mono outstanding_clears)
  next
    case (OpSwallow v)
    then have "rt_swallow_initialized v rt = (fst (rt_swallow_initialized v rt), rt')" "rs = []"
      using step by auto
    with OpSwallow show ?thesis by (intro eq) simp
  next
    case OpInvalidateTools
    with step show ?thesis by (intro eq) auto
  qed
qed

lemma route_run_sound:
  assumes "routes_inv rt" "ids_ok ser k rt" "ids_inject ser" "k + length ops \<le> 2 ^ 64"
    and "route_run ser ops rt = (rs, rt')"
  shows "routes_inv rt'
       \<and> mset (map fst rs) + image_mset fst (outstanding rt')
           \<subseteq># mset (concat (map op_clients ops)) + image_mset fst (outstanding rt)
       \<and> (list_all keeps_requests ops \<longrightarrow>
           mset (map fst rs) + image_mset fst (outstanding rt')
             = mset (concat (map op_clients ops)) + image_mset fst (outstanding rt))"
  using assms
proof (induction ops arbitrary: rt k rs)
  case (Cons op ops)
  obtain rs1 rt1 where step: "route_step ser op rt = (rs1, rt1)" by fastforce
  obtain rs2 where run: "route_run ser ops rt1 = (rs2, rt')" and rs: "rs = rs1 @ rs2"
    using Cons.prems(5) step by (auto split: prod.splits)
  from Cons.prems have k: "k < 2 ^ 64" by simp
  have fresh: "fresh_id ser rt" by (rule ids_ok_fresh [OF Cons.prems(2,3) k])
  from route_step_inv [OF Cons.prems(1-3) k step] obtain k' where
    k': "routes_inv rt1" "k' \<le> Suc k" "ids_ok ser k' rt1" by blast
  with Cons.prems have "k' + length ops \<le> 2 ^ 64" by simp
  note IH = Cons.IH [OF k'(1,3) Cons.prems(3) this run]
  note acc = route_step_accounting [OF Cons.prems(1) fresh step]
  let ?o = "image_mset fst (outstanding rt)" and ?o1 = "image_mset fst (outstanding rt1)"
    and ?o2 = "image_mset fst (outstanding rt')"
  let ?r1 = "mset (map fst rs1)" and ?r2 = "mset (map fst rs2)"
  let ?c = "mset (op_clients op)" and ?cs = "mset (concat (map op_clients ops))"
  have "?r1 + ?r2 + ?o2 \<subseteq># ?c + ?cs + ?o"
  proof -
    have "?r2 + ?o2 \<subseteq># ?cs + ?o1" and "?r1 + ?o1 \<subseteq># ?c + ?o" using IH acc by simp_all
    from subset_mset.add_mono [OF this] have "?r1 + ?r2 + ?o2 + ?o1 \<subseteq># ?c + ?cs + ?o + ?o1"
      by (simp only: ac_simps)
    then show ?thesis by (simp only: subset_mset.add_le_cancel_right)
  qed
  moreover have "?r1 + ?r2 + ?o2 = ?c + ?cs + ?o" if "list_all keeps_requests (op # ops)"
  proof -
    have "?r2 + ?o2 = ?cs + ?o1" and "?r1 + ?o1 = ?c + ?o" using IH acc that by simp_all
    then show ?thesis by (metis add.assoc add.commute)
  qed
  ultimately show ?case using IH by (simp add: rs ac_simps)
qed simp

lemma ids_ok_new: "ids_ok ser 0 routes_new"
  by (simp add: ids_ok_def routes_new_def id_allocator_new_def)

lemma outstanding_new: "outstanding routes_new = {#}"
  by (simp add: outstanding_def routes_new_def)

text \<open>A serializer that keeps identifiers apart, for the examples.\<close>

fun sample_ser :: serializer where
  "sample_ser (JNumber (PosInt n)) = map (\<lambda>i. if bit n i then CHR ''1'' else CHR ''0'') [0..<64]"
| "sample_ser _ = ''x''"

lemma sample_ser_inject: "ids_inject sample_ser"
proof -
  have "a = b" if eq: "sample_ser (from_u64 a) = sample_ser (from_u64 b)" for a b
  proof (rule bit_word_eqI)
    fix i assume "i < LENGTH(64)"
    with eq show "bit a i = bit b i"
      by (auto simp: from_u64_def split: if_splits)
  qed
  then show ?thesis by (simp add: ids_inject_def inj_def)
qed

definition sample_pending :: "string \<Rightarrow> cacheable_method option \<Rightarrow> pending_request" where
  "sample_pending client m = \<lparr>pr_client_id = client, pr_original_id = JString ''id'', pr_method = None,
     pr_cache_key = m, pr_tool = None, pr_inserted_at = 5, pr_expires_after = 300\<rparr>"

text \<open>C1: no request is answered twice and none is lost.  In every run of at most 2^64
  operations from a new table, in any interleaving, the clients that got a response together with
  the clients still owed one are among the clients whose requests were admitted, counted with
  multiplicity; when no client disconnects and the table is not cleared, they are exactly these.\<close>

theorem requests_answered_once:
  assumes "ids_inject ser" and "length ops \<le> 2 ^ 64"
    and "route_run ser ops routes_new = (rs, rt)"
  shows "mset (map fst rs) + image_mset fst (outstanding rt) \<subseteq># mset (concat (map op_clients ops))
       \<and> (list_all keeps_requests ops \<longrightarrow>
           mset (map fst rs) + image_mset fst (outstanding rt) = mset (concat (map op_clients ops)))"
  using route_run_sound [OF routes_inv_new ids_ok_new assms(1) _ assms(3)] assms(2)
  by (simp add: outstanding_new)

theorem requests_answered_once_witness:
  "\<exists>rs rt. route_run sample_ser
       [OpAdmit sample_clock (sample_pending ''a'' (Some ToolsList)) 305,
        OpAdmit sample_clock (sample_pending ''b'' (Some ToolsList)) 305,
        OpExpire sample_clock 400] routes_new = (rs, rt)
     \<and> mset (map fst rs) + image_mset fst (outstanding rt) = {#''a'', ''b''#}"
proof -
  let ?ops = "[OpAdmit sample_clock (sample_pending ''a'' (Some ToolsList)) 305,
        OpAdmit sample_clock (sample_pending ''b'' (Some ToolsList)) 305,
        OpExpire sample_clock 400]"
  obtain rs rt where run: "route_run sample_ser ?ops routes_new = (rs, rt)" by fastforce
  from requests_answered_once [OF sample_ser_inject _ run] show ?thesis
    using run by (simp add: sample_pending_def)
qed

text \<open>Nobody waits without a timer.  In every state a run reaches, a request that waits for
  another's answer has a pending leader of the same method whose completion or expiry answers it,
  and the expiration loop has a deadline to wake up for.\<close>

theorem waiters_have_a_leader:
  assumes "ids_inject ser" and "length ops \<le> 2 ^ 64"
    and "route_run ser ops routes_new = (rs, rt)"
    and "hc_waiters m (rt_cache rt) \<noteq> []"
  shows "(\<exists>e \<in> set (rt_requests rt). pr_cache_key (snd e) = Some m) \<and> rt_next_deadline c rt \<noteq> None"
proof -
  have "routes_inv rt"
    using route_run_sound [OF routes_inv_new ids_ok_new assms(1) _ assms(3)] assms(2) by simp
  with assms(4) have "\<exists>e \<in> set (rt_requests rt). pr_cache_key (snd e) = Some m"
    unfolding routes_inv_def by blast
  then show ?thesis
    by (auto simp: rt_next_deadline_def hc_next_deadline_def hm_values_def split: list.splits)
qed

theorem waiters_have_a_leader_witness:
  "rt_next_deadline sample_clock (snd (route_run sample_ser
       [OpAdmit sample_clock (sample_pending ''a'' (Some ToolsList)) 305,
        OpAdmit sample_clock (sample_pending ''b'' (Some ToolsList)) 305] routes_new)) \<noteq> None"
proof -
  let ?ops = "[OpAdmit sample_clock (sample_pending ''a'' (Some ToolsList)) 305,
        OpAdmit sample_clock (sample_pending ''b'' (Some ToolsList)) 305]"
  have "hc_waiters ToolsList (rt_cache (snd (route_run sample_ser ?ops routes_new))) \<noteq> []"
    by (simp add: rt_admit_def sample_pending_def routes_new_def hc_prepare_def hc_default_def
        hc_clear_expired_results_def rc_clear_expired_def rc_expired_def rc_default_def rc_prepare_def
        rc_get_def hc_rejection_def sd_new_def allocate_def hc_waiters_def Let_def)
  from waiters_have_a_leader [OF sample_ser_inject _ _ this, of ?ops "fst (route_run sample_ser ?ops routes_new)"]
  show ?thesis by simp
qed

end
