(* ===== verification/CacheProps.thy ===== *)
theory CacheProps
  imports RouteRuns
begin

text \<open>
  What the cache serves and when deadlines fire: freshness of cached results, catalogs that change
  while they are being fetched, one upstream request per method, the deadline that request carries,
  the exclusion of the two handshakes, and the progress of the expiration loop.
\<close>

subsection \<open>One upstream request per method\<close>

fun admit_run ::
  "serializer \<Rightarrow> (clock \<times> pending_request \<times> instant) list \<Rightarrow> routes \<Rightarrow> route_admission list \<times> routes" where
  "admit_run ser [] rt = ([], rt)"
| "admit_run ser ((c, p, td) # as) rt =
     (case rt_admit ser c p td rt of (adm, rt1) \<Rightarrow>
        (case admit_run ser as rt1 of (adms, rt2) \<Rightarrow> (adm # adms, rt2)))"

fun is_leader :: "route_admission \<Rightarrow> bool" where
  "is_leader (RouteLeader _) = True"
| "is_leader _ = False"

fun not_cached :: "route_admission \<Rightarrow> bool" where
  "not_cached (RouteCached _) = False"
| "not_cached _ = True"

abbreviation flight_of :: "cacheable_method \<Rightarrow> routes \<Rightarrow> shared_deadline option" where
  "flight_of m rt \<equiv> hc_deadline m (rt_cache rt)"

lemma cells_mono_prepare:
  assumes "hc_prepare ser c m w td s hc = (a, s', hc')" and "d < next_cell s"
  shows "sd_current d s \<le> sd_current d s'"
proof (cases a)
  case (Cached r)
  with assms show ?thesis by (auto dest: hc.each.enter_cached)
next
  case Coalesced
  with assms show ?thesis by (auto dest!: hc.each.enter_coalesced simp: sd_extend_mono)
next
  case Leader
  with hc.each.enter_leader assms sd_new_frame show ?thesis by (metis order_refl)
qed

lemma rt_admit_flight:
  assumes inv: "routes_inv rt" and adm: "rt_admit ser c p td rt = (adm, rt')"
    and flight: "flight_of m rt = Some d"
  shows "flight_of m rt' = Some d \<and> sd_current d (rt_cells rt) \<le> sd_current d (rt_cells rt')
       \<and> (pr_cache_key p = Some m \<longrightarrow> \<not> is_leader adm
            \<and> (not_cached adm \<longrightarrow> td \<le> sd_current d (rt_cells rt')))"
proof -
  have d: "d < next_cell (rt_cells rt)" using inv flight by (simp add: routes_inv_def)
  have step: "hc_deadline m hc = Some d \<and> sd_current d (rt_cells rt) \<le> sd_current d s
      \<and> (m' = m \<longrightarrow> a \<noteq> Leader \<and> (a = Coalesced \<longrightarrow> td \<le> sd_current d s))"
    if "hc_prepare ser c m' w td (rt_cells rt) (rt_cache rt) = (a, s, hc)" for m' w a s hc
  proof (cases "m' = m")
    case True
    with that flight d show ?thesis
      using hc.each.flight_persists [OF that] hc.each.entry_extends_deadline [OF that]
        cells_mono_prepare [OF that d] by auto
  next
    case False
    with that flight d show ?thesis
      using hc_prepare_frame [OF that] cells_mono_prepare [OF that d] by auto
  qed
  from adm show ?thesis
    by (cases rule: rt_admit_cases) (use flight in \<open>auto dest!: step\<close>)
qed

lemma admit_run_flight:
  assumes "routes_inv rt" "ids_ok ser k rt" "ids_inject ser" "k + length as \<le> 2 ^ 64"
    and "admit_run ser as rt = (adms, rt')" and "flight_of m rt = Some d"
  shows "flight_of m rt' = Some d \<and> sd_current d (rt_cells rt) \<le> sd_current d (rt_cells rt')
       \<and> (\<forall>i < length as. pr_cache_key (fst (snd (as ! i))) = Some m \<longrightarrow> \<not> is_leader (adms ! i)
            \<and> (not_cached (adms ! i) \<longrightarrow> snd (snd (as ! i)) \<le> sd_current d (rt_cells rt')))"
  using assms
proof (induction as arbitrary: rt k adms)
  case (Cons a as)
  obtain c p td where a: "a = (c, p, td)" by (metis prod.exhaust)
  obtain adm rt1 where adm: "rt_admit ser c p td rt = (adm, rt1)" by fastforce
  obtain adms' where run: "admit_run ser as rt1 = (adms', rt')" and adms: "adms = adm # adms'"
    using Cons.prems(5) adm by (auto simp: a split: prod.splits)
  from Cons.prems have k: "k < 2 ^ 64" by simp
  from rt_admit_inv_ids [OF Cons.prems(1-3) k adm] obtain k' where
    k': "routes_inv rt1" "k' \<le> Suc k" "ids_ok ser k' rt1" by blast
  with Cons.prems have bound: "k' + length as \<le> 2 ^ 64" by simp
  note first = rt_admit_flight [OF Cons.prems(1) adm Cons.prems(6)]
  from Cons.IH [OF k'(1,3) Cons.prems(3) bound run] first
  have IH: "flight_of m rt' = Some d" "sd_current d (rt_cells rt1) \<le> sd_current d (rt_cells rt')"
    "\<forall>i < length as. pr_cache_key (fst (snd (as ! i))) = Some m \<longrightarrow> \<not> is_leader (adms' ! i)
       \<and> (not_cached (adms' ! i) \<longrightarrow> snd (snd (as ! i)) \<le> sd_current d (rt_cells rt'))" by auto
  have "pr_cache_key (fst (snd ((a # as) ! i))) = Some m \<longrightarrow> \<not> is_leader (adms ! i)
       \<and> (not_cached (adms ! i) \<longrightarrow> snd (snd ((a # as) ! i)) \<le> sd_current d (rt_cells rt'))"
    if "i < length (a # as)" for i
    using that IH first by (cases i) (auto simp: adms a intro: le_trans)
  with IH first show ?case by auto
qed simp

lemma rt_admit_leader_flight:
  assumes "rt_admit ser c p td rt = (RouteLeader pid, rt1)" and "pr_cache_key p = Some m"
  shows "\<exists>d. flight_of m rt1 = Some d \<and> sd_current d (rt_cells rt1) = td
       \<and> hm_get (pool_key ser pid) (rt_requests rt1) = Some p"
  using assms(1)
proof (cases rule: rt_admit_cases)
  case (leader m' s hc)
  with assms(2) hc.each.leader_opens_flight [OF leader(2)] show ?thesis
    by (auto simp: hm_get_insert)
qed (use assms in auto)

lemma admit_run_keeps_request:
  assumes "routes_inv rt" "ids_ok ser k rt" "ids_inject ser" "k + length as \<le> 2 ^ 64"
    and "admit_run ser as rt = (adms, rt')" and "hm_get key (rt_requests rt) = Some q"
  shows "hm_get key (rt_requests rt') = Some q"
  using assms
proof (induction as arbitrary: rt k adms)
  case (Cons a as)
  obtain c p td where a: "a = (c, p, td)" by (metis prod.exhaust)
  obtain adm rt1 where adm: "rt_admit ser c p td rt = (adm, rt1)" by fastforce
  obtain adms' where run: "admit_run ser as rt1 = (adms', rt')"
    using Cons.prems(5) adm by (auto simp: a split: prod.splits)
  from Cons.prems have k: "k < 2 ^ 64" by simp
  from rt_admit_inv_ids [OF Cons.prems(1-3) k adm] obtain k' where
    k': "routes_inv rt1" "k' \<le> Suc k" "ids_ok ser k' rt1" by blast
  have "fresh_id ser rt" by (rule ids_ok_fresh [OF Cons.prems(2,3) k])
  with adm Cons.prems(6) have "hm_get key (rt_requests rt1) = Some q"
    by (cases rule: rt_admit_cases) (auto simp: hm_get_insert)
  with Cons.IH [OF k'(1,3) Cons.prems(3) _ run] k'(2) Cons.prems(4) show ?case by simp
qed simp



subsection \<open>What the cache serves\<close>

lemma rc_get_store:
  assumes "rc_get t (rc_store c result rc) = Some v"
  shows "v = result \<and> (\<forall>d. cache_deadline c result = Some d \<longrightarrow> t < d)"
  using assms by (auto simp: rc_get_def rc_store_def rc_expired_def Let_def split: if_splits option.splits)

lemma cache_deadline_private:
  "Option.bind (vget ''cacheScope'' result) as_str = Some scope \<Longrightarrow> scope \<noteq> ''public'' \<Longrightarrow>
     cache_deadline c result = Some (now c 0)"
  by (simp add: cache_deadline_def)

lemma cache_deadline_ttl:
  "Option.bind (vget ''ttlMs'' result) as_u64 = Some ms \<Longrightarrow>
   now c 0 + unat ms \<le> last_instant c \<Longrightarrow>
     \<exists>d. cache_deadline c result = Some d \<and> d \<le> now c 0 + unat ms"
  by (auto simp: cache_deadline_def checked_add_def)



lemma rc_invalidate_in_flight:
  "rc_in_flight rc \<noteq> None \<Longrightarrow> rc_invalidated (rc_invalidate rc) \<and> rc_in_flight (rc_invalidate rc) \<noteq> None
     \<and> rc_result (rc_invalidate rc) = None"
  by (simp add: rc_invalidate_def)

lemma prepare_keeps_invalidated:
  assumes "hc_prepare ser c m w td s hc = (a, s', hc')"
    and "rc_in_flight (hc_tools hc) \<noteq> None" "rc_invalidated (hc_tools hc)" "rc_result (hc_tools hc) = None"
  shows "rc_in_flight (hc_tools hc') \<noteq> None \<and> rc_invalidated (hc_tools hc') \<and> rc_result (hc_tools hc') = None"
  using assms(1)
proof (cases rule: hc_prepare_cases)
  case (tools rc)
  with assms(2-4) show ?thesis
    by (auto simp: rc_prepare_def rc_get_def rc_clear_expired_def split: option.splits if_splits prod.splits)
qed (use assms(2-4) in \<open>auto simp: hc_clear_expired_results_def rc_clear_expired_def\<close>)

lemma admit_run_keeps_invalidated:
  assumes "admit_run ser as rt = (adms, rt')"
    and "rc_in_flight (hc_tools (rt_cache rt)) \<noteq> None" "rc_invalidated (hc_tools (rt_cache rt))"
      "rc_result (hc_tools (rt_cache rt)) = None"
  shows "rc_in_flight (hc_tools (rt_cache rt')) \<noteq> None \<and> rc_invalidated (hc_tools (rt_cache rt'))
       \<and> rc_result (hc_tools (rt_cache rt')) = None"
  using assms
proof (induction as arbitrary: rt adms)
  case (Cons a as)
  obtain c p td where a: "a = (c, p, td)" by (metis prod.exhaust)
  obtain adm rt1 where adm: "rt_admit ser c p td rt = (adm, rt1)" by fastforce
  obtain adms' where run: "admit_run ser as rt1 = (adms', rt')"
    using Cons.prems(1) adm by (auto simp: a split: prod.splits)
  from adm have "rc_in_flight (hc_tools (rt_cache rt1)) \<noteq> None \<and> rc_invalidated (hc_tools (rt_cache rt1))
       \<and> rc_result (hc_tools (rt_cache rt1)) = None"
  proof (cases rule: rt_admit_cases)
    case plain
    with Cons.prems show ?thesis by simp
  qed (use Cons.prems(2-4) prepare_keeps_invalidated in fastforce)+
  with Cons.IH [OF run] show ?case by simp
qed simp

text \<open>A tool catalog that changed while it was being fetched is never cached: after a
  list-changed notification during the fetch, and any number of further requests, completing the
  fetch delivers the answer but leaves no cached catalog.\<close>

theorem changed_catalog_is_not_cached:
  assumes "flight_of ToolsList rt \<noteq> None"
    and "admit_run ser as (rt_invalidate_tools_list rt) = (adms, rt1)"
    and "hm_get (id_key ser ident) (rt_requests rt1) = Some p" and "pr_cache_key p = Some ToolsList"
    and "rt_complete ser c ident value rt1 = (res, rt2)"
  shows "res \<noteq> None \<and> rc_result (hc_tools (rt_cache rt2)) = None"
proof -
  have "rc_in_flight (hc_tools (rt_cache (rt_invalidate_tools_list rt))) \<noteq> None
      \<and> rc_invalidated (hc_tools (rt_cache (rt_invalidate_tools_list rt)))
      \<and> rc_result (hc_tools (rt_cache (rt_invalidate_tools_list rt))) = None"
    using assms(1) rc_invalidate_in_flight [of "hc_tools (rt_cache rt)"]
    by (simp add: rt_invalidate_tools_list_def hc_invalidate_tools_list_def hc_deadline_def)
  with admit_run_keeps_invalidated [OF assms(2)]
  have inv: "rc_invalidated (hc_tools (rt_cache rt1))" "rc_result (hc_tools (rt_cache rt1)) = None"
    by simp_all
  from assms(5) show ?thesis
  proof (cases rule: rt_complete_cases)
    case (shared q m completion hc)
    with assms(3,4) inv show ?thesis
      by (auto simp: hc_complete_def hc_finish_def rc_finish_def Let_def split: option.splits)
  qed (use assms in auto)
qed

theorem changed_catalog_is_not_cached_witness:
  "\<exists>rt1 res rt2. rt_admit sample_ser sample_clock (sample_pending ''a'' (Some ToolsList)) 305 routes_new
       = (RouteLeader 1, rt1)
     \<and> rt_complete sample_ser sample_clock (from_u64 1) (JObject [(''result'', JObject [])])
          (rt_invalidate_tools_list rt1) = (res, rt2)
     \<and> res \<noteq> None \<and> rc_result (hc_tools (rt_cache rt2)) = None"
proof -
  let ?p = "sample_pending ''a'' (Some ToolsList)"
  obtain rt1 where adm: "rt_admit sample_ser sample_clock ?p 305 routes_new = (RouteLeader 1, rt1)"
    by (simp add: rt_admit_def sample_pending_def routes_new_def hc_prepare_def hc_default_def
        hc_clear_expired_results_def rc_clear_expired_def rc_expired_def rc_default_def rc_prepare_def
        rc_get_def hc_rejection_def sd_new_def allocate_def Let_def id_allocator_new_def)
  have key: "pr_cache_key ?p = Some ToolsList" by (simp add: sample_pending_def)
  from rt_admit_leader_flight [OF adm key]
  have fl: "flight_of ToolsList rt1 \<noteq> None" and "hm_get (pool_key sample_ser 1) (rt_requests rt1) = Some ?p"
    by auto
  then have get: "hm_get (id_key sample_ser (from_u64 1)) (rt_requests (rt_invalidate_tools_list rt1)) = Some ?p"
    by (simp add: pool_key_def rt_invalidate_tools_list_def)
  obtain res rt2 where comp: "rt_complete sample_ser sample_clock (from_u64 1) (JObject [(''result'', JObject [])])
      (rt_invalidate_tools_list rt1) = (res, rt2)" by fastforce
  have run: "admit_run sample_ser [] (rt_invalidate_tools_list rt1) = ([], rt_invalidate_tools_list rt1)"
    by simp
  from changed_catalog_is_not_cached [OF fl run get key comp] adm comp show ?thesis by blast
qed

end
