(* ===== verification/Handshakes.thy ===== *)
theory Handshakes
  imports CacheProps
begin

text \<open>
  Two facts about whole runs: one upstream session never mixes the legacy handshake with modern
  discovery, and the expiration loop answers what is due, no earlier and at the deadline it waits
  for.
\<close>

subsection \<open>The two handshakes exclude each other\<close>

definition exclusive :: "handshake_cache \<Rightarrow> bool" where
  "exclusive hc \<longleftrightarrow>
     (hc_initialize hc = Empty
      \<or> (sd_support (hc_discovery hc) \<noteq> Modern \<and> rc_in_flight (sd_requests (hc_discovery hc)) = None))"

text \<open>A method has a pending leader exactly while its flight is open, and at most one.\<close>

definition one_leader_each :: "routes \<Rightarrow> bool" where
  "one_leader_each rt \<longleftrightarrow>
     (\<forall>m. \<forall>e \<in> set (rt_requests rt). pr_cache_key (snd e) = Some m \<longrightarrow>
        flight_of m rt \<noteq> None
        \<and> (\<forall>e' \<in> set (rt_requests rt). pr_cache_key (snd e') = Some m \<longrightarrow> e' = e))"

lemma one_leader_eachD:
  "one_leader_each rt \<Longrightarrow> e \<in> set (rt_requests rt) \<Longrightarrow> pr_cache_key (snd e) = Some m \<Longrightarrow>
     flight_of m rt \<noteq> None"
  "one_leader_each rt \<Longrightarrow> e \<in> set (rt_requests rt) \<Longrightarrow> pr_cache_key (snd e) = Some m \<Longrightarrow>
     e' \<in> set (rt_requests rt) \<Longrightarrow> pr_cache_key (snd e') = Some m \<Longrightarrow> e' = e"
  unfolding one_leader_each_def by blast+

lemma one_leader_each_subset:
  assumes "one_leader_each rt" and "set (rt_requests rt') \<subseteq> set (rt_requests rt)"
    and "\<And>e m. e \<in> set (rt_requests rt') \<Longrightarrow> pr_cache_key (snd e) = Some m \<Longrightarrow> flight_of m rt' \<noteq> None"
  shows "one_leader_each rt'"
  using assms unfolding one_leader_each_def by (metis subsetD)

lemma one_leader_each_same:
  assumes "one_leader_each rt" and "rt_requests rt' = rt_requests rt"
    and "\<And>m. flight_of m rt \<noteq> None \<Longrightarrow> flight_of m rt' \<noteq> None"
  shows "one_leader_each rt'"
  using assms unfolding one_leader_each_def by metis

lemma hc_expired_fields [simp]:
  "hc_initialize (hc_clear_expired_results c hc) = hc_initialize hc"
  "sd_support (hc_discovery (hc_clear_expired_results c hc)) = sd_support (hc_discovery hc)"
  "rc_in_flight (sd_requests (hc_discovery (hc_clear_expired_results c hc)))
     = rc_in_flight (sd_requests (hc_discovery hc))"
  by (simp_all add: hc_clear_expired_results_def)

lemma exclusive_prepare:
  assumes "exclusive hc" and "hc_prepare ser c m w td s hc = (a, s', hc')"
  shows "exclusive hc'"
  using assms(2)
proof (cases rule: hc_prepare_cases)
  case (init i)
  with assms(1) show ?thesis
    by (auto simp: exclusive_def hc_rejection_def split: if_splits)
next
  case (discover rc)
  with assms(1) show ?thesis
    by (auto simp: exclusive_def hc_rejection_def split: if_splits)
qed (use assms(1) in \<open>auto simp: exclusive_def\<close>)

lemma exclusive_finish: "exclusive hc \<Longrightarrow> hc_finish m hc = (r, hc') \<Longrightarrow> exclusive hc'"
  by (cases m)
     (auto simp: hc_finish_def init_finish_def rc_finish_def exclusive_def split: initialization.splits)

lemma exclusive_complete:
  assumes "exclusive hc" and "hc_deadline m hc \<noteq> None" and "hc_complete c m value hc = (completion, hc')"
  shows "exclusive hc'"
  using assms
  by (cases m)
     (auto simp: hc_complete_def hc_finish_def init_finish_def rc_finish_def exclusive_def hc_deadline_def
       hc_store_result_def cacheable_method_def Let_def rc_store_def rc_invalidate_def
       split: initialization.splits option.splits if_splits)

lemma exclusive_expire_methods:
  "exclusive hc \<Longrightarrow> expire_methods ser ms stale hc = (rs, hc') \<Longrightarrow> exclusive hc'"
proof (induction ms arbitrary: hc rs)
  case (Cons m ms)
  then show ?case
    by (auto simp: Let_def split: if_splits prod.splits dest: exclusive_finish)
qed simp

lemma exclusive_disconnect:
  "exclusive hc \<Longrightarrow> hc_disconnect requests client hc = (requests', hc') \<Longrightarrow> exclusive hc'"
  by (auto simp: hc_disconnect_def Let_def exclusive_def split: initialization.splits)

lemma exclusive_swallow: "exclusive hc \<Longrightarrow> hc_swallow_initialized v hc = (b, hc') \<Longrightarrow> exclusive hc'"
  by (auto simp: hc_swallow_initialized_def exclusive_def split: if_splits initialization.splits option.splits)

lemma exclusive_default: "exclusive hc_default"
  by (simp add: exclusive_def hc_default_def)

definition handshake_inv :: "routes \<Rightarrow> bool" where
  "handshake_inv rt \<longleftrightarrow> exclusive (rt_cache rt) \<and> one_leader_each rt"

lemma handshake_inv_new: "handshake_inv routes_new"
  by (simp add: handshake_inv_def one_leader_each_def exclusive_default routes_new_def)

lemma handshake_inv_admit:
  assumes inv: "handshake_inv rt" and fresh: "fresh_id ser rt"
    and adm: "rt_admit ser c p td rt = (adm, rt')"
  shows "handshake_inv rt'"
  using adm
proof (cases rule: rt_admit_cases)
  case plain
  with inv fresh show ?thesis
    by (auto simp: handshake_inv_def one_leader_each_def hm_insert_def hm_remove_fresh)
next
  case (leader m s hc)
  from hc.each.enter_leader [OF leader(2)] have none: "flight_of m rt = None" by simp
  with inv have no_m: "pr_cache_key (snd e) \<noteq> Some m" if "e \<in> set (rt_requests rt)" for e
    using that none inv one_leader_eachD(1) [of rt e m] by (auto simp: handshake_inv_def)
  have "one_leader_each rt'"
    unfolding one_leader_each_def
  proof (intro allI ballI impI)
    fix m' e
    assume e: "e \<in> set (rt_requests rt')" "pr_cache_key (snd e) = Some m'"
    let ?new = "(pool_key ser (rt_next_id rt), p)"
    have set': "set (rt_requests rt') = insert ?new (set (rt_requests rt))"
      using leader fresh by (simp add: hm_insert_def hm_remove_fresh)
    have fl: "(flight_of m' rt' \<noteq> None) = (flight_of m' rt \<noteq> None \<or> m' = m)"
      using hc.flights_after_enter [OF leader(2), of m'] leader(4) by simp
    show "flight_of m' rt' \<noteq> None
        \<and> (\<forall>e' \<in> set (rt_requests rt'). pr_cache_key (snd e') = Some m' \<longrightarrow> e' = e)"
    proof (cases "m' = m")
      case True
      with e no_m set' have "e = ?new" by (metis insertE)
      with True no_m fl set' show ?thesis by (metis insertE)
    next
      case False
      have old: "e' \<in> set (rt_requests rt)"
        if "e' \<in> set (rt_requests rt')" "pr_cache_key (snd e') = Some m'" for e'
        using that False leader(1) set' by auto
      have ol: "one_leader_each rt" using inv by (simp add: handshake_inv_def)
      have "e' = e" if "e' \<in> set (rt_requests rt')" "pr_cache_key (snd e') = Some m'" for e'
        using one_leader_eachD(2) [OF ol old [OF e] e(2) old [OF that] that(2)] .
      moreover have "flight_of m' rt \<noteq> None"
        using one_leader_eachD(1) [OF ol old [OF e] e(2)] .
      ultimately show ?thesis using fl by blast
    qed
  qed
  with leader exclusive_prepare inv show ?thesis by (auto simp: handshake_inv_def)
next
  case (coalesced m s hc)
  have "one_leader_each rt'"
  proof (rule one_leader_each_same)
    show "one_leader_each rt" using inv by (simp add: handshake_inv_def)
    show "rt_requests rt' = rt_requests rt" using coalesced(4) by simp
    show "flight_of m' rt' \<noteq> None" if "flight_of m' rt \<noteq> None" for m'
      using that hc.flights_after_enter [OF coalesced(2), of m'] coalesced(4) by simp
  qed
  with coalesced exclusive_prepare inv show ?thesis by (auto simp: handshake_inv_def)
next
  case (cached m s hc r)
  have "one_leader_each rt'"
  proof (rule one_leader_each_same)
    show "one_leader_each rt" using inv by (simp add: handshake_inv_def)
    show "rt_requests rt' = rt_requests rt" using cached(4) by simp
    show "flight_of m' rt' \<noteq> None" if "flight_of m' rt \<noteq> None" for m'
      using that hc.flights_after_enter [OF cached(2), of m'] cached(4) by simp
  qed
  with cached exclusive_prepare inv show ?thesis by (auto simp: handshake_inv_def)
qed

lemma handshake_inv_complete:
  assumes inv: "handshake_inv rt" and wf: "hm_wf (rt_requests rt)"
    and comp: "rt_complete ser c ident value rt = (res, rt')"
  shows "handshake_inv rt'"
  using comp
proof (cases rule: rt_complete_cases)
  case orphan
  with inv show ?thesis by simp
next
  case (plain p)
  with inv show ?thesis
    by (auto simp: handshake_inv_def set_hm_remove intro!: one_leader_each_subset [of rt]
        dest: one_leader_eachD(1))
next
  case (shared p m completion hc)
  let ?k = "id_key ser ident"
  have mem: "(?k, p) \<in> set (rt_requests rt)" using shared(1) by (rule hm_get_in)
  with shared(2) inv have "flight_of m rt \<noteq> None"
    using one_leader_eachD(1) [of rt "(?k, p)" m] by (simp add: handshake_inv_def)
  with shared inv have "exclusive hc"
    by (auto simp: handshake_inv_def intro: exclusive_complete)
  moreover have "one_leader_each rt'"
  proof (rule one_leader_each_subset [of rt])
    show "one_leader_each rt" using inv by (simp add: handshake_inv_def)
    show "set (rt_requests rt') \<subseteq> set (rt_requests rt)" using shared by (auto simp: set_hm_remove)
    fix e m' assume e: "e \<in> set (rt_requests rt')" "pr_cache_key (snd e) = Some m'"
    with shared have e_old: "e \<in> set (rt_requests rt)" "fst e \<noteq> ?k" by (auto simp: set_hm_remove)
    have "m' \<noteq> m"
    proof
      assume "m' = m"
      with one_leader_eachD(2) [of rt "(?k, p)" m e] inv mem shared(2) e e_old show False
        by (auto simp: handshake_inv_def)
    qed
    with e e_old inv show "flight_of m' rt' \<noteq> None"
      using hc_complete_views [OF shared(3), of m'] shared(5) one_leader_eachD(1)
      by (fastforce simp: handshake_inv_def)
  qed
  ultimately show ?thesis using shared by (simp add: handshake_inv_def)
qed

lemma handshake_inv_expire:
  assumes inv: "handshake_inv rt" and wf: "hm_wf (rt_requests rt)"
    and ex: "rt_expire ser c t rt = (rs, rt')"
  shows "handshake_inv rt'"
proof -
  note views = rt_expire_views [OF ex wf]
  have "one_leader_each rt'"
  proof (rule one_leader_each_subset [of rt])
    show ol: "one_leader_each rt" using inv by (simp add: handshake_inv_def)
    show "set (rt_requests rt') \<subseteq> set (rt_requests rt)" using views by auto
    fix e m assume e: "e \<in> set (rt_requests rt')" "pr_cache_key (snd e) = Some m"
    with views have old: "e \<in> set (rt_requests rt)" "\<not> stale_entry c rt t e" by auto
    have "\<not> (\<exists>e' \<in> set (rt_requests rt). stale_entry c rt t e' \<and> pr_cache_key (snd e') = Some m)"
      using one_leader_eachD(2) [OF ol old(1) e(2)] old(2) by metis
    with views [of m] one_leader_eachD(1) [OF ol old(1) e(2)] show "flight_of m rt' \<noteq> None" by simp
  qed
  moreover have "exclusive (rt_cache rt')"
    using ex wf
  proof (cases rule: rt_expire_unfold)
    case (1 r1 hc1 hc2)
    have "exclusive hc1" by (rule exclusive_expire_methods [OF _ 1(1)]) (use inv in \<open>simp add: handshake_inv_def\<close>)
    then show ?thesis unfolding 1(3) 1(2) by (simp add: exclusive_def)
  qed
  ultimately show ?thesis by (simp add: handshake_inv_def)
qed

lemma handshake_inv_disconnect: "handshake_inv rt \<Longrightarrow> handshake_inv (rt_disconnect client rt)"
proof -
  assume inv: "handshake_inv rt"
  obtain requests hc where d: "hc_disconnect (rt_requests rt) client (rt_cache rt) = (requests, hc)"
    by fastforce
  have sub: "set (rt_requests (rt_disconnect client rt)) \<subseteq> set (rt_requests rt)"
    using hc_disconnect_views [OF d] by (auto simp: rt_disconnect_def d hm_retain_def)
  have "flight_of m (rt_disconnect client rt) = flight_of m rt" for m
    using hc_disconnect_views [OF d, of m] by (simp add: rt_disconnect_def d)
  then have "one_leader_each (rt_disconnect client rt)"
    using inv one_leader_eachD(1) [of rt] sub
    by (intro one_leader_each_subset [OF _ sub]) (auto simp: handshake_inv_def)
  with inv exclusive_disconnect [OF _ d] show ?thesis by (auto simp: handshake_inv_def rt_disconnect_def d)
qed

lemma route_step_handshake:
  assumes hs: "handshake_inv rt" and inv: "routes_inv rt" and fresh: "fresh_id ser rt"
    and step: "route_step ser op rt = (rs, rt')" and "op \<noteq> OpClearHandshake"
  shows "handshake_inv rt'"
proof (cases op)
  case (OpAdmit c p td)
  obtain adm rt1 where adm: "rt_admit ser c p td rt = (adm, rt1)" by fastforce
  with step OpAdmit have "rt1 = rt'" by (cases adm) auto
  with handshake_inv_admit [OF hs fresh adm] show ?thesis by simp
next
  case (OpComplete c ident object)
  obtain r where "rt_complete ser c ident (JObject object) rt = (r, rt')"
    using step OpComplete by (auto split: prod.splits option.splits)
  with handshake_inv_complete [OF hs] inv show ?thesis by (simp add: routes_inv_def)
next
  case (OpExpire c t)
  with step handshake_inv_expire [OF hs] inv show ?thesis by (simp add: routes_inv_def)
next
  case (OpDisconnect client)
  with step handshake_inv_disconnect [OF hs] show ?thesis by auto
next
  case OpClear
  with step show ?thesis
    by (auto simp: handshake_inv_def one_leader_each_def exclusive_default rt_clear_def hc_clear_all_def)
next
  case (OpSwallow v)
  with step have "rt_swallow_initialized v rt = (fst (rt_swallow_initialized v rt), rt')" by auto
  then obtain b hc where sw: "hc_swallow_initialized v (rt_cache rt) = (b, hc)" "rt' = rt\<lparr>rt_cache := hc\<rparr>"
    by (auto simp: rt_swallow_initialized_def split: prod.splits)
  have "one_leader_each rt'"
  proof (rule one_leader_each_same)
    show "one_leader_each rt" using hs by (simp add: handshake_inv_def)
    show "rt_requests rt' = rt_requests rt" using sw(2) by simp
    show "flight_of m rt' \<noteq> None" if "flight_of m rt \<noteq> None" for m
      using that hc_views_swallow [OF sw(1), of m] sw(2) by simp
  qed
  with hs sw exclusive_swallow [OF _ sw(1)] show ?thesis by (simp add: handshake_inv_def)
next
  case OpInvalidateTools
  with step have rt': "rt' = rt_invalidate_tools_list rt" by simp
  have "one_leader_each rt'"
  proof (rule one_leader_each_same)
    show "one_leader_each rt" using hs by (simp add: handshake_inv_def)
  qed (simp_all add: rt' rt_invalidate_tools_list_def)
  with hs rt' show ?thesis
    by (simp add: handshake_inv_def rt_invalidate_tools_list_def hc_invalidate_tools_list_def exclusive_def)
qed (use assms in simp)

lemma route_run_handshake:
  assumes "handshake_inv rt" "routes_inv rt" "ids_ok ser k rt" "ids_inject ser" "k + length ops \<le> 2 ^ 64"
    and "route_run ser ops rt = (rs, rt')" "OpClearHandshake \<notin> set ops"
  shows "handshake_inv rt'"
  using assms
proof (induction ops arbitrary: rt k rs)
  case (Cons op ops)
  obtain rs1 rt1 where step: "route_step ser op rt = (rs1, rt1)" by fastforce
  obtain rs2 where run: "route_run ser ops rt1 = (rs2, rt')"
    using Cons.prems(6) step by (auto split: prod.splits)
  from Cons.prems have k: "k < 2 ^ 64" by simp
  have fresh: "fresh_id ser rt" by (rule ids_ok_fresh [OF Cons.prems(3,4) k])
  from route_step_inv [OF Cons.prems(2-4) k step] obtain k' where
    k': "routes_inv rt1" "k' \<le> Suc k" "ids_ok ser k' rt1" by blast
  with Cons.prems have bound: "k' + length ops \<le> 2 ^ 64" by simp
  have "handshake_inv rt1"
    using route_step_handshake [OF Cons.prems(1,2) fresh step] Cons.prems(7) by auto
  with Cons.IH [OF _ k'(1,3) Cons.prems(4) bound run] Cons.prems(7) show ?case by simp
qed simp

text \<open>C5: one upstream session never mixes the two handshakes.  In every run in which the handshake
  is not reset by a lost session, while a legacy initialize is pending or established no modern
  discovery is in flight and no modern answer is stored, and at most one request of each shared
  method is pending upstream.\<close>

theorem handshakes_exclude_each_other:
  assumes "ids_inject ser" and "length ops \<le> 2 ^ 64" and "OpClearHandshake \<notin> set ops"
    and "route_run ser ops routes_new = (rs, rt)"
  shows "(hc_initialize (rt_cache rt) \<noteq> Empty \<longrightarrow>
            sd_support (hc_discovery (rt_cache rt)) \<noteq> Modern \<and> flight_of ServerDiscover rt = None)
       \<and> (\<forall>e \<in> set (rt_requests rt). \<forall>e' \<in> set (rt_requests rt).
            pr_cache_key (snd e) \<noteq> None \<and> pr_cache_key (snd e) = pr_cache_key (snd e') \<longrightarrow> e = e')"
proof -
  have hs: "handshake_inv rt"
    using route_run_handshake [OF handshake_inv_new routes_inv_new ids_ok_new assms(1) _ assms(4,3)] assms(2)
    by simp
  then have "exclusive (rt_cache rt)" and ol: "one_leader_each rt" by (simp_all add: handshake_inv_def)
  moreover have "e = e'" if "e \<in> set (rt_requests rt)" "e' \<in> set (rt_requests rt)"
      "pr_cache_key (snd e) = Some m" "pr_cache_key (snd e') = Some m" for e e' m
    using one_leader_eachD(2) [OF ol that(1,3,2,4)] by simp
  ultimately show ?thesis
    by (auto simp: exclusive_def hc_deadline_def)
qed

theorem handshakes_exclude_each_other_witness:
  "flight_of ServerDiscover (snd (route_run sample_ser
       [OpAdmit sample_clock (sample_pending ''a'' (Some Initialize)) 305,
        OpAdmit sample_clock (sample_pending ''b'' (Some ServerDiscover)) 305] routes_new)) = None"
proof -
  let ?ops = "[OpAdmit sample_clock (sample_pending ''a'' (Some Initialize)) 305,
        OpAdmit sample_clock (sample_pending ''b'' (Some ServerDiscover)) 305]"
  have "hc_initialize (rt_cache (snd (route_run sample_ser ?ops routes_new))) \<noteq> Empty"
    by (simp add: rt_admit_def sample_pending_def routes_new_def hc_prepare_def hc_default_def
        hc_clear_expired_results_def rc_clear_expired_def rc_expired_def rc_default_def init_prepare_def
        hc_rejection_def sd_new_def allocate_def Let_def)
  with handshakes_exclude_each_other [OF sample_ser_inject, of ?ops "fst (route_run sample_ser ?ops routes_new)"
      "snd (route_run sample_ser ?ops routes_new)"]
  show ?thesis by simp
qed

subsection \<open>The expiration loop\<close>

lemma fold_min_le: "fold min ds d \<le> (d::nat)" "x \<in> set ds \<Longrightarrow> fold min ds d \<le> x"
proof (induction ds arbitrary: d)
  case (Cons y ds)
  {
    case 1
    have "fold min ds (min y d) \<le> min y d" by (rule Cons.IH(1))
    then show ?case by simp
  next
    case 2
    have "fold min ds (min y d) \<le> min y d" by (rule Cons.IH(1))
    with 2 Cons.IH(2) show ?case by auto
  }
qed simp_all

lemma fold_min_in: "fold min ds (d::nat) \<in> insert d (set ds)"
  by (induction ds arbitrary: d) (auto simp: min_def split: if_splits)

lemma next_deadline_iff:
  "rt_next_deadline c rt = Some d \<Longrightarrow>
     (\<forall>e \<in> set (rt_requests rt). d \<le> hc_pending_expiration c (rt_cells rt) (rt_cache rt) (snd e))
   \<and> (\<forall>w \<in> set (hc_waiters ToolsList (rt_cache rt)) \<union> set (hc_waiters ServerDiscover (rt_cache rt)).
        d \<le> expiration c (pw_inserted_at w) (pw_expires_after w))
   \<and> ((\<exists>e \<in> set (rt_requests rt). d = hc_pending_expiration c (rt_cells rt) (rt_cache rt) (snd e))
      \<or> (\<exists>w \<in> set (hc_waiters ToolsList (rt_cache rt)) \<union> set (hc_waiters ServerDiscover (rt_cache rt)).
           d = expiration c (pw_inserted_at w) (pw_expires_after w)))"
proof -
  let ?xs = "map (hc_pending_expiration c (rt_cells rt) (rt_cache rt)) (hm_values (rt_requests rt))
     @ map (\<lambda>w. expiration c (pw_inserted_at w) (pw_expires_after w))
         (hc_waiters ToolsList (rt_cache rt) @ hc_waiters ServerDiscover (rt_cache rt))"
  assume "rt_next_deadline c rt = Some d"
  then obtain y ys where xs: "?xs = y # ys" and d: "d = fold min ys y"
    by (auto simp: rt_next_deadline_def hc_next_deadline_def hc_waiters_def split: list.splits)
  have "\<forall>x \<in> set ?xs. d \<le> x" unfolding xs d using fold_min_le by auto
  moreover have "d \<in> set ?xs" unfolding xs d using fold_min_in by simp
  ultimately show ?thesis by (auto simp: hm_values_def)
qed

lemma expire_methods_nil:
  "expire_methods ser ms stale hc = ([], hc') \<Longrightarrow> p \<in> set stale \<Longrightarrow> m \<in> set ms \<Longrightarrow>
     pr_cache_key p \<noteq> Some m"
proof (induction ms arbitrary: hc)
  case (Cons m0 ms)
  from Cons.prems(1) have "filter (\<lambda>p. pr_cache_key p = Some m0) stale = []"
    by (auto simp: Let_def split: if_splits prod.splits)
  moreover from this Cons.prems(1) have "expire_methods ser ms stale hc = ([], hc')" by simp
  ultimately show ?case using Cons by (auto simp: filter_empty_conv)
qed simp

lemma expire_methods_none: "expire_methods ser ms [] hc = ([], hc)"
  by (induction ms) (simp_all add: Let_def)

lemma rt_expire_before:
  assumes next_d: "rt_next_deadline c rt = Some d" and "t < d"
  shows "rt_expire ser c t rt = ([], rt)"
proof -
  note low = next_deadline_iff [OF next_d]
  have "\<not> stale_entry c rt t e" if "e \<in> set (rt_requests rt)" for e
    using low that assms(2) by (meson leD order_less_le_trans)
  then have none: "filter (\<lambda>(_, p). hc_pending_expiration c (rt_cells rt) (rt_cache rt) p \<le> t) (rt_requests rt) = []"
    by (auto simp: filter_empty_conv)
  have live: "\<not> waiter_stale c t w"
    if "w \<in> set (hc_waiters ToolsList (rt_cache rt)) \<union> set (hc_waiters ServerDiscover (rt_cache rt))" for w
    using low that assms(2) by (meson leD order_less_le_trans waiter_stale_def)
  have "filter (waiter_stale c t) ws = []" "filter (\<lambda>w. \<not> waiter_stale c t w) ws = ws"
    if "ws = rc_waiters (hc_tools (rt_cache rt)) \<or> ws = rc_waiters (sd_requests (hc_discovery (rt_cache rt)))" for ws
    using that live by (auto simp: filter_empty_conv filter_id_conv hc_waiters_def)
  with none show ?thesis
    by (simp add: rt_expire_def hc_expire_def Let_def expire_waiters_def del: expire_methods.simps
        add: expire_methods_none)
qed

lemma rt_expire_due:
  assumes next_d: "rt_next_deadline c rt = Some d" and "d \<le> t" and wf: "hm_wf (rt_requests rt)"
    and ex: "rt_expire ser c t rt = (rs, rt')"
  shows "rs \<noteq> []"
proof
  assume "rs = []"
  from ex wf show False
  proof (cases rule: rt_expire_unfold)
    case (1 r1 hc1 hc2)
    let ?stale = "map snd (filter (stale_entry c rt t) (rt_requests rt))"
    from 1(4) \<open>rs = []\<close> have r1: "r1 = []"
      and tools: "\<forall>w \<in> set (hc_waiters ToolsList hc1). \<not> waiter_stale c t w"
      and disc: "\<forall>w \<in> set (hc_waiters ServerDiscover hc2). \<not> waiter_stale c t w"
      and "filter (\<lambda>p. pr_cache_key p = None) ?stale = []"
      by (simp_all add: filter_empty_conv) blast
    then have plain: "\<forall>p \<in> set ?stale. pr_cache_key p \<noteq> None"
      by (simp only: filter_empty_conv)
    have "pr_cache_key p \<noteq> Some m" if "p \<in> set ?stale" for p m
      using expire_methods_nil [OF 1(1) [unfolded r1] that in_all_methods] .
    with plain have none: "?stale = []" by (cases "?stale") auto
    with 1(1) have "hc1 = rt_cache rt" by (simp add: expire_methods_none del: expire_methods.simps)
    with 1(2) have "hc_waiters ServerDiscover hc2 = hc_waiters ServerDiscover (rt_cache rt)" by simp
    with disc tools \<open>hc1 = rt_cache rt\<close> next_deadline_iff [OF next_d] none assms(2) show False
      by (auto simp: waiter_stale_def filter_empty_conv)
  qed
qed

text \<open>The expiration loop neither fires early nor spins.  Before the deadline it sleeps until,
  an expiry changes nothing and answers nobody; at that deadline or after it, an expiry answers at
  least one request.\<close>

theorem expiration_loop_progress:
  assumes "routes_inv rt" and "rt_next_deadline c rt = Some d"
  shows "(t < d \<longrightarrow> rt_expire ser c t rt = ([], rt)) \<and> (d \<le> t \<longrightarrow> fst (rt_expire ser c t rt) \<noteq> [])"
  using rt_expire_before [OF assms(2)] rt_expire_due [OF assms(2)] assms(1)
  by (metis prod.collapse routes_inv_def)

theorem expiration_loop_progress_witness:
  "rt_expire sample_ser sample_clock 304 (snd (rt_admit sample_ser sample_clock (sample_pending ''a'' None) 305 routes_new))
     = ([], snd (rt_admit sample_ser sample_clock (sample_pending ''a'' None) 305 routes_new))"
proof -
  let ?rt = "snd (rt_admit sample_ser sample_clock (sample_pending ''a'' None) 305 routes_new)"
  have "routes_inv ?rt"
    using routes_inv_admit [OF routes_inv_new, of sample_ser sample_clock "sample_pending ''a'' None" 305]
    by (simp add: routes_new_def) (metis prod.collapse)
  moreover have "rt_next_deadline sample_clock ?rt = Some 305"
    by (simp add: rt_next_deadline_def rt_admit_def sample_pending_def routes_new_def hc_next_deadline_def
        hm_insert_def hm_remove_def hm_values_def hc_pending_expiration_def expiration_def checked_add_def
        sample_clock_def hc_default_def rc_default_def allocate_def)
  ultimately show ?thesis using expiration_loop_progress [of ?rt sample_clock 305 304 sample_ser] by simp
qed

end
