(* ===== verification/Dispatch.thy ===== *)
theory Dispatch
  imports Routes
begin

text \<open>
  The state of one upstream generation (\<open>Generation\<close> in \<open>src/socket_proxy_generation.rs\<close>) and what
  the router does with an upstream message (\<open>src/socket_proxy_router.rs\<close>,
  \<open>src/socket_proxy_dispatch.rs\<close>, \<open>src/socket_proxy_wait.rs\<close>).  A client's channel is a number.
  Channels are filled and drained by other tasks, so the outcome of a \<open>try_send\<close> is an argument:
  the definitions and theorems hold for every behaviour of the other tasks.
\<close>

type_synonym completion = "(string + unit) option"

type_synonym client_map = "(string, nat) hmap"

record generation =
  g_request_tx :: "nat option"
  g_clients :: client_map
  g_routes :: routes
  g_capabilities :: "(string, client_capabilities) hmap"
  g_last_active :: "string option"
  g_shutdown :: bool
  g_explicit_stop :: bool
  g_startup :: completion
  g_completion :: completion
  g_socket_bound :: bool

definition generation_new :: generation where
  "generation_new = \<lparr>g_request_tx = None, g_clients = [], g_routes = routes_new, g_capabilities = [],
     g_last_active = None, g_shutdown = False, g_explicit_stop = False, g_startup = None,
     g_completion = None, g_socket_bound = False\<rparr>"

definition message_has_method :: "json \<Rightarrow> bool" where
  "message_has_method value \<longleftrightarrow> is_some (vget ''method'' value)"

definition non_null_id :: "json \<Rightarrow> json option" where
  "non_null_id value =
     (case vget ''id'' value of None \<Rightarrow> None | Some i \<Rightarrow> if is_null i then None else Some i)"

subsection \<open>Delivery to clients\<close>

datatype send_outcome = SendOk | SendFull | SendClosed

text \<open>
  \<open>send_to_client\<close>: a try, then a blocking send when the channel is full; \<open>blocking\<close> tells whether
  that send ends with the message in the channel.  The result is what was delivered.
\<close>

definition send_to_client ::
  "client_map \<Rightarrow> send_outcome \<Rightarrow> bool \<Rightarrow> string \<Rightarrow> string \<Rightarrow> (string \<times> string) list" where
  "send_to_client clients outcome blocking client_id payload =
     (case hm_get client_id clients of
        None \<Rightarrow> []
      | Some channel \<Rightarrow>
          (case outcome of
             SendOk \<Rightarrow> [(client_id, payload)]
           | SendFull \<Rightarrow> if blocking then [(client_id, payload)] else []
           | SendClosed \<Rightarrow> []))"

text \<open>
  \<open>sweep_recipients\<close>: the i-th response of the sweep sees the clients \<open>view i\<close> and the outcome
  \<open>attempt i\<close>.  The result is what was delivered and what was deferred.
\<close>

fun sweep_from ::
  "(nat \<Rightarrow> client_map) \<Rightarrow> (nat \<Rightarrow> send_outcome) \<Rightarrow> nat \<Rightarrow> string list \<Rightarrow> (string \<times> string) list
     \<Rightarrow> (string \<times> string) list \<times> (string \<times> string) list" where
  "sweep_from view attempt i blocked [] = ([], [])"
| "sweep_from view attempt i blocked ((client_id, payload) # responses) =
     (if client_id \<in> set blocked
      then (case sweep_from view attempt (Suc i) blocked responses of
              (sent, deferred) \<Rightarrow> (sent, (client_id, payload) # deferred))
      else (case hm_get client_id (view i) of
              None \<Rightarrow> sweep_from view attempt (Suc i) blocked responses
            | Some channel \<Rightarrow>
                (case attempt i of
                   SendOk \<Rightarrow>
                     (case sweep_from view attempt (Suc i) blocked responses of
                        (sent, deferred) \<Rightarrow> ((client_id, payload) # sent, deferred))
                 | SendFull \<Rightarrow>
                     (case sweep_from view attempt (Suc i) (client_id # blocked) responses of
                        (sent, deferred) \<Rightarrow> (sent, (client_id, payload) # deferred))
                 | SendClosed \<Rightarrow> sweep_from view attempt (Suc i) blocked responses)))"

definition sweep_recipients ::
  "(nat \<Rightarrow> client_map) \<Rightarrow> (nat \<Rightarrow> send_outcome) \<Rightarrow> (string \<times> string) list
     \<Rightarrow> (string \<times> string) list \<times> (string \<times> string) list" where
  "sweep_recipients view attempt responses = sweep_from view attempt 0 [] responses"

text \<open>
  \<open>broadcast_to_all\<close>: one pass of tries over the channels connected at the start, then a blocking
  send to each full one.  The result is the channels that received the line, in order.
\<close>

definition broadcast_to_all ::
  "client_map \<Rightarrow> (nat \<Rightarrow> send_outcome) \<Rightarrow> (nat \<Rightarrow> bool) \<Rightarrow> nat list" where
  "broadcast_to_all clients attempt blocking =
     (let senders = hm_values clients;
          full = filter (\<lambda>ch. attempt ch = SendFull) senders
      in filter (\<lambda>ch. attempt ch = SendOk) senders @ filter blocking full)"

abbreviation for_client :: "string \<Rightarrow> (string \<times> string) list \<Rightarrow> (string \<times> string) list" where
  "for_client client_id \<equiv> filter (\<lambda>r. fst r = client_id)"

lemma sweep_blocked:
  "sweep_from view attempt i blocked rs = (sent, deferred) \<Longrightarrow> client \<in> set blocked \<Longrightarrow>
     for_client client sent = [] \<and> for_client client deferred = for_client client rs"
proof (induction view attempt i blocked rs arbitrary: sent deferred rule: sweep_from.induct)
  case (2 view attempt i blocked client_id payload responses)
  then show ?case
    by (auto split: if_splits option.splits send_outcome.splits prod.splits)
qed simp

lemma sweep_order:
  "sweep_from view attempt i blocked rs = (sent, deferred) \<Longrightarrow>
     subseq (for_client client sent @ for_client client deferred) (for_client client rs)"
proof (induction view attempt i blocked rs arbitrary: sent deferred rule: sweep_from.induct)
  case (2 view attempt i blocked client_id payload responses)
  note IH = "2.IH"
  show ?case
  proof (cases "client_id \<in> set blocked")
    case True
    obtain sent' deferred' where r: "sweep_from view attempt (Suc i) blocked responses = (sent', deferred')"
      by fastforce
    with True "2.prems" IH(1) [OF True r] sweep_blocked [OF r True] show ?thesis by auto
  next
    case blocked: False
    show ?thesis
    proof (cases "hm_get client_id (view i)")
      case None
      with blocked "2.prems" IH(2) [OF blocked None] show ?thesis
        by (auto intro: list_emb_Cons)
    next
      case (Some ch)
      show ?thesis
      proof (cases "attempt i")
        case SendOk
        with blocked Some "2.prems" IH(3) [OF blocked Some SendOk] show ?thesis
          by (auto split: prod.splits)
      next
        case SendFull
        obtain sent' deferred' where
          r: "sweep_from view attempt (Suc i) (client_id # blocked) responses = (sent', deferred')"
          by fastforce
        with SendFull blocked Some "2.prems" IH(4) [OF blocked Some SendFull r]
          sweep_blocked [OF r, of client_id]
        show ?thesis by auto
      next
        case SendClosed
        with blocked Some "2.prems" IH(5) [OF blocked Some SendClosed] show ?thesis
          by (auto intro: list_emb_Cons)
      qed
    qed
  qed
qed simp

lemma sweep_complete:
  "sweep_from view attempt i blocked rs = (sent, deferred) \<Longrightarrow>
   (\<And>j. hm_get client (view j) \<noteq> None \<and> attempt j \<noteq> SendClosed) \<Longrightarrow>
     for_client client sent @ for_client client deferred = for_client client rs"
proof (induction view attempt i blocked rs arbitrary: sent deferred rule: sweep_from.induct)
  case (2 view attempt i blocked client_id payload responses)
  show ?case
  proof (cases "client_id = client")
    case False
    with 2 show ?thesis
      by (auto split: if_splits option.splits send_outcome.splits prod.splits)
  next
    case same: True
    show ?thesis
    proof (cases "client \<in> set blocked")
      case True
      from sweep_blocked [OF "2.prems"(1) True] show ?thesis by simp
    next
      case blocked: False
      from "2.prems"(2) obtain ch where ch: "hm_get client (view i) = Some ch" by auto
      show ?thesis
      proof (cases "attempt i")
        case SendOk
        with same blocked ch 2 show ?thesis by (auto split: prod.splits)
      next
        case SendFull
        obtain sent' deferred' where
          r: "sweep_from view attempt (Suc i) (client_id # blocked) responses = (sent', deferred')"
          by fastforce
        with same blocked ch SendFull "2.prems"(1) sweep_blocked [OF r, of client_id]
        show ?thesis by auto
      qed (use "2.prems"(2) in auto)
    qed
  qed
qed simp

text \<open>The sweep keeps each client's responses in order and never lets a later one overtake a
  deferred one: for every client what was sent followed by what was deferred is a subsequence of its
  responses; it is all of them when the client stays connected.\<close>

theorem sweep_preserves_client_order:
  assumes "sweep_recipients view attempt responses = (sent, deferred)"
  shows "subseq (for_client client sent @ for_client client deferred) (for_client client responses)
       \<and> ((\<forall>j. hm_get client (view j) \<noteq> None \<and> attempt j \<noteq> SendClosed) \<longrightarrow>
            for_client client sent @ for_client client deferred = for_client client responses)"
  using sweep_order sweep_complete assms unfolding sweep_recipients_def by blast

theorem sweep_preserves_client_order_witness:
  "\<exists>sent deferred. sweep_recipients (\<lambda>_. [(''a'', 1)]) (\<lambda>i. if i = 1 then SendFull else SendOk)
       [(''a'', ''1''), (''a'', ''2''), (''a'', ''3'')] = (sent, deferred)
     \<and> for_client ''a'' sent @ for_client ''a'' deferred = [(''a'', ''1''), (''a'', ''2''), (''a'', ''3'')]"
proof -
  let ?attempt = "\<lambda>i::nat. if i = 1 then SendFull else SendOk"
  let ?rs = "[(''a'', ''1''), (''a'', ''2''), (''a'', ''3'')]"
  obtain sent deferred where
    r: "sweep_recipients (\<lambda>_. [(''a'', 1)]) ?attempt ?rs = (sent, deferred)" by fastforce
  have "\<forall>j::nat. hm_get ''a'' [(''a'', 1::nat)] \<noteq> None \<and> ?attempt j \<noteq> SendClosed"
    by (simp add: hm_get_def)
  with sweep_preserves_client_order [OF r, of "''a''"] r show ?thesis by auto
qed

lemma broadcast_reaches_open_channels:
  "set (broadcast_to_all clients attempt blocking)
     = {ch \<in> snd ` set clients. attempt ch = SendOk \<or> (attempt ch = SendFull \<and> blocking ch)}"
  by (auto simp: broadcast_to_all_def hm_values_def Let_def)

lemma broadcast_once:
  "distinct (map snd clients) \<Longrightarrow> distinct (broadcast_to_all clients attempt blocking)"
  by (auto simp: broadcast_to_all_def hm_values_def Let_def)

end
