(* ===== verification/Router.thy ===== *)
theory Router
  imports Dispatch
begin

text \<open>
  What the pool does with one message of the upstream: \<open>route_response\<close> of
  \<open>src/socket_proxy_router.rs\<close>, \<open>route_server_request\<close> and the choice of a capable client of
  \<open>src/socket_proxy_dispatch.rs\<close>, the recovery signal of \<open>src/socket_proxy_cache.rs\<close> and the wait for
  an upstream of \<open>src/socket_proxy_wait.rs\<close>.  The JSON text of a message is read by the argument
  \<open>parse\<close> (\<open>serde_json::from_str\<close>) and written by \<open>ser\<close>.  What other tasks do between two locks is in
  the record \<open>surroundings\<close>: the clients and the outcome seen by the i-th delivery, the outcome of a
  broadcast per channel, whether the upstream receiver is open and the recovery channel has room.
\<close>

record surroundings =
  sr_clients :: "nat \<Rightarrow> client_map"
  sr_outcome :: "nat \<Rightarrow> send_outcome"
  sr_blocking :: "nat \<Rightarrow> bool"
  sr_channel_outcome :: "nat \<Rightarrow> send_outcome"
  sr_channel_blocking :: "nat \<Rightarrow> bool"
  sr_upstream_open :: bool
  sr_recovery_room :: bool

record effects =
  ef_clients :: "(string \<times> string) list"
  ef_broadcast :: "nat list"
  ef_upstream :: "string list"
  ef_recover :: bool

definition no_effects :: effects where
  "no_effects = \<lparr>ef_clients = [], ef_broadcast = [], ef_upstream = [], ef_recover = False\<rparr>"

subsection \<open>Requests of the server\<close>

datatype required_capability = Sampling | Roots

definition required_capability :: "string \<Rightarrow> required_capability option" where
  "required_capability m =
     (if starts_with ''sampling/'' m then Some Sampling
      else if starts_with ''roots/'' m then Some Roots
      else None)"

fun has_required_capability :: "client_capabilities \<Rightarrow> required_capability \<Rightarrow> bool" where
  "has_required_capability capabilities Sampling = cap_sampling capabilities"
| "has_required_capability capabilities Roots = cap_roots capabilities"

definition capable_client ::
  "client_map \<Rightarrow> (string, client_capabilities) hmap \<Rightarrow> string option \<Rightarrow> required_capability
     \<Rightarrow> string option" where
  "capable_client clients capabilities last_active required =
     (let connected = (\<lambda>c. is_some (hm_get c clients));
          capable = (\<lambda>c. case hm_get c capabilities of
                           None \<Rightarrow> False
                         | Some caps \<Rightarrow> has_required_capability caps required)
      in case last_active of
           Some client_id \<Rightarrow>
             if connected client_id \<and> capable client_id then Some client_id
             else map_option fst
                    (find (\<lambda>e. connected (fst e) \<and> has_required_capability (snd e) required) capabilities)
         | None \<Rightarrow>
             map_option fst
               (find (\<lambda>e. connected (fst e) \<and> has_required_capability (snd e) required) capabilities))"

definition fallback_client :: "client_map \<Rightarrow> string option \<Rightarrow> string option" where
  "fallback_client clients last_active =
     (case last_active of
        Some client_id \<Rightarrow>
          if is_some (hm_get client_id clients) then Some client_id
          else (case hm_keys clients of [] \<Rightarrow> None | k # _ \<Rightarrow> Some k)
      | None \<Rightarrow> (case hm_keys clients of [] \<Rightarrow> None | k # _ \<Rightarrow> Some k))"

definition send_to_upstream :: "surroundings \<Rightarrow> nat option \<Rightarrow> string \<Rightarrow> string list" where
  "send_to_upstream env request_tx payload =
     (case request_tx of
        None \<Rightarrow> []
      | Some sender \<Rightarrow> if sr_upstream_open env then [payload] else [])"

definition deliver :: "surroundings \<Rightarrow> nat \<Rightarrow> string \<Rightarrow> string \<Rightarrow> (string \<times> string) list" where
  "deliver env i client_id payload =
     send_to_client (sr_clients env i) (sr_outcome env i) (sr_blocking env i) client_id payload"

definition route_server_request ::
  "serializer \<Rightarrow> surroundings \<Rightarrow> string \<Rightarrow> json \<Rightarrow> json \<Rightarrow> generation \<Rightarrow> effects" where
  "route_server_request ser env line value server_id g =
     (let m = (case Option.bind (vget ''method'' value) as_str of None \<Rightarrow> ''?'' | Some m \<Rightarrow> m)
      in case required_capability m of
           Some required \<Rightarrow>
             (case capable_client (g_clients g) (g_capabilities g) (g_last_active g) required of
                Some client_id \<Rightarrow> no_effects\<lparr>ef_clients := deliver env 0 client_id line\<rparr>
              | None \<Rightarrow>
                  no_effects\<lparr>ef_upstream :=
                    send_to_upstream env (g_request_tx g)
                      (build_error_response ser server_id (-32001)
                         (''no capable downstream client connected for '' @ m))\<rparr>)
         | None \<Rightarrow>
             (case fallback_client (g_clients g) (g_last_active g) of
                None \<Rightarrow> no_effects
              | Some client_id \<Rightarrow> no_effects\<lparr>ef_clients := deliver env 0 client_id line\<rparr>))"

lemma find_SomeD: "find P m = Some e \<Longrightarrow> e \<in> set m \<and> P e"
  by (auto simp: find_Some_iff)

lemma capable_client_Some:
  assumes "capable_client clients capabilities last_active required = Some c" and "hm_wf capabilities"
  shows "\<exists>caps. hm_get c capabilities = Some caps \<and> has_required_capability caps required
     \<and> hm_get c clients \<noteq> None"
  using assms
  by (auto simp: capable_client_def Let_def hm_get_iff dest!: find_SomeD
      split: option.splits if_splits)

lemma capable_client_None:
  assumes "capable_client clients capabilities last_active required = None"
    and "hm_get c capabilities = Some caps" and "has_required_capability caps required"
  shows "hm_get c clients = None"
  using assms hm_get_in [of c capabilities caps]
  by (auto simp: capable_client_def Let_def find_None_iff split: option.splits if_splits)

lemma capable_client_last_active:
  assumes "hm_get c capabilities = Some caps" and "has_required_capability caps required"
    and "hm_get c clients \<noteq> None"
  shows "capable_client clients capabilities (Some c) required = Some c"
  using assms by (auto simp: capable_client_def)

definition callback_method :: "json \<Rightarrow> required_capability option" where
  "callback_method value =
     Option.bind (Option.bind (vget ''method'' value) as_str) required_capability"

lemma callback_method_required:
  "callback_method value = Some required \<Longrightarrow>
     \<exists>m. Option.bind (vget ''method'' value) as_str = Some m \<and> required_capability m = Some required"
  by (auto simp: callback_method_def split: Option.bind_splits)

text \<open>C2: a sampling or roots request of the server is answered: when some connected client
  declared the capability, the line goes to such a client and to nobody else (to the last active
  one when it is one of them) and nothing goes upstream; when none is, no client sees the line and
  the upstream is told error -32001 under the server's own identifier.\<close>

theorem callback_routed_by_capability:
  assumes "callback_method value = Some required" and "hm_wf (g_capabilities g)"
    and able: "able = (\<lambda>c. hm_get c (g_clients g) \<noteq> None
           \<and> (\<exists>caps. hm_get c (g_capabilities g) = Some caps \<and> has_required_capability caps required))"
  shows "if \<exists>c. able c
         then \<exists>c. able c \<and> (\<forall>a. g_last_active g = Some a \<and> able a \<longrightarrow> c = a)
                \<and> route_server_request ser env line value server_id g
                    = no_effects\<lparr>ef_clients := deliver env 0 c line\<rparr>
         else \<exists>message. route_server_request ser env line value server_id g
                = no_effects\<lparr>ef_upstream := send_to_upstream env (g_request_tx g)
                     (build_error_response ser server_id (-32001) message)\<rparr>"
proof -
  from callback_method_required [OF assms(1)] obtain m where
    m: "Option.bind (vget ''method'' value) as_str = Some m" "required_capability m = Some required"
    by blast
  show ?thesis
  proof (cases "capable_client (g_clients g) (g_capabilities g) (g_last_active g) required")
    case None
    then have "\<not> (\<exists>c. able c)" using capable_client_None [OF None] by (auto simp: able)
    then show ?thesis using m None by (auto simp: route_server_request_def Let_def)
  next
    case (Some c)
    from capable_client_Some [OF Some assms(2)] have c: "able c" by (auto simp: able)
    moreover have "c = a" if "g_last_active g = Some a \<and> able a" for a
    proof -
      from that obtain caps where "hm_get a (g_capabilities g) = Some caps"
        "has_required_capability caps required" "hm_get a (g_clients g) \<noteq> None" by (auto simp: able)
      from capable_client_last_active [OF this] Some that show ?thesis by simp
    qed
    ultimately show ?thesis using m Some by (auto simp: route_server_request_def Let_def)
  qed
qed

definition sample_surroundings :: surroundings where
  "sample_surroundings = \<lparr>sr_clients = (\<lambda>_. [(''a'', 4)]), sr_outcome = (\<lambda>_. SendFull),
     sr_blocking = (\<lambda>_. True), sr_channel_outcome = (\<lambda>_. SendOk), sr_channel_blocking = (\<lambda>_. True),
     sr_upstream_open = True, sr_recovery_room = True\<rparr>"

theorem callback_routed_by_capability_witness:
  "let g = generation_new\<lparr>g_clients := [(''a'', 1), (''b'', 2)],
             g_capabilities := [(''a'', \<lparr>cap_sampling = False, cap_roots = True\<rparr>),
                                (''b'', \<lparr>cap_sampling = True, cap_roots = False\<rparr>)],
             g_last_active := Some ''a''\<rparr>;
       able = (\<lambda>c. hm_get c (g_clients g) \<noteq> None
           \<and> (\<exists>caps. hm_get c (g_capabilities g) = Some caps \<and> has_required_capability caps Sampling));
       value = JObject [(''method'', JString ''sampling/createMessage'')]
   in if \<exists>c. able c
      then \<exists>c. able c \<and> (\<forall>a. g_last_active g = Some a \<and> able a \<longrightarrow> c = a)
             \<and> route_server_request (\<lambda>_. ''x'') sample_surroundings ''line'' value JNull g
                 = no_effects\<lparr>ef_clients := deliver sample_surroundings 0 c ''line''\<rparr>
      else \<exists>message. route_server_request (\<lambda>_. ''x'') sample_surroundings ''line'' value JNull g
             = no_effects\<lparr>ef_upstream := send_to_upstream sample_surroundings (g_request_tx g)
                  (build_error_response (\<lambda>_. ''x'') JNull (-32001) message)\<rparr>"
  unfolding Let_def
  by (rule callback_routed_by_capability [OF _ _ refl])
     (simp_all add: callback_method_def required_capability_def obj_get_def)


subsection \<open>Routing one message of the upstream\<close>

fun deliver_all :: "surroundings \<Rightarrow> nat \<Rightarrow> (string \<times> string) list \<Rightarrow> (string \<times> string) list" where
  "deliver_all env i [] = []"
| "deliver_all env i ((client_id, payload) # rs) =
     deliver env i client_id payload @ deliver_all env (Suc i) rs"

definition broadcast :: "surroundings \<Rightarrow> generation \<Rightarrow> effects" where
  "broadcast env g = no_effects\<lparr>ef_broadcast :=
     broadcast_to_all (g_clients g) (sr_channel_outcome env) (sr_channel_blocking env)\<rparr>"

text \<open>
  \<open>request_recovery_if_session_not_found\<close>: whether the signal is in the channel, and the routes.
\<close>

definition request_recovery_if_session_not_found ::
  "surroundings \<Rightarrow> json \<Rightarrow> routes \<Rightarrow> bool \<times> routes" where
  "request_recovery_if_session_not_found env value rt =
     (if \<not> is_session_not_found_error value then (False, rt)
      else (sr_recovery_room env, rt_clear_handshake rt))"

definition route_response ::
  "serializer \<Rightarrow> (string \<Rightarrow> json option) \<Rightarrow> clock \<Rightarrow> surroundings \<Rightarrow> string \<Rightarrow> generation
     \<Rightarrow> effects \<times> generation" where
  "route_response ser parse c env line g =
     (case parse line of
        Some value \<Rightarrow>
          if is_object value then
            (case (message_has_method value, non_null_id value) of
               (True, Some ident) \<Rightarrow> (route_server_request ser env line value ident g, g)
             | (False, Some ident) \<Rightarrow>
                 (case rt_complete ser c ident value (g_routes g) of
                    (Some responses, rt) \<Rightarrow>
                      (case sweep_recipients (sr_clients env) (sr_outcome env) responses of
                         (sent, deferred) \<Rightarrow>
                           (case request_recovery_if_session_not_found env value rt of
                              (signal, rt') \<Rightarrow>
                                (no_effects\<lparr>ef_clients := sent @ deliver_all env (length responses) deferred,
                                   ef_recover := signal\<rparr>, g\<lparr>g_routes := rt'\<rparr>)))
                  | (None, rt) \<Rightarrow> (no_effects, g\<lparr>g_routes := rt\<rparr>))
             | (False, None) \<Rightarrow> (no_effects, g)
             | (True, None) \<Rightarrow>
                 (let g' = (if Option.bind (vget ''method'' value) as_str
                               = Some ''notifications/tools/list_changed''
                            then g\<lparr>g_routes := rt_invalidate_tools_list (g_routes g)\<rparr> else g)
                  in (broadcast env g', g')))
          else (broadcast env g, g)
      | None \<Rightarrow> (broadcast env g, g))"

definition attentive :: "surroundings \<Rightarrow> string \<Rightarrow> bool" where
  "attentive env client \<longleftrightarrow>
     (\<forall>i. hm_get client (sr_clients env i) \<noteq> None \<and> sr_outcome env i \<noteq> SendClosed \<and> sr_blocking env i)"

lemma deliver_attentive: "attentive env client \<Longrightarrow> deliver env i client payload = [(client, payload)]"
proof -
  assume a: "attentive env client"
  then obtain ch where "hm_get client (sr_clients env i) = Some ch" unfolding attentive_def by blast
  with a show ?thesis
    by (cases "sr_outcome env i") (auto simp: attentive_def deliver_def send_to_client_def)
qed

lemma deliver_other: "c \<noteq> client \<Longrightarrow> for_client client (deliver env i c payload) = []"
  by (auto simp: deliver_def send_to_client_def split: option.splits send_outcome.splits)

lemma deliver_all_attentive:
  "attentive env client \<Longrightarrow> for_client client (deliver_all env i rs) = for_client client rs"
  by (induction env i rs rule: deliver_all.induct) (auto simp: deliver_attentive deliver_other)

lemma delivery_of_responses:
  assumes "sweep_recipients (sr_clients env) (sr_outcome env) rs = (sent, deferred)"
    and "attentive env client"
  shows "for_client client (sent @ deliver_all env i deferred) = for_client client rs"
proof -
  have "\<And>j. hm_get client (sr_clients env j) \<noteq> None \<and> sr_outcome env j \<noteq> SendClosed"
    using assms(2) by (simp add: attentive_def)
  from sweep_complete [OF assms(1) [unfolded sweep_recipients_def] this] show ?thesis
    by (simp add: deliver_all_attentive [OF assms(2)])
qed

text \<open>Routing the upstream's answer removes its request from the table and delivers to every
  client that stays connected exactly its own responses, in their order, however the channels fill
  up; nothing is broadcast and nothing goes back upstream.\<close>

theorem answer_is_delivered_in_order:
  assumes "parse line = Some value" and "is_object value"
    and "\<not> message_has_method value" and "non_null_id value = Some ident"
    and "rt_complete ser c ident value (g_routes g) = (Some responses, rt)"
    and "attentive env client"
  shows "\<exists>ef g'. route_response ser parse c env line g = (ef, g')
       \<and> for_client client (ef_clients ef) = for_client client responses
       \<and> ef_broadcast ef = [] \<and> ef_upstream ef = []
       \<and> hm_get (id_key ser ident) (rt_requests (g_routes g')) = None
       \<and> (ef_recover ef \<longleftrightarrow> is_session_not_found_error value \<and> sr_recovery_room env)"
proof -
  obtain sent deferred where
    sweep: "sweep_recipients (sr_clients env) (sr_outcome env) responses = (sent, deferred)"
    by fastforce
  obtain signal rt' where
    rec: "request_recovery_if_session_not_found env value rt = (signal, rt')" by fastforce
  have "rt_requests rt = hm_remove (id_key ser ident) (rt_requests (g_routes g))"
    using assms(5) by (auto simp: rt_complete_def Let_def split: option.splits prod.splits)
  moreover have "rt_requests rt' = rt_requests rt"
    using rec by (auto simp: request_recovery_if_session_not_found_def rt_clear_handshake_def
        split: if_splits)
  ultimately have "hm_get (id_key ser ident) (rt_requests rt') = None"
    by (simp add: hm_get_remove)
  moreover have "signal \<longleftrightarrow> is_session_not_found_error value \<and> sr_recovery_room env"
    using rec by (auto simp: request_recovery_if_session_not_found_def split: if_splits)
  ultimately show ?thesis
    using delivery_of_responses [OF sweep assms(6), of "length responses"]
    by (simp add: route_response_def assms sweep rec no_effects_def)
qed

definition sample_request :: pending_request where
  "sample_request = \<lparr>pr_client_id = ''a'', pr_original_id = JString ''q'', pr_method = Some ''ping'',
     pr_cache_key = None, pr_tool = None, pr_inserted_at = 0, pr_expires_after = 300\<rparr>"

definition sample_waiting :: generation where
  "sample_waiting = generation_new\<lparr>g_clients := [(''a'', 4)],
     g_routes := routes_new\<lparr>rt_requests := [(''t'', sample_request)]\<rparr>\<rparr>"

theorem answer_is_delivered_in_order_witness:
  "\<exists>ef g'. route_response (\<lambda>_. ''t'') (\<lambda>_. Some (JObject [(''id'', JBool True)])) sample_clock
         sample_surroundings ''line'' sample_waiting = (ef, g')
       \<and> for_client ''a'' (ef_clients ef) = [(''a'', ''t'')]
       \<and> hm_get (id_key (\<lambda>_. ''t'') (JBool True)) (rt_requests (g_routes g')) = None"
proof -
  let ?v = "JObject [(''id'', JBool True)]"
  have done_: "rt_complete (\<lambda>_. ''t'') sample_clock (JBool True) ?v (g_routes sample_waiting)
      = (Some [(''a'', ''t'')], routes_new)"
    by (simp add: rt_complete_def sample_waiting_def sample_request_def generation_new_def
        routes_new_def hm_get_def hm_remove_def id_key_def with_id_def)
  have "attentive sample_surroundings ''a''"
    by (simp add: attentive_def sample_surroundings_def hm_get_def)
  from answer_is_delivered_in_order [where parse = "\<lambda>_. Some ?v", OF refl _ _ _ done_ this, of "''line''"]
  show ?thesis by (auto simp: message_has_method_def non_null_id_def obj_get_def)
qed

text \<open>Every message that is neither a response nor a request of the server reaches every open
  channel: what does not parse, what is not an object and every notification is broadcast to all
  connected channels, except the full ones whose receiver goes away; and a list-changed notification
  drops the cached tool list first.\<close>

theorem unaddressed_messages_are_broadcast:
  assumes "case parse line of None \<Rightarrow> True
     | Some value \<Rightarrow> is_object value \<longrightarrow> message_has_method value \<and> non_null_id value = None"
  shows "\<exists>ef g'. route_response ser parse c env line g = (ef, g')
       \<and> set (ef_broadcast ef) = {ch \<in> snd ` set (g_clients g). sr_channel_outcome env ch = SendOk
             \<or> (sr_channel_outcome env ch = SendFull \<and> sr_channel_blocking env ch)}
       \<and> ef_clients ef = [] \<and> ef_upstream ef = [] \<and> g_clients g' = g_clients g
       \<and> g_routes g' = (if Option.bind (Option.bind (parse line) (vget ''method'')) as_str
                              = Some ''notifications/tools/list_changed''
                         then rt_invalidate_tools_list (g_routes g) else g_routes g)"
proof (cases "parse line")
  case None
  then show ?thesis
    by (auto simp: route_response_def broadcast_def broadcast_reaches_open_channels no_effects_def)
next
  case (Some v)
  show ?thesis
  proof (cases "is_object v")
    case True
    with Some assms show ?thesis
      by (simp add: route_response_def broadcast_def broadcast_reaches_open_channels no_effects_def Let_def)
  next
    case False
    then have "vget ''method'' v = None" by (cases v) auto
    with Some False show ?thesis
      by (simp add: route_response_def broadcast_def broadcast_reaches_open_channels no_effects_def)
  qed
qed

theorem unaddressed_messages_are_broadcast_witness:
  "\<exists>ef g'. route_response (\<lambda>_. ''x'')
         (\<lambda>_. Some (JObject [(''method'', JString ''notifications/tools/list_changed'')]))
         sample_clock sample_surroundings ''line'' (generation_new\<lparr>g_clients := [(''a'', 4)]\<rparr>) = (ef, g')
     \<and> set (ef_broadcast ef) = {ch \<in> {4}. sr_channel_outcome sample_surroundings ch = SendOk
             \<or> (sr_channel_outcome sample_surroundings ch = SendFull \<and> sr_channel_blocking sample_surroundings ch)}"
  using unaddressed_messages_are_broadcast [of
      "\<lambda>_. Some (JObject [(''method'', JString ''notifications/tools/list_changed'')])" "''line''"
      "\<lambda>_. ''x''" sample_clock sample_surroundings "generation_new\<lparr>g_clients := [(''a'', 4)]\<rparr>"]
  by (auto simp: message_has_method_def non_null_id_def obj_get_def)

subsection \<open>Waiting for the upstream\<close>

text \<open>
  \<open>acquire_request_sender\<close>: the sender read first, then one reading of the sender and of the
  shutdown flag per turn of the loop.  \<open>None\<close> means that the caller still waits.
\<close>

fun acquire_loop :: "(nat option \<times> bool) list \<Rightarrow> nat option option" where
  "acquire_loop [] = None"
| "acquire_loop ((request_tx, shutdown) # readings) =
     (case request_tx of
        Some sender \<Rightarrow> Some (Some sender)
      | None \<Rightarrow> if shutdown then Some None else acquire_loop readings)"

definition acquire_request_sender :: "nat option \<Rightarrow> (nat option \<times> bool) list \<Rightarrow> nat option option" where
  "acquire_request_sender first readings =
     (case first of Some sender \<Rightarrow> Some (Some sender) | None \<Rightarrow> acquire_loop readings)"

lemma acquire_loop_returns:
  "(tx, stop) \<in> set readings \<Longrightarrow> tx \<noteq> None \<or> stop \<Longrightarrow> acquire_loop readings \<noteq> None"
  by (induction readings rule: acquire_loop.induct) (auto split: option.splits)

lemma acquire_loop_sender:
  "acquire_loop readings = Some (Some sender) \<Longrightarrow> Some sender \<in> fst ` set readings"
  by (induction readings rule: acquire_loop.induct) (auto split: option.splits if_splits)

lemma acquire_loop_stopped:
  "acquire_loop readings = Some None \<Longrightarrow> True \<in> snd ` set readings"
  by (induction readings rule: acquire_loop.induct) (auto split: option.splits if_splits)

text \<open>A client that waits for the upstream waits no longer than until the sender is published
  or the generation shuts down; it gives up only after a shutdown and never returns a sender that
  was not published.\<close>

theorem waiting_for_the_upstream_ends:
  "(first \<noteq> None \<or> (\<exists>r \<in> set readings. fst r \<noteq> None \<or> snd r)
       \<longleftrightarrow> acquire_request_sender first readings \<noteq> None)
   \<and> (acquire_request_sender first readings = Some None
       \<longrightarrow> first = None \<and> True \<in> snd ` set readings)
   \<and> (acquire_request_sender first readings = Some (Some sender)
       \<longrightarrow> first = Some sender \<or> Some sender \<in> fst ` set readings)"
proof -
  have "acquire_loop readings \<noteq> None \<Longrightarrow> \<exists>r \<in> set readings. fst r \<noteq> None \<or> snd r"
    by (induction readings rule: acquire_loop.induct) (auto split: option.splits if_splits)
  then show ?thesis
    using acquire_loop_returns acquire_loop_sender acquire_loop_stopped
    by (fastforce simp: acquire_request_sender_def split: option.splits)
qed

theorem waiting_for_the_upstream_ends_witness:
  "acquire_request_sender None [(None, False), (Some 3, False)] = Some (Some 3)
   \<and> Some 3 \<in> fst ` set [(None :: nat option, False), (Some 3, False)]"
  using waiting_for_the_upstream_ends [of None "[(None, False), (Some 3, False)]" 3]
  by (auto simp: acquire_request_sender_def)

end
