(* ===== verification/Client.thy ===== *)
theory Client
  imports Router RouteRuns
begin

text \<open>
  The task of one connected client (\<open>handle_client\<close> in \<open>src/socket_proxy_client.rs\<close>): what it does
  with a line of the client, as a function of the generation, and its \<open>select!\<close> loop, as a step
  relation in which the generation may change arbitrarily between two steps.  The i-th reading of
  the clock while a line is handled is \<open>now c i\<close>.
\<close>

datatype client_action =
    Forward string "string option" "string option" "u64 option"
  | CachedAnswer string
  | DropLine

definition REQUEST_TTL :: duration where
  "REQUEST_TTL = 300 * 1000"

definition expiry_floor :: "duration \<Rightarrow> cacheable_method option \<Rightarrow> duration" where
  "expiry_floor shared_timeout cache_key =
     max REQUEST_TTL (if is_some cache_key then shared_timeout else 0)"

definition expires_after :: "duration \<Rightarrow> cacheable_method option \<Rightarrow> u64 option \<Rightarrow> duration" where
  "expires_after shared_timeout cache_key timeout =
     max (case timeout of Some ms \<Rightarrow> unat ms | None \<Rightarrow> expiry_floor shared_timeout cache_key)
         (expiry_floor shared_timeout cache_key)"

definition transport_timeout :: "duration \<Rightarrow> u64 option \<Rightarrow> duration" where
  "transport_timeout shared_timeout timeout =
     max (case timeout of Some ms \<Rightarrow> unat ms | None \<Rightarrow> shared_timeout) shared_timeout"

definition reject_line :: "serializer \<Rightarrow> json \<Rightarrow> string \<Rightarrow> client_action" where
  "reject_line ser value message =
     CachedAnswer (build_error_response ser
       (case non_null_id value of Some i \<Rightarrow> i | None \<Rightarrow> JNull) (-32602) message)"

fun remove_timeout :: "json \<Rightarrow> json" where
  "remove_timeout (JObject object) = JObject (obj_remove TIMEOUT_FIELD object)"
| "remove_timeout value = value"

definition method_of :: "json \<Rightarrow> string option" where
  "method_of value = Option.bind (vget ''method'' value) as_str"

text \<open>A request: its capabilities are noted, it is admitted, and a leader is forwarded.\<close>

definition pending_of ::
  "clock \<Rightarrow> string \<Rightarrow> json \<Rightarrow> json \<Rightarrow> cacheable_method option \<Rightarrow> duration \<Rightarrow> pending_request" where
  "pending_of c client_id original_id value cache_key expires =
     \<lparr>pr_client_id = client_id, pr_original_id = original_id, pr_method = method_of value,
      pr_cache_key = cache_key,
      pr_tool = (if method_of value = Some ''tools/call'' then tool_name value else None),
      pr_inserted_at = now c 3, pr_expires_after = expires\<rparr>"

definition client_request ::
  "serializer \<Rightarrow> clock \<Rightarrow> string \<Rightarrow> string \<Rightarrow> json \<Rightarrow> json \<Rightarrow> cacheable_method option \<Rightarrow> duration
     \<Rightarrow> instant \<Rightarrow> generation \<Rightarrow> client_action \<times> generation" where
  "client_request ser c client_id line value original_id cache_key expires transport_deadline g =
     (let p = pending_of c client_id original_id value cache_key expires;
          g1 = (if method_of value = Some ''initialize''
                then g\<lparr>g_capabilities :=
                         hm_insert client_id (parse_client_capabilities value) (g_capabilities g)\<rparr>
                else g)
      in case rt_admit ser (later 4 c) p transport_deadline (g_routes g1) of
           (admission, rt) \<Rightarrow>
             (let g2 = g1\<lparr>g_routes := rt\<rparr> in
              case admission of
                RouteCached response \<Rightarrow> (CachedAnswer response, g2)
              | RouteCoalesced \<Rightarrow> (DropLine, g2)
              | RouteLeader pool_id \<Rightarrow>
                  (Forward (case value of JObject object \<Rightarrow> with_id ser object (from_u64 pool_id) | _ \<Rightarrow> line)
                     (method_of value) (pr_tool p) (Some pool_id),
                   g2\<lparr>g_last_active := Some client_id\<rparr>)))"

text \<open>A notification or a response: swallowed or forwarded as it is.\<close>

definition client_notification ::
  "serializer \<Rightarrow> string \<Rightarrow> json \<Rightarrow> bool \<Rightarrow> generation \<Rightarrow> client_action \<times> generation" where
  "client_notification ser line value timeout_removed g =
     (case rt_swallow_initialized value (g_routes g) of
        (swallowed, rt) \<Rightarrow>
          (if swallowed then DropLine
           else Forward (if timeout_removed then ser value else line) (method_of value) None None,
           g\<lparr>g_routes := rt\<rparr>))"

definition client_object ::
  "serializer \<Rightarrow> clock \<Rightarrow> bool \<Rightarrow> duration \<Rightarrow> string \<Rightarrow> string \<Rightarrow> json \<Rightarrow> generation
     \<Rightarrow> client_action \<times> generation" where
  "client_object ser c remote shared_timeout client_id line value0 g =
     (case timeout_ms c value0 of
        Inl error \<Rightarrow> (reject_line ser value0 error, g)
      | Inr timeout \<Rightarrow>
          (let cache_key = cacheable_request value0;
               expires = expires_after shared_timeout cache_key timeout in
           case checked_add c (now c 1) expires of
             None \<Rightarrow> (reject_line ser value0 ''Pool request timeout exceeds the clock range'', g)
           | Some _ \<Rightarrow>
               (case checked_add c (now c 2) (transport_timeout shared_timeout timeout) of
                  None \<Rightarrow> (reject_line ser value0 ''Pool request timeout exceeds the clock range'', g)
                | Some transport_deadline \<Rightarrow>
                    (let timeout_removed = (\<not> remote \<and> is_some timeout);
                         value = (if timeout_removed then remove_timeout value0 else value0) in
                     case (message_has_method value, non_null_id value) of
                       (True, Some original_id) \<Rightarrow>
                         client_request ser c client_id line value original_id cache_key expires
                           transport_deadline g
                     | _ \<Rightarrow> client_notification ser line value timeout_removed g))))"

definition client_line ::
  "serializer \<Rightarrow> (string \<Rightarrow> json option) \<Rightarrow> clock \<Rightarrow> bool \<Rightarrow> duration \<Rightarrow> string \<Rightarrow> string \<Rightarrow> generation
     \<Rightarrow> client_action \<times> generation" where
  "client_line ser parse c remote shared_timeout client_id line g =
     (case parse line of
        Some value \<Rightarrow>
          if is_object value then client_object ser c remote shared_timeout client_id line value g
          else (Forward line None None None, g)
      | None \<Rightarrow> (Forward line None None None, g))"

text \<open>The line that \<open>read_line\<close> leaves in the buffer, without its newline.\<close>

definition line_of :: "string \<Rightarrow> string" where
  "line_of buffer = rev (dropWhile (\<lambda>ch. ch = CHR 0x0A) (rev buffer))"

subsection \<open>What becomes of a request\<close>

lemma expires_after_bounds:
  "REQUEST_TTL \<le> expires_after shared_timeout key timeout"
  "timeout = Some ms \<Longrightarrow> unat ms \<le> expires_after shared_timeout key timeout"
  "key = Some m \<Longrightarrow> shared_timeout \<le> expires_after shared_timeout key timeout"
  by (auto simp: expires_after_def expiry_floor_def split: option.splits)

lemma remove_timeout_kept:
  assumes "obj_wf object" and "k \<noteq> TIMEOUT_FIELD"
  shows "vget k (remove_timeout (JObject object)) = vget k (JObject object)"
  using assms by (simp add: obj_get_remove)

lemma remove_timeout_gone: "obj_wf object \<Longrightarrow> vget TIMEOUT_FIELD (remove_timeout (JObject object)) = None"
  by (simp add: obj_get_remove)

lemma timeout_field_distinct: "''method'' \<noteq> TIMEOUT_FIELD" "''id'' \<noteq> TIMEOUT_FIELD"
  by (simp_all add: TIMEOUT_FIELD_def)

lemma client_request_outstanding:
  assumes req: "client_request ser c client_id line value original_id key expires td g = (a, g')"
    and fresh: "fresh_id ser (g_routes g)"
  shows "case a of
      CachedAnswer _ \<Rightarrow> outstanding (g_routes g') = outstanding (g_routes g)
    | DropLine \<Rightarrow> outstanding (g_routes g') = add_mset (client_id, original_id) (outstanding (g_routes g))
    | Forward l m t pid \<Rightarrow>
        outstanding (g_routes g') = add_mset (client_id, original_id) (outstanding (g_routes g))
        \<and> (\<exists>i. pid = Some i
             \<and> hm_get (pool_key ser i) (rt_requests (g_routes g'))
                 = Some (pending_of c client_id original_id value key expires)
             \<and> (\<forall>object. value = JObject object \<longrightarrow> l = with_id ser object (from_u64 i)))"
proof -
  define p where "p = pending_of c client_id original_id value key expires"
  obtain adm rt where adm: "rt_admit ser (later 4 c) p td (g_routes g) = (adm, rt)" by fastforce
  from rt_admit_outstanding [OF adm fresh]
  have out: "outstanding rt = outstanding (g_routes g) + accepted_owner adm p" .
  have owner: "request_owner p = (client_id, original_id)"
    by (simp add: p_def pending_of_def request_owner_def)
  have routes: "g_routes g' = rt"
    using req adm by (auto simp: client_request_def Let_def p_def split: route_admission.splits if_splits)
  show ?thesis
  proof (cases adm)
    case (RouteLeader i)
    have "hm_get (pool_key ser i) (rt_requests rt) = Some p"
      using adm unfolding RouteLeader by (cases rule: rt_admit_cases) (simp_all add: hm_get_insert)
    with RouteLeader req adm out owner routes show ?thesis
      by (auto simp: client_request_def Let_def p_def accepted_owner_def split: if_splits)
  qed (use req adm out owner routes in
        \<open>auto simp: client_request_def Let_def p_def accepted_owner_def split: if_splits\<close>)
qed


lemma client_object_cases:
  assumes "client_object ser c remote shared client_id line value0 g = (a, g')"
  obtains (rejected) message where "a = reject_line ser value0 message" "g' = g"
      "(\<exists>e. timeout_ms c value0 = Inl e)
       \<or> (\<exists>t. timeout_ms c value0 = Inr t
            \<and> (checked_add c (now c 1) (expires_after shared (cacheable_request value0) t) = None
               \<or> checked_add c (now c 2) (transport_timeout shared t) = None))"
  | (request) t td v original_id where "timeout_ms c value0 = Inr t"
      "v = (if \<not> remote \<and> is_some t then remove_timeout value0 else value0)"
      "checked_add c (now c 1) (expires_after shared (cacheable_request value0) t) \<noteq> None"
      "checked_add c (now c 2) (transport_timeout shared t) = Some td"
      "message_has_method v" "non_null_id v = Some original_id"
      "client_request ser c client_id line v original_id (cacheable_request value0)
         (expires_after shared (cacheable_request value0) t) td g = (a, g')"
  | (notification) t v where "timeout_ms c value0 = Inr t"
      "v = (if \<not> remote \<and> is_some t then remove_timeout value0 else value0)"
      "\<not> message_has_method v \<or> non_null_id v = None"
      "client_notification ser line v (\<not> remote \<and> is_some t) g = (a, g')"
proof (cases "timeout_ms c value0")
  case (Inl e)
  with assms rejected [of e] show ?thesis by (auto simp: client_object_def)
next
  case (Inr t)
  let ?v = "if \<not> remote \<and> is_some t then remove_timeout value0 else value0"
  show ?thesis
  proof (cases "checked_add c (now c 1) (expires_after shared (cacheable_request value0) t) = None
      \<or> checked_add c (now c 2) (transport_timeout shared t) = None")
    case True
    with Inr assms rejected [of "''Pool request timeout exceeds the clock range''"] show ?thesis
      by (auto simp: client_object_def Let_def split: option.splits)
  next
    case False
    then obtain td u where d: "checked_add c (now c 2) (transport_timeout shared t) = Some td"
      "checked_add c (now c 1) (expires_after shared (cacheable_request value0) t) = Some u" by auto
    show ?thesis
    proof (cases "message_has_method ?v \<and> non_null_id ?v \<noteq> None")
      case True
      then obtain i where i: "message_has_method ?v" "non_null_id ?v = Some i" by auto
      have "client_request ser c client_id line ?v i (cacheable_request value0)
         (expires_after shared (cacheable_request value0) t) td g = (a, g')"
        using assms Inr d i unfolding client_object_def Let_def by simp
      from request [OF Inr refl _ d(1) i this] d(2) show ?thesis by simp
    next
      case no: False
      have "client_notification ser line ?v (\<not> remote \<and> is_some t) g = (a, g')"
        using assms Inr d no unfolding client_object_def Let_def
        by (simp split: bool.splits option.splits split del: if_split)
      from notification [OF Inr refl _ this] no show ?thesis by auto
    qed
  qed
qed

lemma remove_timeout_request:
  assumes "obj_wf object" "value = (if b then remove_timeout (JObject object) else JObject object)"
  shows "message_has_method value = message_has_method (JObject object)"
    "non_null_id value = non_null_id (JObject object)"
  using assms remove_timeout_kept [OF assms(1)] timeout_field_distinct
  by (simp_all add: message_has_method_def non_null_id_def del: vget.simps remove_timeout.simps)

lemma remove_timeout_result:
  assumes "obj_wf object" "timeout_ms c (JObject object) = Inr t"
    "value = (if \<not> remote \<and> is_some t then remove_timeout (JObject object) else JObject object)"
  shows "\<exists>object'. value = JObject object' \<and> (\<not> remote \<longrightarrow> obj_get TIMEOUT_FIELD object' = None)
     \<and> (\<forall>k. k \<noteq> TIMEOUT_FIELD \<longrightarrow> obj_get k object' = obj_get k object)"
  using assms timeout_ms_None [of c "JObject object"]
  by (cases t) (auto simp: obj_get_remove)



definition sample_object :: obj where
  "sample_object = [(''id'', JString ''q''), (''method'', JString ''ping''),
     (TIMEOUT_FIELD, JNumber (PosInt 400000))]"


subsection \<open>The task\<close>

text \<open>
  \<open>ct_pending\<close> is the one forward that waits for the upstream (\<open>pending_forward\<close>), \<open>ct_written\<close> the
  lines written to the client, \<open>ct_open\<close> whether the loop still runs.
\<close>

record client_task =
  ct_pending :: "(u64 option \<times> string) option"
  ct_written :: "string list"
  ct_open :: bool

definition client_task_new :: client_task where
  "client_task_new = \<lparr>ct_pending = None, ct_written = [], ct_open = True\<rparr>"

datatype client_output =
    Quiet
  | Accepted "u64 option" string
  | Published upstream_request
  | Withdrawn

definition write_line :: "string \<Rightarrow> client_task \<Rightarrow> client_task" where
  "write_line message t = t\<lparr>ct_written := ct_written t @ [message @ [CHR 0x0A]]\<rparr>"

text \<open>After a message is written, a pending forward whose route is gone is dropped.\<close>

definition withdraw :: "serializer \<Rightarrow> generation \<Rightarrow> client_task \<Rightarrow> client_task" where
  "withdraw ser g t =
     (case ct_pending t of
        Some (Some pool_id, line) \<Rightarrow>
          if rt_contains ser pool_id (g_routes g) then t else t\<lparr>ct_pending := None\<rparr>
      | _ \<Rightarrow> t)"

text \<open>
  The \<open>select!\<close> loop of \<open>handle_client\<close>: one constructor per branch and per way a branch ends.
  \<open>others\<close> is a step of any other task on the generation.
\<close>

inductive client_step ::
  "serializer \<Rightarrow> (string \<Rightarrow> json option) \<Rightarrow> bool \<Rightarrow> duration \<Rightarrow> string
     \<Rightarrow> client_task \<times> generation \<Rightarrow> client_output \<Rightarrow> client_task \<times> generation \<Rightarrow> bool"
  for ser parse remote shared client_id where
  others: "ct_open t \<Longrightarrow> client_step ser parse remote shared client_id (t, g) Quiet (t, g')"
| shutdown: "ct_open t \<Longrightarrow> g_shutdown g \<Longrightarrow>
    client_step ser parse remote shared client_id (t, g) Quiet (t\<lparr>ct_open := False\<rparr>, g)"
| publish: "ct_open t \<Longrightarrow> ct_pending t = Some (pool_id, line) \<Longrightarrow> g_request_tx g = Some sender \<Longrightarrow>
    rt_publish ser pool_id (g_shutdown g) line (g_routes g) = Some r \<Longrightarrow>
    client_step ser parse remote shared client_id (t, g) (Published r) (t\<lparr>ct_pending := None\<rparr>, g)"
| expired: "ct_open t \<Longrightarrow> ct_pending t = Some (pool_id, line) \<Longrightarrow> g_request_tx g = Some sender \<Longrightarrow>
    rt_publish ser pool_id (g_shutdown g) line (g_routes g) = None \<Longrightarrow>
    client_step ser parse remote shared client_id (t, g) Withdrawn (t\<lparr>ct_pending := None\<rparr>, g)"
| no_upstream: "ct_open t \<Longrightarrow> ct_pending t = Some forward \<Longrightarrow> g_shutdown g \<Longrightarrow>
    client_step ser parse remote shared client_id (t, g) Withdrawn (t\<lparr>ct_pending := None\<rparr>, g)"
| upstream_closed: "ct_open t \<Longrightarrow> ct_pending t = Some forward \<Longrightarrow> g_request_tx g = Some sender \<Longrightarrow>
    client_step ser parse remote shared client_id (t, g) Withdrawn
      (t\<lparr>ct_pending := None, ct_open := False\<rparr>, g)"
| end_of_input: "ct_open t \<Longrightarrow> ct_pending t = None \<Longrightarrow>
    client_step ser parse remote shared client_id (t, g) Quiet (t\<lparr>ct_open := False\<rparr>, g)"
| empty_line: "ct_open t \<Longrightarrow> ct_pending t = None \<Longrightarrow> line_of buffer = [] \<Longrightarrow>
    client_step ser parse remote shared client_id (t, g) Quiet (t, g)"
| forward_line: "ct_open t \<Longrightarrow> ct_pending t = None \<Longrightarrow> line_of buffer \<noteq> [] \<Longrightarrow>
    client_line ser parse c remote shared client_id (line_of buffer) g = (Forward line m tool pool_id, g') \<Longrightarrow>
    client_step ser parse remote shared client_id (t, g) (Accepted pool_id line)
      (t\<lparr>ct_pending := Some (pool_id, line)\<rparr>, g')"
| drop_line: "ct_open t \<Longrightarrow> ct_pending t = None \<Longrightarrow> line_of buffer \<noteq> [] \<Longrightarrow>
    client_line ser parse c remote shared client_id (line_of buffer) g = (DropLine, g') \<Longrightarrow>
    client_step ser parse remote shared client_id (t, g) Quiet (t, g')"
| answer_line: "ct_open t \<Longrightarrow> ct_pending t = None \<Longrightarrow> line_of buffer \<noteq> [] \<Longrightarrow>
    client_line ser parse c remote shared client_id (line_of buffer) g = (CachedAnswer response, g') \<Longrightarrow>
    t' = (if written then write_line response t else t\<lparr>ct_open := False\<rparr>) \<Longrightarrow>
    client_step ser parse remote shared client_id (t, g) Quiet (t', g')"
| message: "ct_open t \<Longrightarrow>
    client_step ser parse remote shared client_id (t, g) Quiet (withdraw ser g (write_line payload t), g)"
| message_failed: "ct_open t \<Longrightarrow>
    client_step ser parse remote shared client_id (t, g) Quiet (t\<lparr>ct_open := False\<rparr>, g)"

text \<open>Runs of the task, with the outputs in order.\<close>

inductive client_run ::
  "serializer \<Rightarrow> (string \<Rightarrow> json option) \<Rightarrow> bool \<Rightarrow> duration \<Rightarrow> string
     \<Rightarrow> client_task \<times> generation \<Rightarrow> client_output list \<Rightarrow> client_task \<times> generation \<Rightarrow> bool"
  for ser parse remote shared client_id where
  start: "client_run ser parse remote shared client_id s [] s"
| step: "client_run ser parse remote shared client_id s os s' \<Longrightarrow>
    client_step ser parse remote shared client_id s' out s'' \<Longrightarrow>
    client_run ser parse remote shared client_id s (os @ [out]) s''"

inductive_cases publish_stepE:
  "client_step ser parse remote shared client_id (t, g) (Published r) (t', g')"

inductive_cases accept_stepE:
  "client_step ser parse remote shared client_id (t, g) (Accepted pool_id line) (t', g')"

fun accepted_line :: "client_output \<Rightarrow> string list" where
  "accepted_line (Accepted pool_id line) = [line]"
| "accepted_line out = []"

fun published_line :: "client_output \<Rightarrow> string list" where
  "published_line (Published r) = [ur_line r]"
| "published_line out = []"

abbreviation accepted_lines :: "client_output list \<Rightarrow> string list" where
  "accepted_lines os \<equiv> concat (map accepted_line os)"

abbreviation published_lines :: "client_output list \<Rightarrow> string list" where
  "published_lines os \<equiv> concat (map published_line os)"

definition pending_line :: "client_task \<Rightarrow> string list" where
  "pending_line t = (case ct_pending t of None \<Rightarrow> [] | Some (pool_id, line) \<Rightarrow> [line])"

lemma published_is_pending:
  "rt_publish ser pool_id stopped line rt = Some r \<Longrightarrow>
     ur_line r = line \<and> \<not> stopped \<and> (\<forall>i. pool_id = Some i \<longrightarrow> rt_contains ser i rt)"
  by (auto simp: rt_publish_def rt_contains_def split: if_splits option.splits)

lemma pending_line_withdraw: "subseq (pending_line (withdraw ser g t)) (pending_line t)"
  by (auto simp: pending_line_def withdraw_def split: option.splits)

lemma pending_line_write [simp]: "pending_line (write_line m t) = pending_line t"
  by (simp add: pending_line_def write_line_def)

lemma client_step_order:
  assumes "client_step ser parse remote shared client_id s out s'"
    and "subseq (pub @ pending_line (fst s)) acc"
  shows "subseq (pub @ published_line out @ pending_line (fst s')) (acc @ accepted_line out)"
  using assms
proof cases
  case (message t g payload)
  have "subseq (pending_line (withdraw ser g (write_line payload t))) (pending_line t)"
    using pending_line_withdraw [of ser g "write_line payload t"] by simp
  with message assms(2) show ?thesis
    by (auto intro: subseq_order.trans list_emb_append_mono)
qed (use assms(2) in \<open>auto simp: pending_line_def write_line_def dest!: published_is_pending
        intro: subseq_order.trans list_emb_append_mono\<close>)


lemma client_run_order:
  "client_run ser parse remote shared client_id s os s' \<Longrightarrow> pending_line (fst s) = [] \<Longrightarrow>
     subseq (published_lines os @ pending_line (fst s')) (accepted_lines os)"
proof (induction rule: client_run.induct)
  case (step s os s' out s'')
  from client_step_order [OF step.hyps(2) step.IH [OF step.prems]] show ?case by simp
qed simp

lemma subseq_append_left: "subseq (a @ b) c \<Longrightarrow> subseq a c"
  by (meson list_emb_append2 prefix_imp_subseq prefixI subseq_order.trans)

text \<open>What a client sends reaches the upstream in the order of its input and at most once: along
  every run of the client's task, whatever the other tasks do to the generation between its steps,
  the lines published upstream are a subsequence of the lines accepted from the client, and at
  most one more accepted line still waits.\<close>

theorem forwards_keep_input_order:
  assumes "client_run ser parse remote shared client_id (client_task_new, g) os (t, g')"
  shows "subseq (published_lines os) (accepted_lines os)
       \<and> subseq (published_lines os @ pending_line t) (accepted_lines os)
       \<and> length (pending_line t) \<le> 1"
proof -
  have "pending_line (fst (client_task_new, g)) = []"
    by (simp add: pending_line_def client_task_new_def)
  from client_run_order [OF assms this]
  have "subseq (published_lines os @ pending_line t) (accepted_lines os)" by simp
  moreover from this have "subseq (published_lines os) (accepted_lines os)"
    by (rule subseq_append_left)
  moreover have "length (pending_line t) \<le> 1" by (auto simp: pending_line_def split: option.splits)
  ultimately show ?thesis by blast
qed

definition sample_ready :: generation where
  "sample_ready = generation_new\<lparr>g_request_tx := Some 7\<rparr>"

lemma sample_client_run:
  "client_run ser (\<lambda>_. None) remote shared client_id (client_task_new, sample_ready)
     ([] @ [Accepted None ''one''] @ [Published \<lparr>ur_line = ''one'', ur_deadline = None\<rparr>])
     (client_task_new, sample_ready)"
proof -
  let ?run = "client_run ser (\<lambda>_. None) remote shared client_id (client_task_new, sample_ready)"
  let ?t = "client_task_new\<lparr>ct_pending := Some (None, ''one'')\<rparr>"
  have "?run [] (client_task_new, sample_ready)" by (rule client_run.start)
  moreover have "client_step ser (\<lambda>_. None) remote shared client_id (client_task_new, sample_ready)
      (Accepted None ''one'') (?t, sample_ready)"
    by (rule client_step.forward_line [where buffer = "''one''" and m = None and tool = None])
       (simp_all add: client_task_new_def client_line_def line_of_def)
  ultimately have "?run ([] @ [Accepted None ''one'']) (?t, sample_ready)" by (rule client_run.step)
  moreover have "client_step ser (\<lambda>_. None) remote shared client_id (?t, sample_ready)
      (Published \<lparr>ur_line = ''one'', ur_deadline = None\<rparr>) (?t\<lparr>ct_pending := None\<rparr>, sample_ready)"
    by (rule client_step.publish [where sender = 7 and pool_id = None])
       (simp_all add: client_task_new_def sample_ready_def generation_new_def rt_publish_def)
  ultimately have "?run (([] @ [Accepted None ''one'']) @ [Published \<lparr>ur_line = ''one'', ur_deadline = None\<rparr>])
      (?t\<lparr>ct_pending := None\<rparr>, sample_ready)" by (rule client_run.step)
  then show ?thesis by (simp add: client_task_new_def)
qed

theorem forwards_keep_input_order_witness:
  "subseq (published_lines [Accepted None ''one'', Published \<lparr>ur_line = ''one'', ur_deadline = None\<rparr>])
     [''one'']"
  using forwards_keep_input_order
    [OF sample_client_run [of "\<lambda>_. []" False 0 "''a''", unfolded append.simps]] by simp

text \<open>Nothing is published for a request that is no longer in the table, nor after the shutdown
  flag is up: a step that publishes a pool identifier finds its request in the table and the flag
  down, and the line is the one accepted for it.\<close>

theorem expired_requests_are_not_published:
  assumes "client_step ser parse remote shared client_id (t, g) (Published r) (t', g')"
  shows "\<not> g_shutdown g \<and> ct_pending t' = None
    \<and> (\<exists>pool_id. ct_pending t = Some (pool_id, ur_line r)
         \<and> (\<forall>i. pool_id = Some i \<longrightarrow> rt_contains ser i (g_routes g)))"
  using assms by (rule publish_stepE) (auto dest!: published_is_pending)

theorem expired_requests_are_not_published_witness:
  "\<exists>r. client_step (\<lambda>_. []) (\<lambda>_. None) False 0 ''a''
         (client_task_new\<lparr>ct_pending := Some (None, ''one'')\<rparr>, sample_ready) (Published r)
         (client_task_new, sample_ready)
     \<and> \<not> g_shutdown sample_ready"
proof -
  have "client_step (\<lambda>_. []) (\<lambda>_. None) False 0 ''a''
      (client_task_new\<lparr>ct_pending := Some (None, ''one'')\<rparr>, sample_ready)
      (Published \<lparr>ur_line = ''one'', ur_deadline = None\<rparr>)
      (client_task_new\<lparr>ct_pending := Some (None, ''one''), ct_pending := None\<rparr>, sample_ready)"
    by (rule client_step.publish [where sender = 7 and pool_id = None])
       (simp_all add: client_task_new_def sample_ready_def generation_new_def rt_publish_def)
  then have "client_step (\<lambda>_. []) (\<lambda>_. None) False 0 ''a''
      (client_task_new\<lparr>ct_pending := Some (None, ''one'')\<rparr>, sample_ready)
      (Published \<lparr>ur_line = ''one'', ur_deadline = None\<rparr>) (client_task_new, sample_ready)"
    by (simp add: client_task_new_def)
  with expired_requests_are_not_published [OF this] show ?thesis by blast
qed

subsection \<open>The end of the task\<close>

text \<open>
  What the task does when its loop is over: after a shutdown it writes the messages already in
  its channel, \<open>writable\<close> of them, then it takes itself off the tables.
\<close>

definition client_cleanup ::
  "string \<Rightarrow> string list \<Rightarrow> nat \<Rightarrow> client_task \<times> generation \<Rightarrow> client_task \<times> generation" where
  "client_cleanup client_id queued writable s =
     (case s of
        (t, g) \<Rightarrow>
          (if g_shutdown g then fold write_line (take writable queued) t else t,
           g\<lparr>g_routes := rt_disconnect client_id (g_routes g),
             g_clients := hm_remove client_id (g_clients g),
             g_capabilities := hm_remove client_id (g_capabilities g)\<rparr>))"

lemma client_cleanup_gone:
  assumes "client_cleanup client_id queued writable (t, g) = (t', g')"
  shows "hm_get client_id (g_clients g') = None \<and> hm_get client_id (g_capabilities g') = None"
  using assms by (auto simp: client_cleanup_def hm_get_remove)


lemma filter_owners_disconnect:
  "filter_mset (\<lambda>ow. fst ow \<noteq> client) (outstanding (rt_disconnect client rt))
     = filter_mset (\<lambda>ow. fst ow \<noteq> client) (outstanding rt)"
proof -
  obtain requests hc where d: "hc_disconnect (rt_requests rt) client (rt_cache rt) = (requests, hc)"
    by fastforce
  note views = hc_disconnect_views [OF d]
  let ?keep = "\<lambda>ow. fst ow \<noteq> client"
  have waiters: "filter_mset ?keep (image_mset waiter_owner (mset (hc_waiters m hc)))
      = filter_mset ?keep (image_mset waiter_owner (mset (hc_waiters m (rt_cache rt))))" for m
    using views [of m] by (simp add: filter_mset_image_mset waiter_owner_def multiset.map_comp
        flip: mset_filter)
  have "filter_mset ?keep (image_mset (request_owner \<circ> snd) (mset requests))
      = filter_mset ?keep (image_mset (request_owner \<circ> snd) (mset (rt_requests rt)))"
  proof -
    have "filter (\<lambda>e. pr_client_id (snd e) \<noteq> client) requests
        = filter (\<lambda>e. pr_client_id (snd e) \<noteq> client) (rt_requests rt)"
      using views [of Initialize] by (auto simp: hm_retain_def intro!: filter_cong)
    then show ?thesis
      by (simp add: filter_mset_image_mset request_owner_def comp_def flip: mset_filter)
  qed
  then show ?thesis
    by (simp add: outstanding_def rt_disconnect_def d cache_owners_def waiters)
qed

text \<open>A client that goes away takes only its own with it: no other client's owed answer, channel or
  capability changes; the client's waiters and its own unshared requests are dropped, and the
  requests it leads for others stay, so that those are still answered.\<close>

theorem disconnect_affects_only_the_client:
  assumes "client_cleanup client_id queued writable (t, g) = (t', g')"
  shows "filter_mset (\<lambda>ow. fst ow \<noteq> client_id) (outstanding (g_routes g'))
           = filter_mset (\<lambda>ow. fst ow \<noteq> client_id) (outstanding (g_routes g))
    \<and> (\<forall>m. \<forall>w \<in> set (hc_waiters m (rt_cache (g_routes g'))). pw_client_id w \<noteq> client_id)
    \<and> rt_requests (g_routes g') = filter (\<lambda>e. pr_client_id (snd e) \<noteq> client_id \<or> pr_cache_key (snd e) \<noteq> None)
           (rt_requests (g_routes g))
    \<and> (\<forall>other. hm_get other (g_clients g') = (if other = client_id then None else hm_get other (g_clients g)))
    \<and> (\<forall>other. hm_get other (g_capabilities g')
           = (if other = client_id then None else hm_get other (g_capabilities g)))"
proof -
  obtain requests hc where
    d: "hc_disconnect (rt_requests (g_routes g)) client_id (rt_cache (g_routes g)) = (requests, hc)"
    by fastforce
  have g': "g' = g\<lparr>g_routes := rt_disconnect client_id (g_routes g),
      g_clients := hm_remove client_id (g_clients g),
      g_capabilities := hm_remove client_id (g_capabilities g)\<rparr>"
    using assms by (auto simp: client_cleanup_def)
  have "\<forall>m. \<forall>w \<in> set (hc_waiters m hc). pw_client_id w \<noteq> client_id"
    using hc_disconnect_views [OF d] by simp
  moreover have "requests = filter (\<lambda>e. pr_client_id (snd e) \<noteq> client_id \<or> pr_cache_key (snd e) \<noteq> None)
      (rt_requests (g_routes g))"
    using hc_disconnect_views [OF d, of Initialize] by (auto simp: hm_retain_def intro: filter_cong)
  ultimately show ?thesis
    using filter_owners_disconnect [of client_id "g_routes g"]
    unfolding g' by (simp add: rt_disconnect_def d hm_get_remove)
qed

theorem disconnect_affects_only_the_client_witness:
  "\<exists>t' g'. client_cleanup ''a'' [] 0 (client_task_new, generation_new\<lparr>g_clients := [(''a'', 1), (''b'', 2)]\<rparr>)
       = (t', g') \<and> hm_get ''b'' (g_clients g') = Some 2 \<and> hm_get ''a'' (g_clients g') = None"
proof -
  let ?g = "generation_new\<lparr>g_clients := [(''a'', 1), (''b'', 2)]\<rparr>"
  obtain t' g' where c: "client_cleanup ''a'' [] 0 (client_task_new, ?g) = (t', g')" by fastforce
  from disconnect_affects_only_the_client [OF c] have
    "\<forall>other. hm_get other (g_clients g') = (if other = ''a'' then None else hm_get other (g_clients ?g))"
    by blast
  then have "hm_get ''b'' (g_clients g') = Some 2" "hm_get ''a'' (g_clients g') = None"
    by (simp_all add: hm_get_def)
  with c show ?thesis by blast
qed

end
