(* ===== verification/Lifecycle.thy ===== *)
theory Lifecycle
  imports Client
begin

text \<open>
  The life of one server of the pool: \<open>SocketProxy\<close> in \<open>src/socket_proxy.rs\<close> (start, stop, restart,
  recovery, readiness) and the owner task of a generation in \<open>src/socket_proxy_generation.rs\<close>.
  Operations hold the lifecycle lock from their first state to \<open>Idle\<close>; the owner tasks, the two halves
  of a stop request and the end of a cancelled operation interleave with them in any order.  A
  generation is named by its number; \<open>px_past\<close> holds the replaced ones, oldest first.
\<close>

datatype server_status = Stopped | Starting | Running | Stopping | Failed

record server_readiness =
  rd_local_socket_bound :: bool
  rd_upstream_transport_ready :: bool
  rd_mcp_initialize_result_received :: bool
  rd_startup_error :: "string option"
  rd_retirement_error :: "string option"

type_synonym outcome = "string + unit"

fun err_of :: "completion \<Rightarrow> string option" where
  "err_of (Some (Inl e)) = Some e"
| "err_of _ = None"

fun result_and :: "outcome \<Rightarrow> outcome \<Rightarrow> outcome" where
  "result_and (Inl e) r = Inl e"
| "result_and (Inr u) r = r"

subsection \<open>Operations on one generation\<close>

definition close :: "generation \<Rightarrow> generation" where
  "close g = g\<lparr>g_shutdown := True\<rparr>"

definition signal_shutdown :: "generation \<Rightarrow> generation" where
  "signal_shutdown g = close (g\<lparr>g_explicit_stop := True\<rparr>)"

definition fail_binding :: "string \<Rightarrow> generation \<Rightarrow> generation" where
  "fail_binding e g = (close (g\<lparr>g_startup := Some (Inl e)\<rparr>))\<lparr>g_completion := Some (Inr ())\<rparr>"

definition clear :: "generation \<Rightarrow> generation" where
  "clear g = g\<lparr>g_request_tx := None, g_clients := [], g_routes := rt_clear (g_routes g),
     g_capabilities := [], g_last_active := None\<rparr>"

subsection \<open>The state\<close>

text \<open>
  The owner task: \<open>Absent\<close> before it is spawned, \<open>SettingUp\<close> while the upstream is created,
  \<open>Publishing\<close> after the shutdown flag was found down, \<open>Draining\<close> while the last messages of an
  upstream that exited are routed, \<open>ShuttingDown\<close> while the upstream is retired,
  \<open>Finishing\<close> with the retirement in hand, \<open>Reporting\<close> between the final status and the completion.
  The flag says whether a recovery is due.
\<close>

datatype owner_phase =
    Absent
  | SettingUp
  | Publishing
  | Serving
  | Draining
  | ShuttingDown bool
  | Finishing outcome bool
  | Reporting outcome bool
  | Finished

type_synonym slot = "generation \<times> owner_phase"

text \<open>Where the holder of the lifecycle lock is; the flag of a stop says that a start follows.\<close>

datatype operation =
    Idle
  | StartEntry
  | JoinStartup nat
  | AwaitPrevious nat
  | Create
  | Bind nat
  | Bound nat
  | AwaitStartup nat
  | StopEntry bool
  | AwaitStop nat bool
  | StopDone bool
  | RecoverEntry nat
  | AwaitRecover nat

record proxy =
  px_status :: server_status
  px_past :: "slot list"
  px_current :: "slot option"
  px_stop_requested :: bool
  px_started :: bool
  px_operation :: operation
  px_recoveries :: "nat list"
  px_requests :: nat

definition proxy_new :: proxy where
  "proxy_new = \<lparr>px_status = Stopped, px_past = [], px_current = None, px_stop_requested = False,
     px_started = False, px_operation = Idle, px_recoveries = [], px_requests = 0\<rparr>"

definition px_slot :: "nat \<Rightarrow> proxy \<Rightarrow> slot option" where
  "px_slot n s =
     (if n < length (px_past s) then Some (px_past s ! n)
      else if n = length (px_past s) then px_current s else None)"

definition px_set :: "nat \<Rightarrow> slot \<Rightarrow> proxy \<Rightarrow> proxy" where
  "px_set n sl s =
     (if n < length (px_past s) then s\<lparr>px_past := (px_past s)[n := sl]\<rparr> else s\<lparr>px_current := Some sl\<rparr>)"

definition signal_current :: "proxy \<Rightarrow> proxy" where
  "signal_current s = s\<lparr>px_current := map_option (map_prod signal_shutdown (\<lambda>ow. ow)) (px_current s)\<rparr>"

definition readiness :: "proxy \<Rightarrow> server_readiness" where
  "readiness s =
     (case px_current s of
        None \<Rightarrow> \<lparr>rd_local_socket_bound = False, rd_upstream_transport_ready = False,
                 rd_mcp_initialize_result_received = False, rd_startup_error = None,
                 rd_retirement_error = None\<rparr>
      | Some (g, ow) \<Rightarrow>
          \<lparr>rd_local_socket_bound = g_socket_bound g,
           rd_upstream_transport_ready = (g_startup g = Some (Inr ()) \<and> g_completion g = None
              \<and> px_status s = Running \<and> \<not> g_shutdown g),
           rd_mcp_initialize_result_received = rt_initialization_ready (g_routes g),
           rd_startup_error = err_of (g_startup g),
           rd_retirement_error = err_of (g_completion g)\<rparr>)"

subsection \<open>The lifecycle operations\<close>

datatype px_event = Internal | StartReturned outcome | StopReturned outcome

text \<open>The first step of \<open>start_locked\<close>: the next state of the operation, or what it returns.\<close>

definition start_decision :: "proxy \<Rightarrow> outcome + operation" where
  "start_decision s =
     (case px_current s of
        Some (g, ow) \<Rightarrow>
          (case g_completion g of
             Some (Inl e) \<Rightarrow> Inl (Inl e)
           | c \<Rightarrow>
               if px_stop_requested s then Inl (Inl ''pool stopped during upstream startup'')
               else if \<not> g_shutdown g \<and> c = None then Inr (JoinStartup (length (px_past s)))
               else Inr (AwaitPrevious (length (px_past s))))
      | None \<Rightarrow>
          if px_stop_requested s then Inl (Inl ''pool stopped during upstream startup'') else Inr Create)"

definition create_generation :: "proxy \<Rightarrow> proxy" where
  "create_generation s =
     (let past = px_past s @ (case px_current s of None \<Rightarrow> [] | Some sl \<Rightarrow> [sl])
      in s\<lparr>px_status := Starting, px_past := past, px_current := Some (generation_new, Absent),
           px_operation := Bind (length past)\<rparr>)"

inductive op_step :: "proxy \<Rightarrow> px_event \<Rightarrow> proxy \<Rightarrow> bool" where
  call_start: "px_operation s = Idle \<Longrightarrow> op_step s Internal (s\<lparr>px_operation := StartEntry\<rparr>)"
| call_stop: "px_operation s = Idle \<Longrightarrow> op_step s Internal (s\<lparr>px_operation := StopEntry False\<rparr>)"
| call_restart: "px_operation s = Idle \<Longrightarrow> op_step s Internal (s\<lparr>px_operation := StopEntry True\<rparr>)"
| call_recover: "px_operation s = Idle \<Longrightarrow> px_recoveries s = n # ns \<Longrightarrow>
    op_step s Internal (s\<lparr>px_operation := RecoverEntry n, px_recoveries := ns\<rparr>)"
| stop_request: "op_step s Internal (s\<lparr>px_stop_requested := True, px_requests := Suc (px_requests s)\<rparr>)"
| stop_signal: "px_requests s = Suc k \<Longrightarrow>
    op_step s Internal ((signal_current s)\<lparr>px_requests := k\<rparr>)"
| start_refused: "px_operation s = StartEntry \<Longrightarrow> start_decision s = Inl r \<Longrightarrow>
    op_step s (StartReturned r) (s\<lparr>px_operation := Idle\<rparr>)"
| start_goes_on: "px_operation s = StartEntry \<Longrightarrow> start_decision s = Inr next \<Longrightarrow>
    op_step s Internal (s\<lparr>px_operation := next\<rparr>)"
| joined: "px_operation s = JoinStartup n \<Longrightarrow> px_slot n s = Some (g, ow) \<Longrightarrow> g_startup g = Some r \<Longrightarrow>
    op_step s (StartReturned r) (s\<lparr>px_operation := Idle\<rparr>)"
| previous_retired: "px_operation s = AwaitPrevious n \<Longrightarrow> px_slot n s = Some (g, ow) \<Longrightarrow>
    g_completion g = Some (Inr ()) \<Longrightarrow> op_step s Internal (s\<lparr>px_operation := Create\<rparr>)"
| previous_failed: "px_operation s = AwaitPrevious n \<Longrightarrow> px_slot n s = Some (g, ow) \<Longrightarrow>
    g_completion g = Some (Inl e) \<Longrightarrow> op_step s (StartReturned (Inl e)) (s\<lparr>px_operation := Idle\<rparr>)"
| created: "px_operation s = Create \<Longrightarrow> op_step s Internal (create_generation s)"
| bind_failed: "px_operation s = Bind n \<Longrightarrow> px_slot n s = Some (g, ow) \<Longrightarrow>
    op_step s (StartReturned (Inl e))
      ((px_set n (fail_binding e g, ow) s)\<lparr>px_status := Stopped, px_operation := Idle\<rparr>)"
| bound: "px_operation s = Bind n \<Longrightarrow> px_slot n s = Some (g, ow) \<Longrightarrow>
    op_step s Internal ((px_set n (g\<lparr>g_socket_bound := True\<rparr>, ow) s)\<lparr>px_operation := Bound n\<rparr>)"
| spawned: "px_operation s = Bound n \<Longrightarrow> px_slot n s = Some (g, ow) \<Longrightarrow>
    op_step s Internal
      ((px_set n (if px_stop_requested s then signal_shutdown g else g, SettingUp) s)\<lparr>px_operation := AwaitStartup n\<rparr>)"
| started: "px_operation s = AwaitStartup n \<Longrightarrow> px_slot n s = Some (g, ow) \<Longrightarrow> g_startup g = Some r \<Longrightarrow>
    op_step s (StartReturned r) (s\<lparr>px_operation := Idle\<rparr>)"
| stop_nothing: "px_operation s = StopEntry b \<Longrightarrow> px_current s = None \<Longrightarrow>
    op_step s Internal (s\<lparr>px_operation := StopDone b\<rparr>)"
| stop_generation: "px_operation s = StopEntry b \<Longrightarrow> px_current s = Some sl \<Longrightarrow>
    op_step s Internal ((signal_current s)\<lparr>px_operation := AwaitStop (length (px_past s)) b\<rparr>)"
| stop_retired: "px_operation s = AwaitStop n b \<Longrightarrow> px_slot n s = Some (g, ow) \<Longrightarrow>
    g_completion g = Some (Inr ()) \<Longrightarrow> op_step s Internal (s\<lparr>px_operation := StopDone b\<rparr>)"
| stop_failed: "px_operation s = AwaitStop n b \<Longrightarrow> px_slot n s = Some (g, ow) \<Longrightarrow>
    g_completion g = Some (Inl e) \<Longrightarrow> op_step s (StopReturned (Inl e)) (s\<lparr>px_operation := Idle\<rparr>)"
| stop_done: "px_operation s = StopDone b \<Longrightarrow>
    op_step s (if b then Internal else StopReturned (Inr ()))
      (s\<lparr>px_status := Stopped, px_stop_requested := False, px_operation := (if b then StartEntry else Idle)\<rparr>)"
| recover_skipped: "px_operation s = RecoverEntry n \<Longrightarrow> px_slot n s = Some (g, ow) \<Longrightarrow>
    g_explicit_stop g \<or> px_current s = None \<or> n \<noteq> length (px_past s) \<Longrightarrow>
    op_step s Internal (s\<lparr>px_operation := Idle\<rparr>)"
| recover_waits: "px_operation s = RecoverEntry n \<Longrightarrow> px_slot n s = Some (g, ow) \<Longrightarrow>
    \<not> g_explicit_stop g \<Longrightarrow> px_current s \<noteq> None \<Longrightarrow> n = length (px_past s) \<Longrightarrow>
    op_step s Internal (s\<lparr>px_operation := AwaitRecover n\<rparr>)"
| recover_starts: "px_operation s = AwaitRecover n \<Longrightarrow> px_slot n s = Some (g, ow) \<Longrightarrow>
    g_completion g = Some (Inr ()) \<Longrightarrow> op_step s Internal (s\<lparr>px_operation := StartEntry\<rparr>)"
| recover_fails: "px_operation s = AwaitRecover n \<Longrightarrow> px_slot n s = Some (g, ow) \<Longrightarrow>
    g_completion g = Some (Inl e) \<Longrightarrow> op_step s Internal (s\<lparr>px_operation := Idle\<rparr>)"
| cancelled: "px_operation s \<in> {JoinStartup n, AwaitPrevious n, AwaitStartup n, AwaitStop n b, AwaitRecover n} \<Longrightarrow>
    op_step s Internal (s\<lparr>px_operation := Idle\<rparr>)"

subsection \<open>The owner task\<close>

inductive owner_step :: "nat \<Rightarrow> proxy \<Rightarrow> proxy \<Rightarrow> bool" for n where
  setup_stopped: "px_slot n s = Some (g, SettingUp) \<Longrightarrow> g_shutdown g \<Longrightarrow>
    owner_step n s ((px_set n (close (g\<lparr>g_startup := Some (Inl ''pool stopped during upstream startup'')\<rparr>),
      ShuttingDown False) s)\<lparr>px_status := Stopping\<rparr>)"
| setup_done: "px_slot n s = Some (g, SettingUp) \<Longrightarrow> \<not> g_shutdown g \<Longrightarrow>
    owner_step n s (px_set n (g, Publishing) s)"
| setup_failed: "px_slot n s = Some (g, SettingUp) \<Longrightarrow>
    owner_step n s (px_set n (close (g\<lparr>g_startup := Some (Inl e)\<rparr>),
      Finishing (if retirement_unverified then Inl e else Inr ()) False) s)"
| published: "px_slot n s = Some (g, Publishing) \<Longrightarrow>
    owner_step n s ((px_set n (g\<lparr>g_request_tx := Some sender, g_startup := Some (Inr ())\<rparr>, Serving) s)
      \<lparr>px_status := Running, px_started := True\<rparr>)"
| traffic: "px_slot n s = Some (g, ow) \<Longrightarrow>
    owner_step n s (px_set n (g\<lparr>g_clients := cs, g_routes := rt, g_capabilities := caps, g_last_active := la\<rparr>, ow) s)"
| serving_stopped: "px_slot n s = Some (g, Serving) \<Longrightarrow> g_shutdown g \<Longrightarrow>
    owner_step n s ((px_set n (close g, ShuttingDown False) s)\<lparr>px_status := Stopping\<rparr>)"
| upstream_exited: "px_slot n s = Some (g, Serving) \<Longrightarrow>
    owner_step n s ((px_set n (g\<lparr>g_request_tx := None\<rparr>, Draining) s)\<lparr>px_status := Stopping\<rparr>)"
| drained: "px_slot n s = Some (g, Draining) \<Longrightarrow>
    owner_step n s ((px_set n (close g, ShuttingDown recover) s)\<lparr>px_status := Stopping\<rparr>)"
| serving_ended: "px_slot n s = Some (g, Serving) \<Longrightarrow>
    owner_step n s ((px_set n (close g, ShuttingDown recover) s)\<lparr>px_status := Stopping\<rparr>)"
| shut_down: "px_slot n s = Some (g, ShuttingDown recover) \<Longrightarrow>
    owner_step n s (px_set n (g, Finishing retirement recover) s)"
| panicked: "px_slot n s = Some (g, ow) \<Longrightarrow> ow \<in> {SettingUp, Publishing, Serving, Draining, ShuttingDown recover} \<Longrightarrow>
    owner_step n s (px_set n (close (g\<lparr>g_startup := (if g_startup g = None then Some (Inl e) else g_startup g)\<rparr>),
      Finishing (Inl e) False) s)"
| finishes: "px_slot n s = Some (g, Finishing retirement recover) \<Longrightarrow>
    result = result_and (result_and retirement local) files \<Longrightarrow>
    owner_step n s ((px_set n (clear ((close g)\<lparr>g_socket_bound := False\<rparr>), Reporting result recover) s)
      \<lparr>px_status := (if result = Inr () then Stopped else Failed), px_started := False\<rparr>)"
| reports: "px_slot n s = Some (g, Reporting result recover) \<Longrightarrow>
    owner_step n s ((px_set n (g\<lparr>g_completion := Some result\<rparr>, Finished) s)
      \<lparr>px_recoveries := px_recoveries s @ (if recover \<and> result = Inr () then [n] else [])\<rparr>)"

inductive px_run :: "proxy \<Rightarrow> px_event list \<Rightarrow> proxy \<Rightarrow> bool" for s where
  px_start: "px_run s [] s"
| px_op: "px_run s es s' \<Longrightarrow> op_step s' e s'' \<Longrightarrow> px_run s (es @ [e]) s''"
| px_owner: "px_run s es s' \<Longrightarrow> owner_step n s' s'' \<Longrightarrow> px_run s es s''"


subsection \<open>The invariant\<close>

fun retired :: "slot \<Rightarrow> bool" where
  "retired (g, ow) \<longleftrightarrow> g_completion g = Some (Inr ()) \<and> (ow = Absent \<or> ow = Finished)"

fun live :: "owner_phase \<Rightarrow> bool" where
  "live Absent \<longleftrightarrow> False"
| "live Finished \<longleftrightarrow> False"
| "live _ \<longleftrightarrow> True"

fun phase_ok :: "server_status \<Rightarrow> slot \<Rightarrow> bool" where
  "phase_ok st (g, Absent) \<longleftrightarrow> g_request_tx g = None \<and> g_startup g \<noteq> Some (Inr ())
     \<and> ((g_completion g = None \<and> g_startup g = None) \<or> (g_completion g = Some (Inr ()) \<and> g_shutdown g \<and> \<not> g_socket_bound g))"
| "phase_ok st (g, SettingUp) \<longleftrightarrow> g_completion g = None \<and> g_request_tx g = None \<and> g_startup g = None"
| "phase_ok st (g, Publishing) \<longleftrightarrow> g_completion g = None \<and> g_request_tx g = None \<and> g_startup g = None"
| "phase_ok st (g, Serving) \<longleftrightarrow> g_completion g = None \<and> g_request_tx g \<noteq> None
     \<and> g_startup g = Some (Inr ()) \<and> st = Running"
| "phase_ok st (g, Draining) \<longleftrightarrow> g_completion g = None \<and> g_request_tx g = None \<and> st = Stopping"
| "phase_ok st (g, ShuttingDown b) \<longleftrightarrow> g_completion g = None \<and> g_shutdown g \<and> st = Stopping"
| "phase_ok st (g, Finishing r b) \<longleftrightarrow> g_completion g = None \<and> g_shutdown g"
| "phase_ok st (g, Reporting r b) \<longleftrightarrow> g_completion g = None \<and> g_shutdown g
     \<and> \<not> g_socket_bound g \<and> g_request_tx g = None \<and> st = (if r = Inr () then Stopped else Failed)"
| "phase_ok st (g, Finished) \<longleftrightarrow> g_completion g \<noteq> None \<and> g_shutdown g
     \<and> \<not> g_socket_bound g \<and> g_request_tx g = None \<and> (g_completion g \<noteq> Some (Inr ()) \<longrightarrow> st = Failed)"

definition settled :: "proxy \<Rightarrow> bool" where
  "settled s \<longleftrightarrow> (\<forall>g. px_current s = Some (g, Absent) \<longrightarrow> g_completion g = Some (Inr ()))"

definition waits_for :: "nat \<Rightarrow> proxy \<Rightarrow> bool" where
  "waits_for n s \<longleftrightarrow> n = length (px_past s) \<and> px_current s \<noteq> None \<and> settled s"

definition all_retired :: "proxy \<Rightarrow> bool" where
  "all_retired s \<longleftrightarrow> (\<forall>sl. px_current s = Some sl \<longrightarrow> retired sl)"

definition binding :: "nat \<Rightarrow> proxy \<Rightarrow> bool" where
  "binding n s \<longleftrightarrow> n = length (px_past s)
     \<and> (\<exists>g. px_current s = Some (g, Absent) \<and> g_completion g = None)"

definition op_ok :: "proxy \<Rightarrow> bool" where
  "op_ok s \<longleftrightarrow>
     (case px_operation s of
        Idle \<Rightarrow> settled s
      | StartEntry \<Rightarrow> settled s
      | StopEntry b \<Rightarrow> settled s
      | RecoverEntry n \<Rightarrow> settled s
      | Create \<Rightarrow> all_retired s
      | StopDone b \<Rightarrow> all_retired s
      | Bind n \<Rightarrow> binding n s \<and> (\<forall>sl. px_current s = Some sl \<longrightarrow> \<not> g_socket_bound (fst sl))
      | Bound n \<Rightarrow> binding n s
      | JoinStartup n \<Rightarrow> waits_for n s
      | AwaitPrevious n \<Rightarrow> waits_for n s
      | AwaitStartup n \<Rightarrow> waits_for n s
      | AwaitStop n b \<Rightarrow> waits_for n s
      | AwaitRecover n \<Rightarrow> waits_for n s)"

definition stop_ok :: "proxy \<Rightarrow> bool" where
  "stop_ok s \<longleftrightarrow>
     (px_stop_requested s \<and> px_requests s = 0 \<and> (\<forall>n. px_operation s \<noteq> Bind n \<and> px_operation s \<noteq> Bound n)
        \<longrightarrow> (\<forall>sl. px_current s = Some sl \<longrightarrow> g_shutdown (fst sl)))"

definition px_inv :: "proxy \<Rightarrow> bool" where
  "px_inv s \<longleftrightarrow> (\<forall>sl \<in> set (px_past s). retired sl)
     \<and> (\<forall>sl. px_current s = Some sl \<longrightarrow> phase_ok (px_status s) sl)
     \<and> op_ok s \<and> stop_ok s"

lemmas px_defs = px_inv_def op_ok_def stop_ok_def settled_def waits_for_def all_retired_def binding_def

lemma px_slot_current [simp]: "px_slot (length (px_past s)) s = px_current s"
  by (simp add: px_slot_def)

lemma px_set_current [simp]: "px_set (length (px_past s)) sl s = s\<lparr>px_current := Some sl\<rparr>"
  by (simp add: px_set_def)

lemma phase_ok_signal: "phase_ok st (g, ow) \<Longrightarrow> phase_ok st (signal_shutdown g, ow)"
  by (cases ow) (auto simp: signal_shutdown_def close_def)

lemma signal_fields [simp]:
  "g_completion (signal_shutdown g) = g_completion g" "g_shutdown (signal_shutdown g)"
  "g_socket_bound (signal_shutdown g) = g_socket_bound g"
  "g_startup (signal_shutdown g) = g_startup g" "g_request_tx (signal_shutdown g) = g_request_tx g"
  by (simp_all add: signal_shutdown_def close_def)

lemma px_inv_new: "px_inv proxy_new"
  by (simp add: px_defs proxy_new_def)

lemma px_inv_signal: "px_inv s \<Longrightarrow> px_inv ((signal_current s)\<lparr>px_requests := k\<rparr>)"
proof -
  assume inv: "px_inv s"
  have "op_ok s \<Longrightarrow> op_ok ((signal_current s)\<lparr>px_requests := k\<rparr>)"
    unfolding op_ok_def settled_def waits_for_def all_retired_def binding_def
    by (auto simp: signal_current_def split: operation.splits)
  moreover have "stop_ok ((signal_current s)\<lparr>px_requests := k\<rparr>)"
    by (auto simp: stop_ok_def signal_current_def)
  ultimately show ?thesis
    using inv phase_ok_signal by (auto simp: px_inv_def signal_current_def simp del: phase_ok.simps)
qed

lemma not_absent_retired: "phase_ok st (g, ow) \<Longrightarrow> g_completion g = Some (Inr ()) \<Longrightarrow> retired (g, ow)"
  by (cases ow) auto

lemma phase_ok_retired: "retired sl \<Longrightarrow> phase_ok st sl \<Longrightarrow> phase_ok st' sl"
  by (cases sl rule: retired.cases) auto

lemma start_decision_next:
  "start_decision s = Inr next \<Longrightarrow>
     (px_current s = None \<and> next = Create \<and> \<not> px_stop_requested s)
     \<or> (px_current s \<noteq> None \<and> next \<in> {JoinStartup (length (px_past s)), AwaitPrevious (length (px_past s))})"
  by (auto simp: start_decision_def split: option.splits prod.splits sum.splits if_splits)

lemma px_inv_create: "px_inv s \<Longrightarrow> px_operation s = Create \<Longrightarrow> px_inv (create_generation s)"
  by (cases "px_current s") (auto simp: px_defs create_generation_def Let_def generation_new_def)

definition free_op :: "operation \<Rightarrow> bool" where
  "free_op p \<longleftrightarrow> (\<forall>n. p \<noteq> Bind n \<and> p \<noteq> Bound n)"

lemma px_inv_op:
  assumes "px_inv s" and "free_op (px_operation s)" and "free_op p" and "op_ok (s\<lparr>px_operation := p\<rparr>)"
  shows "px_inv (s\<lparr>px_operation := p\<rparr>)"
  using assms unfolding px_inv_def stop_ok_def free_op_def by auto

lemma op_ok_cong:
  "px_past s' = px_past s \<Longrightarrow> px_current s' = px_current s \<Longrightarrow> px_operation s' = px_operation s \<Longrightarrow>
     op_ok s' = op_ok s"
  by (cases "px_operation s")
     (simp_all add: op_ok_def settled_def waits_for_def all_retired_def binding_def)

lemma waits_retired:
  assumes "px_inv s" "waits_for n s" "px_slot n s = Some (g, ow)" "g_completion g = Some (Inr ())"
  shows "all_retired s"
proof -
  from assms(2,3) have c: "px_current s = Some (g, ow)" by (auto simp: waits_for_def)
  with assms(1) have "phase_ok (px_status s) (g, ow)" by (auto simp: px_inv_def)
  from not_absent_retired [OF this assms(4)] c show ?thesis by (simp add: all_retired_def)
qed

lemma all_retired_settled: "all_retired s \<Longrightarrow> settled s"
  by (auto simp: all_retired_def settled_def)

lemma phase_ok_bind_failed: "phase_ok st (g, Absent) \<Longrightarrow> \<not> g_socket_bound g \<Longrightarrow>
     phase_ok st' (fail_binding e g, Absent) \<and> g_completion (fail_binding e g) = Some (Inr ())
     \<and> g_shutdown (fail_binding e g)"
  by (auto simp: fail_binding_def close_def)

lemma step_start_goes_on:
  assumes "px_inv s" "px_operation s = StartEntry" "start_decision s = Inr next"
  shows "px_inv (s\<lparr>px_operation := next\<rparr>)"
proof (rule px_inv_op [OF assms(1)])
  from assms(1,2) have "settled s" by (simp add: px_inv_def op_ok_def)
  with start_decision_next [OF assms(3)] show "op_ok (s\<lparr>px_operation := next\<rparr>)"
    by (auto simp: op_ok_def waits_for_def settled_def all_retired_def)
qed (use assms(2) start_decision_next [OF assms(3)] in \<open>auto simp: free_op_def\<close>)

lemma step_bind_failed:
  assumes inv: "px_inv s" and op: "px_operation s = Bind n" and sl: "px_slot n s = Some (g, ow)"
  shows "px_inv ((px_set n (fail_binding e g, ow) s)\<lparr>px_status := Stopped, px_operation := Idle\<rparr>)"
proof -
  from inv op have b: "n = length (px_past s)" "px_current s = Some (g, Absent)" "ow = Absent"
    "\<not> g_socket_bound g" "phase_ok (px_status s) (g, Absent)"
    using sl by (auto simp: px_inv_def op_ok_def binding_def)
  from phase_ok_bind_failed [OF b(5,4)] inv show ?thesis
    unfolding b(1,3) px_set_current
    by (simp add: px_inv_def op_ok_def stop_ok_def settled_def del: phase_ok.simps)
qed

lemma step_bound:
  assumes inv: "px_inv s" and op: "px_operation s = Bind n" and sl: "px_slot n s = Some (g, ow)"
  shows "px_inv ((px_set n (g\<lparr>g_socket_bound := True\<rparr>, ow) s)\<lparr>px_operation := Bound n\<rparr>)"
proof -
  from inv op have b: "n = length (px_past s)" "px_current s = Some (g, Absent)" "ow = Absent"
    "g_completion g = None" "phase_ok (px_status s) (g, Absent)"
    using sl by (auto simp: px_inv_def op_ok_def binding_def)
  from b(4,5) inv show ?thesis
    unfolding b(1,3) px_set_current by (simp add: px_inv_def op_ok_def stop_ok_def binding_def)
qed

lemma step_spawned:
  assumes inv: "px_inv s" and op: "px_operation s = Bound n" and sl: "px_slot n s = Some (g, ow)"
  shows "px_inv ((px_set n (if px_stop_requested s then signal_shutdown g else g, SettingUp) s)
     \<lparr>px_operation := AwaitStartup n\<rparr>)"
proof -
  from inv op have b: "n = length (px_past s)" "px_current s = Some (g, Absent)" "ow = Absent"
    "g_completion g = None" "phase_ok (px_status s) (g, Absent)"
    using sl by (auto simp: px_inv_def op_ok_def binding_def)
  with b(4,5) inv show ?thesis
    unfolding b(1,3) px_set_current
    by (simp add: px_inv_def op_ok_def stop_ok_def waits_for_def settled_def)
qed

lemma step_stop_generation:
  assumes inv: "px_inv s" and op: "px_operation s = StopEntry b" and sl: "px_current s = Some sl"
  shows "px_inv ((signal_current s)\<lparr>px_operation := AwaitStop (length (px_past s)) b\<rparr>)"
proof -
  obtain g ow where [simp]: "sl = (g, ow)" by fastforce
  from inv op have st: "settled s" "phase_ok (px_status s) (g, ow)" "\<forall>sl \<in> set (px_past s). retired sl"
    using sl by (auto simp: px_inv_def op_ok_def)
  from st(1) sl have "settled ((signal_current s)\<lparr>px_operation := AwaitStop (length (px_past s)) b\<rparr>)"
    by (auto simp: settled_def signal_current_def)
  with st(3) phase_ok_signal [OF st(2)] sl show ?thesis
    by (simp add: px_inv_def op_ok_def stop_ok_def waits_for_def signal_current_def del: phase_ok.simps)
qed

lemma step_stop_done:
  assumes inv: "px_inv s" and op: "px_operation s = StopDone b"
  shows "px_inv (s\<lparr>px_status := Stopped, px_stop_requested := False,
     px_operation := (if b then StartEntry else Idle)\<rparr>)"
proof -
  from inv op have r: "all_retired s" by (simp add: px_inv_def op_ok_def)
  have "phase_ok Stopped sl" if c: "px_current s = Some sl" for sl
    by (rule phase_ok_retired [where st = "px_status s"])
       (use r c inv in \<open>auto simp: all_retired_def px_inv_def\<close>)
  moreover have "\<forall>sl \<in> set (px_past s). retired sl" using inv by (simp add: px_inv_def)
  ultimately show ?thesis
    using all_retired_settled [OF r]
    by (cases b) (simp_all add: px_inv_def op_ok_def stop_ok_def settled_def del: phase_ok.simps)
qed

lemma step_waits:
  assumes inv: "px_inv s" and w: "waits_for n s" and f: "free_op (px_operation s)"
  shows "px_inv (s\<lparr>px_operation := Idle\<rparr>)"
    and "px_slot n s = Some (g, ow) \<Longrightarrow> g_completion g = Some (Inr ()) \<Longrightarrow>
      p \<in> {Create, StopDone b, StartEntry} \<Longrightarrow> px_inv (s\<lparr>px_operation := p\<rparr>)"
proof -
  show "px_inv (s\<lparr>px_operation := Idle\<rparr>)"
    using w by (intro px_inv_op [OF inv f]) (auto simp: free_op_def op_ok_def waits_for_def settled_def)
next
  assume sl: "px_slot n s = Some (g, ow)" "g_completion g = Some (Inr ())"
    and p: "p \<in> {Create, StopDone b, StartEntry}"
  from waits_retired [OF inv w sl] all_retired_settled [of s] p
  show "px_inv (s\<lparr>px_operation := p\<rparr>)"
    by (intro px_inv_op [OF inv f]) (auto simp: free_op_def op_ok_def settled_def all_retired_def)
qed

lemma step_settled:
  assumes "px_inv s" and "op_ok s \<Longrightarrow> settled s" and "free_op (px_operation s)"
    and "p \<in> {Idle, StartEntry, StopEntry b, RecoverEntry n}"
  shows "px_inv (s\<lparr>px_operation := p\<rparr>)"
proof (rule px_inv_op)
  from assms(1,2) have "settled s" by (simp add: px_inv_def)
  with assms(4) show "op_ok (s\<lparr>px_operation := p\<rparr>)" by (auto simp: op_ok_def settled_def)
qed (use assms in \<open>auto simp: free_op_def\<close>)

lemma px_inv_recoveries: "px_inv (s\<lparr>px_recoveries := ns\<rparr>) = px_inv s"
  by (simp add: px_inv_def stop_ok_def op_ok_cong [of "s\<lparr>px_recoveries := ns\<rparr>" s])

lemma op_step_inv: "op_step s e s' \<Longrightarrow> px_inv s \<Longrightarrow> px_inv s'"
proof (induction rule: op_step.induct)
  case (stop_signal s k)
  from px_inv_signal [OF stop_signal.prems] show ?case .
next
  case (created s)
  from px_inv_create [OF created.prems created.hyps] show ?case .
next
  case (start_goes_on s "next")
  from step_start_goes_on [OF start_goes_on.prems start_goes_on.hyps] show ?case .
next
  case (bind_failed s n g ow e)
  from step_bind_failed [OF bind_failed.prems bind_failed.hyps] show ?case .
next
  case (bound s n g ow)
  from step_bound [OF bound.prems bound.hyps] show ?case .
next
  case (spawned s n g ow)
  from step_spawned [OF spawned.prems spawned.hyps] show ?case .
next
  case (stop_generation s b sl)
  from step_stop_generation [OF stop_generation.prems stop_generation.hyps] show ?case .
next
  case (stop_done s b)
  from step_stop_done [OF stop_done.prems stop_done.hyps] show ?case .
next
  case (stop_request s)
  then show ?case
    by (simp add: px_inv_def stop_ok_def op_ok_cong [of "s\<lparr>px_stop_requested := True, px_requests := Suc (px_requests s)\<rparr>" s])
next
  case (call_recover s n ns)
  have "px_inv (s\<lparr>px_operation := RecoverEntry n\<rparr>)"
    by (rule step_settled [OF call_recover.prems]) (use call_recover.hyps in \<open>auto simp: free_op_def op_ok_def\<close>)
  then have "px_inv (s\<lparr>px_operation := RecoverEntry n\<rparr>\<lparr>px_recoveries := ns\<rparr>)" by (simp add: px_inv_recoveries)
  then show ?case by simp
next
  case (stop_nothing s b)
  then show ?case
    by (intro px_inv_op) (auto simp: free_op_def op_ok_def all_retired_def)
next
  case (recover_waits s n g ow)
  then show ?case
    by (intro px_inv_op) (auto simp: free_op_def op_ok_def waits_for_def settled_def px_inv_def)
next
  case (previous_retired s n g ow)
  then have "waits_for n s" by (simp add: px_inv_def op_ok_def)
  from step_waits(2) [OF previous_retired.prems this] previous_retired.hyps show ?case
    by (simp add: free_op_def)
next
  case (stop_retired s n b g ow)
  then have "waits_for n s" by (simp add: px_inv_def op_ok_def)
  from step_waits(2) [OF stop_retired.prems this] stop_retired.hyps show ?case
    by (simp add: free_op_def)
next
  case (recover_starts s n g ow)
  then have "waits_for n s" by (simp add: px_inv_def op_ok_def)
  from step_waits(2) [OF recover_starts.prems this] recover_starts.hyps show ?case
    by (simp add: free_op_def)
next
  case (cancelled s n b)
  then have "waits_for n s" by (auto simp: px_inv_def op_ok_def)
  from step_waits(1) [OF cancelled.prems this] cancelled.hyps show ?case
    by (auto simp: free_op_def)
qed (auto intro!: step_settled simp: free_op_def op_ok_def waits_for_def)


subsection \<open>The owner keeps the invariant\<close>

lemma live_current:
  assumes "px_inv s" "px_slot n s = Some (g, ow)" "live ow"
  shows "n = length (px_past s) \<and> px_current s = Some (g, ow)"
proof -
  have "\<not> n < length (px_past s)"
  proof
    assume n: "n < length (px_past s)"
    with assms(2) have "px_past s ! n = (g, ow)" by (simp add: px_slot_def)
    with n have "(g, ow) \<in> set (px_past s)" by (metis nth_mem)
    with assms(1) have "retired (g, ow)" unfolding px_inv_def by blast
    with assms(3) show False by auto
  qed
  with assms(2) show ?thesis by (auto simp: px_slot_def split: if_splits)
qed

lemma op_ok_owner:
  assumes "op_ok s" "px_current s = Some (g, ow)" "live ow" "ow' \<noteq> Absent"
  shows "op_ok (s\<lparr>px_current := Some (g', ow'), px_status := st, px_started := b, px_recoveries := rs\<rparr>)"
  using assms
  by (cases "px_operation s")
     (auto simp: op_ok_def settled_def waits_for_def all_retired_def binding_def)

lemma px_inv_owner:
  assumes inv: "px_inv s" and c: "px_current s = Some (g, ow)" "live ow"
    and ok: "phase_ok st (g', ow')" "ow' \<noteq> Absent" "g_shutdown g \<longrightarrow> g_shutdown g'"
  shows "px_inv (s\<lparr>px_current := Some (g', ow'), px_status := st, px_started := b, px_recoveries := rs\<rparr>)"
  using inv op_ok_owner [OF _ c ok(2), where g' = g' and st = st and b = b and rs = rs] c ok
  by (simp add: px_inv_def stop_ok_def del: phase_ok.simps)

lemma phase_ok_traffic:
  "phase_ok st (g\<lparr>g_clients := cs, g_routes := rt, g_capabilities := caps, g_last_active := la\<rparr>, ow)
     = phase_ok st (g, ow)"
  by (cases ow) simp_all

lemma step_traffic:
  assumes inv: "px_inv s" and sl: "px_slot n s = Some (g, ow)"
    and g'_def: "g' = g\<lparr>g_clients := cs, g_routes := rt, g_capabilities := caps, g_last_active := la\<rparr>"
  shows "px_inv (px_set n (g', ow) s)"
proof (cases "n < length (px_past s)")
  case True
  then have "px_past s ! n \<in> set (px_past s)" by simp
  with inv have "retired (px_past s ! n)" unfolding px_inv_def by blast
  moreover from sl True have "px_past s ! n = (g, ow)" by (simp add: px_slot_def)
  ultimately have "retired (g', ow)" by (simp add: g'_def)
  with inv have "\<forall>sl \<in> set ((px_past s)[n := (g', ow)]). retired sl"
    unfolding px_inv_def by (metis insertE set_update_subset_insert subsetD)
  moreover have "op_ok (s\<lparr>px_past := (px_past s)[n := (g', ow)]\<rparr>) = op_ok s"
    by (cases "px_operation s")
       (simp_all add: op_ok_def settled_def waits_for_def all_retired_def binding_def)
  ultimately show ?thesis
    using inv True by (simp add: px_set_def px_inv_def stop_ok_def del: phase_ok.simps)
next
  case False
  with sl have c: "px_current s = Some (g, ow)" by (auto simp: px_slot_def split: if_splits)
  have "op_ok (s\<lparr>px_current := Some (g', ow)\<rparr>) = op_ok s"
    using c by (cases "px_operation s")
       (simp_all add: g'_def op_ok_def settled_def waits_for_def all_retired_def binding_def)
  with inv False c show ?thesis
    by (simp add: px_set_def px_inv_def stop_ok_def g'_def phase_ok_traffic del: phase_ok.simps)
qed

lemma px_set_owner:
  assumes inv: "px_inv s" and sl: "px_slot n s = Some (g, ow)" "live ow"
    and ok: "phase_ok (px_status s) (g, ow) \<Longrightarrow> phase_ok st (g', ow')" "ow' \<noteq> Absent"
      "g_shutdown g \<longrightarrow> g_shutdown g'"
  shows "px_inv ((px_set n (g', ow') s)\<lparr>px_status := st, px_started := b, px_recoveries := rs\<rparr>)"
proof -
  from live_current [OF inv sl] have c: "n = length (px_past s)" "px_current s = Some (g, ow)" by auto
  with inv have "phase_ok (px_status s) (g, ow)" by (simp add: px_inv_def)
  from px_inv_owner [OF inv c(2) sl(2) ok(1) [OF this] ok(2,3), where b = b and rs = rs] c(1) show ?thesis by simp
qed

lemma px_set_status [simp]:
  "px_status (px_set n sl s) = px_status s" "px_started (px_set n sl s) = px_started s"
  "px_recoveries (px_set n sl s) = px_recoveries s"
  by (simp_all add: px_set_def)

lemma px_same [simp]: "s\<lparr>px_status := px_status s, px_started := px_started s, px_recoveries := px_recoveries s\<rparr> = s"
  by simp

lemma px_set_owner_quiet:
  assumes "px_inv s" "px_slot n s = Some (g, ow)" "live ow"
    and "phase_ok (px_status s) (g, ow) \<Longrightarrow> phase_ok st (g', ow')" "ow' \<noteq> Absent"
      "g_shutdown g \<longrightarrow> g_shutdown g'"
  shows "px_inv ((px_set n (g', ow') s)\<lparr>px_status := st\<rparr>)"
    and "st = px_status s \<Longrightarrow> px_inv (px_set n (g', ow') s)"
proof -
  from px_set_owner [OF assms, where b = "px_started (px_set n (g', ow') s)"
      and rs = "px_recoveries (px_set n (g', ow') s)"]
  show "px_inv ((px_set n (g', ow') s)\<lparr>px_status := st\<rparr>)" by (simp add: px_set_def split: if_splits)
  then show "st = px_status s \<Longrightarrow> px_inv (px_set n (g', ow') s)" by (simp add: px_set_def split: if_splits)
qed

lemma owner_step_inv: "owner_step n s s' \<Longrightarrow> px_inv s \<Longrightarrow> px_inv s'"
proof (induction rule: owner_step.induct)
  case (traffic s g ow cs rt caps la)
  from step_traffic [OF traffic.prems traffic.hyps refl] show ?case .
next
  case (panicked s g ow recover e)
  show ?case
    by (rule px_set_owner_quiet(2) [OF panicked.prems panicked.hyps(1) _ _ _ _ refl])
       (use panicked.hyps(2) in \<open>auto simp: close_def\<close>)
next
  case (published s g sender)
  from px_set_owner [OF published.prems published.hyps, where st = Running and ow' = Serving and b = True
      and g' = "g\<lparr>g_request_tx := Some sender, g_startup := Some (Inr ())\<rparr>" and rs = "px_recoveries s"]
  show ?case by (simp add: px_set_def split: if_splits)
next
  case (finishes s g retirement recover result local files)
  from px_set_owner [OF finishes.prems finishes.hyps(1), where st = "if result = Inr () then Stopped else Failed"
      and g' = "clear ((close g)\<lparr>g_socket_bound := False\<rparr>)" and ow' = "Reporting result recover"
      and b = False and rs = "px_recoveries s"]
  show ?case by (simp add: close_def clear_def px_set_def split: if_splits)
next
  case (reports s g result recover)
  have "px_inv (px_set n (g\<lparr>g_completion := Some result\<rparr>, Finished) s)"
    by (rule px_set_owner_quiet(2) [OF reports.prems reports.hyps _ _ _ _ refl]) (auto split: if_splits)
  then show ?case by (simp only: px_inv_recoveries)
next
  case (setup_done s g)
  show ?case by (rule px_set_owner_quiet(2) [OF setup_done.prems setup_done.hyps(1) _ _ _ _ refl]) auto
next
  case (setup_failed s g e unverified)
  show ?case
    by (rule px_set_owner_quiet(2) [OF setup_failed.prems setup_failed.hyps(1) _ _ _ _ refl])
       (auto simp: close_def)
next
  case (shut_down s g recover retirement)
  show ?case by (rule px_set_owner_quiet(2) [OF shut_down.prems shut_down.hyps _ _ _ _ refl]) auto
qed (rule px_set_owner_quiet(1), assumption, assumption, auto simp: close_def)+

lemma px_run_inv: "px_run s es s' \<Longrightarrow> px_inv s \<Longrightarrow> px_inv s'"
  by (induction rule: px_run.induct) (auto intro: op_step_inv owner_step_inv)

end
