(* ===== verification/LifecycleProps.thy ===== *)
theory LifecycleProps
  imports Lifecycle
begin

text \<open>
  What the lifecycle of a server guarantees along every interleaving of operations, stop requests,
  cancellations and owner tasks, from the invariant of the theory Lifecycle.
\<close>

lemma reachable_inv: "px_run proxy_new es s \<Longrightarrow> px_inv s"
  using px_run_inv px_inv_new by blast

lemma retired_gone: "retired sl \<Longrightarrow> g_completion (fst sl) = Some (Inr ()) \<and> \<not> live (snd sl)"
  by (cases sl rule: retired.cases) auto

lemma past_retired: "px_inv s \<Longrightarrow> sl \<in> set (px_past s) \<Longrightarrow> retired sl"
  unfolding px_inv_def by blast

lemma current_phase: "px_inv s \<Longrightarrow> px_current s = Some sl \<Longrightarrow> phase_ok (px_status s) sl"
  unfolding px_inv_def by blast

lemma op_all_retired:
  "px_inv s \<Longrightarrow> px_operation s = Create \<or> px_operation s = StopDone b \<Longrightarrow> px_current s = Some sl \<Longrightarrow> retired sl"
  unfolding px_inv_def op_ok_def all_retired_def by auto

text \<open>C3: a generation is replaced only after its upstream is known to be gone: in every reachable
  state each replaced generation has confirmed its retirement and its owner is over, so that at most
  one owner (and one upstream process) is alive; and an operation about to create a generation has
  seen the current one retired.\<close>

theorem replaced_only_after_verified_retirement:
  assumes "px_run proxy_new es s"
  shows "(\<forall>sl \<in> set (px_past s). g_completion (fst sl) = Some (Inr ()) \<and> \<not> live (snd sl))
    \<and> (px_operation s = Create \<longrightarrow>
         (\<forall>sl. px_current s = Some sl \<longrightarrow> g_completion (fst sl) = Some (Inr ()) \<and> \<not> live (snd sl)))"
  using reachable_inv [OF assms] past_retired op_all_retired retired_gone by metis

definition sample_serving :: proxy where
  "sample_serving = proxy_new\<lparr>px_status := Running, px_started := True,
     px_current := Some (generation_new\<lparr>g_socket_bound := True, g_request_tx := Some 5,
       g_startup := Some (Inr ())\<rparr>, Serving)\<rparr>"

definition sample_unreturned :: proxy where
  "sample_unreturned = sample_serving\<lparr>px_operation := AwaitStartup 0\<rparr>"

lemma sample_running: "\<exists>es. px_run proxy_new es sample_unreturned"
proof -
  let ?g = "generation_new\<lparr>g_socket_bound := True\<rparr>"
  let ?s1 = "proxy_new\<lparr>px_operation := StartEntry\<rparr>"
  let ?s2 = "?s1\<lparr>px_operation := Create\<rparr>"
  let ?s3 = "create_generation ?s2"
  let ?s4 = "(px_set 0 (?g, Absent) ?s3)\<lparr>px_operation := Bound 0\<rparr>"
  let ?s5 = "(px_set 0 (?g, SettingUp) ?s4)\<lparr>px_operation := AwaitStartup 0\<rparr>"
  let ?s6 = "px_set 0 (?g, Publishing) ?s5"
  let ?s7 = "(px_set 0 (?g\<lparr>g_request_tx := Some 5, g_startup := Some (Inr ())\<rparr>, Serving) ?s6)
     \<lparr>px_status := Running, px_started := True\<rparr>"
  note d = proxy_new_def create_generation_def generation_new_def px_set_def px_slot_def Let_def
  have "px_run proxy_new [] proxy_new" by (rule px_run.px_start)
  moreover have "op_step proxy_new Internal ?s1" by (rule op_step.call_start) (simp add: d)
  ultimately have "px_run proxy_new ([] @ [Internal]) ?s1" by (rule px_run.px_op)
  moreover have "op_step ?s1 Internal ?s2"
    by (rule op_step.start_goes_on) (simp_all add: start_decision_def d)
  ultimately have "px_run proxy_new (([] @ [Internal]) @ [Internal]) ?s2" by (rule px_run.px_op)
  moreover have "op_step ?s2 Internal ?s3" by (rule op_step.created) simp
  ultimately have "px_run proxy_new ((([] @ [Internal]) @ [Internal]) @ [Internal]) ?s3"
    by (rule px_run.px_op)
  moreover have "op_step ?s3 Internal ?s4"
    using op_step.bound [of ?s3 0 generation_new Absent] by (simp add: d)
  ultimately have "px_run proxy_new (((([] @ [Internal]) @ [Internal]) @ [Internal]) @ [Internal]) ?s4"
    by (rule px_run.px_op)
  moreover have "op_step ?s4 Internal ?s5"
    using op_step.spawned [of ?s4 0 ?g Absent] by (simp add: d)
  ultimately have "px_run proxy_new ((((([] @ [Internal]) @ [Internal]) @ [Internal]) @ [Internal]) @ [Internal]) ?s5"
    by (rule px_run.px_op)
  moreover have "owner_step 0 ?s5 ?s6" by (rule owner_step.setup_done) (simp_all add: d)
  ultimately have "px_run proxy_new ((((([] @ [Internal]) @ [Internal]) @ [Internal]) @ [Internal]) @ [Internal]) ?s6"
    by (rule px_run.px_owner)
  moreover have "owner_step 0 ?s6 ?s7" by (rule owner_step.published) (simp_all add: d)
  ultimately have "px_run proxy_new ((((([] @ [Internal]) @ [Internal]) @ [Internal]) @ [Internal]) @ [Internal]) ?s7"
    by (rule px_run.px_owner)
  moreover have "?s7 = sample_unreturned" by (simp add: sample_unreturned_def sample_serving_def d)
  ultimately show ?thesis by auto
qed

lemma sample_return: "op_step sample_unreturned (StartReturned (Inr ())) sample_serving"
proof -
  have "sample_serving = sample_unreturned\<lparr>px_operation := Idle\<rparr>"
    by (simp add: sample_unreturned_def sample_serving_def proxy_new_def)
  then show ?thesis
    using op_step.started [of sample_unreturned 0 "generation_new\<lparr>g_socket_bound := True, g_request_tx := Some 5,
       g_startup := Some (Inr ())\<rparr>" Serving "Inr ()"]
    by (simp add: sample_unreturned_def sample_serving_def proxy_new_def px_slot_def)
qed

lemma sample_start: "\<exists>es. px_run proxy_new es sample_serving"
  using sample_running px_run.px_op [OF _ sample_return] by blast

theorem replaced_only_after_verified_retirement_witness:
  "\<exists>es s. px_run proxy_new es s \<and> px_current s \<noteq> None
     \<and> (\<forall>sl \<in> set (px_past s). g_completion (fst sl) = Some (Inr ()) \<and> \<not> live (snd sl))"
proof -
  have "px_current sample_serving \<noteq> None" by (simp add: sample_serving_def)
  with sample_start replaced_only_after_verified_retirement show ?thesis by blast
qed

text \<open>What readiness reports is true: when it says that the upstream transport is ready, the
  current generation is being served, its request channel is published, its socket was bound by
  this owner and no shutdown was signalled, whatever stops, exits and recoveries are under way.\<close>

theorem readiness_is_truthful:
  assumes "px_run proxy_new es s" and "rd_upstream_transport_ready (readiness s)"
  shows "\<exists>g. px_current s = Some (g, Serving) \<and> g_request_tx g \<noteq> None \<and> \<not> g_shutdown g
     \<and> g_startup g = Some (Inr ()) \<and> px_status s = Running"
proof -
  from assms(2) obtain g ow where c: "px_current s = Some (g, ow)" "g_startup g = Some (Inr ())"
    "g_completion g = None" "px_status s = Running" "\<not> g_shutdown g"
    by (auto simp: readiness_def split: option.splits prod.splits)
  from reachable_inv [OF assms(1)] c(1) have "phase_ok (px_status s) (g, ow)" unfolding px_inv_def by blast
  with c show ?thesis by (cases ow) auto
qed

theorem readiness_is_truthful_witness:
  "\<exists>g. px_current sample_serving = Some (g, Serving) \<and> g_request_tx g \<noteq> None \<and> \<not> g_shutdown g
     \<and> g_startup g = Some (Inr ()) \<and> px_status sample_serving = Running"
proof -
  have ready: "rd_upstream_transport_ready (readiness sample_serving)"
    by (simp add: sample_serving_def readiness_def generation_new_def)
  from sample_start obtain es where "px_run proxy_new es sample_serving" by blast
  from readiness_is_truthful [OF this ready] show ?thesis .
qed

lemma stop_returned_ok:
  assumes "px_run proxy_new es s" and "op_step s (StopReturned (Inr ())) s'"
  shows "px_status s' = Stopped \<and> \<not> px_stop_requested s'
    \<and> (\<forall>sl \<in> set (px_past s') \<union> set_option (px_current s').
         g_completion (fst sl) = Some (Inr ()) \<and> \<not> live (snd sl))
    \<and> (\<forall>sl. px_current s' = Some sl \<longrightarrow> g_request_tx (fst sl) = None \<and> \<not> g_socket_bound (fst sl))"
proof -
  from assms(2) obtain b where b: "px_operation s = StopDone b"
    "s' = s\<lparr>px_status := Stopped, px_stop_requested := False, px_operation := Idle\<rparr>"
    by (cases rule: op_step.cases) (auto split: if_splits)
  note inv = reachable_inv [OF assms(1)]
  have all: "retired sl" if "px_current s = Some sl" for sl
    using op_all_retired [OF inv _ that] b(1) by blast
  have "g_request_tx (fst sl) = None \<and> \<not> g_socket_bound (fst sl)" if "px_current s = Some sl" for sl
    using all [OF that] current_phase [OF inv that] by (cases sl rule: retired.cases) auto
  moreover have "\<forall>sl \<in> set (px_past s) \<union> set_option (px_current s). retired sl"
    using past_retired [OF inv] all by auto
  ultimately show ?thesis using retired_gone by (simp add: b(2) del: split_paired_All)
qed



text \<open>A stop request is not lost in a race with a start: once the signals of all stop requests have
  been sent and until a stop completes, the current generation has been told to shut down, except
  while a start is between creating a generation and spawning its owner, and the step that spawns
  the owner delivers the signal.\<close>

theorem stop_requests_are_not_lost:
  assumes "px_run proxy_new es s" and "px_stop_requested s" and "px_requests s = 0"
    and "px_current s = Some (g, ow)"
  shows "(g_shutdown g \<or> (\<exists>n. px_operation s = Bind n \<or> px_operation s = Bound n))
    \<and> (\<forall>n e s'. px_operation s = Bound n \<longrightarrow> op_step s e s' \<longrightarrow> px_operation s' = AwaitStartup n \<longrightarrow>
         (\<exists>g' ow'. px_current s' = Some (g', ow') \<and> g_shutdown g'))"
proof -
  note inv = reachable_inv [OF assms(1)]
  have "\<exists>g' ow'. px_current s' = Some (g', ow') \<and> g_shutdown g'"
    if step: "op_step s e s'" and op: "px_operation s = Bound n" "px_operation s' = AwaitStartup n" for n e s'
  proof -
    from inv op(1) have "n = length (px_past s)" by (simp add: px_inv_def op_ok_def binding_def)
    with step op assms(2,4) show ?thesis by (cases rule: op_step.cases) (auto simp: signal_current_def)
  qed
  moreover have "g_shutdown g \<or> (\<exists>n. px_operation s = Bind n \<or> px_operation s = Bound n)"
    using inv assms(2-4) by (auto simp: px_inv_def stop_ok_def)
  ultimately show ?thesis by blast
qed

text \<open>A stop request while the server is being served: the flag first, then the signal.\<close>

definition sample_stopping :: proxy where
  "sample_stopping = sample_serving\<lparr>px_stop_requested := True,
     px_current := map_option (map_prod signal_shutdown (\<lambda>ow. ow)) (px_current sample_serving)\<rparr>"

lemma sample_stop: "\<exists>es. px_run proxy_new es sample_stopping"
proof -
  let ?s = "sample_serving\<lparr>px_stop_requested := True, px_requests := Suc (px_requests sample_serving)\<rparr>"
  obtain es where run: "px_run proxy_new es ?s"
    using sample_start px_run.px_op [OF _ op_step.stop_request] by blast
  have "(signal_current ?s)\<lparr>px_requests := 0\<rparr> = sample_stopping"
    by (simp add: signal_current_def sample_stopping_def sample_serving_def proxy_new_def)
  moreover have "op_step ?s Internal ((signal_current ?s)\<lparr>px_requests := 0\<rparr>)"
    by (rule op_step.stop_signal) (simp add: sample_serving_def proxy_new_def)
  ultimately have "op_step ?s Internal sample_stopping" by simp
  from px_run.px_op [OF run this] show ?thesis by blast
qed

theorem stop_requests_are_not_lost_witness:
  "\<exists>es g ow. px_run proxy_new es sample_stopping \<and> px_current sample_stopping = Some (g, ow) \<and> g_shutdown g"
proof -
  from sample_stop obtain es where run: "px_run proxy_new es sample_stopping" by blast
  obtain g ow where c: "px_current sample_stopping = Some (g, ow)"
    by (simp add: sample_stopping_def sample_serving_def)
  have "px_stop_requested sample_stopping" "px_requests sample_stopping = 0" "px_operation sample_stopping = Idle"
    by (simp_all add: sample_stopping_def sample_serving_def proxy_new_def)
  with stop_requests_are_not_lost [OF run _ _ c] run c show ?thesis by auto
qed

subsection \<open>A retirement that failed\<close>

definition failed_with :: "string \<Rightarrow> proxy \<Rightarrow> bool" where
  "failed_with e s \<longleftrightarrow> (\<exists>g ow. px_current s = Some (g, ow) \<and> g_completion g = Some (Inl e))"

lemma failed_not_retired:
  assumes "px_inv s" "failed_with e s"
  shows "px_operation s \<noteq> Create" "px_operation s \<noteq> Bind n" "px_operation s \<noteq> Bound n"
    "px_status s = Failed" "px_slot m s = Some (g, ow) \<Longrightarrow> \<not> live ow"
proof -
  from assms(2) obtain g0 ow0 where c: "px_current s = Some (g0, ow0)" "g_completion g0 = Some (Inl e)"
    by (auto simp: failed_with_def)
  from current_phase [OF assms(1) c(1)] c(2) show "px_status s = Failed" by (cases ow0) auto
  show "px_operation s \<noteq> Create" using op_all_retired [OF assms(1) _ c(1)] c(2) by auto
  show "px_operation s \<noteq> Bind n" "px_operation s \<noteq> Bound n"
    using assms(1) c by (auto simp: px_inv_def op_ok_def binding_def)
  assume "px_slot m s = Some (g, ow)"
  with live_current [OF assms(1), of m g ow] current_phase [OF assms(1) c(1)] c show "\<not> live ow"
    by (cases ow) auto
qed

lemma op_step_failed:
  assumes "op_step s ev s'" "px_inv s" "failed_with e s"
  shows "failed_with e s' \<and> length (px_past s') = length (px_past s)"
  using assms(1) failed_not_retired(1-3) [OF assms(2,3)] assms(3)
  by (cases rule: op_step.cases)
     (auto simp: failed_with_def signal_current_def create_generation_def Let_def map_prod_def)

lemma owner_step_failed:
  assumes "owner_step n s s'" "px_inv s" "failed_with e s"
  shows "failed_with e s' \<and> length (px_past s') = length (px_past s)"
  using assms(1)
proof (cases rule: owner_step.cases)
  case (traffic g ow cs rt caps la)
  with assms(3) show ?thesis
    by (auto simp: failed_with_def px_set_def px_slot_def split: if_splits)
qed (use failed_not_retired(5) [OF assms(2,3), of n] in auto)

lemma px_run_failed:
  "px_run s es s' \<Longrightarrow> px_inv s \<Longrightarrow> failed_with e s \<Longrightarrow>
     px_inv s' \<and> failed_with e s' \<and> length (px_past s') = length (px_past s)"
  by (induction rule: px_run.induct)
     (auto intro: op_step_inv owner_step_inv dest: op_step_failed owner_step_failed)

text \<open>An upstream that could not be shown to be gone is never replaced: once the current generation
  reports a failed retirement, no later operation, whatever its order, creates another generation; the
  status stays failed, the error stays visible, and every start is refused with it.\<close>

theorem failed_retirement_is_final:
  assumes "px_run proxy_new es s" and "failed_with e s" and "px_run s es' s'"
  shows "length (px_past s') = length (px_past s) \<and> px_status s' = Failed
    \<and> rd_retirement_error (readiness s') = Some e \<and> start_decision s' = Inl (Inl e)"
proof -
  from px_run_failed [OF assms(3) reachable_inv [OF assms(1)] assms(2)]
  have s': "px_inv s'" "failed_with e s'" "length (px_past s') = length (px_past s)" by auto
  with failed_not_retired(4) [OF s'(1,2)] show ?thesis
    by (auto simp: failed_with_def readiness_def start_decision_def)
qed


text \<open>A served generation whose owner panics reports a failed retirement.\<close>

definition sample_failed :: proxy where
  "sample_failed = proxy_new\<lparr>px_status := Failed,
     px_current := Some ((clear ((close (close (generation_new\<lparr>g_socket_bound := True, g_request_tx := Some 5,
       g_startup := Some (Inr ())\<rparr>)))\<lparr>g_socket_bound := False\<rparr>))\<lparr>g_completion := Some (Inl ''lost'')\<rparr>,
       Finished)\<rparr>"

lemma sample_fails: "\<exists>es. px_run proxy_new es sample_failed"
proof -
  let ?g = "generation_new\<lparr>g_socket_bound := True, g_request_tx := Some 5, g_startup := Some (Inr ())\<rparr>"
  let ?s1 = "px_set 0 (close ?g, Finishing (Inl ''lost'') False) sample_serving"
  let ?s2 = "(px_set 0 (clear ((close (close ?g))\<lparr>g_socket_bound := False\<rparr>), Reporting (Inl ''lost'') False) ?s1)
     \<lparr>px_status := Failed, px_started := False\<rparr>"
  note d = proxy_new_def sample_serving_def px_set_def px_slot_def
  have "owner_step 0 sample_serving ?s1"
    using owner_step.panicked [of 0 sample_serving ?g Serving False "''lost''"] by (simp add: d)
  then obtain es where run: "px_run proxy_new es ?s1"
    using sample_start px_run.px_owner by blast
  have "owner_step 0 ?s1 ?s2"
    using owner_step.finishes [of 0 ?s1 "close ?g" "Inl ''lost''" False "Inl ''lost''" "Inr ()" "Inr ()"]
    by (simp add: d)
  from px_run.px_owner [OF run this] have run2: "px_run proxy_new es ?s2" .
  have "owner_step 0 ?s2 sample_failed"
    using owner_step.reports [of 0 ?s2 "clear ((close (close ?g))\<lparr>g_socket_bound := False\<rparr>)" "Inl ''lost''" False]
    by (simp add: d sample_failed_def)
  from px_run.px_owner [OF run2 this] show ?thesis by blast
qed

theorem failed_retirement_is_final_witness:
  "px_status sample_failed = Failed \<and> rd_retirement_error (readiness sample_failed) = Some ''lost''
     \<and> start_decision sample_failed = Inl (Inl ''lost'')"
proof -
  from sample_fails obtain es where run: "px_run proxy_new es sample_failed" by blast
  have "failed_with ''lost'' sample_failed" by (simp add: failed_with_def sample_failed_def)
  from failed_retirement_is_final [OF run this px_run.px_start] show ?thesis by blast
qed

end
