(* ===== verification/Definitions.thy ===== *)
theory Definitions
  imports Protocol
begin

text \<open>
  Server definitions (\<open>src/config.rs\<close>): what the configuration reader produces and the pool and the
  client consume.  Maps are in key order.
\<close>

record configuration_entry =
  ce_source :: string
  ce_name :: string
  ce_scope :: "string option"
  ce_credential_store :: "string option"

text \<open>\<open>'a\<close> is the HTTP authentication of a definition, which is only passed on.\<close>

record 'a server_def =
  sd_credential_scope :: "string option"
  sd_configuration_entry :: "configuration_entry option"
  sd_command :: string
  sd_args :: "string list"
  sd_env :: "(string \<times> string) list"
  sd_clear_env :: bool
  sd_headers :: "(string \<times> string) list"
  sd_cwd :: "string option"
  sd_timeout_ms :: "u64 option"
  sd_protocol_version :: protocol_preference
  sd_auth :: "'a option"
  sd_url :: string
  sd_transport :: string
  sd_description :: string

definition default_definition :: "'a server_def" where
  "default_definition =
     \<lparr>sd_credential_scope = None, sd_configuration_entry = None, sd_command = [], sd_args = [], sd_env = [],
      sd_clear_env = False, sd_headers = [], sd_cwd = None, sd_timeout_ms = None,
      sd_protocol_version = AutoProtocol, sd_auth = None, sd_url = [], sd_transport = [],
      sd_description = []\<rparr>"

definition is_remote :: "'a server_def \<Rightarrow> bool" where
  "is_remote d \<longleftrightarrow> sd_url d \<noteq> []"

definition transport_kind :: "'a server_def \<Rightarrow> string" where
  "transport_kind d =
     (if is_remote d then if eq_ignore_ascii_case (sd_transport d) ''sse'' then ''sse'' else ''http''
      else ''stdio'')"

subsection \<open>Endpoint names\<close>

text \<open>A UTF-8 continuation byte belongs to the character begun before it.\<close>

definition sanitize_byte :: "char \<Rightarrow> string" where
  "sanitize_byte c =
     (if is_ascii_alphanumeric c \<or> c = CHR ''-'' \<or> c = CHR ''_'' then [c]
      else if in_range 0x80 0xBF c then []
      else ''_'')"

definition sanitize_socket_name :: "string \<Rightarrow> string" where
  "sanitize_socket_name name =
     (let out = concat (map sanitize_byte name) in if out = [] then ''mcp'' else out)"

definition server_socket_name :: "string \<Rightarrow> string" where
  "server_socket_name name = ''mcp-cli-'' @ sanitize_socket_name name @ ''.sock''"

definition server_name_from_file :: "string \<Rightarrow> string option" where
  "server_name_from_file file =
     Option.bind (Option.bind (strip_prefix ''mcp-cli-'' file) (strip_suffix ''.sock''))
       (\<lambda>name. if name \<noteq> [] then Some name else None)"

definition socket_safe :: "char \<Rightarrow> bool" where
  "socket_safe c \<longleftrightarrow> is_ascii_alphanumeric c \<or> c = CHR ''-'' \<or> c = CHR ''_''"

lemma sanitize_byte_safe: "c \<in> set (sanitize_byte b) \<Longrightarrow> socket_safe c"
  by (auto simp: sanitize_byte_def socket_safe_def split: if_splits)

lemma sanitize_safe: "list_all socket_safe (sanitize_socket_name name)"
  using sanitize_byte_safe
  by (auto simp: sanitize_socket_name_def Let_def list_all_iff socket_safe_def is_ascii_alphanumeric_def
      is_ascii_alphabetic_def is_ascii_lower_def)

lemma sanitize_nonempty: "sanitize_socket_name name \<noteq> []"
  by (simp add: sanitize_socket_name_def Let_def)

lemma sanitize_safe_id: "list_all socket_safe s \<Longrightarrow> concat (map sanitize_byte s) = s"
  by (induction s) (auto simp: sanitize_byte_def socket_safe_def)

lemma socket_name_reads_back:
  "server_name_from_file (server_socket_name name) = Some (sanitize_socket_name name)"
proof -
  have "strip_prefix ''mcp-cli-'' (server_socket_name name) = Some (sanitize_socket_name name @ ''.sock'')"
    unfolding server_socket_name_def by (rule strip_prefix_append)
  moreover have "strip_suffix ''.sock'' (sanitize_socket_name name @ ''.sock'') = Some (sanitize_socket_name name)"
    by (rule strip_suffix_append)
  ultimately show ?thesis using sanitize_nonempty by (simp add: server_name_from_file_def)
qed

text \<open>A server's endpoint name can be read back: the file name of a server's socket parses to
  the sanitized server name, which is never empty, contains only letters, digits, \<open>-\<close> and \<open>_\<close>, and is
  its own sanitized form, so that a rediscovered endpoint keeps its name.\<close>

theorem endpoint_name_roundtrip:
  "server_name_from_file (server_socket_name name) = Some (sanitize_socket_name name)
   \<and> sanitize_socket_name (sanitize_socket_name name) = sanitize_socket_name name
   \<and> sanitize_socket_name name \<noteq> []
   \<and> list_all socket_safe (sanitize_socket_name name)"
proof -
  have "sanitize_socket_name (sanitize_socket_name name) = sanitize_socket_name name"
    using sanitize_nonempty sanitize_safe_id [OF sanitize_safe]
    by (subst (1) sanitize_socket_name_def) (simp add: Let_def)
  then show ?thesis
    using sanitize_nonempty sanitize_safe socket_name_reads_back by blast
qed

end
