(* ===== verification/Pool.thy ===== *)
theory Pool
  imports LifecycleProps Definitions
begin

text \<open>
  The pool of servers: definitions and endpoints (\<open>src/config.rs\<close>, \<open>src/upstream.rs\<close>), \<open>Endpoint\<close>
  (\<open>src/pool_endpoint.rs\<close>) and \<open>Pool\<close> (\<open>src/pool.rs\<close>).  A pool operation holds its server's lock
  from beginning to end, so it is one step; the operation of the \<open>SocketProxy\<close> inside it is any run
  of the lifecycle (theory Lifecycle) that ends with that operation's return.
\<close>

subsection \<open>Server definitions\<close>

datatype 'a upstream_spec =
    Stdio string "string list" "(string \<times> string) list" "string option" bool
  | Http string bool "(string \<times> string) list" "u64 option" "'a option"

definition upstream_spec_from_def :: "'a server_def \<Rightarrow> 'a upstream_spec" where
  "upstream_spec_from_def d =
     (if is_remote d
      then Http (sd_url d) (eq_ignore_ascii_case (sd_transport d) ''sse'') (sd_headers d)
             (sd_timeout_ms d) (sd_auth d)
      else Stdio (sd_command d) (sd_args d) (sd_env d) (sd_cwd d) (sd_clear_env d))"

fun transport :: "'a upstream_spec \<Rightarrow> string" where
  "transport (Stdio c as e d k) = ''stdio''"
| "transport (Http u sse h t a) = (if sse then ''sse'' else ''http'')"

lemma transport_of_definition: "transport (upstream_spec_from_def d) = transport_kind d"
  by (simp add: upstream_spec_from_def_def transport_kind_def)

subsection \<open>Endpoints\<close>

record 'a managed =
  mg_proxy :: proxy
  mg_spec :: "'a upstream_spec"
  mg_entry :: "configuration_entry option"
  mg_socket_path :: string

datatype 'a endpoint = Owned "'a managed" | External string

record mcp_server_status =
  ms_name :: string
  ms_status :: server_status
  ms_socket_path :: string
  ms_connection_count :: nat
  ms_owned :: bool
  ms_transport :: string
  ms_readiness :: server_readiness
  ms_configuration_entry :: "configuration_entry option"

definition request_stop :: "proxy \<Rightarrow> proxy" where
  "request_stop s = signal_current (s\<lparr>px_stop_requested := True\<rparr>)"

definition connection_count :: "proxy \<Rightarrow> nat" where
  "connection_count s = (case px_current s of None \<Rightarrow> 0 | Some (g, ow) \<Rightarrow> length (g_clients g))"

fun ep_configuration_entry :: "'a endpoint \<Rightarrow> configuration_entry option" where
  "ep_configuration_entry (Owned m) = mg_entry m"
| "ep_configuration_entry (External path) = None"

fun ep_status :: "'a endpoint \<Rightarrow> server_status" where
  "ep_status (Owned m) = px_status (mg_proxy m)"
| "ep_status (External path) = Running"

fun ep_request_stop :: "'a endpoint \<Rightarrow> 'a endpoint" where
  "ep_request_stop (Owned m) = Owned (m\<lparr>mg_proxy := request_stop (mg_proxy m)\<rparr>)"
| "ep_request_stop (External path) = External path"

fun wire_status :: "string \<Rightarrow> 'a endpoint \<Rightarrow> mcp_server_status" where
  "wire_status name (Owned m) =
     \<lparr>ms_name = name, ms_status = px_status (mg_proxy m), ms_socket_path = mg_socket_path m,
      ms_connection_count = connection_count (mg_proxy m), ms_owned = True,
      ms_transport = transport (mg_spec m), ms_readiness = readiness (mg_proxy m),
      ms_configuration_entry = mg_entry m\<rparr>"
| "wire_status name (External path) =
     \<lparr>ms_name = name, ms_status = Running, ms_socket_path = path, ms_connection_count = 0,
      ms_owned = False, ms_transport = ''stdio'',
      ms_readiness = (readiness proxy_new)\<lparr>rd_local_socket_bound := True\<rparr>,
      ms_configuration_entry = None\<rparr>"

text \<open>
  An operation of the proxy: a run of the lifecycle that ends with the return of the operation.
  An operation on an external endpoint does nothing and succeeds.
\<close>

definition px_returns :: "proxy \<Rightarrow> px_event \<Rightarrow> proxy \<Rightarrow> bool" where
  "px_returns s ev s' \<longleftrightarrow> (\<exists>es s1. px_run s es s1 \<and> op_step s1 ev s')"

inductive ep_start :: "'a endpoint \<Rightarrow> outcome \<Rightarrow> 'a endpoint \<Rightarrow> bool" where
  start_owned: "px_returns (mg_proxy m) (StartReturned r) s \<Longrightarrow>
    ep_start (Owned m) r (Owned (m\<lparr>mg_proxy := s\<rparr>))"
| start_external: "ep_start (External path) (Inr ()) (External path)"

inductive ep_stop :: "'a endpoint \<Rightarrow> outcome \<Rightarrow> 'a endpoint \<Rightarrow> bool" where
  stop_owned: "px_returns (request_stop (mg_proxy m)) (StopReturned r) s \<Longrightarrow>
    ep_stop (Owned m) r (Owned (m\<lparr>mg_proxy := s\<rparr>))"
| stop_external: "ep_stop (External path) (Inr ()) (External path)"

inductive ep_restart :: "'a endpoint \<Rightarrow> outcome \<Rightarrow> 'a endpoint \<Rightarrow> bool" where
  restart_owned: "px_returns (mg_proxy m) (StartReturned r) s \<Longrightarrow>
    ep_restart (Owned m) r (Owned (m\<lparr>mg_proxy := s\<rparr>))"
| restart_failed: "px_returns (mg_proxy m) (StopReturned (Inl e)) s \<Longrightarrow>
    ep_restart (Owned m) (Inl e) (Owned (m\<lparr>mg_proxy := s\<rparr>))"
| restart_external: "ep_restart (External path) (Inr ()) (External path)"

inductive_cases ep_stop_ownedE: "ep_stop (Owned m) r ep"
inductive_cases ep_stop_externalE: "ep_stop (External path) r ep"

subsection \<open>The pool\<close>

record 'a pool =
  pl_proxies :: "(string, 'a endpoint) hmap"
  pl_shutting_down :: bool

definition pool_new :: "'a pool" where
  "pool_new = \<lparr>pl_proxies = [], pl_shutting_down = False\<rparr>"

definition set_endpoint :: "string \<Rightarrow> 'a endpoint \<Rightarrow> 'a pool \<Rightarrow> 'a pool" where
  "set_endpoint name ep p = p\<lparr>pl_proxies := hm_insert name ep (pl_proxies p)\<rparr>"

definition remove_endpoint :: "string \<Rightarrow> 'a pool \<Rightarrow> 'a pool" where
  "remove_endpoint name p = p\<lparr>pl_proxies := hm_remove name (pl_proxies p)\<rparr>"

definition get_status :: "'a pool \<Rightarrow> nat \<times> mcp_server_status list" where
  "get_status p =
     (let servers = map (\<lambda>e. wire_status (fst e) (snd e)) (pl_proxies p) in (length servers, servers))"

text \<open>Discovery: one directory entry after the other; \<open>alive\<close> tells whether its socket answers.\<close>

fun discover_sockets ::
  "(string \<Rightarrow> bool) \<Rightarrow> string \<Rightarrow> string list \<Rightarrow> 'a pool \<Rightarrow> nat \<times> 'a pool" where
  "discover_sockets alive directory [] p = (0, p)"
| "discover_sockets alive directory (file # files) p =
     (case server_name_from_file file of
        None \<Rightarrow> discover_sockets alive directory files p
      | Some name \<Rightarrow>
          if is_some (hm_get name (pl_proxies p)) \<or> \<not> alive (directory @ file)
          then discover_sockets alive directory files p
          else (case discover_sockets alive directory files
                       (set_endpoint name (External (directory @ file)) p) of
                  (n, p') \<Rightarrow> (Suc n, p')))"

datatype 'a pool_op =
    StartServer string "'a upstream_spec" "configuration_entry option"
  | StopServer string
  | RestartServer string
  | ShutdownPool

text \<open>The loop of \<open>shutdown\<close>: what is stopped, what stays, and the last error.\<close>

inductive shut_down_each ::
  "(string \<times> 'a endpoint) list \<Rightarrow> (string \<times> 'a endpoint) list \<Rightarrow> (string \<times> 'a endpoint) list
     \<Rightarrow> string option \<Rightarrow> bool" where
  none_left: "shut_down_each [] [] [] None"
| one_stopped: "ep_stop ep (Inr ()) ep' \<Longrightarrow> shut_down_each eps stopped rest failure \<Longrightarrow>
    shut_down_each ((name, ep) # eps) ((name, ep') # stopped) rest failure"
| one_failed: "ep_stop ep (Inl e) ep' \<Longrightarrow> shut_down_each eps stopped rest failure \<Longrightarrow>
    shut_down_each ((name, ep) # eps) stopped ((name, ep') # rest)
      (case failure of Some f \<Rightarrow> Some f | None \<Rightarrow> Some e)"

inductive pool_step :: "'a pool \<Rightarrow> 'a pool_op \<Rightarrow> outcome \<Rightarrow> 'a pool \<Rightarrow> bool" where
  start_while_shutting_down: "pl_shutting_down p \<Longrightarrow>
    pool_step p (StartServer name spec entry) (Inl ''pool is shutting down'') p"
| start_other_entry: "\<not> pl_shutting_down p \<Longrightarrow> hm_get name (pl_proxies p) = Some ep \<Longrightarrow>
    ep_configuration_entry ep \<noteq> entry \<Longrightarrow>
    pool_step p (StartServer name spec entry)
      (Inl ''pool belongs to a different configuration entry'') p"
| start_unidentified: "\<not> pl_shutting_down p \<Longrightarrow>
    \<forall>ep. hm_get name (pl_proxies p) = Some ep \<longrightarrow> ep_configuration_entry ep = entry \<Longrightarrow>
    pool_step p (StartServer name spec entry) (Inl e) p"
| start_existing: "\<not> pl_shutting_down p \<Longrightarrow> hm_get name (pl_proxies p) = Some ep \<Longrightarrow>
    ep_configuration_entry ep = entry \<Longrightarrow> ep_status ep \<in> {Starting, Running} \<Longrightarrow> ep_start ep r ep' \<Longrightarrow>
    pool_step p (StartServer name spec entry) r (set_endpoint name ep' p)"
| start_stop_failed: "\<not> pl_shutting_down p \<Longrightarrow> hm_get name (pl_proxies p) = Some ep \<Longrightarrow>
    ep_configuration_entry ep = entry \<Longrightarrow> ep_status ep \<notin> {Starting, Running} \<Longrightarrow> ep_stop ep (Inl e) ep' \<Longrightarrow>
    pool_step p (StartServer name spec entry) (Inl e) (set_endpoint name ep' p)"
| start_no_path: "\<not> pl_shutting_down p \<Longrightarrow> hm_get name (pl_proxies p) = Some ep \<Longrightarrow>
    ep_configuration_entry ep = entry \<Longrightarrow> ep_status ep \<notin> {Starting, Running} \<Longrightarrow> ep_stop ep (Inr ()) ep' \<Longrightarrow>
    pool_step p (StartServer name spec entry) (Inl e) (set_endpoint name ep' p)"
| start_fresh: "\<not> pl_shutting_down p \<Longrightarrow>
    (case hm_get name (pl_proxies p) of
       None \<Rightarrow> True
     | Some ep \<Rightarrow> ep_configuration_entry ep = entry \<and> ep_status ep \<notin> {Starting, Running}
                 \<and> (\<exists>ep'. ep_stop ep (Inr ()) ep')) \<Longrightarrow>
    m = \<lparr>mg_proxy = proxy_new, mg_spec = spec, mg_entry = entry, mg_socket_path = path\<rparr> \<Longrightarrow>
    ep_start (Owned m) r ep'' \<Longrightarrow>
    pool_step p (StartServer name spec entry) r (set_endpoint name ep'' p)"
| start_raced: "\<not> pl_shutting_down p \<Longrightarrow>
    (case hm_get name (pl_proxies p) of
       None \<Rightarrow> True
     | Some ep \<Rightarrow> ep_configuration_entry ep = entry \<and> ep_status ep \<notin> {Starting, Running}
                 \<and> (\<exists>ep'. ep_stop ep (Inr ()) ep')) \<Longrightarrow>
    pool_step p (StartServer name spec entry) (Inl ''pool is shutting down'')
      ((remove_endpoint name p)\<lparr>pl_shutting_down := True\<rparr>)"
| stop_missing: "hm_get name (pl_proxies p) = None \<Longrightarrow> pool_step p (StopServer name) (Inr ()) p"
| stop_done: "hm_get name (pl_proxies p) = Some ep \<Longrightarrow> ep_stop (ep_request_stop ep) (Inr ()) ep' \<Longrightarrow>
    pool_step p (StopServer name) (Inr ()) (remove_endpoint name p)"
| stop_failed: "hm_get name (pl_proxies p) = Some ep \<Longrightarrow> ep_stop (ep_request_stop ep) (Inl e) ep' \<Longrightarrow>
    pool_step p (StopServer name) (Inl e) (set_endpoint name ep' p)"
| restart_while_shutting_down: "pl_shutting_down p \<Longrightarrow>
    pool_step p (RestartServer name) (Inl ''pool is shutting down'') p"
| restart_missing: "\<not> pl_shutting_down p \<Longrightarrow> hm_get name (pl_proxies p) = None \<Longrightarrow>
    pool_step p (RestartServer name) (Inr ()) p"
| restart_done: "\<not> pl_shutting_down p \<Longrightarrow> hm_get name (pl_proxies p) = Some ep \<Longrightarrow> ep_restart ep r ep' \<Longrightarrow>
    pool_step p (RestartServer name) r (set_endpoint name ep' p)"
| shutdown: "shut_down_each (map (apsnd (ep_request_stop \<circ> ep_request_stop)) (pl_proxies p)) stopped rest failure \<Longrightarrow>
    pool_step p ShutdownPool (case failure of None \<Rightarrow> Inr () | Some e \<Rightarrow> Inl e)
      \<lparr>pl_proxies = rest, pl_shutting_down = (failure = None)\<rparr>"


subsection \<open>What pool operations do to the servers\<close>

definition advances :: "proxy \<Rightarrow> proxy \<Rightarrow> bool" where
  "advances s s' \<longleftrightarrow> (\<exists>es. px_run s es s')"

definition reachable :: "proxy \<Rightarrow> bool" where
  "reachable s \<longleftrightarrow> advances proxy_new s"

definition fully_stopped :: "proxy \<Rightarrow> bool" where
  "fully_stopped s \<longleftrightarrow> px_status s = Stopped
     \<and> (\<forall>sl \<in> set (px_past s) \<union> set_option (px_current s).
          g_completion (fst sl) = Some (Inr ()) \<and> \<not> live (snd sl))"

fun managed_ok :: "'a endpoint \<Rightarrow> bool" where
  "managed_ok (Owned m) = reachable (mg_proxy m)"
| "managed_ok (External path) = True"

fun endpoint_stopped :: "'a endpoint \<Rightarrow> bool" where
  "endpoint_stopped (Owned m) = fully_stopped (mg_proxy m)"
| "endpoint_stopped (External path) = True"

definition pool_ok :: "'a pool \<Rightarrow> bool" where
  "pool_ok p \<longleftrightarrow> hm_wf (pl_proxies p) \<and> (\<forall>e \<in> set (pl_proxies p). managed_ok (snd e))"

lemma px_run_append: "px_run s' es' s'' \<Longrightarrow> px_run s es s' \<Longrightarrow> px_run s (es @ es') s''"
proof (induction rule: px_run.induct)
  case (px_op es' a e b)
  from px_run.px_op [OF px_op.IH [OF px_op.prems] px_op.hyps(2)] show ?case by simp
next
  case (px_owner es' a n b)
  from px_run.px_owner [OF px_owner.IH [OF px_owner.prems] px_owner.hyps(2)] show ?case .
qed simp

lemma advances_trans [trans]: "advances s s' \<Longrightarrow> advances s' s'' \<Longrightarrow> advances s s''"
  unfolding advances_def using px_run_append by blast

lemma advances_refl [simp, intro]: "advances s s"
  unfolding advances_def using px_run.px_start by blast

lemma advances_returns: "px_returns s ev s' \<Longrightarrow> advances s s'"
  unfolding px_returns_def advances_def using px_run.px_op by blast

lemma advances_request_stop: "advances s (request_stop s)"
proof -
  let ?s = "s\<lparr>px_stop_requested := True, px_requests := Suc (px_requests s)\<rparr>"
  from px_run.px_op [OF px_run.px_start op_step.stop_request]
  obtain es where run: "px_run s es ?s" by blast
  have "op_step ?s Internal ((signal_current ?s)\<lparr>px_requests := px_requests s\<rparr>)"
    by (rule op_step.stop_signal) simp
  moreover have "(signal_current ?s)\<lparr>px_requests := px_requests s\<rparr> = request_stop s"
    by (simp add: request_stop_def signal_current_def)
  ultimately have "op_step ?s Internal (request_stop s)" by simp
  from px_run.px_op [OF run this] show ?thesis unfolding advances_def by blast
qed

lemma returns_ok_stopped:
  assumes "reachable s" "px_returns s (StopReturned (Inr ())) s'"
  shows "fully_stopped s'"
proof -
  from assms obtain es s1 where "px_run proxy_new es s1" "op_step s1 (StopReturned (Inr ())) s'"
    unfolding reachable_def advances_def px_returns_def using px_run_append by blast
  from stop_returned_ok [OF this] show ?thesis by (simp add: fully_stopped_def)
qed

lemma managed_start: "ep_start ep r ep' \<Longrightarrow> managed_ok ep \<Longrightarrow> managed_ok ep'"
  by (induction rule: ep_start.induct) (auto simp: reachable_def intro: advances_trans advances_returns)

lemma managed_restart: "ep_restart ep r ep' \<Longrightarrow> managed_ok ep \<Longrightarrow> managed_ok ep'"
  by (induction rule: ep_restart.induct) (auto simp: reachable_def intro: advances_trans advances_returns)

lemma managed_stop:
  "ep_stop ep r ep' \<Longrightarrow> managed_ok ep \<Longrightarrow> managed_ok ep' \<and> (r = Inr () \<longrightarrow> endpoint_stopped ep')"
proof (induction rule: ep_stop.induct)
  case (stop_owned m r s)
  then have r: "reachable (request_stop (mg_proxy m))"
    by (auto simp: reachable_def intro: advances_trans advances_request_stop)
  with stop_owned.hyps have "reachable s"
    unfolding reachable_def by (blast intro: advances_trans advances_returns)
  with r stop_owned.hyps returns_ok_stopped show ?case by auto
qed simp

lemma managed_request: "managed_ok ep \<Longrightarrow> managed_ok (ep_request_stop ep)"
  by (cases ep) (auto simp: reachable_def intro: advances_trans advances_request_stop)

lemma pool_ok_set: "pool_ok p \<Longrightarrow> managed_ok ep \<Longrightarrow> pool_ok (set_endpoint name ep p)"
  by (auto simp: pool_ok_def set_endpoint_def hm_insert_def set_hm_remove)

lemma pool_ok_remove: "pool_ok p \<Longrightarrow> pool_ok (remove_endpoint name p)"
  by (auto simp: pool_ok_def remove_endpoint_def set_hm_remove)

lemma pool_ok_get: "pool_ok p \<Longrightarrow> hm_get name (pl_proxies p) = Some ep \<Longrightarrow> managed_ok ep"
  using hm_get_in by (fastforce simp: pool_ok_def)

lemma pool_ok_new: "pool_ok pool_new"
  by (simp add: pool_ok_def pool_new_def)

lemma shut_down_each_names:
  "shut_down_each eps stopped rest failure \<Longrightarrow>
     mset (map fst stopped) + mset (map fst rest) = mset (map fst eps)
     \<and> (failure = None \<longleftrightarrow> rest = [])"
  by (induction rule: shut_down_each.induct) (auto split: option.splits)

lemma shut_down_each_managed:
  "shut_down_each eps stopped rest failure \<Longrightarrow> \<forall>e \<in> set eps. managed_ok (snd e) \<Longrightarrow>
     (\<forall>e \<in> set rest. managed_ok (snd e)) \<and> (\<forall>e \<in> set stopped. endpoint_stopped (snd e))"
  by (induction rule: shut_down_each.induct) (auto dest: managed_stop)

lemma shut_down_each_wf:
  "shut_down_each eps stopped rest failure \<Longrightarrow> hm_wf eps \<Longrightarrow> hm_wf rest"
  by (drule shut_down_each_names) (metis distinct_append mset_append mset_eq_imp_distinct_iff)

lemma managed_requests:
  "pool_ok p \<Longrightarrow> \<forall>e \<in> set (map (apsnd (ep_request_stop \<circ> ep_request_stop)) (pl_proxies p)). managed_ok (snd e)"
  by (auto simp: pool_ok_def intro!: managed_request)

lemma pool_step_ok: "pool_step p op r p' \<Longrightarrow> pool_ok p \<Longrightarrow> pool_ok p'"
proof (induction rule: pool_step.induct)
  case (start_fresh p name entry m spec path r ep'')
  have "reachable proxy_new" by (simp add: reachable_def)
  with start_fresh have "managed_ok ep''" by (auto intro: managed_start)
  from pool_ok_set [OF start_fresh.prems this] show ?case .
next
  case (start_raced p name entry spec)
  then show ?case using pool_ok_remove [of p name] by (simp add: pool_ok_def)
next
  case (shutdown p stopped rest failure)
  have "map fst (map (apsnd (ep_request_stop \<circ> ep_request_stop)) (pl_proxies p)) = map fst (pl_proxies p)"
    by simp
  with shutdown.prems have "hm_wf (map (apsnd (ep_request_stop \<circ> ep_request_stop)) (pl_proxies p))"
    by (simp only: pool_ok_def)
  with shut_down_each_wf [OF shutdown.hyps] shut_down_each_managed [OF shutdown.hyps managed_requests [OF shutdown.prems]]
  show ?case by (simp add: pool_ok_def)
qed (auto intro!: pool_ok_set pool_ok_remove dest: managed_start managed_stop managed_restart pool_ok_get
        managed_request)


text \<open>
  Reachable pools: operations of clients, discovery of sockets, and the background work of the
  owned servers (their owner tasks, recoveries and half-done operations).
\<close>

inductive pool_reachable :: "'a pool \<Rightarrow> bool" where
  empty_pool: "pool_reachable pool_new"
| operation: "pool_reachable p \<Longrightarrow> pool_step p op r p' \<Longrightarrow> pool_reachable p'"
| background: "pool_reachable p \<Longrightarrow> hm_get name (pl_proxies p) = Some (Owned m) \<Longrightarrow>
    advances (mg_proxy m) s \<Longrightarrow> pool_reachable (set_endpoint name (Owned (m\<lparr>mg_proxy := s\<rparr>)) p)"
| discovery: "pool_reachable p \<Longrightarrow> discover_sockets alive directory files p = (n, p') \<Longrightarrow> pool_reachable p'"

lemma pool_ok_external [simp]: "pool_ok p \<Longrightarrow> pool_ok (set_endpoint name (External path) p)"
  by (rule pool_ok_set) simp_all

lemma discover_ok:
  "discover_sockets alive directory files p = (n, p') \<Longrightarrow> pool_ok p \<Longrightarrow> pool_ok p'"
proof (induction alive directory files p arbitrary: n p' rule: discover_sockets.induct)
  case (2 alive directory f fs p)
  then show ?case
    by (auto split: option.splits if_splits prod.splits)
qed simp

lemma pool_reachable_ok: "pool_reachable p \<Longrightarrow> pool_ok p"
proof (induction rule: pool_reachable.induct)
  case (background p name m s)
  from pool_ok_get [OF background.IH background.hyps(2)] background.hyps(3)
  have "managed_ok (Owned (m\<lparr>mg_proxy := s\<rparr>))"
    by (simp add: reachable_def) (rule advances_trans)
  from pool_ok_set [OF background.IH this] show ?case .
qed (auto intro: pool_ok_new pool_step_ok discover_ok)

lemma get_set_endpoint [simp]:
  "hm_get k (pl_proxies (set_endpoint name ep p)) = (if k = name then Some ep else hm_get k (pl_proxies p))"
  by (simp add: set_endpoint_def hm_get_insert)

lemma get_remove_endpoint [simp]:
  "hm_get k (pl_proxies (remove_endpoint name p)) = (if k = name then None else hm_get k (pl_proxies p))"
  by (simp add: remove_endpoint_def hm_get_remove)

lemma stop_of_owned:
  assumes "ep_stop (Owned m) r ep" "reachable (mg_proxy m)"
  shows "\<exists>s. ep = Owned (m\<lparr>mg_proxy := s\<rparr>) \<and> advances (mg_proxy m) s \<and> (r = Inr () \<longrightarrow> fully_stopped s)"
  using assms(1)
proof (rule ep_stop_ownedE)
  fix s assume s: "ep = Owned (m\<lparr>mg_proxy := s\<rparr>)" "px_returns (request_stop (mg_proxy m)) (StopReturned r) s"
  have "reachable (request_stop (mg_proxy m))"
    using assms(2) advances_request_stop advances_trans unfolding reachable_def by blast
  with s returns_ok_stopped have "r = Inr () \<longrightarrow> fully_stopped s" by blast
  moreover have "advances (mg_proxy m) s"
    by (rule advances_trans [OF advances_request_stop advances_returns [OF s(2)]])
  ultimately show ?thesis using s(1) by blast
qed

lemma start_of_owned:
  "ep_start (Owned m) r ep \<Longrightarrow> \<exists>s. ep = Owned (m\<lparr>mg_proxy := s\<rparr>) \<and> advances (mg_proxy m) s"
  by (cases rule: ep_start.cases) (auto intro: advances_returns)

text \<open>Starting a server never abandons or doubles a live one.  A start for a name whose server
  belongs to another configuration entry fails and changes nothing; otherwise the server that was
  there either is still the registered one, further along its own lifecycle, or it was stopped
  first, with every generation's retirement confirmed; and no other server changes.\<close>

theorem start_never_abandons_a_server:
  assumes "pool_reachable p" and "pool_step p (StartServer name spec entry) r p'"
    and "hm_get name (pl_proxies p) = Some (Owned m)"
  shows "(\<forall>other. other \<noteq> name \<longrightarrow> hm_get other (pl_proxies p') = hm_get other (pl_proxies p))
    \<and> (mg_entry m \<noteq> entry \<longrightarrow> p' = p \<and> (\<exists>e. r = Inl e))
    \<and> (\<exists>s. advances (mg_proxy m) s
         \<and> (hm_get name (pl_proxies p') = Some (Owned (m\<lparr>mg_proxy := s\<rparr>)) \<or> fully_stopped s))"
proof -
  from pool_ok_get [OF pool_reachable_ok [OF assms(1)] assms(3)] have m: "reachable (mg_proxy m)" by simp
  have same: "\<exists>s. advances (mg_proxy m) s \<and> Some (Owned m) = Some (Owned (m\<lparr>mg_proxy := s\<rparr>))"
    by (rule exI [of _ "mg_proxy m"]) simp
  from assms(2) show ?thesis
  proof cases
    case (start_existing ep ep')
    with assms(3) start_of_owned [of m r ep'] show ?thesis by auto
  next
    case (start_stop_failed ep e ep')
    with assms(3) stop_of_owned [OF _ m, of "Inl e" ep'] show ?thesis by auto
  next
    case (start_no_path ep ep' e)
    with assms(3) stop_of_owned [OF _ m, of "Inr ()" ep'] show ?thesis by auto
  next
    case (start_fresh m' path ep'')
    with assms(3) obtain ep' where "ep_stop (Owned m) (Inr ()) ep'" and e: "mg_entry m = entry" by auto
    from stop_of_owned [OF this(1) m] start_fresh e show ?thesis by auto
  next
    case start_raced
    with assms(3) obtain ep' where "ep_stop (Owned m) (Inr ()) ep'" and e: "mg_entry m = entry" by auto
    from stop_of_owned [OF this(1) m] start_raced e show ?thesis by auto
  qed (use assms(3) same in auto)
qed

text \<open>A stopped server is forgotten only when it is gone: after a stop that reports success the
  name is free and the owned server that was there has every generation's retirement confirmed;
  after one that reports an error the name is still registered; other servers are untouched.\<close>

theorem stop_forgets_only_what_is_gone:
  assumes "pool_reachable p" and "pool_step p (StopServer name) r p'"
  shows "(\<forall>other. other \<noteq> name \<longrightarrow> hm_get other (pl_proxies p') = hm_get other (pl_proxies p))
    \<and> (r = Inr () \<longleftrightarrow> hm_get name (pl_proxies p') = None)
    \<and> (\<forall>m. hm_get name (pl_proxies p) = Some (Owned m) \<longrightarrow>
         (\<exists>s. advances (mg_proxy m) s \<and> (if r = Inr () then fully_stopped s
                else hm_get name (pl_proxies p') = Some (Owned (m\<lparr>mg_proxy := s\<rparr>)))))"
  using assms(2)
proof cases
  case (stop_done ep ep')
  have "\<exists>s. advances (mg_proxy m) s \<and> fully_stopped s" if "ep = Owned m" for m
  proof -
    have "reachable (request_stop (mg_proxy m))"
      using pool_ok_get [OF pool_reachable_ok [OF assms(1)] stop_done(3)] that advances_request_stop advances_trans
      unfolding reachable_def by (simp add: reachable_def)
    with stop_of_owned [of "m\<lparr>mg_proxy := request_stop (mg_proxy m)\<rparr>"] stop_done(4) that
    obtain s where "advances (request_stop (mg_proxy m)) s" "fully_stopped s" by auto
    with advances_trans [OF advances_request_stop] show ?thesis by blast
  qed
  with stop_done show ?thesis by auto
next
  case (stop_failed ep e ep')
  have "\<exists>s. advances (mg_proxy m) s \<and> ep' = Owned (m\<lparr>mg_proxy := s\<rparr>)" if "ep = Owned m" for m
  proof -
    have "reachable (request_stop (mg_proxy m))"
      using pool_ok_get [OF pool_reachable_ok [OF assms(1)] stop_failed(3)] that advances_request_stop advances_trans
      unfolding reachable_def by (simp add: reachable_def)
    with stop_of_owned [of "m\<lparr>mg_proxy := request_stop (mg_proxy m)\<rparr>"] stop_failed(4) that
    obtain s where "advances (request_stop (mg_proxy m)) s" "ep' = Owned (m\<lparr>mg_proxy := s\<rparr>)" by auto
    with advances_trans [OF advances_request_stop] show ?thesis by blast
  qed
  with stop_failed show ?thesis by auto
qed auto



subsection \<open>A pool with one server\<close>

lemma advances_op: "advances s s' \<Longrightarrow> op_step s' e s'' \<Longrightarrow> advances s s''"
  unfolding advances_def using px_run.px_op by blast

lemma advances_owner: "advances s s' \<Longrightarrow> owner_step n s' s'' \<Longrightarrow> advances s s''"
  unfolding advances_def using px_run.px_owner by blast

lemma stop_can_complete:
  assumes idle: "px_operation s = Idle" and serving: "px_current s = Some (g, Serving)"
  shows "\<exists>s'. px_returns s (StopReturned (Inr ())) s'"
proof -
  let ?n = "length (px_past s)" and ?g = "signal_shutdown g"
  let ?g2 = "clear ((close (close ?g))\<lparr>g_socket_bound := False\<rparr>)"
  let ?g3 = "?g2\<lparr>g_completion := Some (Inr ())\<rparr>"
  let ?s1 = "s\<lparr>px_operation := StopEntry False\<rparr>"
  let ?s2 = "(signal_current ?s1)\<lparr>px_operation := AwaitStop ?n False\<rparr>"
  let ?s3 = "(px_set ?n (close ?g, ShuttingDown False) ?s2)\<lparr>px_status := Stopping\<rparr>"
  let ?s4 = "px_set ?n (close ?g, Finishing (Inr ()) False) ?s3"
  let ?s5 = "(px_set ?n (?g2, Reporting (Inr ()) False) ?s4)\<lparr>px_status := Stopped, px_started := False\<rparr>"
  let ?s6 = "(px_set ?n (?g3, Finished) ?s5)\<lparr>px_recoveries := px_recoveries ?s5 @ []\<rparr>"
  let ?s7 = "?s6\<lparr>px_operation := StopDone False\<rparr>"
  note d = px_set_def px_slot_def signal_current_def
  have "op_step s Internal ?s1" by (rule op_step.call_stop) fact
  with advances_refl have "advances s ?s1" by (rule advances_op)
  moreover have "op_step ?s1 Internal ?s2"
    using op_step.stop_generation [of ?s1 False "(g, Serving)"] serving by simp
  ultimately have "advances s ?s2" by (rule advances_op)
  moreover have "owner_step ?n ?s2 ?s3"
    by (rule owner_step.serving_stopped) (simp_all add: d serving)
  ultimately have "advances s ?s3" by (rule advances_owner)
  moreover have "owner_step ?n ?s3 ?s4"
    by (rule owner_step.shut_down) (simp add: d serving)
  ultimately have "advances s ?s4" by (rule advances_owner)
  moreover have "owner_step ?n ?s4 ?s5"
    using owner_step.finishes [of ?n ?s4 "close ?g" "Inr ()" False "Inr ()" "Inr ()" "Inr ()"]
    by (simp add: d serving)
  ultimately have "advances s ?s5" by (rule advances_owner)
  moreover have "owner_step ?n ?s5 ?s6"
    using owner_step.reports [of ?n ?s5 ?g2 "Inr ()" False] by (simp add: d serving)
  ultimately have "advances s ?s6" by (rule advances_owner)
  moreover have "op_step ?s6 Internal ?s7"
    by (rule op_step.stop_retired [where n = ?n and g = ?g3 and ow = Finished]) (simp_all add: d serving)
  ultimately have "advances s ?s7" by (rule advances_op)
  moreover have "op_step ?s7 (StopReturned (Inr ()))
      (?s7\<lparr>px_status := Stopped, px_stop_requested := False, px_operation := Idle\<rparr>)"
    using op_step.stop_done [of ?s7 False] by simp
  ultimately show ?thesis unfolding px_returns_def advances_def by blast
qed

definition sample_managed :: "proxy \<Rightarrow> unit managed" where
  "sample_managed s = \<lparr>mg_proxy = s, mg_spec = Stdio ''run'' [] [] None False, mg_entry = None,
     mg_socket_path = ''mcp-cli-a.sock''\<rparr>"

lemma sample_managed_simps [simp]:
  "mg_proxy (sample_managed s) = s" "mg_entry (sample_managed s) = None"
  "(sample_managed s)\<lparr>mg_proxy := s'\<rparr> = sample_managed s'"
  by (simp_all add: sample_managed_def)

definition sample_pool :: "unit pool" where
  "sample_pool = set_endpoint ''a'' (Owned (sample_managed sample_serving)) pool_new"

lemma sample_pool_reachable: "pool_reachable sample_pool"
proof -
  have "px_returns proxy_new (StartReturned (Inr ())) sample_serving"
    using sample_running sample_return unfolding px_returns_def by blast
  then have "ep_start (Owned (sample_managed proxy_new)) (Inr ()) (Owned (sample_managed sample_serving))"
    using ep_start.start_owned [of "sample_managed proxy_new" "Inr ()" sample_serving] by simp
  then have "pool_step pool_new (StartServer ''a'' (Stdio ''run'' [] [] None False) None) (Inr ()) sample_pool"
    unfolding sample_pool_def
    by (intro pool_step.start_fresh [where m = "sample_managed proxy_new"])
       (simp_all add: pool_new_def sample_managed_def)
  from pool_reachable.operation [OF pool_reachable.empty_pool this] show ?thesis .
qed

lemma sample_pool_get [simp]:
  "hm_get ''a'' (pl_proxies sample_pool) = Some (Owned (sample_managed sample_serving))"
  "pl_shutting_down sample_pool = False"
  "pl_proxies sample_pool = [(''a'', Owned (sample_managed sample_serving))]"
  by (simp_all add: sample_pool_def) (simp_all add: set_endpoint_def pool_new_def hm_insert_def hm_remove_def)

lemma sample_stops:
  "\<exists>s. ep_stop (ep_request_stop (Owned (sample_managed sample_serving))) (Inr ()) (Owned (sample_managed s))"
  "\<exists>s. ep_stop ((ep_request_stop \<circ> ep_request_stop) (Owned (sample_managed sample_serving))) (Inr ())
     (Owned (sample_managed s))"
proof -
  have stops: "\<exists>s. ep_stop (Owned (sample_managed s0)) (Inr ()) (Owned (sample_managed s))"
    if "px_operation s0 = Idle" "px_current s0 = Some (g, Serving)" for s0 g
  proof -
    have "px_operation (request_stop s0) = Idle" "px_current (request_stop s0) = Some (signal_shutdown g, Serving)"
      using that by (simp_all add: request_stop_def signal_current_def)
    from stop_can_complete [OF this] obtain s where "px_returns (request_stop s0) (StopReturned (Inr ())) s" by blast
    with ep_stop.stop_owned [of "sample_managed s0" "Inr ()" s] show ?thesis by auto
  qed
  have "px_operation (request_stop sample_serving) = Idle"
    "\<exists>g. px_current (request_stop sample_serving) = Some (g, Serving)"
    "px_operation (request_stop (request_stop sample_serving)) = Idle"
    "\<exists>g. px_current (request_stop (request_stop sample_serving)) = Some (g, Serving)"
    by (simp_all add: request_stop_def signal_current_def sample_serving_def proxy_new_def)
  with stops show
    "\<exists>s. ep_stop (ep_request_stop (Owned (sample_managed sample_serving))) (Inr ()) (Owned (sample_managed s))"
    "\<exists>s. ep_stop ((ep_request_stop \<circ> ep_request_stop) (Owned (sample_managed sample_serving))) (Inr ())
       (Owned (sample_managed s))"
    by auto
qed

theorem start_never_abandons_a_server_witness:
  "\<exists>p' r. pool_step sample_pool (StartServer ''a'' (Stdio ''other'' [] [] None False)
        (Some \<lparr>ce_source = ''s'', ce_name = ''n'', ce_scope = None, ce_credential_store = None\<rparr>)) r p'
     \<and> p' = sample_pool"
proof -
  let ?entry = "Some \<lparr>ce_source = ''s'', ce_name = ''n'', ce_scope = None, ce_credential_store = None\<rparr>"
  have step: "pool_step sample_pool (StartServer ''a'' (Stdio ''other'' [] [] None False) ?entry)
      (Inl ''pool belongs to a different configuration entry'') sample_pool"
    by (rule pool_step.start_other_entry [where ep = "Owned (sample_managed sample_serving)"])
       (simp_all add: hm_get_def)
  have "hm_get ''a'' (pl_proxies sample_pool) = Some (Owned (sample_managed sample_serving))"
    by (simp add: hm_get_def)
  from start_never_abandons_a_server [OF sample_pool_reachable step this] step show ?thesis by blast
qed

theorem stop_forgets_only_what_is_gone_witness:
  "\<exists>p'. pool_step sample_pool (StopServer ''a'') (Inr ()) p' \<and> hm_get ''a'' (pl_proxies p') = None
     \<and> (\<exists>s. advances sample_serving s \<and> fully_stopped s)"
proof -
  have get: "hm_get ''a'' (pl_proxies sample_pool) = Some (Owned (sample_managed sample_serving))"
    by (simp add: hm_get_def)
  from sample_stops(1) obtain ep where
    "ep_stop (ep_request_stop (Owned (sample_managed sample_serving))) (Inr ()) ep" by blast
  from pool_step.stop_done [OF get this]
  have step: "pool_step sample_pool (StopServer ''a'') (Inr ()) (remove_endpoint ''a'' sample_pool)" .
  from stop_forgets_only_what_is_gone [OF sample_pool_reachable step] get step show ?thesis
    by auto
qed


end
