(* ===== verification/Sse.thy ===== *)
theory Sse
  imports Prelude
begin

text \<open>
  The server-sent-event decoder of HTTP upstreams (\<open>Decoder\<close> in \<open>src/upstream_http_sse.rs\<close>), one
  byte at a time as the code reads them, and the encoder of the bridge (\<open>sse_message\<close> in
  \<open>src/mcp_bridge_http_sse.rs\<close>).  Strings are their UTF-8 bytes.
\<close>

subsection \<open>Machines fed in chunks\<close>

text \<open>
  A machine reads bytes, emits outputs and may stop with an error; a stopped machine ignores its
  input.  \<open>run\<close> is one call on a chunk: the outputs before the error, the error and the new state.
\<close>

locale chunk_machine =
  fixes step :: "'c \<Rightarrow> 's \<Rightarrow> ('e list \<times> 'err option) \<times> 's"
    and run :: "'s \<Rightarrow> 'c list \<Rightarrow> ('e list \<times> 'err option) \<times> 's"
    and stopped :: "'s \<Rightarrow> bool"
  assumes run_stopped: "stopped s \<Longrightarrow> run s cs = (([], None), s)"
    and run_Nil: "run s [] = (([], None), s)"
    and run_Cons: "\<not> stopped s \<Longrightarrow> run s (c # cs) =
          (case step c s of
             ((es, None), s') \<Rightarrow> (case run s' cs of ((es', err), s'') \<Rightarrow> ((es @ es', err), s''))
           | ((es, Some err), s') \<Rightarrow> ((es, Some err), s'))"
    and step_running: "\<not> stopped s \<Longrightarrow> step c s = ((es, err), s') \<Longrightarrow> stopped s' \<longleftrightarrow> err \<noteq> None"
begin

lemma run_error_stops:
  "run s cs = ((es, Some err), s') \<Longrightarrow> stopped s'"
proof (induction cs arbitrary: s es)
  case (Cons c cs)
  have "\<not> stopped s" using Cons.prems run_stopped [of s "c # cs"] by auto
  with Cons show ?case
    by (auto simp: run_Cons step_running split: prod.splits option.splits)
qed (simp add: run_Nil)

text \<open>Feeding two chunks is feeding their concatenation: same outputs, same error, same state.\<close>

lemma run_append:
  assumes "run s as = ((es1, err1), s1)" and "run s1 bs = ((es2, err2), s2)"
  shows "run s (as @ bs) = ((es1 @ es2, if err1 = None then err2 else err1), s2)"
  using assms
proof (induction as arbitrary: s es1)
  case Nil
  then show ?case by (simp add: run_Nil)
next
  case (Cons c as)
  show ?case
  proof (cases "stopped s")
    case True
    with Cons.prems show ?thesis by (simp add: run_stopped)
  next
    case running: False
    obtain es e s' where st: "step c s = ((es, e), s')" by (metis prod.exhaust)
    show ?thesis
    proof (cases e)
      case None
      obtain es' err' s'' where r: "run s' as = ((es', err'), s'')" by (metis prod.exhaust)
      with Cons.prems running st None have "es1 = es @ es'" "err' = err1" "s'' = s1"
        by (simp_all add: run_Cons)
      with Cons.IH [of s' es'] r Cons.prems running st None show ?thesis by (simp add: run_Cons)
    next
      case (Some err)
      with Cons.prems running st have "es1 = es" "err1 = Some err" "s1 = s'" by (simp_all add: run_Cons)
      moreover have "stopped s'" using step_running [OF running st] Some by simp
      ultimately show ?thesis using Cons.prems running st Some by (simp add: run_Cons run_stopped)
    qed
  qed
qed

text \<open>An invariant of the steps holds after any chunk.\<close>

lemma run_invariant:
  assumes "\<And>c s es err s'. I s \<Longrightarrow> \<not> stopped s \<Longrightarrow> step c s = ((es, err), s') \<Longrightarrow> I s'"
    and "run s cs = ((es, err), s')" and "I s"
  shows "I s'"
  using assms(2,3)
proof (induction cs arbitrary: s es)
  case (Cons c cs)
  show ?case
  proof (cases "stopped s")
    case True
    with Cons.prems show ?thesis by (simp add: run_stopped)
  next
    case False
    with Cons assms(1) show ?thesis
      by (auto simp: run_Cons split: prod.splits option.splits)
  qed
qed (simp add: run_Nil)

end

subsection \<open>The decoder\<close>

definition MAX_RESPONSE_BYTES :: nat where
  "MAX_RESPONSE_BYTES = 16 * 1024 * 1024"

abbreviation LF :: char where "LF \<equiv> CHR 0x0A"
abbreviation CR :: char where "CR \<equiv> CHR 0x0D"

definition BOM :: string where
  "BOM = [CHR 0xEF, CHR 0xBB, CHR 0xBF]"

record event =
  ev_name :: string
  ev_data :: string

record decoder =
  dc_line :: string
  dc_data :: string
  dc_name :: string
  dc_frame_bytes :: nat
  dc_after_carriage_return :: bool
  dc_first_line :: bool
  dc_terminated :: bool

definition decoder_new :: decoder where
  "decoder_new = \<lparr>dc_line = [], dc_data = [], dc_name = [], dc_frame_bytes = 0,
     dc_after_carriage_return = False, dc_first_line = True, dc_terminated = False\<rparr>"

text \<open>A field line: \<open>data\<close> is appended, \<open>event\<close> replaces the name, others are ignored.\<close>

definition field_line :: "string \<Rightarrow> decoder \<Rightarrow> decoder" where
  "field_line line d =
     (case (case split_once '':'' line of Some (f, v) \<Rightarrow> (f, v) | None \<Rightarrow> (line, [])) of
        (field, value0) \<Rightarrow>
          (let v = (case strip_prefix '' '' value0 of Some v \<Rightarrow> v | None \<Rightarrow> value0) in
           if field = ''data'' then d\<lparr>dc_data := dc_data d @ v @ [LF]\<rparr>
           else if field = ''event'' then d\<lparr>dc_name := v\<rparr>
           else d))"

definition finish_line :: "decoder \<Rightarrow> (event list \<times> string option) \<times> decoder" where
  "finish_line d0 =
     (let bytes = dc_line d0; d1 = d0\<lparr>dc_line := []\<rparr> in
      if \<not> utf8_valid bytes then (([], Some ''HTTP SSE contains invalid UTF-8''), d1)
      else
        let line = (if dc_first_line d1
                    then (case strip_prefix BOM bytes of Some l \<Rightarrow> l | None \<Rightarrow> bytes) else bytes);
            d = d1\<lparr>dc_first_line := False\<rparr>
        in if line = [] then
             (if dc_data d \<noteq> []
              then (([\<lparr>ev_name = dc_name d, ev_data = butlast (dc_data d)\<rparr>], None),
                    d\<lparr>dc_name := [], dc_data := [], dc_frame_bytes := 0\<rparr>)
              else (([], None), d\<lparr>dc_name := [], dc_frame_bytes := 0\<rparr>))
           else if starts_with '':'' line then (([], None), d)
           else (([], None), field_line line d))"

text \<open>One turn of the loop of \<open>feed\<close>; an error ends the call and terminates the decoder.\<close>

definition feed_byte :: "char \<Rightarrow> decoder \<Rightarrow> (event list \<times> string option) \<times> decoder" where
  "feed_byte byte d0 =
     (let d = d0\<lparr>dc_after_carriage_return := False\<rparr> in
      if dc_after_carriage_return d0 \<and> byte = LF then (([], None), d)
      else
        let d = d\<lparr>dc_frame_bytes := dc_frame_bytes d + 1\<rparr> in
        if dc_frame_bytes d > MAX_RESPONSE_BYTES
        then (([], Some ''HTTP SSE frame exceeds size limit (16777216 bytes)''), d\<lparr>dc_terminated := True\<rparr>)
        else if byte = CR \<or> byte = LF then
          (case finish_line d of
             ((events, None), d') \<Rightarrow> ((events, None), d'\<lparr>dc_after_carriage_return := (byte = CR)\<rparr>)
           | ((events, Some err), d') \<Rightarrow> ((events, Some err), d'\<lparr>dc_terminated := True\<rparr>))
        else (([], None), d\<lparr>dc_line := dc_line d @ [byte]\<rparr>))"

fun feed :: "decoder \<Rightarrow> string \<Rightarrow> (event list \<times> string option) \<times> decoder" where
  "feed d [] = (([], None), d)"
| "feed d (b # bs) =
     (if dc_terminated d then (([], None), d)
      else (case feed_byte b d of
              ((es, None), d') \<Rightarrow> (case feed d' bs of ((es', err), d'') \<Rightarrow> ((es @ es', err), d''))
            | ((es, Some err), d') \<Rightarrow> ((es, Some err), d')))"

lemma finish_line_terminated [simp]:
  "finish_line d = (r, d') \<Longrightarrow> dc_terminated d' = dc_terminated d"
  by (auto simp: finish_line_def field_line_def Let_def split: if_splits option.splits prod.splits)

interpretation sse: chunk_machine feed_byte feed dc_terminated
proof
  fix s c es err s'
  assume "\<not> dc_terminated s" and "feed_byte c s = ((es, err), s')"
  then show "dc_terminated s' \<longleftrightarrow> err \<noteq> None"
    by (auto simp: feed_byte_def Let_def split: if_splits prod.splits option.splits
        dest!: finish_line_terminated)
next
  fix s cs
  show "dc_terminated s \<Longrightarrow> feed s cs = (([], None), s)" by (cases cs) simp_all
qed (simp_all split: prod.splits option.splits)

text \<open>C12: how the network splits the stream does not matter: feeding two chunks yields the events, the
  error and the decoder that feeding them as one chunk yields, the events before an error are kept,
  and after an error nothing more is emitted.\<close>

theorem sse_chunks_do_not_matter:
  assumes "feed d as = ((es1, err1), d1)" and "feed d1 bs = ((es2, err2), d2)"
  shows "feed d (as @ bs) = ((es1 @ es2, if err1 = None then err2 else err1), d2)
    \<and> (err1 \<noteq> None \<longrightarrow> es2 = [] \<and> err2 = None \<and> d2 = d1)"
  using sse.run_append [OF assms] sse.run_error_stops [of d as es1 _ d1] sse.run_stopped assms by auto

theorem sse_chunks_do_not_matter_witness:
  "fst (feed decoder_new (''data: 1'' @ [LF, LF])) = ([\<lparr>ev_name = [], ev_data = ''1''\<rparr>], None)"
proof -
  obtain es1 err1 d1 where 1: "feed decoder_new ''data: 1'' = ((es1, err1), d1)" by (metis prod.exhaust)
  obtain es2 err2 d2 where 2: "feed d1 [LF, LF] = ((es2, err2), d2)" by (metis prod.exhaust)
  have d: "d1 = decoder_new\<lparr>dc_line := ''data: 1'', dc_frame_bytes := 7\<rparr>" "es1 = []" "err1 = None"
    using 1 by (simp_all add: decoder_new_def feed_byte_def MAX_RESPONSE_BYTES_def)
      (auto simp: numeral_eq_Suc)
  have "es2 = [\<lparr>ev_name = [], ev_data = ''1''\<rparr>]" "err2 = None"
    using 2 unfolding d
    by (simp_all add: decoder_new_def feed_byte_def MAX_RESPONSE_BYTES_def finish_line_def Let_def
        in_range_def BOM_def field_line_def split_once_def strip_prefix_def starts_with_def)
  with sse_chunks_do_not_matter [OF 1 2] d show ?thesis by simp
qed


subsection \<open>Memory\<close>

definition held :: "decoder \<Rightarrow> nat" where
  "held d = length (dc_line d) + length (dc_data d) + length (dc_name d)"

definition bounded :: "decoder \<Rightarrow> bool" where
  "bounded d \<longleftrightarrow> held d \<le> dc_frame_bytes d \<and> dc_frame_bytes d \<le> MAX_RESPONSE_BYTES + 1"

lemma length_strip_prefix: "strip_prefix p s = Some r \<Longrightarrow> length r + length p = length s"
  by (auto simp: strip_prefix_Some)

lemma field_line_held:
  assumes "dc_line d = []"
  shows "held (field_line line d) \<le> held d + length line + 1
    \<and> dc_frame_bytes (field_line line d) = dc_frame_bytes d \<and> dc_line (field_line line d) = []"
proof -
  obtain field value0 where fv: "(case split_once '':'' line of Some (f, v) \<Rightarrow> (f, v) | None \<Rightarrow> (line, []))
      = (field, value0)" by fastforce
  then have len: "length field + length value0 \<le> length line"
    by (auto dest!: split_once_Some split: option.splits)
  have "length (case strip_prefix '' '' value0 of Some v \<Rightarrow> v | None \<Rightarrow> value0) \<le> length value0"
    by (auto dest!: length_strip_prefix split: option.splits)
  with len assms fv show ?thesis
    by (auto simp: field_line_def held_def Let_def)
qed

lemma finish_line_held:
  assumes "finish_line d = ((es, err), d')" and "held d < dc_frame_bytes d"
  shows "held d' \<le> dc_frame_bytes d' \<and> dc_frame_bytes d' \<le> dc_frame_bytes d"
proof -
  let ?d1 = "d\<lparr>dc_line := []\<rparr>"
  let ?line = "if dc_first_line d then (case strip_prefix BOM (dc_line d) of Some l \<Rightarrow> l | None \<Rightarrow> dc_line d)
     else dc_line d"
  let ?d = "?d1\<lparr>dc_first_line := False\<rparr>"
  have line: "length ?line \<le> length (dc_line d)"
    by (auto dest!: length_strip_prefix split: option.splits)
  have f: "held (field_line ?line ?d) \<le> held ?d + length ?line + 1
    \<and> dc_frame_bytes (field_line ?line ?d) = dc_frame_bytes d"
    using field_line_held [of ?d ?line] by simp
  have "d' = ?d1 \<or> d' = ?d\<lparr>dc_name := [], dc_data := [], dc_frame_bytes := 0\<rparr>
      \<or> (dc_data d = [] \<and> d' = ?d\<lparr>dc_name := [], dc_frame_bytes := 0\<rparr>) \<or> d' = ?d \<or> d' = field_line ?line ?d"
    using assms(1) by (auto simp: finish_line_def Let_def split: if_splits)
  then show ?thesis
  proof (elim disjE conjE)
    assume e: "d' = field_line ?line ?d"
    have room: "held ?d + length ?line + 1 \<le> dc_frame_bytes d"
      using assms(2) line by (simp add: held_def)
    from f have a: "held d' \<le> held ?d + length ?line + 1" and b: "dc_frame_bytes d' = dc_frame_bytes d"
      unfolding e by blast+
    from le_trans [OF a room] b show ?thesis by simp
  qed (use assms(2) in \<open>simp_all add: held_def\<close>)
qed

lemma feed_byte_bounded:
  assumes "bounded d" "feed_byte c d = ((es, err), d')" "\<not> dc_terminated d"
    "dc_frame_bytes d \<le> MAX_RESPONSE_BYTES"
  shows "bounded d' \<and> (\<not> dc_terminated d' \<longrightarrow> dc_frame_bytes d' \<le> MAX_RESPONSE_BYTES)"
proof -
  let ?d = "d\<lparr>dc_after_carriage_return := False, dc_frame_bytes := dc_frame_bytes d + 1\<rparr>"
  have h: "held ?d < dc_frame_bytes ?d" using assms(1) by (simp add: held_def bounded_def)
  have after: "bounded d'' \<and> dc_frame_bytes d'' \<le> MAX_RESPONSE_BYTES"
    if "finish_line ?d = (r, d'')" "dc_frame_bytes d < MAX_RESPONSE_BYTES" for r d''
    using finish_line_held [OF _ h, of "fst r" "snd r" d''] that by (simp add: bounded_def)
  from assms(2,4) show ?thesis
    unfolding feed_byte_def Let_def
    using assms(1) after
    by (auto simp: bounded_def held_def split: if_splits prod.splits option.splits)
qed

text \<open>C39: a peer cannot make the decoder grow without bound: in every state it can reach, whatever is
  fed to it, the line, the data and the name together hold no more bytes than the frame's count,
  which never passes the limit by more than the byte that ends the stream.\<close>

theorem sse_memory_is_bounded:
  assumes "feed decoder_new bytes = (r, d)"
  shows "length (dc_line d) + length (dc_data d) + length (dc_name d) \<le> dc_frame_bytes d
    \<and> dc_frame_bytes d \<le> MAX_RESPONSE_BYTES + 1
    \<and> (\<not> dc_terminated d \<longrightarrow> dc_frame_bytes d \<le> MAX_RESPONSE_BYTES)"
proof -
  let ?I = "\<lambda>d. bounded d \<and> (\<not> dc_terminated d \<longrightarrow> dc_frame_bytes d \<le> MAX_RESPONSE_BYTES)"
  have step: "?I s'" if "?I s" "\<not> dc_terminated s" "feed_byte c s = ((es, err), s')" for c s es err s'
    using feed_byte_bounded [of s c es err s'] that by blast
  have start: "?I decoder_new" by (simp add: bounded_def held_def decoder_new_def)
  obtain es err where "r = (es, err)" by fastforce
  with assms have run: "feed decoder_new bytes = ((es, err), d)" by simp
  have "?I d"
    by (rule sse.run_invariant [where I = ?I, OF _ run start]) (rule step)
  then show ?thesis by (simp add: bounded_def held_def)
qed

theorem sse_memory_is_bounded_witness:
  "\<exists>r d. feed decoder_new ''data: 1'' = (r, d) \<and> length (dc_line d) \<le> MAX_RESPONSE_BYTES + 1"
proof -
  obtain r d where "feed decoder_new ''data: 1'' = (r, d)" by fastforce
  with sse_memory_is_bounded [OF this] show ?thesis by (intro exI [of _ r] exI [of _ d]) simp
qed

subsection \<open>The frames of the bridge\<close>

definition MAX_SSE_MESSAGE_BYTES :: nat where
  "MAX_SSE_MESSAGE_BYTES = 1024 * 1024"

definition sse_message :: "string \<Rightarrow> string option" where
  "sse_message encoded =
     (if length encoded > MAX_SSE_MESSAGE_BYTES then None
      else Some (''event: message'' @ [LF] @ ''data: '' @ encoded @ [LF, LF]))"

definition plain :: "char \<Rightarrow> bool" where
  "plain c \<longleftrightarrow> c \<noteq> CR \<and> c \<noteq> LF"

lemma feed_plain:
  assumes "\<not> dc_terminated d" "list_all plain bs" "dc_frame_bytes d + length bs \<le> MAX_RESPONSE_BYTES"
    "\<not> dc_after_carriage_return d"
  shows "feed d (bs @ rest)
    = feed (d\<lparr>dc_line := dc_line d @ bs, dc_frame_bytes := dc_frame_bytes d + length bs\<rparr>) rest"
  using assms
proof (induction bs arbitrary: d)
  case (Cons b bs)
  let ?d = "d\<lparr>dc_after_carriage_return := False, dc_frame_bytes := dc_frame_bytes d + 1,
     dc_line := dc_line d @ [b]\<rparr>"
  have step: "feed_byte b d = (([], None), ?d)"
    using Cons.prems by (auto simp: feed_byte_def plain_def)
  have d: "d\<lparr>dc_after_carriage_return := False\<rparr> = d" using Cons.prems(4) by (cases d) simp
  have "feed d ((b # bs) @ rest) = feed ?d (bs @ rest)"
    using Cons.prems(1) step by (simp split: prod.splits)
  also have "\<dots> = feed (?d\<lparr>dc_line := dc_line ?d @ bs, dc_frame_bytes := dc_frame_bytes ?d + length bs\<rparr>) rest"
    using Cons.prems by (intro Cons.IH) simp_all
  also have "?d\<lparr>dc_line := dc_line ?d @ bs, dc_frame_bytes := dc_frame_bytes ?d + length bs\<rparr>
      = d\<lparr>dc_line := dc_line d @ b # bs, dc_frame_bytes := dc_frame_bytes d + length (b # bs)\<rparr>"
    using Cons.prems(4) by (cases d) simp
  finally show ?case .
qed simp

lemma feed_LF:
  assumes "\<not> dc_terminated d" "dc_frame_bytes d < MAX_RESPONSE_BYTES" "\<not> dc_after_carriage_return d"
    "finish_line (d\<lparr>dc_after_carriage_return := False, dc_frame_bytes := dc_frame_bytes d + 1\<rparr>) = ((es, None), d')"
    "d'\<lparr>dc_after_carriage_return := False\<rparr> = d''"
  shows "feed d (LF # rest) = (case feed d'' rest of ((es', err), d3) \<Rightarrow> ((es @ es', err), d3))"
proof -
  have "feed_byte LF d = ((es, None), d'')"
    using assms by (simp add: feed_byte_def)
  with assms(1) show ?thesis by simp
qed

lemma feed_plain':
  assumes "\<not> dc_terminated d" "list_all plain bs" "dc_frame_bytes d + length bs \<le> MAX_RESPONSE_BYTES"
    "\<not> dc_after_carriage_return d"
    "d\<lparr>dc_line := dc_line d @ bs, dc_frame_bytes := dc_frame_bytes d + length bs\<rparr> = d'"
  shows "feed d (bs @ rest) = feed d' rest"
  using feed_plain [OF assms(1-4)] assms(5) by simp

lemma utf8_valid_ascii: "list_all (in_range 0 127) s \<Longrightarrow> utf8_valid (s @ t) = utf8_valid t"
  by (induction s) auto

text \<open>Between two frames.\<close>

definition frame_start :: "decoder \<Rightarrow> bool" where
  "frame_start d \<longleftrightarrow> dc_line d = [] \<and> dc_data d = [] \<and> dc_name d = [] \<and> dc_frame_bytes d = 0
     \<and> \<not> dc_after_carriage_return d \<and> \<not> dc_terminated d"

lemma finish_event_line:
  assumes "dc_line d = ''event: message''"
  shows "finish_line d = (([], None), d\<lparr>dc_line := [], dc_first_line := False, dc_name := ''message''\<rparr>)"
proof -
  have "split_once '':'' (''event'' @ CHR '':'' # '' message'') = Some (''event'', '' message'')"
    by (rule split_once_char_append) simp
  then have "split_once '':'' ''event: message'' = Some (''event'', '' message'')" by simp
  moreover have "utf8_valid (''event: message'' @ [])"
    by (subst utf8_valid_ascii) (simp_all add: in_range_def)
  moreover have "strip_prefix BOM ''event: message'' = None"
    by (simp add: strip_prefix_def BOM_def)
  moreover have "strip_prefix '' '' '' message'' = Some ''message''" by (simp add: strip_prefix_def)
  moreover have "starts_with '':'' ''event: message'' = False" by simp
  ultimately show ?thesis
    unfolding finish_line_def field_line_def Let_def assms
    by (cases d) (simp del: utf8_valid.simps starts_with_Cons)
qed

lemma finish_data_line:
  assumes "dc_line d = ''data: '' @ encoded" "utf8_valid encoded" "\<not> dc_first_line d"
  shows "finish_line d = (([], None), d\<lparr>dc_line := [], dc_data := dc_data d @ encoded @ [LF]\<rparr>)"
proof -
  have "split_once '':'' (''data'' @ CHR '':'' # CHR '' '' # encoded) = Some (''data'', CHR '' '' # encoded)"
    by (rule split_once_char_append) simp
  then have "split_once '':'' (''data: '' @ encoded) = Some (''data'', CHR '' '' # encoded)" by simp
  moreover have "utf8_valid (''data: '' @ encoded)"
    using assms(2) by (subst utf8_valid_ascii) (simp_all add: in_range_def)
  ultimately show ?thesis using assms
    by (cases d) (simp add: finish_line_def Let_def field_line_def strip_prefix_def starts_with_def
        del: utf8_valid.simps)
qed

lemma finish_empty_line:
  assumes "dc_line d = []" "dc_data d \<noteq> []" "\<not> dc_first_line d"
  shows "finish_line d = (([\<lparr>ev_name = dc_name d, ev_data = butlast (dc_data d)\<rparr>], None),
     d\<lparr>dc_name := [], dc_data := [], dc_frame_bytes := 0\<rparr>)"
  using assms by (cases d) (simp add: finish_line_def Let_def)

text \<open>What the bridge writes, the pool's own decoder reads: every message the bridge sends as a
  server-sent event (whose JSON text is valid UTF-8 without line breaks) is decoded, from any point
  between two frames and followed by anything, as exactly one \<open>message\<close> event with that text; and a
  message of the bridge always fits the decoder's limit.\<close>

theorem bridge_frames_are_decoded:
  assumes "sse_message encoded = Some frame" and "list_all plain encoded" and "utf8_valid encoded"
    and "frame_start d"
  shows "\<exists>d'. frame_start d'
    \<and> feed d (frame @ rest) = (case feed d' rest of
        ((es, err), d'') \<Rightarrow> ((\<lparr>ev_name = ''message'', ev_data = encoded\<rparr> # es, err), d''))"
proof -
  have len: "length encoded \<le> 1048576" and
    frame: "frame = ''event: message'' @ LF # (''data: '' @ encoded) @ LF # [LF]"
    using assms(1) by (auto simp: sse_message_def MAX_SSE_MESSAGE_BYTES_def split: if_splits)
  let ?n = "length encoded"
  let ?d0 = "d\<lparr>dc_after_carriage_return := False\<rparr>"
  let ?d1 = "?d0\<lparr>dc_line := ''event: message'', dc_frame_bytes := 14\<rparr>"
  let ?d2 = "?d0\<lparr>dc_line := [], dc_frame_bytes := 15, dc_first_line := False, dc_name := ''message''\<rparr>"
  let ?d3 = "?d2\<lparr>dc_line := ''data: '' @ encoded, dc_frame_bytes := 21 + ?n\<rparr>"
  let ?d4 = "?d3\<lparr>dc_line := [], dc_frame_bytes := 22 + ?n, dc_data := encoded @ [LF]\<rparr>"
  let ?d5 = "?d4\<lparr>dc_frame_bytes := 0, dc_name := [], dc_data := []\<rparr>"
  have d: "\<not> dc_terminated d" "dc_line d = []" "dc_frame_bytes d = 0" "\<not> dc_after_carriage_return d"
    "dc_data d = []" "dc_name d = []" using assms(4) by (auto simp: frame_start_def)
  have "feed d (''event: message'' @ LF # (''data: '' @ encoded) @ LF # LF # rest)
      = feed ?d1 (LF # (''data: '' @ encoded) @ LF # LF # rest)"
    by (rule feed_plain') (use d in \<open>cases d, simp_all add: plain_def MAX_RESPONSE_BYTES_def\<close>)
  moreover have "feed ?d1 (LF # (''data: '' @ encoded) @ LF # LF # rest)
      = (case feed ?d2 ((''data: '' @ encoded) @ LF # LF # rest) of ((es', err), d3) \<Rightarrow> (([] @ es', err), d3))"
    by (rule feed_LF [where d' = "?d0\<lparr>dc_frame_bytes := 15, dc_line := [], dc_first_line := False,
          dc_name := ''message''\<rparr>"])
       (use d in \<open>cases d; simp add: MAX_RESPONSE_BYTES_def finish_event_line\<close>)+
  moreover have "feed ?d2 ((''data: '' @ encoded) @ LF # LF # rest) = feed ?d3 (LF # LF # rest)"
    by (rule feed_plain') (use d len assms(2) in \<open>cases d, simp_all add: plain_def MAX_RESPONSE_BYTES_def\<close>)
  moreover have "feed ?d3 (LF # LF # rest)
      = (case feed ?d4 (LF # rest) of ((es', err), d3) \<Rightarrow> (([] @ es', err), d3))"
    by (rule feed_LF [where d' = ?d4])
       (use d len assms(3) in \<open>cases d; simp add: MAX_RESPONSE_BYTES_def finish_data_line [where encoded = encoded]\<close>)+
  moreover have "feed ?d4 (LF # rest) = (case feed ?d5 rest of
        ((es, err), d'') \<Rightarrow> (([\<lparr>ev_name = ''message'', ev_data = encoded\<rparr>] @ es, err), d''))"
    by (rule feed_LF [where d' = ?d5])
       (use d len in \<open>cases d; simp add: MAX_RESPONSE_BYTES_def finish_empty_line\<close>)+
  moreover have "frame @ rest = ''event: message'' @ LF # (''data: '' @ encoded) @ LF # LF # rest"
    by (simp only: frame append_assoc append_Cons append_Nil)
  ultimately have "feed d (frame @ rest) = (case feed ?d5 rest of
        ((es, err), d'') \<Rightarrow> ((\<lparr>ev_name = ''message'', ev_data = encoded\<rparr> # es, err), d''))"
    by (simp only: append_Nil append_Cons split: prod.splits) auto
  moreover have "frame_start ?d5" using d by (simp add: frame_start_def)
  ultimately show ?thesis by blast
qed

theorem bridge_frames_are_decoded_witness:
  "\<exists>frame d'. sse_message ''{}'' = Some frame
     \<and> feed decoder_new frame = (([\<lparr>ev_name = ''message'', ev_data = ''{}''\<rparr>], None), d')"
proof -
  obtain frame where f: "sse_message ''{}'' = Some frame"
    by (simp add: sse_message_def MAX_SSE_MESSAGE_BYTES_def)
  have "list_all plain ''{}''" "utf8_valid ''{}''" "frame_start decoder_new"
    by (simp_all add: plain_def in_range_def frame_start_def decoder_new_def)
  from bridge_frames_are_decoded [OF f this, of "[]"] f show ?thesis by auto
qed

end
