(* ===== verification/Names.thy ===== *)
theory Names
  imports Json
begin

text \<open>
  Names: the tool names of the bridge (\<open>src/mcp_bridge_names.rs\<close>), the tool filters of a server and
  the normalization of its catalog (\<open>src/tool_filter.rs\<close>), and the identities of pooled servers
  (\<open>src/pool_identity.rs\<close>).
\<close>

subsection \<open>Bridge tool names\<close>

definition TOOL_SEPARATOR :: string where
  "TOOL_SEPARATOR = ''__''"

definition encode_tool_name_part :: "string \<Rightarrow> bool \<Rightarrow> bool \<Rightarrow> string" where
  "encode_tool_name_part value trailing leading =
     (let e0 = str_replace TOOL_SEPARATOR ''%5F%5F'' (str_replace ''%'' ''%25'' value);
          e1 = (if leading then (case strip_prefix ''_'' e0 of Some rest \<Rightarrow> ''%5F'' @ rest | None \<Rightarrow> e0) else e0)
      in if trailing then (case strip_suffix ''_'' e1 of Some p \<Rightarrow> p @ ''%5F'' | None \<Rightarrow> e1) else e1)"

definition decode_tool_name_part :: "string \<Rightarrow> string" where
  "decode_tool_name_part value = str_replace ''%25'' ''%'' (str_replace ''%5F'' ''_'' value)"

definition server_prefix :: "string \<Rightarrow> string" where
  "server_prefix server = encode_tool_name_part server True False @ TOOL_SEPARATOR"

definition encode_tool_name :: "string \<Rightarrow> string \<Rightarrow> string" where
  "encode_tool_name server tool =
     encode_tool_name_part server True False @ TOOL_SEPARATOR @ encode_tool_name_part tool False True"

fun decode_candidates :: "string \<Rightarrow> (string \<times> string) list \<Rightarrow> (string \<times> string) option" where
  "decode_candidates name [] = None"
| "decode_candidates name ((server, pre) # candidates) =
     (case strip_prefix pre name of
        None \<Rightarrow> decode_candidates name candidates
      | Some encoded_tool \<Rightarrow>
          (let tool = decode_tool_name_part encoded_tool
           in if tool \<noteq> [] then Some (server, tool) else decode_candidates name candidates))"

definition decode_tool_name :: "string \<Rightarrow> string list \<Rightarrow> (string \<times> string) option" where
  "decode_tool_name name servers =
     decode_candidates name
       (sort_key (\<lambda>c. - int (length (snd c))) (map (\<lambda>s. (s, server_prefix s)) servers))"

definition describe_tool :: "string \<Rightarrow> string option \<Rightarrow> string" where
  "describe_tool server description =
     (case description of
        Some d \<Rightarrow> if d \<noteq> [] then ''['' @ server @ ''] '' @ d
                  else ''Tool from MCP server '' @ [CHR 0x27] @ server @ [CHR 0x27] @ ''.''
      | None \<Rightarrow> ''Tool from MCP server '' @ [CHR 0x27] @ server @ [CHR 0x27] @ ''.'')"

text \<open>Encoded text is a sequence of plain characters other than \<open>%\<close> and the two escapes.\<close>

datatype piece = Plain char | Percent | Underscore

fun render :: "piece \<Rightarrow> string" where
  "render (Plain c) = [c]"
| "render Percent = ''%25''"
| "render Underscore = ''%5F''"

fun meaning :: "piece \<Rightarrow> char" where
  "meaning (Plain c) = c"
| "meaning Percent = CHR ''%''"
| "meaning Underscore = CHR ''_''"

abbreviation render_all :: "piece list \<Rightarrow> string" where
  "render_all ps \<equiv> concat (map render ps)"

definition plain_ok :: "piece \<Rightarrow> bool" where
  "plain_ok p \<longleftrightarrow> p \<noteq> Plain (CHR ''%'')"

lemma decode_first_pass:
  "list_all plain_ok ps \<Longrightarrow>
   str_replace ''%5F'' ''_'' (render_all ps)
     = concat (map (\<lambda>p. case p of Underscore \<Rightarrow> ''_'' | p \<Rightarrow> render p) ps)"
proof (induction ps)
  case (Cons p ps)
  then show ?case by (cases p) (auto simp: plain_ok_def)
qed simp

lemma decode_second_pass:
  "list_all plain_ok ps \<Longrightarrow>
   str_replace ''%25'' ''%'' (concat (map (\<lambda>p. case p of Underscore \<Rightarrow> ''_'' | p \<Rightarrow> render p) ps))
     = map meaning ps"
proof (induction ps)
  case (Cons p ps)
  then show ?case by (cases p) (auto simp: plain_ok_def)
qed simp

lemma decode_render: "list_all plain_ok ps \<Longrightarrow> decode_tool_name_part (render_all ps) = map meaning ps"
  by (simp add: decode_tool_name_part_def decode_first_pass decode_second_pass)

definition escape_percent :: "char \<Rightarrow> piece" where
  "escape_percent c = (if c = CHR ''%'' then Percent else Plain c)"

fun escape_pairs :: "piece list \<Rightarrow> piece list" where
  "escape_pairs (p # q # ps) =
     (if p = Plain (CHR ''_'') \<and> q = Plain (CHR ''_'') then Underscore # Underscore # escape_pairs ps
      else p # escape_pairs (q # ps))"
| "escape_pairs ps = ps"

lemma encode_percent: "str_replace ''%'' ''%25'' s = render_all (map escape_percent s)"
  by (induction s) (auto simp: escape_percent_def)

lemma render_starts_underscore:
  "starts_with ''_'' (render_all ps) \<longleftrightarrow> (\<exists>qs. ps = Plain (CHR ''_'') # qs)"
proof (cases ps)
  case (Cons p qs)
  then show ?thesis by (cases p) auto
qed simp

lemma replace_other:
  "c \<noteq> CHR ''_'' \<Longrightarrow> str_replace ''__'' r (c # s) = c # str_replace ''__'' r s"
  by simp

lemma single_piece:
  "str_replace ''__'' ''%5F%5F'' (render p) = render p" "str_find ''__'' (render p) = None"
  by (cases p; simp)+

lemma encode_pairs: "str_replace ''__'' ''%5F%5F'' (render_all ps) = render_all (escape_pairs ps)"
proof (induction ps rule: escape_pairs.induct)
  case (1 p q ps)
  show ?case
  proof (cases "p = Plain (CHR ''_'')")
    case True
    show ?thesis
    proof (cases "q = Plain (CHR ''_'')")
      case q: True
      with 1 True show ?thesis by simp
    next
      case False
      then have "\<not> starts_with ''_'' (render_all (q # ps))" by (simp only: render_starts_underscore) simp
      with 1(2) True False show ?thesis by simp
    qed
  next
    case False
    then have "str_replace ''__'' ''%5F%5F'' (render p @ s) = render p @ str_replace ''__'' ''%5F%5F'' s" for s
      by (cases p) simp_all
    with 1(2) False show ?thesis by simp
  qed
qed (simp_all add: single_piece)

lemma escape_pairs_meaning: "map meaning (escape_pairs ps) = map meaning ps"
  by (induction ps rule: escape_pairs.induct) auto

lemma escape_pairs_ok: "list_all plain_ok ps \<Longrightarrow> list_all plain_ok (escape_pairs ps)"
  by (induction ps rule: escape_pairs.induct) (auto simp: plain_ok_def)

lemma escape_percent_ok: "list_all plain_ok (map escape_percent s)"
  by (induction s) (auto simp: plain_ok_def escape_percent_def)

lemma escape_percent_meaning: "map meaning (map escape_percent s) = s"
  by (induction s) (auto simp: escape_percent_def)


lemma head_of_pairs: "escape_pairs (q # ps) = Plain (CHR ''_'') # qs \<Longrightarrow> q = Plain (CHR ''_'')"
  by (cases ps) (auto split: if_splits)

lemma no_pairs_left: "str_find ''__'' (render_all (escape_pairs ps)) = None"
proof (induction ps rule: escape_pairs.induct)
  case (1 p q ps)
  show ?case
  proof (cases "p = Plain (CHR ''_'') \<and> q = Plain (CHR ''_'')")
    case True
    with 1 show ?thesis by simp
  next
    case False
    let ?r = "render_all (escape_pairs (q # ps))"
    have r: "str_find ''__'' ?r = None" using 1(2) [OF False] .
    have "\<not> starts_with ''_'' ?r" if "p = Plain (CHR ''_'')"
      using head_of_pairs [of q ps] that False unfolding render_starts_underscore by blast
    with r have "str_find ''__'' (render p @ ?r) = None" by (cases p) auto
    moreover have "escape_pairs (p # q # ps) = p # escape_pairs (q # ps)" using False by simp
    ultimately show ?thesis by simp
  qed
qed (simp_all add: single_piece)

lemma escape_trailing: "str_find ''__'' (a @ ''_'') = None \<Longrightarrow> str_find ''__'' (a @ ''%5F'') = None"
proof (induction a)
  case (Cons c a)
  then show ?case by (cases a) (auto split: if_splits)
qed simp

lemma find_separator:
  "str_find ''__'' s = None \<Longrightarrow> \<not> ends_with ''_'' s \<Longrightarrow> str_find ''__'' (s @ ''__'' @ t) = Some (length s)"
proof (induction s)
  case (Cons c s)
  show ?case
  proof (cases s)
    case Nil
    with Cons.prems show ?thesis by (auto simp: ends_with_def)
  next
    case (Cons d s')
    with Cons.prems Cons.IH show ?thesis
      by (auto simp: ends_with_suffix suffix_Cons split: if_splits)
  qed
qed simp

definition encodes :: "string \<Rightarrow> string \<Rightarrow> bool" where
  "encodes value e \<longleftrightarrow> (\<exists>ps. e = render_all ps \<and> list_all plain_ok ps \<and> map meaning ps = value)
     \<and> str_find ''__'' e = None"

lemma encodes_first: "encodes value (str_replace TOOL_SEPARATOR ''%5F%5F'' (str_replace ''%'' ''%25'' value))"
  unfolding encodes_def TOOL_SEPARATOR_def encode_percent encode_pairs
  using no_pairs_left escape_pairs_ok [OF escape_percent_ok] escape_pairs_meaning escape_percent_meaning
  by metis

lemma encodes_leading: "encodes value (''_'' @ rest) \<Longrightarrow> encodes value (''%5F'' @ rest)"
proof -
  assume e: "encodes value (''_'' @ rest)"
  then obtain ps where ps: "''_'' @ rest = render_all ps" "list_all plain_ok ps" "map meaning ps = value"
    by (auto simp: encodes_def)
  from ps(1) have "starts_with ''_'' (render_all ps)" by (metis starts_with_append)
  then obtain qs where qs: "ps = Plain (CHR ''_'') # qs" unfolding render_starts_underscore by blast
  with ps have "''%5F'' @ rest = render_all (Underscore # qs)" "list_all plain_ok (Underscore # qs)"
    "map meaning (Underscore # qs) = value" by (auto simp: plain_ok_def)
  moreover have "str_find ''__'' (''%5F'' @ rest) = None" using e by (auto simp: encodes_def split: if_splits)
  ultimately show ?thesis unfolding encodes_def by blast
qed

lemma render_ends_underscore:
  assumes "p @ ''_'' = render_all ps"
  shows "\<exists>qs. ps = qs @ [Plain (CHR ''_'')] \<and> p = render_all qs"
proof (cases ps rule: rev_cases)
  case (snoc qs q)
  with assms show ?thesis by (cases q) auto
qed (use assms in simp)

lemma encodes_trailing: "encodes value (p @ ''_'') \<Longrightarrow> encodes value (p @ ''%5F'')"
proof -
  assume e: "encodes value (p @ ''_'')"
  then obtain ps where ps: "p @ ''_'' = render_all ps" "list_all plain_ok ps" "map meaning ps = value"
    by (auto simp: encodes_def)
  from render_ends_underscore [OF ps(1)] obtain qs where qs: "ps = qs @ [Plain (CHR ''_'')]" "p = render_all qs"
    by blast
  with ps have "p @ ''%5F'' = render_all (qs @ [Underscore])" "list_all plain_ok (qs @ [Underscore])"
    "map meaning (qs @ [Underscore]) = value" by (auto simp: plain_ok_def)
  moreover have "str_find ''__'' (p @ ''%5F'') = None"
    using e escape_trailing by (simp add: encodes_def)
  ultimately show ?thesis unfolding encodes_def by blast
qed

lemma encodes_leading_case:
  assumes "encodes v e"
  shows "encodes v (if leading then (case strip_prefix ''_'' e of Some rest \<Rightarrow> ''%5F'' @ rest | None \<Rightarrow> e) else e)"
proof (cases "strip_prefix ''_'' e")
  case (Some rest)
  then have "e = ''_'' @ rest" by (simp add: strip_prefix_Some)
  with encodes_leading [of v rest] assms Some show ?thesis by simp
qed (use assms in simp)

lemma encodes_trailing_case:
  assumes "encodes v e"
  shows "encodes v (if trailing then (case strip_suffix ''_'' e of Some p \<Rightarrow> p @ ''%5F'' | None \<Rightarrow> e) else e)"
proof (cases "strip_suffix ''_'' e")
  case (Some p)
  then have "e = p @ ''_''" by (simp add: strip_suffix_Some)
  with encodes_trailing [of v p] assms Some show ?thesis by simp
qed (use assms in simp)

lemma encodes_part: "encodes v (encode_tool_name_part v trailing leading)"
  unfolding encode_tool_name_part_def Let_def
  by (intro encodes_trailing_case encodes_leading_case encodes_first)

lemma decode_encode_part [simp]:
  "decode_tool_name_part (encode_tool_name_part value trailing leading) = value"
  using encodes_part [of "value" trailing leading] decode_render by (auto simp: encodes_def)

lemma trailing_escaped: "\<not> ends_with ''_'' (encode_tool_name_part value True False)"
proof -
  have "\<not> ends_with ''_'' (q @ ''%5F'')" for q
    by (simp add: ends_with_def)
  then show ?thesis
    by (auto simp: encode_tool_name_part_def Let_def strip_suffix_def split: option.splits if_splits)
qed

lemma server_split:
  "split_once ''__'' (server_prefix server @ t) = Some (encode_tool_name_part server True False, t)"
proof -
  have "str_find ''__'' (encode_tool_name_part server True False @ ''__'' @ t)
      = Some (length (encode_tool_name_part server True False))"
    by (rule find_separator [OF _ trailing_escaped]) (use encodes_part in \<open>auto simp: encodes_def\<close>)
  then show ?thesis by (simp add: split_once_def server_prefix_def TOOL_SEPARATOR_def)
qed

lemma server_prefix_unique:
  assumes "strip_prefix (server_prefix other) (encode_tool_name server tool) = Some rest"
  shows "other = server \<and> rest = encode_tool_name_part tool False True"
proof -
  let ?n = "encode_tool_name server tool"
  from assms have "?n = server_prefix other @ rest" by (simp add: strip_prefix_Some)
  with server_split [of other rest] server_split [of server "encode_tool_name_part tool False True"]
  have "encode_tool_name_part other True False = encode_tool_name_part server True False"
    "rest = encode_tool_name_part tool False True"
    by (simp_all add: encode_tool_name_def server_prefix_def)
  then show ?thesis by (metis decode_encode_part)
qed

lemma decode_candidates_known:
  assumes "tool \<noteq> []" "(server, server_prefix server) \<in> set cs" "\<forall>c \<in> set cs. snd c = server_prefix (fst c)"
  shows "decode_candidates (encode_tool_name server tool) cs = Some (server, tool)"
  using assms(2,3)
proof (induction cs)
  case (Cons c cs)
  obtain other pre where c: "c = (other, pre)" by fastforce
  with Cons.prems have pre: "pre = server_prefix other" by simp
  show ?case
  proof (cases "strip_prefix pre (encode_tool_name server tool)")
    case None
    have "strip_prefix (server_prefix server) (encode_tool_name server tool) \<noteq> None"
      by (simp add: encode_tool_name_def server_prefix_def flip: append_assoc)
    with None pre c have "other \<noteq> server" by auto
    with Cons None c show ?thesis by auto
  next
    case (Some rest)
    with server_prefix_unique [of other server tool rest] pre assms(1) c show ?thesis by simp
  qed
qed simp

lemma tool_names_decode:
  assumes "server \<in> set servers" and "tool \<noteq> []"
  shows "decode_tool_name (encode_tool_name server tool) servers = Some (server, tool)"
  unfolding decode_tool_name_def using assms
  by (intro decode_candidates_known) (auto simp: image_iff)

text \<open>C13: a tool name shown by the bridge means one tool: whatever the names of the servers and tools
  contain (separators, leading and trailing underscores, percent signs, escapes), decoding an encoded
  name against any list of servers with the server in it returns that server and that tool, even
  when another server's encoded name is a prefix of it.\<close>

theorem tool_names_roundtrip:
  assumes "server \<in> set servers" and "tool \<noteq> []"
  shows "decode_tool_name (encode_tool_name server tool) servers = Some (server, tool)"
  using assms by (rule tool_names_decode)

theorem tool_names_roundtrip_witness:
  "decode_tool_name (encode_tool_name ''a_'' ''_b__%5F'') [''a'', ''a_'', ''a___b''] = Some (''a_'', ''_b__%5F'')"
  by (rule tool_names_roundtrip) simp_all


subsection \<open>Tool filters and catalogs\<close>

record tool_filter =
  tf_allowed :: "string set option"
  tf_blocked :: "string set option"

fun parse_string_array :: "json list \<Rightarrow> string set \<Rightarrow> string + string set" where
  "parse_string_array [] names = Inr names"
| "parse_string_array (v # vs) names =
     (case as_str v of
        None \<Rightarrow> Inl ''Server tool filters must be arrays of tool names.''
      | Some name \<Rightarrow> parse_string_array vs (insert name names))"

definition parse_names :: "json \<Rightarrow> string \<Rightarrow> string \<Rightarrow> string + string set option" where
  "parse_names raw camel_case snake_case =
     (case (case vget camel_case raw of Some v \<Rightarrow> Some v | None \<Rightarrow> vget snake_case raw) of
        None \<Rightarrow> Inr None
      | Some v \<Rightarrow>
          (case as_array v of
             None \<Rightarrow> Inl ''Server tool filters must be arrays of tool names.''
           | Some values \<Rightarrow>
               (case parse_string_array values {} of Inl e \<Rightarrow> Inl e | Inr names \<Rightarrow> Inr (Some names))))"

definition tool_filter_from_raw :: "json \<Rightarrow> string + tool_filter" where
  "tool_filter_from_raw raw =
     (case parse_names raw ''allowedTools'' ''allowed_tools'' of
        Inl e \<Rightarrow> Inl e
      | Inr allowed \<Rightarrow>
          (case parse_names raw ''blockedTools'' ''blocked_tools'' of
             Inl e \<Rightarrow> Inl e
           | Inr blocked \<Rightarrow>
               if is_some allowed \<and> is_some blocked
               then Inl ''A server cannot configure both allowedTools and blockedTools.''
               else Inr \<lparr>tf_allowed = allowed, tf_blocked = blocked\<rparr>))"

definition permits :: "tool_filter \<Rightarrow> string \<Rightarrow> bool" where
  "permits f name =
     (case (tf_allowed f, tf_blocked f) of
        (Some allowed, _) \<Rightarrow> name \<in> allowed
      | (None, Some blocked) \<Rightarrow> name \<notin> blocked
      | (None, None) \<Rightarrow> True)"

definition tool_entry_name :: "json \<Rightarrow> string option" where
  "tool_entry_name tool = Option.bind (vget ''name'' tool) as_str"

fun normalize_from :: "string set \<Rightarrow> json list \<Rightarrow> json list" where
  "normalize_from seen [] = []"
| "normalize_from seen (tool # tools) =
     (case tool_entry_name tool of
        None \<Rightarrow> normalize_from seen tools
      | Some name \<Rightarrow>
          if name \<noteq> [] \<and> name \<notin> seen then tool # normalize_from (insert name seen) tools
          else normalize_from seen tools)"

definition normalize_catalog :: "json list \<Rightarrow> json list" where
  "normalize_catalog tools = normalize_from {} tools"

lemma parse_string_array_Inr:
  "parse_string_array vs names = Inr ns \<longleftrightarrow>
     list_all (\<lambda>v. as_str v \<noteq> None) vs \<and> ns = names \<union> {s. \<exists>v \<in> set vs. as_str v = Some s}"
  by (induction vs names rule: parse_string_array.induct) (auto split: option.splits)

lemma parse_names_Inr:
  "parse_names raw camel snake = Inr (Some names) \<Longrightarrow>
     \<exists>vs. (vget camel raw = Some (JArray vs) \<or> (vget camel raw = None \<and> vget snake raw = Some (JArray vs)))
        \<and> list_all (\<lambda>v. as_str v \<noteq> None) vs \<and> names = {s. \<exists>v \<in> set vs. as_str v = Some s}"
  by (auto simp: parse_names_def parse_string_array_Inr split: option.splits sum.splits json.splits
      elim!: as_array.elims)

lemma parse_names_absent:
  "parse_names raw camel snake = Inr None \<longleftrightarrow> vget camel raw = None \<and> vget snake raw = None"
  by (auto simp: parse_names_def split: option.splits sum.splits)

definition listed :: "json \<Rightarrow> string \<Rightarrow> string \<Rightarrow> string \<Rightarrow> bool" where
  "listed raw camel snake name \<longleftrightarrow>
     (\<exists>vs. (vget camel raw = Some (JArray vs) \<or> (vget camel raw = None \<and> vget snake raw = Some (JArray vs)))
         \<and> JString name \<in> set vs)"

lemma parse_names_listed:
  "parse_names raw camel snake = Inr (Some names) \<Longrightarrow> name \<in> names \<longleftrightarrow> listed raw camel snake name"
  by (drule parse_names_Inr) (auto simp: listed_def as_str_Some)

text \<open>A server's tool filter does what its configuration says: an accepted configuration has an
  allow list or a block list but not both; with an allow list exactly the tools named in it are
  permitted, with a block list exactly the others, and without either every tool.\<close>

theorem tool_filter_semantics:
  assumes "tool_filter_from_raw raw = Inr f"
  shows "let allow = (vget ''allowedTools'' raw \<noteq> None \<or> vget ''allowed_tools'' raw \<noteq> None);
             block = (vget ''blockedTools'' raw \<noteq> None \<or> vget ''blocked_tools'' raw \<noteq> None)
         in \<not> (allow \<and> block)
          \<and> (permits f name \<longleftrightarrow>
               (if allow then listed raw ''allowedTools'' ''allowed_tools'' name
                else if block then \<not> listed raw ''blockedTools'' ''blocked_tools'' name
                else True))"
proof -
  from assms obtain al bl where p: "parse_names raw ''allowedTools'' ''allowed_tools'' = Inr al"
    "parse_names raw ''blockedTools'' ''blocked_tools'' = Inr bl" "\<not> (is_some al \<and> is_some bl)"
    "f = \<lparr>tf_allowed = al, tf_blocked = bl\<rparr>"
    by (auto simp: tool_filter_from_raw_def split: sum.splits if_splits)
  show ?thesis
    unfolding Let_def
    using p parse_names_absent [of raw "''allowedTools''" "''allowed_tools''"]
      parse_names_absent [of raw "''blockedTools''" "''blocked_tools''"]
      parse_names_listed [of raw "''allowedTools''" "''allowed_tools''" _ name]
      parse_names_listed [of raw "''blockedTools''" "''blocked_tools''" _ name]
    by (cases al; cases bl) (auto simp: permits_def)
qed

theorem tool_filter_semantics_witness:
  "\<exists>f. tool_filter_from_raw (JObject [(''blockedTools'', JArray [JString ''rm''])]) = Inr f
     \<and> \<not> permits f ''rm''"
proof -
  let ?raw = "JObject [(''blockedTools'', JArray [JString ''rm''])]"
  have f: "tool_filter_from_raw ?raw = Inr \<lparr>tf_allowed = None, tf_blocked = Some {''rm''}\<rparr>"
    by (simp add: tool_filter_from_raw_def parse_names_def obj_get_def)
  from tool_filter_semantics [OF f, of "''rm''"] f show ?thesis
    by (simp add: listed_def obj_get_def)
qed

lemma normalize_from_sound:
  "set (map tool_entry_name (normalize_from seen tools)) = Some ` ({n. Some n \<in> set (map tool_entry_name tools) \<and> n \<noteq> []} - seen)
   \<and> distinct (map tool_entry_name (normalize_from seen tools)) \<and> subseq (normalize_from seen tools) tools"
proof (induction seen tools rule: normalize_from.induct)
  case (2 seen tool tools)
  show ?case
  proof (cases "tool_entry_name tool")
    case None
    with 2(1) [OF None] show ?thesis by (auto intro: list_emb_Cons)
  next
    case (Some name)
    show ?thesis
    proof (cases "name \<noteq> [] \<and> name \<notin> seen")
      case True
      with 2(2) [OF Some True] Some show ?thesis by auto
    next
      case False
      with 2(3) [OF Some False] Some show ?thesis by (auto intro: list_emb_Cons)
    qed
  qed
qed auto

lemma normalize_keeps_first:
  "t \<in> set (normalize_from seen tools) \<Longrightarrow>
     \<exists>before after. tools = before @ t # after \<and> tool_entry_name t \<notin> set (map tool_entry_name before)"
proof (induction seen tools rule: normalize_from.induct)
  case (2 seen tool tools)
  have keep: ?case if "t \<in> set (normalize_from seen' tools)" "tool_entry_name tool \<noteq> tool_entry_name t"
    "\<exists>before after. tools = before @ t # after \<and> tool_entry_name t \<notin> set (map tool_entry_name before)" for seen'
  proof -
    from that(3) obtain b a where "tools = b @ t # a" "tool_entry_name t \<notin> set (map tool_entry_name b)" by blast
    with that(2) show ?thesis by (intro exI [of _ "tool # b"] exI [of _ a]) auto
  qed
  have fresh: "tool_entry_name t \<notin> Some ` seen'" "tool_entry_name t \<noteq> None" "tool_entry_name t \<noteq> Some []"
    if "t \<in> set (normalize_from seen' tools)" for seen'
  proof -
    from that have "tool_entry_name t \<in> set (map tool_entry_name (normalize_from seen' tools))" by simp
    then have "tool_entry_name t \<in> Some ` ({n. Some n \<in> set (map tool_entry_name tools) \<and> n \<noteq> []} - seen')"
      using normalize_from_sound [of seen' tools] by simp
    then obtain n where "tool_entry_name t = Some n" "n \<noteq> []" "n \<notin> seen'" by blast
    then show "tool_entry_name t \<notin> Some ` seen'" "tool_entry_name t \<noteq> None" "tool_entry_name t \<noteq> Some []"
      by auto
  qed
  show ?case
  proof (cases "tool_entry_name tool")
    case None
    with 2(1) [OF None] 2(4) fresh [of seen] keep [of seen] show ?thesis by auto
  next
    case (Some name)
    show ?thesis
    proof (cases "name \<noteq> [] \<and> name \<notin> seen")
      case True
      show ?thesis
      proof (cases "t = tool")
        case True
        then show ?thesis by (intro exI [of _ "[]"] exI [of _ tools]) simp
      next
        case False
        with \<open>name \<noteq> [] \<and> name \<notin> seen\<close> 2(2) [OF Some True] 2(4) Some fresh [of "insert name seen"]
          keep [of "insert name seen"] show ?thesis by auto
      qed
    next
      case False
      with 2(4) Some have t: "t \<in> set (normalize_from seen tools)" by auto
      with fresh [OF t] Some False 2(3) [OF Some False t] keep [OF t] show ?thesis by fastforce
    qed
  qed
qed simp


text \<open>A normalized catalog offers every tool once: its names are distinct and nonempty, they are
  exactly the nonempty names of the server's catalog, the tools keep their order, and a name stands
  for the first tool that has it.\<close>

theorem catalog_is_normalized:
  "distinct (map tool_entry_name (normalize_catalog tools))
   \<and> set (map tool_entry_name (normalize_catalog tools)) = {Some n |n. Some n \<in> set (map tool_entry_name tools) \<and> n \<noteq> []}
   \<and> subseq (normalize_catalog tools) tools
   \<and> list_all (\<lambda>t. \<exists>before after. tools = before @ t # after \<and> tool_entry_name t \<notin> set (map tool_entry_name before))
       (normalize_catalog tools)"
  using normalize_from_sound [of "{}" tools] normalize_keeps_first [of _ "{}" tools]
  by (auto simp: normalize_catalog_def list_all_iff)

end
