(* ===== verification/Bridge.thy ===== *)
theory Bridge
  imports Names Protocol
begin

text \<open>
  The bridge (\<open>src/mcp_bridge.rs\<close>, \<open>src/mcp_bridge_rpc.rs\<close>, \<open>src/mcp_bridge_clients.rs\<close>): one MCP
  server in front of the pooled servers.  What a pooled server answers is an argument of the
  operations: \<open>bw_listing\<close> gives its tools, \<open>bw_call\<close> the result of a call (\<open>None\<close> for an error, a
  timeout or a failed task); \<open>bw_order\<close> is the order in which the concurrent listings complete.
\<close>

subsection \<open>State\<close>

record bridge_failure =
  bf_code :: int
  bf_message :: string

definition failure_internal :: bridge_failure where
  "failure_internal = \<lparr>bf_code = -32603, bf_message = ''MCP pool request failed.''\<rparr>"

definition failure_invalid_params :: bridge_failure where
  "failure_invalid_params = \<lparr>bf_code = -32602, bf_message = ''Invalid MCP bridge parameters.''\<rparr>"

definition failure_unknown_server :: bridge_failure where
  "failure_unknown_server = \<lparr>bf_code = -32602, bf_message = ''Unknown bridged MCP server.''\<rparr>"

definition failure_unknown_tool :: bridge_failure where
  "failure_unknown_tool = \<lparr>bf_code = -32602, bf_message = ''Unknown bridged MCP tool.''\<rparr>"

record server_client =
  sv_filter :: tool_filter
  sv_timeout :: duration

record bridge_state =
  br_order :: "string list"
  br_clients :: "(string, server_client) hmap"

record bridge_world =
  bw_listing :: "string \<Rightarrow> json list option"
  bw_order :: "string list"
  bw_call :: "string \<Rightarrow> json \<Rightarrow> json option"

definition DEFAULT_TIMEOUT_MS :: u64 where
  "DEFAULT_TIMEOUT_MS = 60000"

definition request_timeout :: "u64 option \<Rightarrow> duration" where
  "request_timeout timeout_ms =
     unat (case timeout_ms of Some t \<Rightarrow> if t > 0 then t else DEFAULT_TIMEOUT_MS | None \<Rightarrow> DEFAULT_TIMEOUT_MS)"

subsection \<open>Connecting\<close>

text \<open>
  The filters are read first; then every server is prepared and connected by a task of its own.
  A completed task is the position of its server with the endpoint's timeout or the error, and
  \<open>TaskFailed\<close> is a task that panicked.
\<close>

datatype connect_outcome = Connected "u64 option" | ConnectFailed string | TaskFailed

fun read_filters :: "(string \<times> json) list \<Rightarrow> string + (string \<times> tool_filter) list" where
  "read_filters [] = Inr []"
| "read_filters ((name, raw) # servers) =
     (case tool_filter_from_raw raw of
        Inl _ \<Rightarrow> Inl (''Server '' @ [CHR 0x27] @ name @ [CHR 0x27] @ '' has invalid tool filters.'')
      | Inr f \<Rightarrow> (case read_filters servers of Inl e \<Rightarrow> Inl e | Inr fs \<Rightarrow> Inr ((name, f) # fs)))"

fun join_connections ::
  "(string \<times> tool_filter) list \<Rightarrow> (nat \<times> connect_outcome) list \<Rightarrow> (string, server_client) hmap
     \<Rightarrow> string + (string, server_client) hmap" where
  "join_connections servers [] clients = Inr clients"
| "join_connections servers ((i, outcome) # completed) clients =
     (case outcome of
        Connected timeout \<Rightarrow>
          (case servers ! i of
             (name, f) \<Rightarrow>
               join_connections servers completed
                 (hm_insert name \<lparr>sv_filter = f, sv_timeout = request_timeout timeout\<rparr> clients))
      | ConnectFailed e \<Rightarrow> Inl e
      | TaskFailed \<Rightarrow> Inl ''Could not initialize pooled MCP connections.'')"

definition bridge_connect ::
  "(string \<times> json) list \<Rightarrow> (nat \<times> connect_outcome) list \<Rightarrow> string + bridge_state" where
  "bridge_connect servers completed =
     (case read_filters servers of
        Inl e \<Rightarrow> Inl e
      | Inr filtered \<Rightarrow>
          (case join_connections filtered completed [] of
             Inl e \<Rightarrow> Inl e
           | Inr clients \<Rightarrow>
               if length clients \<noteq> length (map fst filtered)
               then Inl ''Could not initialize pooled MCP connections.''
               else Inr \<lparr>br_order = map fst filtered, br_clients = clients\<rparr>))"

definition has_server :: "bridge_state \<Rightarrow> string \<Rightarrow> bool" where
  "has_server st name \<longleftrightarrow> is_some (hm_get name (br_clients st))"

definition selected_server_names ::
  "bridge_state \<Rightarrow> string option \<Rightarrow> bridge_failure + string list" where
  "selected_server_names st only_server =
     (case only_server of
        Some name \<Rightarrow> if has_server st name then Inr [name] else Inl failure_unknown_server
      | None \<Rightarrow> Inr (br_order st))"

subsection \<open>Listing the tools of all servers\<close>

definition EMPTY_SCHEMA :: json where
  "EMPTY_SCHEMA = JObject [(''type'', JString ''object'')]"

definition expose_tool :: "string \<Rightarrow> json \<Rightarrow> bool \<Rightarrow> json option" where
  "expose_tool server tool bare_names =
     (case as_object tool of
        None \<Rightarrow> None
      | Some exposed0 \<Rightarrow>
          (case Option.bind (obj_get ''name'' exposed0) as_str of
             None \<Rightarrow> None
           | Some name \<Rightarrow>
               if name = [] then None
               else
                 let exposed1 = obj_insert ''name''
                       (JString (if bare_names then name else encode_tool_name server name)) exposed0;
                     exposed2 = (if bare_names then exposed1
                       else obj_insert ''description''
                         (JString (describe_tool server
                           (Option.bind (obj_get ''description'' exposed1) as_str))) exposed1);
                     typed = (case obj_get ''inputSchema'' exposed2 of
                         Some (JObject schema) \<Rightarrow>
                           Option.bind (obj_get ''type'' schema) as_str = Some ''object''
                       | _ \<Rightarrow> False);
                     exposed3 = (if typed then exposed2
                       else obj_insert ''inputSchema'' EMPTY_SCHEMA exposed2);
                     exposed4 = (if (case obj_get ''outputSchema'' exposed3 of
                           Some schema \<Rightarrow> is_object schema | None \<Rightarrow> False)
                       then exposed3 else obj_remove ''outputSchema'' exposed3)
                 in Some (JObject exposed4)))"

fun join_listings ::
  "(string \<Rightarrow> json list option) \<Rightarrow> string list \<Rightarrow> (string, json list) hmap
     \<Rightarrow> bridge_failure + (string, json list) hmap" where
  "join_listings listing [] found = Inr found"
| "join_listings listing (name # completed) found =
     (case listing name of
        None \<Rightarrow> Inl failure_internal
      | Some tools \<Rightarrow> join_listings listing completed (hm_insert name (normalize_catalog tools) found))"

fun expose_all :: "string \<Rightarrow> tool_filter \<Rightarrow> bool \<Rightarrow> json list \<Rightarrow> json list" where
  "expose_all server f bare [] = []"
| "expose_all server f bare (tool # tools) =
     (case tool_entry_name tool of
        None \<Rightarrow> expose_all server f bare tools
      | Some name \<Rightarrow>
          (case (if permits f name then expose_tool server tool bare else None) of
             None \<Rightarrow> expose_all server f bare tools
           | Some exposed \<Rightarrow> exposed # expose_all server f bare tools))"

fun assemble ::
  "bridge_state \<Rightarrow> bool \<Rightarrow> string list \<Rightarrow> (string, json list) hmap \<Rightarrow> bridge_failure + json list" where
  "assemble st bare [] found = Inr []"
| "assemble st bare (server # names) found =
     (case hm_get server found of
        None \<Rightarrow> Inl failure_internal
      | Some tools \<Rightarrow>
          (case hm_get server (br_clients st) of
             None \<Rightarrow> Inl failure_unknown_server
           | Some client \<Rightarrow>
               (case assemble st bare names (hm_remove server found) of
                  Inl e \<Rightarrow> Inl e
                | Inr rest \<Rightarrow> Inr (expose_all server (sv_filter client) bare tools @ rest))))"

definition bridge_list_tools ::
  "bridge_state \<Rightarrow> bridge_world \<Rightarrow> string option \<Rightarrow> bridge_failure + json list" where
  "bridge_list_tools st w only_server =
     (case selected_server_names st only_server of
        Inl e \<Rightarrow> Inl e
      | Inr names \<Rightarrow>
          if \<exists>name \<in> set names. hm_get name (br_clients st) = None then Inl failure_unknown_server
          else
            (case join_listings (bw_listing w) (bw_order w) [] of
               Inl e \<Rightarrow> Inl e
             | Inr found \<Rightarrow> assemble st (is_some only_server) names found))"

subsection \<open>Calling a tool\<close>

definition resolve_tool ::
  "bridge_state \<Rightarrow> string \<Rightarrow> string option \<Rightarrow> bridge_failure + string \<times> string" where
  "resolve_tool st name only_server =
     (case (case only_server of
              Some server \<Rightarrow>
                if has_server st server \<and> name \<noteq> [] then Inr (server, name) else Inl failure_unknown_tool
            | None \<Rightarrow>
                (case decode_tool_name name (br_order st) of
                   Some decoded \<Rightarrow> Inr decoded
                 | None \<Rightarrow> Inl failure_unknown_tool)) of
        Inl e \<Rightarrow> Inl e
      | Inr (server, tool) \<Rightarrow>
          (case hm_get server (br_clients st) of
             None \<Rightarrow> Inl failure_unknown_server
           | Some client \<Rightarrow>
               if permits (sv_filter client) tool then Inr (server, tool) else Inl failure_unknown_tool))"

definition bridge_call_tool ::
  "bridge_state \<Rightarrow> bridge_world \<Rightarrow> string \<Rightarrow> json \<Rightarrow> string option \<Rightarrow> bridge_failure + json" where
  "bridge_call_tool st w name arguments only_server =
     (case resolve_tool st name only_server of
        Inl e \<Rightarrow> Inl e
      | Inr (server, tool) \<Rightarrow>
          (case bw_call w server (JObject [(''name'', JString tool), (''arguments'', arguments)]) of
             None \<Rightarrow> Inl failure_internal
           | Some result \<Rightarrow> Inr result))"

subsection \<open>Requests\<close>

definition PKG_VERSION :: string where "PKG_VERSION = ''0.1.0''"

record bridge_request =
  bq_id :: "json option"
  bq_method :: string
  bq_params :: json

definition success_response :: "json \<Rightarrow> json \<Rightarrow> json" where
  "success_response ident result =
     JObject [(''jsonrpc'', JString ''2.0''), (''id'', ident), (''result'', result)]"

definition error_response :: "json \<Rightarrow> int \<Rightarrow> string \<Rightarrow> json" where
  "error_response ident code message =
     JObject [(''jsonrpc'', JString ''2.0''), (''id'', ident),
       (''error'', JObject [(''code'', from_i64 code), (''message'', JString message)])]"

definition or_null :: "json option \<Rightarrow> json" where
  "or_null v = (case v of Some x \<Rightarrow> x | None \<Rightarrow> JNull)"

definition request_id :: "json option \<Rightarrow> (json \<times> int \<times> string) + json option" where
  "request_id v =
     (case v of
        None \<Rightarrow> Inr None
      | Some JNull \<Rightarrow> Inr None
      | Some x \<Rightarrow> if is_string x \<or> is_number x then Inr (Some x)
                  else Inl (JNull, -32600, ''Invalid JSON-RPC request id.''))"

definition parse_request :: "json \<Rightarrow> (json \<times> int \<times> string) + bridge_request" where
  "parse_request message =
     (case message of
        JObject object \<Rightarrow>
          (case request_id (obj_get ''id'' object) of
             Inl e \<Rightarrow> Inl e
           | Inr ident \<Rightarrow>
               let object = obj_remove ''id'' object in
               if Option.bind (obj_get ''jsonrpc'' object) as_str \<noteq> Some ''2.0''
               then Inl (or_null ident, -32600, ''Invalid JSON-RPC version.'')
               else
                 (case obj_get ''method'' object of
                    Some (JString m) \<Rightarrow>
                      let object = obj_remove ''method'' object in
                      if m = [] then Inl (or_null ident, -32600, ''Invalid JSON-RPC method.'')
                      else
                        let params = (case obj_get ''params'' object of Some p \<Rightarrow> p | None \<Rightarrow> JObject []) in
                        if \<not> is_object params \<and> \<not> is_array params
                        then Inl (or_null ident, -32600, ''Invalid JSON-RPC parameters.'')
                        else Inr \<lparr>bq_id = ident, bq_method = m, bq_params = params\<rparr>
                  | _ \<Rightarrow> Inl (or_null ident, -32600, ''Invalid JSON-RPC method.'')))
      | _ \<Rightarrow> Inl (JNull, -32600, ''Invalid JSON-RPC request.''))"

definition instructions :: "string option \<Rightarrow> string" where
  "instructions only_server =
     (case only_server of
        Some server \<Rightarrow> ''mcp-cli bridge exposing the '' @ [CHR 0x27] @ server @ [CHR 0x27] @ '' server.''
      | None \<Rightarrow> ''mcp-cli bridge exposing configured keep-alive servers. Tool names are namespaced as server__tool.'')"

definition server_info :: json where
  "server_info = JObject [(''name'', JString ''mcp-cli''), (''version'', JString PKG_VERSION)]"

definition negotiate_protocol_version :: "string \<Rightarrow> string" where
  "negotiate_protocol_version requested = negotiate_legacy_version requested"

definition initialize_result :: "json \<Rightarrow> string option \<Rightarrow> bridge_failure + json" where
  "initialize_result params only_server =
     (case as_object params of
        None \<Rightarrow> Inl failure_invalid_params
      | Some p \<Rightarrow>
          (case Option.bind (obj_get ''protocolVersion'' p) as_str of
             None \<Rightarrow> Inl failure_invalid_params
           | Some version \<Rightarrow>
               if version = [] then Inl failure_invalid_params
               else if \<not> (case obj_get ''capabilities'' p of Some v \<Rightarrow> is_object v | None \<Rightarrow> False)
                 \<or> \<not> (case obj_get ''clientInfo'' p of Some v \<Rightarrow> is_object v | None \<Rightarrow> False)
               then Inl failure_invalid_params
               else Inr (JObject
                 [(''protocolVersion'', JString (negotiate_protocol_version version)),
                  (''capabilities'', JObject [(''tools'', JObject [])]),
                  (''serverInfo'', server_info),
                  (''instructions'', JString (instructions only_server))])))"

definition discover_result :: "string option \<Rightarrow> bool \<Rightarrow> bridge_failure + json" where
  "discover_result only_server supports_listen =
     Inr (JObject
       [(''supportedVersions'', JArray [JString MODERN_VERSION]),
        (''capabilities'', JObject [(''tools'',
           if supports_listen then JObject [(''listChanged'', JBool True)] else JObject [])]),
        (''instructions'', JString (instructions only_server)),
        (''_meta'', JObject [(SERVER_INFO_META_KEY, server_info)])])"

definition rpc_call_tool ::
  "bridge_state \<Rightarrow> bridge_world \<Rightarrow> json \<Rightarrow> string option \<Rightarrow> bridge_failure + json" where
  "rpc_call_tool st w params only_server =
     (case params of
        JObject p \<Rightarrow>
          (case obj_get ''name'' p of
             Some (JString name) \<Rightarrow>
               let arguments = (case obj_get ''arguments'' (obj_remove ''name'' p) of
                                  Some a \<Rightarrow> a | None \<Rightarrow> JObject [])
               in if is_object arguments then bridge_call_tool st w name arguments only_server
                  else Inl failure_invalid_params
           | _ \<Rightarrow> Inl failure_invalid_params)
      | _ \<Rightarrow> Inl failure_invalid_params)"

definition modern_protocol_version :: "json \<Rightarrow> string option" where
  "modern_protocol_version message = Option.bind (vget ''params'' message) protocol_metadata"

definition protocol_version_for_request :: "json \<Rightarrow> string option" where
  "protocol_version_for_request message =
     (case Option.bind (vget ''method'' message) as_str of
        None \<Rightarrow> None
      | Some m \<Rightarrow>
          (case modern_protocol_version message of
             Some version \<Rightarrow> Some version
           | None \<Rightarrow>
               if m \<noteq> ''initialize'' then None
               else map_option negotiate_protocol_version
                 (Option.bind (Option.bind (vget ''params'' message) (vget ''protocolVersion'')) as_str)))"

definition dispatch_with_capabilities ::
  "bridge_state \<Rightarrow> bridge_world \<Rightarrow> json \<Rightarrow> string option \<Rightarrow> bool \<Rightarrow> json option" where
  "dispatch_with_capabilities st w message only_server supports_listen =
     (let modern_request = modern_protocol_version message = Some MODERN_VERSION in
      case parse_request message of
        Inl (ident, code, text) \<Rightarrow> Some (error_response ident code text)
      | Inr request \<Rightarrow>
          (case bq_id request of
             None \<Rightarrow> None
           | Some ident \<Rightarrow>
               if starts_with ''notifications/'' (bq_method request)
               then Some (error_response ident (-32600) ''Notifications must not include a request id.'')
               else
                 let m = bq_method request;
                     answer = (\<lambda>result. Some (case result of
                         Inr r \<Rightarrow> success_response ident r
                       | Inl failure \<Rightarrow> error_response ident (bf_code failure) (bf_message failure)))
                 in if m = ''initialize'' then answer (initialize_result (bq_params request) only_server)
                    else if m = ''server/discover'' \<and> modern_request
                    then answer (discover_result only_server supports_listen)
                    else if m = ''ping'' then answer (Inr (JObject []))
                    else if m = ''tools/list'' then
                      answer (case bridge_list_tools st w only_server of
                          Inl e \<Rightarrow> Inl e
                        | Inr tools \<Rightarrow> Inr (JObject [(''tools'', JArray tools)]))
                    else if m = ''tools/call'' then
                      answer (rpc_call_tool st w (bq_params request) only_server)
                    else Some (error_response ident (-32601) ''MCP method is not supported by this bridge.'')))"

definition dispatch :: "bridge_state \<Rightarrow> bridge_world \<Rightarrow> json \<Rightarrow> string option \<Rightarrow> json option" where
  "dispatch st w message only_server = dispatch_with_capabilities st w message only_server False"

definition dispatch_http :: "bridge_state \<Rightarrow> bridge_world \<Rightarrow> json \<Rightarrow> string option \<Rightarrow> json option" where
  "dispatch_http st w message only_server = dispatch_with_capabilities st w message only_server True"

subsection \<open>Subscriptions\<close>

record listen_subscription =
  ls_id :: json
  ls_tools_list_changed :: bool

definition listen_subscription :: "json \<Rightarrow> json + listen_subscription" where
  "listen_subscription message =
     (case parse_request message of
        Inl (ident, code, text) \<Rightarrow> Inl (error_response ident code text)
      | Inr request \<Rightarrow>
          (case bq_id request of
             None \<Rightarrow> Inl (error_response JNull (-32600) ''Subscription requests must include an id.'')
           | Some ident \<Rightarrow>
               (case as_object (bq_params request) of
                  None \<Rightarrow> Inl (error_response ident (-32602) ''Invalid MCP bridge parameters.'')
                | Some params \<Rightarrow>
                    (case Option.bind (obj_get ''notifications'' params) as_object of
                       None \<Rightarrow> Inl (error_response ident (-32602) ''Invalid MCP notification filter.'')
                     | Some notifications \<Rightarrow>
                         if \<exists>e \<in> set notifications. \<not> is_boolean (snd e)
                         then Inl (error_response ident (-32602) ''Invalid MCP notification filter.'')
                         else Inr \<lparr>ls_id = ident,
                           ls_tools_list_changed =
                             (Option.bind (obj_get ''toolsListChanged'' notifications) as_bool = Some True)\<rparr>))))"

definition subscription_acknowledgement :: "json \<Rightarrow> bool \<Rightarrow> json" where
  "subscription_acknowledgement ident tools_list_changed =
     JObject [(''jsonrpc'', JString ''2.0''),
       (''method'', JString ''notifications/subscriptions/acknowledged''),
       (''params'', JObject [(''notifications'',
          if tools_list_changed then JObject [(''toolsListChanged'', JBool True)] else JObject [])]),
       (''_meta'', JObject [(SUBSCRIPTION_ID_META_KEY, ident)])]"

definition subscription_completion :: "json \<Rightarrow> json" where
  "subscription_completion ident =
     JObject [(''jsonrpc'', JString ''2.0''), (''id'', ident),
       (''result'', JObject [(''resultType'', JString ''complete''),
          (''_meta'', JObject [(SUBSCRIPTION_ID_META_KEY, ident), (SERVER_INFO_META_KEY, server_info)])])]"

definition server_failure_response :: "json \<Rightarrow> json" where
  "server_failure_response ident = error_response ident (-32603) ''MCP pool request failed.''"

definition is_tools_list_changed :: "json \<Rightarrow> bool" where
  "is_tools_list_changed message \<longleftrightarrow>
     Option.bind (vget ''jsonrpc'' message) as_str = Some ''2.0''
     \<and> Option.bind (vget ''method'' message) as_str = Some ''notifications/tools/list_changed''"

text \<open>The message is updated in place: the result says whether it was stamped.\<close>

definition stamp_subscription_id :: "json \<Rightarrow> json \<Rightarrow> bool \<times> json" where
  "stamp_subscription_id message ident =
     (case message of
        JObject m \<Rightarrow>
          (let meta = (case obj_get ''_meta'' m of Some v \<Rightarrow> v | None \<Rightarrow> JObject []) in
           case meta of
             JObject metadata \<Rightarrow>
               (True, JObject (obj_insert ''_meta''
                  (JObject (obj_insert SUBSCRIPTION_ID_META_KEY ident metadata)) m))
           | _ \<Rightarrow> (False, JObject (obj_insert ''_meta'' meta m)))
      | _ \<Rightarrow> (False, message))"

definition malformed_frame_response :: "bool \<Rightarrow> json" where
  "malformed_frame_response too_large =
     (if too_large then error_response JNull (-32600) ''JSON-RPC message is too large.''
      else error_response JNull (-32700) ''Parse error.'')"

subsection \<open>What is listed can be called\<close>

lemma join_listings_Inr:
  "join_listings listing order m = Inr m' \<Longrightarrow>
     hm_get s m' = (if s \<in> set order then map_option normalize_catalog (listing s) else hm_get s m)"
  by (induction listing order m arbitrary: m' rule: join_listings.induct)
     (auto simp: hm_get_insert split: option.splits if_splits)

lemma expose_all_set:
  "t \<in> set (expose_all server f bare ts) \<longleftrightarrow>
     (\<exists>t0 \<in> set ts. \<exists>n. tool_entry_name t0 = Some n \<and> permits f n \<and> expose_tool server t0 bare = Some t)"
  by (induction ts) (auto split: option.splits)

lemma assemble_Inr:
  "assemble st bare names found = Inr tools \<Longrightarrow>
     distinct names
     \<and> (\<forall>s \<in> set names. \<exists>ts client. hm_get s found = Some ts \<and> hm_get s (br_clients st) = Some client)
     \<and> set tools = {t. \<exists>s \<in> set names. \<exists>ts client. hm_get s found = Some ts
                        \<and> hm_get s (br_clients st) = Some client
                        \<and> t \<in> set (expose_all s (sv_filter client) bare ts)}"
proof (induction names arbitrary: found tools)
  case (Cons s names)
  from Cons.prems obtain ts client rest where s: "hm_get s found = Some ts"
    "hm_get s (br_clients st) = Some client" "assemble st bare names (hm_remove s found) = Inr rest"
    "tools = expose_all s (sv_filter client) bare ts @ rest"
    by (auto split: option.splits sum.splits)
  from Cons.IH [OF s(3)] have "s \<notin> set names" by (auto simp: hm_get_remove)
  with Cons.IH [OF s(3)] s show ?case by (auto simp: hm_get_remove split: if_splits)
qed simp

lemma expose_tool_name:
  assumes "json_wf t0"
  shows "expose_tool server t0 bare = Some t \<Longrightarrow>
      \<exists>n. tool_entry_name t0 = Some n \<and> n \<noteq> []
        \<and> vget ''name'' t = Some (JString (if bare then n else encode_tool_name server n))"
    and "tool_entry_name t0 = Some n \<Longrightarrow> n \<noteq> [] \<Longrightarrow> expose_tool server t0 bare \<noteq> None"
proof -
  show "\<exists>n. tool_entry_name t0 = Some n \<and> n \<noteq> []
        \<and> vget ''name'' t = Some (JString (if bare then n else encode_tool_name server n))"
    if "expose_tool server t0 bare = Some t"
  proof -
    from that obtain m n where t0: "t0 = JObject m" "obj_get ''name'' m = Some (JString n)" "n \<noteq> []"
      by (auto simp: expose_tool_def as_object_Some as_str_Some bind_eq_Some_conv
          split: option.splits if_splits)
    from assms t0 have wf: "obj_wf m" by simp
    show ?thesis
      using that t0 wf
      by (auto simp: expose_tool_def tool_entry_name_def obj_get_insert obj_get_remove obj_wf_insert Let_def
          split: if_splits)
  qed
  show "expose_tool server t0 bare \<noteq> None" if "tool_entry_name t0 = Some n" "n \<noteq> []"
    using that by (cases t0) (auto simp: expose_tool_def tool_entry_name_def Let_def)
qed

lemma normalize_catalog_names:
  "Some n \<in> tool_entry_name ` set (normalize_catalog ts) \<longleftrightarrow> n \<noteq> [] \<and> Some n \<in> tool_entry_name ` set ts"
  using normalize_from_sound [of "{}" ts] by (auto simp: normalize_catalog_def)

lemma normalize_catalog_subset: "set (normalize_catalog ts) \<subseteq> set ts"
  using normalize_from_sound [of "{}" ts] by (auto simp: normalize_catalog_def dest: list_emb_set)

text \<open>The names under which the listed tools can be called.\<close>

definition offered :: "bridge_state \<Rightarrow> bridge_world \<Rightarrow> string list \<Rightarrow> (string \<times> string) set" where
  "offered st w servers =
     {(s, n). s \<in> set servers \<and> n \<noteq> []
        \<and> (\<exists>ts. bw_listing w s = Some ts \<and> Some n \<in> tool_entry_name ` set ts)
        \<and> (\<exists>client. hm_get s (br_clients st) = Some client \<and> permits (sv_filter client) n)}"

definition shown_name :: "string option \<Rightarrow> string \<Rightarrow> string \<Rightarrow> string" where
  "shown_name only_server s n = (if is_some only_server then n else encode_tool_name s n)"

lemma listed_tools:
  assumes list: "bridge_list_tools st w only_server = Inr tools"
    and wf: "\<And>s ts. bw_listing w s = Some ts \<Longrightarrow> list_all json_wf ts"
  obtains servers where "selected_server_names st only_server = Inr servers"
    "\<And>t. t \<in> set tools \<Longrightarrow> \<exists>s n. (s, n) \<in> offered st w servers
        \<and> vget ''name'' t = Some (JString (shown_name only_server s n))"
    "\<And>s n. (s, n) \<in> offered st w servers \<Longrightarrow>
        \<exists>t \<in> set tools. vget ''name'' t = Some (JString (shown_name only_server s n))"
proof -
  from list obtain servers m where s: "selected_server_names st only_server = Inr servers"
    "join_listings (bw_listing w) (bw_order w) [] = Inr m"
    "assemble st (is_some only_server) servers m = Inr tools"
    by (auto simp: bridge_list_tools_def split: sum.splits if_splits)
  note as = assemble_Inr [OF s(3)]
  have m: "hm_get x m = Some ts \<Longrightarrow> \<exists>ts0. bw_listing w x = Some ts0 \<and> ts = normalize_catalog ts0" for x ts
    using join_listings_Inr [OF s(2), of x] by (cases "bw_listing w x") (auto split: if_splits)
  let ?bare = "is_some only_server"
  show thesis
  proof (rule that [OF s(1)])
    fix t
    assume "t \<in> set tools"
    with as obtain x ts client where x: "x \<in> set servers" "hm_get x m = Some ts"
      "hm_get x (br_clients st) = Some client" "t \<in> set (expose_all x (sv_filter client) ?bare ts)" by auto
    from m [OF x(2)] obtain ts0 where ts0: "bw_listing w x = Some ts0" "ts = normalize_catalog ts0" by blast
    from x(4) obtain t0 n where t0: "t0 \<in> set ts" "tool_entry_name t0 = Some n" "permits (sv_filter client) n"
      "expose_tool x t0 ?bare = Some t" by (auto simp: expose_all_set)
    with ts0 normalize_catalog_subset [of ts0] wf [OF ts0(1)] have t0': "json_wf t0" "t0 \<in> set ts0"
      by (auto simp: list_all_iff)
    from expose_tool_name(1) [OF t0'(1) t0(4)] t0(2) have "n \<noteq> []"
      "vget ''name'' t = Some (JString (shown_name only_server x n))" by (auto simp: shown_name_def)
    moreover from t0 t0' x ts0 \<open>n \<noteq> []\<close> have "(x, n) \<in> offered st w servers"
      by (force simp: offered_def image_iff)
    ultimately show "\<exists>s n. (s, n) \<in> offered st w servers
        \<and> vget ''name'' t = Some (JString (shown_name only_server s n))" by blast
  next
    fix x n
    assume o: "(x, n) \<in> offered st w servers"
    then obtain client where o': "x \<in> set servers" "n \<noteq> []" "hm_get x (br_clients st) = Some client"
      "permits (sv_filter client) n" by (auto simp: offered_def)
    with as obtain ts where x: "hm_get x m = Some ts" by fastforce
    from m [OF x] o obtain ts0 where ts0: "bw_listing w x = Some ts0" "ts = normalize_catalog ts0"
      "Some n \<in> tool_entry_name ` set ts0" by (auto simp: offered_def)
    with o'(2) normalize_catalog_names [of n ts0] obtain t0 where t0: "t0 \<in> set ts" "tool_entry_name t0 = Some n"
      by auto
    with ts0 normalize_catalog_subset [of ts0] wf [OF ts0(1)] have wf0: "json_wf t0"
      by (auto simp: list_all_iff)
    from expose_tool_name(2) [OF wf0 t0(2) o'(2)] obtain t where t: "expose_tool x t0 ?bare = Some t" by auto
    with t0 o' have "t \<in> set (expose_all x (sv_filter client) ?bare ts)" by (auto simp: expose_all_set)
    with as x o' have "t \<in> set tools" by auto
    moreover from expose_tool_name(1) [OF wf0 t] t0
    have "vget ''name'' t = Some (JString (shown_name only_server x n))" by (auto simp: shown_name_def)
    ultimately show "\<exists>t \<in> set tools. vget ''name'' t = Some (JString (shown_name only_server x n))" by blast
  qed
qed

lemma offered_resolves:
  assumes "selected_server_names st only_server = Inr servers" and "(s, n) \<in> offered st w servers"
  shows "resolve_tool st (shown_name only_server s n) only_server = Inr (s, n)"
  using assms tool_names_decode [of s "br_order st" n]
  by (auto simp: offered_def resolve_tool_def selected_server_names_def has_server_def shown_name_def
      split: option.splits if_splits)

text \<open>C9: what the bridge lists is what it can call.  The tools of a successful listing are, under
  the names the bridge gives them, exactly the named tools of the selected servers that their filters
  permit; and a call with such a name sends that server a call of that tool with the same arguments
  and returns what the server answered.\<close>

theorem listed_tools_are_callable:
  assumes "bridge_list_tools st w only_server = Inr tools"
    and "\<And>s ts. bw_listing w s = Some ts \<Longrightarrow> list_all json_wf ts"
  shows "\<exists>servers. selected_server_names st only_server = Inr servers
    \<and> (\<forall>t \<in> set tools. \<exists>name s n. vget ''name'' t = Some (JString name)
         \<and> (s, n) \<in> offered st w servers \<and> resolve_tool st name only_server = Inr (s, n))
    \<and> (\<forall>s n. (s, n) \<in> offered st w servers \<longrightarrow>
         (\<exists>t \<in> set tools. \<exists>name. vget ''name'' t = Some (JString name)
            \<and> bridge_call_tool st w name arguments only_server
                = (case bw_call w s (JObject [(''name'', JString n), (''arguments'', arguments)]) of
                     None \<Rightarrow> Inl failure_internal | Some result \<Rightarrow> Inr result)))"
proof (rule listed_tools [OF assms])
  fix servers
  assume s: "selected_server_names st only_server = Inr servers"
    and sound: "\<And>t. t \<in> set tools \<Longrightarrow> \<exists>s n. (s, n) \<in> offered st w servers
        \<and> vget ''name'' t = Some (JString (shown_name only_server s n))"
    and complete: "\<And>s n. (s, n) \<in> offered st w servers \<Longrightarrow>
        \<exists>t \<in> set tools. vget ''name'' t = Some (JString (shown_name only_server s n))"
  note res = offered_resolves [OF s]
  have "bridge_call_tool st w (shown_name only_server s n) arguments only_server
      = (case bw_call w s (JObject [(''name'', JString n), (''arguments'', arguments)]) of
           None \<Rightarrow> Inl failure_internal | Some result \<Rightarrow> Inr result)"
    if "(s, n) \<in> offered st w servers" for s n
    by (simp add: bridge_call_tool_def res [OF that])
  with s sound complete res show ?thesis by blast
qed

theorem listed_tools_are_callable_witness:
  "\<exists>t. vget ''name'' t = Some (JString ''docs__read'')
    \<and> bridge_list_tools
        \<lparr>br_order = [''docs''], br_clients = [(''docs'', \<lparr>sv_filter = \<lparr>tf_allowed = None, tf_blocked = None\<rparr>, sv_timeout = 5\<rparr>)]\<rparr>
        \<lparr>bw_listing = (\<lambda>_. Some [JObject [(''name'', JString ''read'')]]), bw_order = [''docs''], bw_call = (\<lambda>_ _. None)\<rparr>
        None = Inr [t]
    \<and> resolve_tool
        \<lparr>br_order = [''docs''], br_clients = [(''docs'', \<lparr>sv_filter = \<lparr>tf_allowed = None, tf_blocked = None\<rparr>, sv_timeout = 5\<rparr>)]\<rparr>
        ''docs__read'' None = Inr (''docs'', ''read'')"
proof -
  let ?st = "\<lparr>br_order = [''docs''], br_clients = [(''docs'', \<lparr>sv_filter = \<lparr>tf_allowed = None, tf_blocked = None\<rparr>, sv_timeout = 5\<rparr>)]\<rparr>"
  let ?w = "\<lparr>bw_listing = (\<lambda>_. Some [JObject [(''name'', JString ''read'')]]), bw_order = [''docs''], bw_call = (\<lambda>_ _. None)\<rparr>"
  let ?t = "JObject [(''name'', JString ''docs__read''),
    (''description'', JString (describe_tool ''docs'' None)), (''inputSchema'', EMPTY_SCHEMA)]"
  have t: "bridge_list_tools ?st ?w None = Inr [?t]"
    by (simp add: bridge_list_tools_def selected_server_names_def hm_get_def hm_insert_def hm_remove_def
        normalize_catalog_def tool_entry_name_def permits_def expose_tool_def encode_tool_name_def
        encode_tool_name_part_def TOOL_SEPARATOR_def server_prefix_def strip_prefix_def strip_suffix_def
        ends_with_def obj_get_def Let_def)
  have n: "vget ''name'' ?t = Some (JString ''docs__read'')" by (simp add: obj_get_def)
  have "\<And>s ts. bw_listing ?w s = Some ts \<Longrightarrow> list_all json_wf ts" by auto
  from listed_tools_are_callable [OF t this] n
  have "\<exists>s tool. (s, tool) \<in> offered ?st ?w [''docs''] \<and> resolve_tool ?st ''docs__read'' None = Inr (s, tool)"
    by (simp add: selected_server_names_def)
  then have "resolve_tool ?st ''docs__read'' None = Inr (''docs'', ''read'')"
    by (auto simp: offered_def tool_entry_name_def obj_get_def)
  with t n show ?thesis by blast
qed

subsection \<open>Every request is answered once, under its own identifier\<close>

definition answer_id :: "json \<Rightarrow> json" where
  "answer_id message =
     (case vget ''id'' message of
        Some x \<Rightarrow> if is_string x \<or> is_number x then x else JNull
      | None \<Rightarrow> JNull)"

definition answers :: "json \<Rightarrow> json \<Rightarrow> bool" where
  "answers response ident \<longleftrightarrow>
     vget ''jsonrpc'' response = Some (JString ''2.0'') \<and> vget ''id'' response = Some ident
     \<and> (is_some (vget ''result'' response) \<longleftrightarrow> \<not> is_some (vget ''error'' response))"

lemma answers_success [simp]: "answers (success_response ident r) ident' \<longleftrightarrow> ident' = ident"
  by (auto simp: answers_def success_response_def obj_get_def)

lemma answers_error [simp]: "answers (error_response ident code text) ident' \<longleftrightarrow> ident' = ident"
  by (auto simp: answers_def error_response_def obj_get_def)

lemma parse_request_id:
  "parse_request message = Inl (ident, code, text) \<Longrightarrow> ident = answer_id message"
  "parse_request message = Inr r \<Longrightarrow> bq_id r = Some ident \<Longrightarrow> ident = answer_id message"
  by (auto simp: parse_request_def request_id_def answer_id_def or_null_def Let_def
      split: json.splits option.splits if_splits)

definition is_notification :: "json \<Rightarrow> bool" where
  "is_notification message \<longleftrightarrow>
     (case parse_request message of Inl _ \<Rightarrow> False | Inr r \<Rightarrow> bq_id r = None)"

lemma dispatch_answers:
  "dispatch_with_capabilities st w message only_server listen = None \<longleftrightarrow> is_notification message"
  "dispatch_with_capabilities st w message only_server listen = Some response \<Longrightarrow>
     answers response (answer_id message)"
proof -
  have "(dispatch_with_capabilities st w message only_server listen = None \<longleftrightarrow> is_notification message)
    \<and> (\<forall>response. dispatch_with_capabilities st w message only_server listen = Some response
         \<longrightarrow> answers response (answer_id message))"
  proof (cases "parse_request message")
    case (Inl e)
    obtain ident code msg where e: "e = (ident, code, msg)" by (cases e) auto
    with Inl parse_request_id(1) show ?thesis by (auto simp: dispatch_with_capabilities_def is_notification_def)
  next
    case (Inr r)
    show ?thesis
    proof (cases "bq_id r")
      case None
      with Inr show ?thesis by (simp add: dispatch_with_capabilities_def is_notification_def)
    next
      case (Some ident)
      with parse_request_id(2) [OF Inr] have "ident = answer_id message" by simp
      with Inr Some show ?thesis
        by (auto simp: dispatch_with_capabilities_def is_notification_def Let_def split: if_splits sum.splits)
    qed
  qed
  then show "dispatch_with_capabilities st w message only_server listen = None \<longleftrightarrow> is_notification message"
    and "dispatch_with_capabilities st w message only_server listen = Some response \<Longrightarrow>
      answers response (answer_id message)" by auto
qed

text \<open>C17: the bridge answers every request exactly once and a notification never.  Nothing is answered
  exactly when the message is a well-formed notification (a request without an identifier); every
  answer is one JSON-RPC response, a result or an error but not both, under the identifier of the
  message (null when the message has none that is a string or a number).\<close>

theorem bridge_answers_requests:
  "(dispatch_with_capabilities st w message only_server listen = None
      \<longleftrightarrow> (\<exists>r. parse_request message = Inr r \<and> bq_id r = None))
   \<and> (\<forall>response. dispatch_with_capabilities st w message only_server listen = Some response
        \<longrightarrow> answers response (answer_id message))"
  using dispatch_answers [of st w message only_server listen]
  by (auto simp: is_notification_def split: sum.splits)

theorem bridge_answers_requests_witness:
  "\<exists>response. dispatch \<lparr>br_order = [], br_clients = []\<rparr>
       \<lparr>bw_listing = (\<lambda>_. None), bw_order = [], bw_call = (\<lambda>_ _. None)\<rparr>
       (JObject [(''jsonrpc'', JString ''2.0''), (''id'', JString ''q''), (''method'', JString ''ping'')]) None
     = Some response \<and> answers response (JString ''q'')"
proof -
  let ?m = "JObject [(''jsonrpc'', JString ''2.0''), (''id'', JString ''q''), (''method'', JString ''ping'')]"
  let ?st = "\<lparr>br_order = [], br_clients = []\<rparr>"
  let ?w = "\<lparr>bw_listing = (\<lambda>_. None), bw_order = [], bw_call = (\<lambda>_ _. None)\<rparr>"
  have parse: "parse_request ?m = Inr \<lparr>bq_id = Some (JString ''q''), bq_method = ''ping'', bq_params = JObject []\<rparr>"
    by (simp add: parse_request_def request_id_def obj_get_def)
  from bridge_answers_requests [of ?st ?w ?m None False] parse
  obtain response where "dispatch_with_capabilities ?st ?w ?m None False = Some response"
    "answers response (answer_id ?m)" by fastforce
  then show ?thesis by (simp add: dispatch_def answer_id_def obj_get_def)
qed

end
