(* ===== verification/Wire.thy ===== *)
theory Wire
  imports Json
begin

text \<open>
  The frames of a client connection (\<open>src/mcp_client_wire.rs\<close>).  A channel holds the chunks that
  reading the stream will give (an empty chunk or the end of the list is the end of the stream, or
  an error when \<open>ch_failing\<close>), the lines that were written, and whether writing still works.
  \<open>parse\<close> and \<open>ser\<close> are the parser and the printer of JSON text.
\<close>

type_synonym parser = "string \<Rightarrow> json option"

definition MAX_FRAME_BYTES :: nat where
  "MAX_FRAME_BYTES = 16 * 1024 * 1024"

record channel =
  ch_in :: "string list"
  ch_failing :: bool
  ch_out :: "string list"
  ch_writable :: bool

datatype client_error = RpcError int string "json option" | Failure string

datatype incoming = Notification json | Response obj

text \<open>\<open>u8::is_ascii_whitespace\<close>: space, tab, line feed, form feed and carriage return.\<close>

definition blank_byte :: "char \<Rightarrow> bool" where
  "blank_byte c \<longleftrightarrow> c \<in> {CHR '' '', CHR 0x09, CHR 0x0A, CHR 0x0C, CHR 0x0D}"

definition blank :: "string \<Rightarrow> bool" where
  "blank s \<longleftrightarrow> list_all blank_byte s"

subsection \<open>Reading and writing frames\<close>

definition TOO_LARGE :: string where
  "TOO_LARGE = ''MCP frame exceeds 16777216 bytes''"

definition write_message :: "(json \<Rightarrow> string) \<Rightarrow> json \<Rightarrow> channel \<Rightarrow> (client_error + unit) \<times> channel" where
  "write_message ser message ch =
     (let bytes = ser message in
      if MAX_FRAME_BYTES \<le> length bytes then (Inl (Failure TOO_LARGE), ch)
      else if ch_writable ch then (Inr (), ch\<lparr>ch_out := ch_out ch @ [bytes @ [CHR 0x0A]]\<rparr>)
      else (Inl (Failure ''writing MCP frame''), ch))"

definition stream_size :: "string list \<Rightarrow> nat" where
  "stream_size chunks = length chunks + length (concat chunks)"

definition end_of_stream :: "bool \<Rightarrow> string \<Rightarrow> client_error + json option" where
  "end_of_stream failing frame =
     (if failing then Inl (Failure ''reading MCP frame'')
      else if frame = [] then Inr None
      else Inl (Failure ''MCP connection reached EOF before a complete response frame''))"

text \<open>The position of the first line feed, as \<open>iter().position\<close> gives it.\<close>

fun newline_at :: "string \<Rightarrow> nat option" where
  "newline_at [] = None"
| "newline_at (c # cs) = (if c = CHR 0x0A then Some 0 else map_option Suc (newline_at cs))"

lemma newline_at_Some: "newline_at s = Some p \<Longrightarrow> p < length s"
  by (induction s arbitrary: p) (auto split: if_splits)

text \<open>How many bytes of the chunk belong to the frame, and the stream after they are consumed.\<close>

definition frame_count :: "string \<Rightarrow> nat" where
  "frame_count available =
     (case newline_at available of Some position \<Rightarrow> position + 1 | None \<Rightarrow> length available)"

definition after_chunk :: "string \<Rightarrow> string list \<Rightarrow> string list" where
  "after_chunk available chunks =
     (if frame_count available < length available
      then drop (frame_count available) available # chunks else chunks)"

lemma after_chunk_less:
  "available \<noteq> [] \<Longrightarrow> stream_size (after_chunk available chunks) < stream_size (available # chunks)"
  by (auto simp: stream_size_def after_chunk_def frame_count_def split: option.splits)

function read_frame ::
  "parser \<Rightarrow> bool \<Rightarrow> string \<Rightarrow> string list \<Rightarrow> (client_error + json option) \<times> string list" where
  "read_frame parse failing frame [] = (end_of_stream failing frame, [])"
| "read_frame parse failing frame (available # chunks) =
     (if available = [] then (end_of_stream failing frame, available # chunks)
      else if length frame + frame_count available > MAX_FRAME_BYTES
      then (Inl (Failure TOO_LARGE), available # chunks)
      else
        let frame' = frame @ take (frame_count available) available;
            rest = after_chunk available chunks
        in if newline_at available = None then read_frame parse failing frame' rest
           else if blank frame' then read_frame parse failing [] rest
           else ((case parse frame' of
                    Some v \<Rightarrow> Inr (Some v)
                  | None \<Rightarrow> Inl (Failure ''invalid JSON in MCP frame'')), rest))"
  by pat_completeness auto
termination
  by (relation "measure (\<lambda>(_, _, _, chunks). stream_size chunks)") (auto dest: after_chunk_less)

declare read_frame.simps [simp del]

definition read_message :: "parser \<Rightarrow> channel \<Rightarrow> (client_error + json option) \<times> channel" where
  "read_message parse ch =
     (case read_frame parse (ch_failing ch) [] (ch_in ch) of (r, chunks) \<Rightarrow> (r, ch\<lparr>ch_in := chunks\<rparr>))"

lemma read_frame_consumes:
  "read_frame parse failing frame chunks = (Inr (Some v), rest) \<Longrightarrow> stream_size rest < stream_size chunks"
proof (induction parse failing frame chunks rule: read_frame.induct)
  case (1 parse failing frame)
  then show ?case by (simp add: read_frame.simps end_of_stream_def split: if_splits)
next
  case (2 parse failing frame available chunks)
  note less = after_chunk_less [of available chunks]
  from 2(3) show ?case
    unfolding read_frame.simps(2) [of parse failing frame]
    using 2(1) [OF _ _ refl refl] 2(2) [OF _ _ refl refl] less
    by (auto simp: Let_def end_of_stream_def split: if_splits option.splits)
qed

subsection \<open>Messages\<close>

definition valid_id :: "json \<Rightarrow> bool" where
  "valid_id identifier \<longleftrightarrow>
     is_string identifier \<or> is_some (as_i64 identifier) \<or> is_some (as_u64 identifier)"

definition client_answer :: "json \<Rightarrow> string \<Rightarrow> json" where
  "client_answer server_id m =
     (if m = ''ping''
      then JObject [(''jsonrpc'', JString ''2.0''), (''id'', server_id), (''result'', JObject [])]
      else JObject [(''jsonrpc'', JString ''2.0''), (''id'', server_id),
        (''error'', JObject [(''code'', from_i64 (-32601)),
           (''message'', JString (''Unsupported client method: '' @ m))])])"

text \<open>
  What one message of the server means: an error, something for the caller, or an answer the client
  has to write before it reads on.
\<close>

datatype classified = Invalid string | Deliver incoming | Answer json

definition classify_method :: "obj \<Rightarrow> string \<Rightarrow> classified" where
  "classify_method message m =
     (if is_some (obj_get ''result'' message) \<or> is_some (obj_get ''error'' message)
      then Invalid ''MCP request/notification contains a response field''
      else if (case obj_get ''params'' message of
                 Some params \<Rightarrow> \<not> is_object params \<and> \<not> is_array params | None \<Rightarrow> False)
      then Invalid ''invalid MCP request/notification params''
      else
        (case (case obj_get ''id'' message of
                 Some identifier \<Rightarrow> if is_null identifier then None else Some identifier
               | None \<Rightarrow> None) of
           Some server_id \<Rightarrow>
             if valid_id server_id then Answer (client_answer server_id m)
             else Invalid ''invalid MCP server request ID''
         | None \<Rightarrow> Deliver (Notification (JObject message))))"

definition classify :: "json \<Rightarrow> classified" where
  "classify v =
     (case v of
        JObject message \<Rightarrow>
          if Option.bind (obj_get ''jsonrpc'' message) as_str \<noteq> Some ''2.0''
          then Invalid ''invalid MCP JSON-RPC envelope''
          else (case obj_get ''method'' message of
                  None \<Rightarrow> Deliver (Response message)
                | Some m \<Rightarrow>
                    (case as_str m of
                       None \<Rightarrow> Invalid ''MCP method must be a string''
                     | Some name \<Rightarrow> classify_method message name))
      | _ \<Rightarrow> Invalid ''invalid MCP JSON-RPC envelope'')"

lemma write_message_in [simp]: "write_message ser m ch = (r, ch') \<Longrightarrow> ch_in ch' = ch_in ch"
  by (auto simp: write_message_def Let_def split: if_splits)

lemma read_message_consumes:
  "read_message parse ch = (Inr (Some v), ch') \<Longrightarrow> stream_size (ch_in ch') < stream_size (ch_in ch)"
  by (auto simp: read_message_def dest: read_frame_consumes split: prod.splits)

function receive_message ::
  "parser \<Rightarrow> (json \<Rightarrow> string) \<Rightarrow> channel \<Rightarrow> (client_error + incoming option) \<times> channel" where
  "receive_message parse ser ch =
     (case read_message parse ch of
        (Inl e, ch') \<Rightarrow> (Inl e, ch')
      | (Inr None, ch') \<Rightarrow> (Inr None, ch')
      | (Inr (Some v), ch') \<Rightarrow>
          (case classify v of
             Invalid e \<Rightarrow> (Inl (Failure e), ch')
           | Deliver i \<Rightarrow> (Inr (Some i), ch')
           | Answer response \<Rightarrow>
               (case write_message ser response ch' of
                  (Inl e, ch'') \<Rightarrow> (Inl e, ch'')
                | (Inr _, ch'') \<Rightarrow> receive_message parse ser ch'')))"
  by pat_completeness auto
termination
  by (relation "measure (\<lambda>(_, _, ch). stream_size (ch_in ch))")
     (auto dest!: sym [of _ "read_message _ _"] read_message_consumes
        sym [of _ "write_message _ _ _"] write_message_in)

declare receive_message.simps [simp del]

lemma receive_message_consumes:
  "receive_message parse ser ch = (Inr (Some i), ch') \<Longrightarrow> stream_size (ch_in ch') < stream_size (ch_in ch)"
proof (induction parse ser ch rule: receive_message.induct)
  case (1 parse ser ch)
  from 1(2) obtain v ch1 where r: "read_message parse ch = (Inr (Some v), ch1)"
    by (subst (asm) receive_message.simps) (auto split: prod.splits sum.splits option.splits)
  note less = read_message_consumes [OF r]
  show ?case
  proof (cases "classify v")
    case (Answer response)
    obtain res ch2 where w: "write_message ser response ch1 = (res, ch2)" by fastforce
    with 1(2) r Answer have "(case res of Inl e \<Rightarrow> (Inl e, ch2) | Inr u \<Rightarrow> receive_message parse ser ch2)
        = (Inr (Some i), ch')"
      by (simp add: receive_message.simps [of parse ser ch] split: sum.splits)
    then have res: "res = Inr ()" and rest: "receive_message parse ser ch2 = (Inr (Some i), ch')"
      by (cases res; simp)+
    from 1(1) [OF r [symmetric] refl refl Answer w [symmetric]] res rest less write_message_in [OF w]
    show ?thesis by simp
  qed (use 1(2) r less in \<open>simp_all add: receive_message.simps [of parse ser ch]\<close>)
qed

text \<open>
  The answer to one request: the outer error means that the stream can no longer be used, the inner
  one is a rejection by the server.
\<close>

definition match_response :: "u64 \<Rightarrow> obj \<Rightarrow> client_error + (client_error + json)" where
  "match_response request_id message =
     (if obj_get ''id'' message \<noteq> Some (from_u64 request_id)
      then Inl (Failure ''MCP response ID does not match the outstanding request'')
      else
        (case (obj_get ''result'' message, obj_get ''error'' (obj_remove ''result'' message)) of
           (Some result, None) \<Rightarrow> Inr (Inr result)
         | (None, Some (JObject error)) \<Rightarrow>
             (case Option.bind (obj_get ''code'' error) as_i64 of
                None \<Rightarrow> Inl (Failure ''MCP JSON-RPC error omitted integer code'')
              | Some code \<Rightarrow>
                  (case obj_get ''message'' error of
                     Some (JString m) \<Rightarrow>
                       Inr (Inl (RpcError code m (obj_get ''data'' (obj_remove ''message'' error))))
                   | _ \<Rightarrow> Inl (Failure ''MCP JSON-RPC error omitted message'')))
         | (None, Some _) \<Rightarrow> Inl (Failure ''MCP JSON-RPC error omitted integer code'')
         | _ \<Rightarrow> Inl (Failure ''MCP response must contain exactly one of result or error'')))"

function receive_result ::
  "parser \<Rightarrow> (json \<Rightarrow> string) \<Rightarrow> u64 \<Rightarrow> channel \<Rightarrow> (client_error + (client_error + json)) \<times> channel" where
  "receive_result parse ser request_id ch =
     (case receive_message parse ser ch of
        (Inl e, ch') \<Rightarrow> (Inl e, ch')
      | (Inr None, ch') \<Rightarrow> (Inl (Failure ''MCP connection reached EOF before a response''), ch')
      | (Inr (Some (Notification _)), ch') \<Rightarrow> receive_result parse ser request_id ch'
      | (Inr (Some (Response message)), ch') \<Rightarrow> (match_response request_id message, ch'))"
  by pat_completeness auto
termination
  by (relation "measure (\<lambda>(_, _, _, ch). stream_size (ch_in ch))")
     (auto dest!: sym [of _ "receive_message _ _ _"] receive_message_consumes)

declare receive_result.simps [simp del]

definition receive_notification ::
  "parser \<Rightarrow> (json \<Rightarrow> string) \<Rightarrow> channel \<Rightarrow> (client_error + json option) \<times> channel" where
  "receive_notification parse ser ch =
     (case receive_message parse ser ch of
        (Inl e, ch') \<Rightarrow> (Inl e, ch')
      | (Inr None, ch') \<Rightarrow> (Inr None, ch')
      | (Inr (Some (Notification v)), ch') \<Rightarrow> (Inr (Some v), ch')
      | (Inr (Some (Response _)), ch') \<Rightarrow>
          (Inl (Failure ''unexpected MCP response on notification listener''), ch'))"

lemma receive_result_consumes:
  "receive_result parse ser request_id ch = (Inr r, ch') \<Longrightarrow> stream_size (ch_in ch') < stream_size (ch_in ch)"
proof (induction parse ser request_id ch rule: receive_result.induct)
  case (1 parse ser request_id ch)
  from 1(2) obtain i ch1 where r: "receive_message parse ser ch = (Inr (Some i), ch1)"
    by (subst (asm) receive_result.simps) (auto split: prod.splits sum.splits option.splits)
  note less = receive_message_consumes [OF r]
  show ?case
  proof (cases i)
    case (Notification v)
    with 1(2) r have "receive_result parse ser request_id ch1 = (Inr r, ch')"
      by (simp add: receive_result.simps [of parse ser request_id ch])
    with 1(1) [OF r [symmetric] refl refl Notification] less show ?thesis by simp
  qed (use 1(2) r less in \<open>simp add: receive_result.simps [of parse ser request_id ch]\<close>)
qed

subsection \<open>Framing does not depend on the chunks\<close>

text \<open>The frames of a stream given as one piece of text.\<close>

function first_frame :: "parser \<Rightarrow> bool \<Rightarrow> string \<Rightarrow> (client_error + json option) \<times> string" where
  "first_frame parse failing bytes =
     (case newline_at bytes of
        None \<Rightarrow>
          if length bytes > MAX_FRAME_BYTES then (Inl (Failure TOO_LARGE), bytes)
          else (end_of_stream failing bytes, [])
      | Some position \<Rightarrow>
          if position + 1 > MAX_FRAME_BYTES then (Inl (Failure TOO_LARGE), bytes)
          else
            let line = take (position + 1) bytes; rest = drop (position + 1) bytes
            in if blank line then first_frame parse failing rest
               else ((case parse line of
                        Some v \<Rightarrow> Inr (Some v)
                      | None \<Rightarrow> Inl (Failure ''invalid JSON in MCP frame'')), rest))"
  by pat_completeness auto
termination
  by (relation "measure (\<lambda>(_, _, bytes). length bytes)") (auto dest: newline_at_Some)

declare first_frame.simps [simp del]

lemma newline_at_append:
  "newline_at (xs @ ys) =
     (case newline_at xs of Some p \<Rightarrow> Some p | None \<Rightarrow> map_option (\<lambda>k. length xs + k) (newline_at ys))"
  by (induction xs; cases "newline_at ys") (auto split: option.splits)

lemma concat_after_chunk: "concat (after_chunk available chunks) = drop (frame_count available) (available @ concat chunks)"
proof -
  have "frame_count available \<le> length available"
    by (auto simp: frame_count_def split: option.splits dest: newline_at_Some)
  then show ?thesis by (auto simp: after_chunk_def)
qed

lemma no_empty_after_chunk: "[] \<notin> set chunks \<Longrightarrow> [] \<notin> set (after_chunk available chunks)"
  by (auto simp: after_chunk_def)

lemma frame_count_le: "frame_count available \<le> length available"
  by (auto simp: frame_count_def split: option.splits dest: newline_at_Some)

lemma read_frame_first:
  assumes "[] \<notin> set chunks" and "newline_at frame = None" and "length frame \<le> MAX_FRAME_BYTES"
  shows "fst (read_frame parse failing frame chunks) = fst (first_frame parse failing (frame @ concat chunks))
    \<and> (\<forall>v rest. read_frame parse failing frame chunks = (Inr (Some v), rest) \<longrightarrow>
         concat rest = snd (first_frame parse failing (frame @ concat chunks)) \<and> [] \<notin> set rest)"
  using assms
proof (induction parse failing frame chunks rule: read_frame.induct)
  case (1 parse failing frame)
  then show ?case by (simp add: read_frame.simps first_frame.simps [of parse failing frame] end_of_stream_def)
next
  case (2 parse failing frame available chunks)
  show ?case
  proof (cases "length frame + frame_count available > MAX_FRAME_BYTES")
    case True
    have "fst (first_frame parse failing (frame @ available @ concat chunks)) = Inl (Failure TOO_LARGE)"
    proof (cases "newline_at available")
      case None
      with True 2 show ?thesis
        by (auto simp: first_frame.simps [of parse failing "frame @ available @ concat chunks"]
            newline_at_append frame_count_def split: option.splits)
    next
      case (Some p)
      with True 2 show ?thesis
        by (auto simp: first_frame.simps [of parse failing "frame @ available @ concat chunks"]
            newline_at_append frame_count_def split: option.splits)
    qed
    with True 2 show ?thesis by (auto simp: read_frame.simps)
  next
    case False
    let ?frame = "frame @ take (frame_count available) available" and ?rest = "after_chunk available chunks"
    from 2 have ne: "available \<noteq> []" "[] \<notin> set ?rest" by (auto simp: no_empty_after_chunk)
    show ?thesis
    proof (cases "newline_at available")
      case None
      then have fr: "?frame = frame @ available" "?rest = chunks" by (auto simp: frame_count_def after_chunk_def)
      have none: "newline_at ?frame = None" using None 2(4) fr by (simp add: newline_at_append)
      have "read_frame parse failing frame (available # chunks) = read_frame parse failing ?frame ?rest"
        using ne False None by (simp add: read_frame.simps(2) Let_def)
      moreover have "length ?frame \<le> MAX_FRAME_BYTES" using False by simp
      moreover have "?frame @ concat ?rest = frame @ concat (available # chunks)" using fr by simp
      ultimately show ?thesis using 2(1) [OF ne(1) False refl refl None ne(2) none] by simp
    next
      case (Some p)
      then have p: "frame_count available = p + 1" "p < length available"
        by (auto simp: frame_count_def dest: newline_at_Some)
      have nl: "newline_at (frame @ available @ concat chunks) = Some (length frame + p)"
        using Some 2 by (simp add: newline_at_append)
      have line: "take (length frame + p + 1) (frame @ available @ concat chunks) = ?frame"
        "drop (length frame + p + 1) (frame @ available @ concat chunks) = concat ?rest"
        using p by (simp_all add: concat_after_chunk)
      note ff = first_frame.simps [of parse failing "frame @ available @ concat chunks", unfolded nl]
      show ?thesis
      proof (cases "blank ?frame")
        case True
        with 2(2) [OF ne(1) False refl refl _ True] Some ne
        show ?thesis using False p line ff by (simp add: read_frame.simps(2) Let_def)
      next
        case blank: False
        with Some ne show ?thesis using False p line ff
          by (auto simp: read_frame.simps(2) Let_def split: option.splits)
      qed
    qed
  qed
qed

text \<open>Two channels that differ in how the same bytes are split.\<close>

definition same_bytes :: "channel \<Rightarrow> channel \<Rightarrow> bool" where
  "same_bytes a b \<longleftrightarrow>
     concat (ch_in a) = concat (ch_in b) \<and> [] \<notin> set (ch_in a) \<and> [] \<notin> set (ch_in b)
     \<and> ch_failing a = ch_failing b \<and> ch_out a = ch_out b \<and> ch_writable a = ch_writable b"

lemma read_message_same:
  assumes "same_bytes a b"
  obtains r a' b' where "read_message parse a = (r, a')" "read_message parse b = (r, b')"
    "ch_out a' = ch_out b'" "\<And>v. r = Inr (Some v) \<Longrightarrow> same_bytes a' b'"
proof -
  obtain r xs r' ys where x: "read_frame parse (ch_failing a) [] (ch_in a) = (r, xs)"
    "read_frame parse (ch_failing b) [] (ch_in b) = (r', ys)" by (metis surj_pair)
  note fa = read_frame_first [of "ch_in a" "[]" parse "ch_failing a"]
    and fb = read_frame_first [of "ch_in b" "[]" parse "ch_failing b"]
  have r: "r' = r" using fa fb assms x by (auto simp: same_bytes_def)
  have "concat xs = concat ys \<and> [] \<notin> set xs \<and> [] \<notin> set ys" if "r = Inr (Some v)" for v
    using fa fb assms x unfolding r that by (simp add: same_bytes_def)
  with r x assms show thesis
    by (intro that [of r "a\<lparr>ch_in := xs\<rparr>" "b\<lparr>ch_in := ys\<rparr>"]) (auto simp: read_message_def same_bytes_def)
qed

lemma write_message_same:
  assumes "same_bytes a b"
  shows "\<exists>r a' b'. write_message ser m a = (r, a') \<and> write_message ser m b = (r, b') \<and> same_bytes a' b'"
proof -
  from assms have "fst (write_message ser m a) = fst (write_message ser m b)"
    unfolding same_bytes_def write_message_def Let_def by (simp only: if_distrib [of fst] fst_conv)
  moreover from assms have "same_bytes (snd (write_message ser m a)) (snd (write_message ser m b))"
    unfolding same_bytes_def write_message_def Let_def
    by (cases "MAX_FRAME_BYTES \<le> length (ser m)"; cases "ch_writable b") auto
  ultimately show ?thesis by (metis prod.collapse)
qed

lemma receive_message_same:
  assumes "same_bytes a b"
  shows "\<exists>r a' b'. receive_message parse ser a = (r, a') \<and> receive_message parse ser b = (r, b')
    \<and> ch_out a' = ch_out b' \<and> (\<forall>i. r = Inr (Some i) \<longrightarrow> same_bytes a' b')"
  using assms
proof (induction parse ser a arbitrary: b rule: receive_message.induct)
  case (1 parse ser a)
  obtain r a' b' where rd: "read_message parse a = (r, a')" "read_message parse b = (r, b')"
    "ch_out a' = ch_out b'" "\<And>v. r = Inr (Some v) \<Longrightarrow> same_bytes a' b'" by (rule read_message_same [OF 1(2)]) blast
  note simps = receive_message.simps [of parse ser a] receive_message.simps [of parse ser b]
  show ?case
  proof (cases "\<exists>v response. r = Inr (Some v) \<and> classify v = Answer response")
    case True
    then obtain v response where v: "r = Inr (Some v)" "classify v = Answer response" by blast
    from write_message_same [OF rd(4) [OF v(1)], of ser response]
    obtain w a'' b'' where wr: "write_message ser response a' = (w, a'')" "write_message ser response b' = (w, b'')"
      "same_bytes a'' b''" by blast
    show ?thesis
    proof (cases w)
      case (Inl e)
      with rd v wr show ?thesis by (auto simp: simps same_bytes_def)
    next
      case (Inr u)
      from 1(1) [OF rd(1) [symmetric] v(1) refl v(2) wr(1) [symmetric] Inr wr(3)] rd v wr Inr
      show ?thesis by (simp add: simps)
    qed
  next
    case False
    with rd show ?thesis by (auto simp: simps split: sum.splits option.splits classified.splits)
  qed
qed

lemma receive_result_same:
  assumes "same_bytes a b"
  shows "\<exists>r a' b'. receive_result parse ser request_id a = (r, a') \<and> receive_result parse ser request_id b = (r, b')
    \<and> ch_out a' = ch_out b' \<and> (\<forall>x. r = Inr x \<longrightarrow> same_bytes a' b')"
  using assms
proof (induction parse ser request_id a arbitrary: b rule: receive_result.induct)
  case (1 parse ser request_id a)
  from receive_message_same [OF 1(2), of parse ser]
  obtain r a' b' where rd: "receive_message parse ser a = (r, a')" "receive_message parse ser b = (r, b')"
    "ch_out a' = ch_out b'" "\<And>i. r = Inr (Some i) \<Longrightarrow> same_bytes a' b'" by blast
  note simps = receive_result.simps [of parse ser request_id a] receive_result.simps [of parse ser request_id b]
  show ?case
  proof (cases "\<exists>v. r = Inr (Some (Notification v))")
    case True
    then obtain v where v: "r = Inr (Some (Notification v))" by blast
    from 1(1) [OF rd(1) [symmetric] v refl refl rd(4) [OF v]] rd v show ?thesis by (simp add: simps)
  next
    case False
    with rd show ?thesis by (auto simp: simps split: sum.splits option.splits incoming.splits)
  qed
qed

text \<open>C15: how the network splits the stream does not matter to the client: over two streams with the
  same bytes a request gets the same outcome and the client writes the same answers, and after an
  answer the rest of both streams is again the same.\<close>

theorem frames_do_not_depend_on_chunks:
  assumes "same_bytes a b"
  shows "fst (receive_result parse ser request_id a) = fst (receive_result parse ser request_id b)
    \<and> ch_out (snd (receive_result parse ser request_id a)) = ch_out (snd (receive_result parse ser request_id b))
    \<and> (\<forall>answer. fst (receive_result parse ser request_id a) = Inr answer \<longrightarrow>
         concat (ch_in (snd (receive_result parse ser request_id a)))
           = concat (ch_in (snd (receive_result parse ser request_id b))))"
  using receive_result_same [OF assms, of parse ser request_id] by (auto simp: same_bytes_def)

theorem frames_do_not_depend_on_chunks_witness:
  "fst (receive_result (\<lambda>_. Some (JObject [(''jsonrpc'', JString ''2.0''), (''id'', from_u64 1), (''result'', JNull)]))
      (\<lambda>_. ''x'') 1 \<lparr>ch_in = [''x'', [CHR 0x0A]], ch_failing = False, ch_out = [], ch_writable = True\<rparr>)
   = Inr (Inr JNull)"
proof -
  let ?parse = "\<lambda>_::string. Some (JObject [(''jsonrpc'', JString ''2.0''), (''id'', from_u64 1), (''result'', JNull)])"
  let ?b = "\<lparr>ch_in = [''x'' @ [CHR 0x0A]], ch_failing = False, ch_out = [], ch_writable = True\<rparr>"
  have "fst (receive_result ?parse (\<lambda>_. ''x'') 1 ?b) = Inr (Inr JNull)"
    by (simp add: receive_result.simps receive_message.simps read_message_def read_frame.simps frame_count_def
        after_chunk_def blank_def blank_byte_def MAX_FRAME_BYTES_def classify_def match_response_def obj_get_def)
  with frames_do_not_depend_on_chunks [of "\<lparr>ch_in = [''x'', [CHR 0x0A]], ch_failing = False, ch_out = [], ch_writable = True\<rparr>"
      ?b ?parse "\<lambda>_. ''x''" 1]
  show ?thesis by (simp add: same_bytes_def)
qed

end
