(* ===== verification/BridgeStdio.thy ===== *)
theory BridgeStdio
  imports Bridge Wire
begin

text \<open>
  The bridge on standard input and output (\<open>src/mcp_bridge_stdio.rs\<close>): a task that reads frames of
  at most a mebibyte, and a loop that answers up to 64 of them at a time.  The input is the list of
  chunks that \<open>fill_buf\<close> gives (an empty one is the end of the input), followed by the end or, when
  \<open>broken\<close>, by a read error.  The bytes of a chunk up to its first line feed, and what is left of
  the input, are as in \<open>Wire\<close>.
\<close>

definition MAX_INPUT_FRAME_BYTES :: nat where
  "MAX_INPUT_FRAME_BYTES = 1024 * 1024"

definition MAX_IN_FLIGHT :: nat where
  "MAX_IN_FLIGHT = 64"

datatype input_frame = FrameLine string | FrameTooLarge | FrameEnd | FrameReadError

subsection \<open>Reading\<close>

definition input_line :: "bool \<Rightarrow> string \<Rightarrow> input_frame" where
  "input_line oversized bytes = (if oversized then FrameTooLarge else FrameLine bytes)"

definition at_end :: "bool \<Rightarrow> bool \<Rightarrow> string \<Rightarrow> unit + input_frame option" where
  "at_end received_any oversized bytes =
     Inr (if received_any then Some (input_line oversized bytes) else None)"

function read_limited_line ::
  "bool \<Rightarrow> string \<Rightarrow> bool \<Rightarrow> bool \<Rightarrow> string list \<Rightarrow> (unit + input_frame option) \<times> string list" where
  "read_limited_line broken bytes oversized received_any [] =
     (if broken then Inl () else at_end received_any oversized bytes, [])"
| "read_limited_line broken bytes oversized received_any (available # chunks) =
     (if available = [] then (at_end received_any oversized bytes, chunks)
      else
        let consumed = frame_count available;
            large = (oversized \<or> length bytes + consumed > MAX_INPUT_FRAME_BYTES);
            bytes' = (if large then bytes else bytes @ take consumed available);
            rest = after_chunk available chunks
        in if newline_at available = None then read_limited_line broken bytes' large True rest
           else (Inr (Some (input_line large bytes')), rest))"
  by pat_completeness auto
termination
  by (relation "measure (\<lambda>(_, _, _, _, chunks). stream_size chunks)") (auto dest: after_chunk_less)

declare read_limited_line.simps [simp del]

lemma at_end_cases:
  "at_end received_any oversized bytes = Inr r \<longleftrightarrow>
     r = (if received_any then Some (input_line oversized bytes) else None)"
  by (auto simp: at_end_def)

lemma read_limited_line_consumes:
  "read_limited_line broken bytes oversized received_any chunks = (Inr (Some frame), rest) \<Longrightarrow>
     (received_any \<longrightarrow> stream_size rest \<le> stream_size chunks)
     \<and> (\<not> received_any \<longrightarrow> stream_size rest < stream_size chunks)"
proof (induction broken bytes oversized received_any chunks rule: read_limited_line.induct)
  case (1 broken bytes oversized received_any)
  then show ?case by (auto simp: read_limited_line.simps at_end_def split: if_splits)
next
  case (2 broken bytes oversized received_any available chunks)
  note less = after_chunk_less [of available chunks]
  show ?case
  proof (cases "available = []")
    case True
    with 2(2) show ?thesis by (auto simp: read_limited_line.simps at_end_def stream_size_def split: if_splits)
  next
    case False
    with 2(2) 2(1) [OF False refl refl refl refl] less show ?thesis
      by (auto simp: read_limited_line.simps(2) [of broken bytes] Let_def split: if_splits)
  qed
qed

lemma read_limited_line_less:
  assumes "(Inr (Some frame), rest) = read_limited_line broken bytes oversized False chunks"
  shows "stream_size rest < stream_size chunks"
  using read_limited_line_consumes [OF assms [symmetric]] by simp

text \<open>
  The reading task.  The loop that receives its frames drops the channel only when it ends, so every
  frame is sent.
\<close>

function read_input :: "bool \<Rightarrow> string list \<Rightarrow> input_frame list" where
  "read_input broken chunks =
     (case read_limited_line broken [] False False chunks of
        (Inr (Some frame), rest) \<Rightarrow> frame # read_input broken rest
      | (Inr None, rest) \<Rightarrow> [FrameEnd]
      | (Inl _, rest) \<Rightarrow> [FrameReadError])"
  by pat_completeness auto
termination
  by (relation "measure (\<lambda>(_, chunks). stream_size chunks)") (auto dest: read_limited_line_less)

declare read_input.simps [simp del]

subsection \<open>The serving loop\<close>

text \<open>
  Its state: the frames still to come, the messages being answered, whether the input is open and
  whether it failed, the responses written, and the result once the loop has returned.
\<close>

record serving =
  so_input :: "input_frame list"
  so_pending :: "json list"
  so_open :: bool
  so_failed :: bool
  so_output :: "json list"
  so_result :: "(string + unit) option"

definition serving_new :: "input_frame list \<Rightarrow> serving" where
  "serving_new frames =
     \<lparr>so_input = frames, so_pending = [], so_open = True, so_failed = False, so_output = [],
      so_result = None\<rparr>"

datatype serve_event =
    Received input_frame
  | InputLost
  | Interrupted
  | Answered json
  | Panicked json
  | Returned

definition drop_nth :: "nat \<Rightarrow> 'a list \<Rightarrow> 'a list" where
  "drop_nth i xs = take i xs @ drop (Suc i) xs"

definition written :: "json \<Rightarrow> serving \<Rightarrow> serving" where
  "written response s = s\<lparr>so_output := so_output s @ [response]\<rparr>"

definition failed_with :: "string \<Rightarrow> serving \<Rightarrow> serving" where
  "failed_with e s = s\<lparr>so_result := Some (Inl e)\<rparr>"

text \<open>What receiving a frame does; a response that cannot be written ends the loop.\<close>

definition receive_frame :: "parser \<Rightarrow> input_frame \<Rightarrow> serving \<Rightarrow> json option \<times> serving" where
  "receive_frame parse frame s =
     (case frame of
        FrameLine bytes \<Rightarrow>
          (case parse bytes of
             Some message \<Rightarrow> (None, s\<lparr>so_pending := so_pending s @ [message]\<rparr>)
           | None \<Rightarrow> (Some (malformed_frame_response False), s))
      | FrameTooLarge \<Rightarrow> (Some (malformed_frame_response True), s)
      | FrameEnd \<Rightarrow> (None, s\<lparr>so_open := False\<rparr>)
      | FrameReadError \<Rightarrow> (None, s\<lparr>so_open := False, so_failed := True\<rparr>))"

definition write_optional :: "json option \<Rightarrow> serving \<Rightarrow> serving" where
  "write_optional response s = (case response of None \<Rightarrow> s | Some r \<Rightarrow> written r s)"

definition receiving :: "serving \<Rightarrow> bool" where
  "receiving s \<longleftrightarrow> so_result s = None \<and> so_open s \<and> length (so_pending s) < MAX_IN_FLIGHT"

text \<open>
  One turn of \<open>select!\<close>.  Any enabled branch may be taken; a dispatched task finishes in whatever
  state \<open>w\<close> of the servers it finds, or panics.  \<open>e\<close> is an error of the operating system.
\<close>

inductive serve_step :: "bridge_state \<Rightarrow> parser \<Rightarrow> serving \<Rightarrow> serve_event \<Rightarrow> serving \<Rightarrow> bool"
  for st parse where
  interrupted: "so_result s = None \<Longrightarrow> so_open s \<Longrightarrow>
    serve_step st parse s Interrupted (s\<lparr>so_open := False\<rparr>)"
| interrupt_failed: "so_result s = None \<Longrightarrow> so_open s \<Longrightarrow>
    serve_step st parse s Interrupted (failed_with e s)"
| received: "receiving s \<Longrightarrow> so_input s = frame # frames \<Longrightarrow>
    receive_frame parse frame (s\<lparr>so_input := frames\<rparr>) = (response, t) \<Longrightarrow>
    serve_step st parse s (Received frame) (write_optional response t)"
| received_unwritten: "receiving s \<Longrightarrow> so_input s = frame # frames \<Longrightarrow>
    receive_frame parse frame (s\<lparr>so_input := frames\<rparr>) = (Some response, t) \<Longrightarrow>
    serve_step st parse s (Received frame) (failed_with e t)"
| input_lost: "receiving s \<Longrightarrow> so_input s = [] \<Longrightarrow>
    serve_step st parse s InputLost (s\<lparr>so_open := False, so_failed := True\<rparr>)"
| answered: "so_result s = None \<Longrightarrow> i < length (so_pending s) \<Longrightarrow>
    serve_step st parse s (Answered (so_pending s ! i))
      (write_optional (dispatch st w (so_pending s ! i) None) (s\<lparr>so_pending := drop_nth i (so_pending s)\<rparr>))"
| answer_unwritten: "so_result s = None \<Longrightarrow> i < length (so_pending s) \<Longrightarrow>
    dispatch st w (so_pending s ! i) None = Some response \<Longrightarrow>
    serve_step st parse s (Answered (so_pending s ! i))
      (failed_with e (s\<lparr>so_pending := drop_nth i (so_pending s)\<rparr>))"
| panicked: "so_result s = None \<Longrightarrow> i < length (so_pending s) \<Longrightarrow>
    serve_step st parse s (Panicked (so_pending s ! i)) (s\<lparr>so_pending := drop_nth i (so_pending s)\<rparr>)"
| returned: "so_result s = None \<Longrightarrow> \<not> so_open s \<Longrightarrow> so_pending s = [] \<Longrightarrow>
    serve_step st parse s Returned
      (s\<lparr>so_result := Some (if so_failed s then Inl ''MCP bridge input could not be read.'' else Inr ())\<rparr>)"
| flush_failed: "so_result s = None \<Longrightarrow> \<not> so_open s \<Longrightarrow> so_pending s = [] \<Longrightarrow> \<not> so_failed s \<Longrightarrow>
    serve_step st parse s Returned (failed_with e s)"

inductive serve_run :: "bridge_state \<Rightarrow> parser \<Rightarrow> serving \<Rightarrow> serve_event list \<Rightarrow> serving \<Rightarrow> bool"
  for st parse s where
  serve_none: "serve_run st parse s [] s"
| serve_more: "serve_run st parse s es t \<Longrightarrow> serve_step st parse t e u \<Longrightarrow> serve_run st parse s (es @ [e]) u"

subsection \<open>Frames do not depend on how the input arrives\<close>

text \<open>The frames of a whole input: its lines, each with its line feed, then what ended it.\<close>

definition limited :: "string \<Rightarrow> input_frame" where
  "limited line = input_line (length line > MAX_INPUT_FRAME_BYTES) line"

function frames_of :: "bool \<Rightarrow> string \<Rightarrow> input_frame list" where
  "frames_of broken bytes =
     (case newline_at bytes of
        Some p \<Rightarrow> limited (take (p + 1) bytes) # frames_of broken (drop (p + 1) bytes)
      | None \<Rightarrow>
          if broken then [FrameReadError]
          else if bytes = [] then [FrameEnd]
          else [limited bytes, FrameEnd])"
  by pat_completeness auto
termination
  by (relation "measure (\<lambda>(_, bytes). length bytes)") (auto dest: newline_at_Some)

declare frames_of.simps [simp del]

text \<open>The state of the reader after the bytes \<open>line\<close> of a line.\<close>

definition reads :: "string \<Rightarrow> string \<Rightarrow> bool \<Rightarrow> bool \<Rightarrow> bool" where
  "reads line bytes oversized received_any \<longleftrightarrow>
     newline_at line = None \<and> (received_any \<longleftrightarrow> line \<noteq> [])
     \<and> (oversized \<longleftrightarrow> length line > MAX_INPUT_FRAME_BYTES) \<and> (\<not> oversized \<longrightarrow> bytes = line)"

lemma reads_new: "reads [] [] False False"
  by (simp add: reads_def)

lemma reads_line: "reads line bytes oversized received_any \<Longrightarrow> input_line oversized bytes = limited line"
  by (auto simp: reads_def limited_def input_line_def)

lemma reads_more:
  assumes "reads line bytes oversized received_any" and "available \<noteq> []"
    and "large = (oversized \<or> length bytes + n > MAX_INPUT_FRAME_BYTES)" and "n \<le> length available"
  shows "large \<longleftrightarrow> length (line @ take n available) > MAX_INPUT_FRAME_BYTES"
    and "\<not> large \<Longrightarrow> bytes @ take n available = line @ take n available"
  using assms by (auto simp: reads_def)

lemma read_limited_line_frame:
  assumes "reads line bytes oversized received_any" and "[] \<notin> set chunks"
  shows "case newline_at (line @ concat chunks) of
      Some p \<Rightarrow> \<exists>rest. read_limited_line broken bytes oversized received_any chunks
             = (Inr (Some (limited (take (p + 1) (line @ concat chunks)))), rest)
           \<and> concat rest = drop (p + 1) (line @ concat chunks) \<and> [] \<notin> set rest
    | None \<Rightarrow> read_limited_line broken bytes oversized received_any chunks
           = (if broken then Inl ()
              else Inr (if line @ concat chunks = [] then None else Some (limited (line @ concat chunks))), [])"
  using assms
proof (induction broken bytes oversized received_any chunks arbitrary: line rule: read_limited_line.induct)
  case (1 broken bytes oversized received_any)
  then show ?case
    using reads_line [OF 1(1)] by (auto simp: read_limited_line.simps at_end_def reads_def)
next
  case (2 broken bytes oversized received_any available chunks)
  let ?n = "frame_count available" and ?all = "line @ concat (available # chunks)"
  let ?large = "oversized \<or> length bytes + ?n > MAX_INPUT_FRAME_BYTES"
  let ?bytes = "if ?large then bytes else bytes @ take ?n available"
  have ne: "available \<noteq> []" "[] \<notin> set chunks" and none: "newline_at line = None"
    using 2(2,3) by (auto simp: reads_def)
  note more = reads_more [OF 2(2) ne(1) refl frame_count_le]
  show ?case
  proof (cases "newline_at available")
    case None
    then have n: "?n = length available" "after_chunk available chunks = chunks"
      by (auto simp: frame_count_def after_chunk_def)
    have "newline_at (line @ available) = None" using None none by (simp add: newline_at_append)
    then have reads: "reads (line @ available) ?bytes ?large True"
      using more n ne by (auto simp: reads_def)
    have eq: "read_limited_line broken bytes oversized received_any (available # chunks)
        = read_limited_line broken ?bytes ?large True chunks"
      using ne None n by (simp add: read_limited_line.simps(2) Let_def)
    note ih = 2(1) [OF ne(1) refl refl refl refl None, unfolded n(2), OF reads ne(2)]
    have "(line @ available) @ concat chunks = ?all" by simp
    with ih show ?thesis unfolding eq by (simp only:)
  next
    case (Some p)
    then have p: "?n = p + 1" "p < length available" by (auto simp: frame_count_def dest: newline_at_Some)
    have nl: "newline_at ?all = Some (length line + p)"
      using Some none by (simp add: newline_at_append)
    have line: "take (length line + p + 1) ?all = line @ take ?n available"
      "drop (length line + p + 1) ?all = concat (after_chunk available chunks)"
      using p by (auto simp: concat_after_chunk)
    have "input_line ?large ?bytes = limited (line @ take ?n available)"
      using more by (auto simp: input_line_def limited_def)
    then have "read_limited_line broken bytes oversized received_any (available # chunks)
        = (Inr (Some (limited (line @ take ?n available))), after_chunk available chunks)"
      using ne Some by (simp add: read_limited_line.simps(2) Let_def)
    then show ?thesis
      using nl line no_empty_after_chunk [OF ne(2)] by (simp del: concat.simps)
  qed
qed

lemma read_input_frames:
  "[] \<notin> set chunks \<Longrightarrow> read_input broken chunks = frames_of broken (concat chunks)"
proof (induction broken chunks rule: read_input.induct)
  case (1 broken chunks)
  note frame = read_limited_line_frame [OF reads_new 1(2), of broken]
  show ?case
  proof (cases "newline_at (concat chunks)")
    case None
    with frame have "read_limited_line broken [] False False chunks
        = (if broken then Inl () else Inr (if concat chunks = [] then None else Some (limited (concat chunks))), [])"
      by simp
    moreover have "read_input False [] = [FrameEnd]"
      by (simp add: read_input.simps read_limited_line.simps at_end_def)
    ultimately show ?thesis
      using None by (simp add: read_input.simps [of broken chunks] frames_of.simps [of broken "concat chunks"])
  next
    case (Some p)
    with frame obtain rest where rest: "read_limited_line broken [] False False chunks
        = (Inr (Some (limited (take (p + 1) (concat chunks)))), rest)"
      "concat rest = drop (p + 1) (concat chunks)" "[] \<notin> set rest" by auto
    from 1(1) [OF rest(1) [symmetric] refl refl rest(3)] rest Some show ?thesis
      by (simp add: read_input.simps [of broken chunks] frames_of.simps [of broken "concat chunks"])
  qed
qed

subsection \<open>Every frame is answered once\<close>

text \<open>The identifiers under which a message and a frame have to be answered.\<close>

definition message_owed :: "json \<Rightarrow> json list" where
  "message_owed message = (if is_notification message then [] else [answer_id message])"

definition frame_owed :: "parser \<Rightarrow> input_frame \<Rightarrow> json list" where
  "frame_owed parse frame =
     (case frame of
        FrameLine bytes \<Rightarrow> (case parse bytes of None \<Rightarrow> [JNull] | Some message \<Rightarrow> message_owed message)
      | FrameTooLarge \<Rightarrow> [JNull]
      | FrameEnd \<Rightarrow> []
      | FrameReadError \<Rightarrow> [])"

abbreviation owed :: "('a \<Rightarrow> json list) \<Rightarrow> 'a list \<Rightarrow> json multiset" where
  "owed f xs \<equiv> mset (concat (map f xs))"

definition response_id :: "json \<Rightarrow> json" where
  "response_id response = or_null (vget ''id'' response)"

fun frames_received :: "serve_event list \<Rightarrow> input_frame list" where
  "frames_received [] = []"
| "frames_received (e # es) = (case e of Received frame \<Rightarrow> [frame] | _ \<Rightarrow> []) @ frames_received es"

fun messages_panicked :: "serve_event list \<Rightarrow> json list" where
  "messages_panicked [] = []"
| "messages_panicked (e # es) = (case e of Panicked message \<Rightarrow> [message] | _ \<Rightarrow> []) @ messages_panicked es"

lemma frames_received_append [simp]: "frames_received (es @ fs) = frames_received es @ frames_received fs"
  by (induction es) auto

lemma messages_panicked_append [simp]: "messages_panicked (es @ fs) = messages_panicked es @ messages_panicked fs"
  by (induction es) auto

lemma owed_drop_nth:
  "i < length xs \<Longrightarrow> owed f xs = mset (f (xs ! i)) + owed f (drop_nth i xs)"
  by (subst (1) id_take_nth_drop [of i xs]) (auto simp: drop_nth_def)

lemma length_drop_nth: "i < length xs \<Longrightarrow> length (drop_nth i xs) < length xs"
  by (simp add: drop_nth_def)

lemma written_owed:
  "case dispatch st w message None of
     None \<Rightarrow> message_owed message = []
   | Some response \<Rightarrow> message_owed message = [response_id response] \<and> answers response (response_id response)"
proof (cases "dispatch st w message None")
  case None
  then have "is_notification message" by (simp add: dispatch_def dispatch_answers(1))
  with None show ?thesis by (simp add: message_owed_def)
next
  case (Some response)
  then have "answers response (answer_id message)" "\<not> is_notification message"
    using dispatch_answers [of st w message None False] by (auto simp: dispatch_def)
  with Some show ?thesis by (auto simp: message_owed_def response_id_def answers_def or_null_def)
qed

lemma malformed_owed:
  "response_id (malformed_frame_response large) = JNull" "answers (malformed_frame_response large) JNull"
  by (simp_all add: malformed_frame_response_def)
     (simp add: response_id_def error_response_def obj_get_def or_null_def)

definition serve_inv :: "parser \<Rightarrow> input_frame list \<Rightarrow> serve_event list \<Rightarrow> serving \<Rightarrow> bool" where
  "serve_inv parse frames es s \<longleftrightarrow>
     frames_received es @ so_input s = frames
     \<and> length (so_pending s) \<le> MAX_IN_FLIGHT
     \<and> (\<forall>response \<in> set (so_output s). answers response (response_id response))
     \<and> (so_result s \<in> {None, Some (Inr ())} \<longrightarrow>
          mset (map response_id (so_output s)) + owed message_owed (so_pending s)
            + owed message_owed (messages_panicked es) = owed (frame_owed parse) (frames_received es))
     \<and> (so_open s \<or> so_failed s \<or> Interrupted \<in> set es \<or> FrameEnd \<in> set (frames_received es))
     \<and> (so_result s = Some (Inr ()) \<longrightarrow> so_pending s = [] \<and> \<not> so_open s \<and> \<not> so_failed s)"

lemma serve_inv_new: "serve_inv parse frames [] (serving_new frames)"
  by (simp add: serve_inv_def serving_new_def)

lemma serve_inv_received:
  assumes "serve_inv parse frames es s" and "receiving s" and "so_input s = frame # rest"
    and "receive_frame parse frame (s\<lparr>so_input := rest\<rparr>) = (response, t)"
  shows "serve_inv parse frames (es @ [Received frame]) (write_optional response t)"
    and "response = Some r \<Longrightarrow> serve_inv parse frames (es @ [Received frame]) (failed_with e t)"
  using assms malformed_owed
  by (auto simp: serve_inv_def receiving_def receive_frame_def write_optional_def written_def failed_with_def
      frame_owed_def ac_simps split: input_frame.splits option.splits)

lemma serve_inv_answered:
  assumes "serve_inv parse frames es s" and "so_result s = None" and i: "i < length (so_pending s)"
    and m: "message = so_pending s ! i"
  shows "serve_inv parse frames (es @ [Answered message])
      (write_optional (dispatch st w message None) (s\<lparr>so_pending := drop_nth i (so_pending s)\<rparr>))"
    and "serve_inv parse frames (es @ [Answered message])
      (failed_with e (s\<lparr>so_pending := drop_nth i (so_pending s)\<rparr>))"
    and "serve_inv parse frames (es @ [Panicked message]) (s\<lparr>so_pending := drop_nth i (so_pending s)\<rparr>)"
  using assms owed_drop_nth [OF i, of message_owed] length_drop_nth [OF i] written_owed [where st = st and w = w and message = message]
  by (auto simp: serve_inv_def write_optional_def written_def failed_with_def split: option.splits)

lemma serve_step_inv:
  "serve_step st parse s e t \<Longrightarrow> serve_inv parse frames es s \<Longrightarrow> serve_inv parse frames (es @ [e]) t"
proof (induction rule: serve_step.induct)
  case (received s frame rest response t)
  then show ?case by (blast intro: serve_inv_received(1))
next
  case (received_unwritten s frame rest response t e)
  then show ?case by (blast intro: serve_inv_received(2))
next
  case (answered s i w)
  then show ?case by (blast intro: serve_inv_answered(1))
next
  case (answer_unwritten s i w response e)
  then show ?case by (blast intro: serve_inv_answered(2))
next
  case (panicked s i)
  then show ?case by (blast intro: serve_inv_answered(3))
qed (auto simp: serve_inv_def failed_with_def receiving_def)

lemma serve_run_inv:
  "serve_run st parse (serving_new frames) es s \<Longrightarrow> serve_inv parse frames es s"
  by (induction rule: serve_run.induct) (auto intro: serve_inv_new serve_step_inv)

lemma frames_of_end:
  "\<exists>fs. FrameEnd \<notin> set fs \<and> frames_of broken bytes = fs @ [if broken then FrameReadError else FrameEnd]"
proof (induction broken bytes rule: frames_of.induct)
  case (1 broken bytes)
  have limited: "limited line \<noteq> FrameEnd" for line by (simp add: limited_def input_line_def)
  show ?case
  proof (cases "newline_at bytes")
    case None
    show ?thesis
    proof (cases "broken \<or> bytes = []")
      case True
      with None show ?thesis by (intro exI [of _ "[]"]) (auto simp: frames_of.simps [of broken bytes])
    next
      case False
      with None have "frames_of broken bytes = [limited bytes, FrameEnd]" by (subst frames_of.simps) simp
      with False limited [symmetric] show ?thesis by (intro exI [of _ "[limited bytes]"]) simp
    qed
  next
    case (Some p)
    from 1 [OF this] obtain fs where "FrameEnd \<notin> set fs"
      "frames_of broken (drop (p + 1) bytes) = fs @ [if broken then FrameReadError else FrameEnd]" by blast
    with Some limited show ?thesis
      by (intro exI [of _ "limited (take (p + 1) bytes) # fs"])
         (auto simp: frames_of.simps [of broken bytes] dest: sym)
  qed
qed

lemma end_received:
  assumes "prefix fs (frames_of broken bytes)" and "FrameEnd \<in> set fs"
  shows "fs = frames_of broken bytes \<and> \<not> broken"
proof -
  obtain gs where "FrameEnd \<notin> set gs" "frames_of broken bytes = gs @ [if broken then FrameReadError else FrameEnd]"
    using frames_of_end by blast
  with assms show ?thesis by (auto simp: prefix_snoc dest: set_mono_prefix split: if_splits)
qed



end
