(* ===== verification/Leases.thy ===== *)
theory Leases
  imports Prelude
begin

text \<open>
  The connections the bridge shares among its concurrent requests (\<open>src/mcp_bridge_clients.rs\<close>): a
  semaphore of \<open>concurrency\<close> permits and a stack of that many slots, each with a connection or
  empty.  A step is one action on the shared state: taking a permit, popping a slot, reconnecting,
  using the connection, pushing the slot back (\<open>Drop\<close> of the lease), and releasing the permit, which
  is dropped after the slot is back.  A connection is named by a number; \<open>sl_next\<close> names the next
  one that \<open>reconnect\<close> makes.
\<close>

record connection =
  cn_id :: nat
  cn_closed :: bool

record lease_pool =
  sl_permits :: nat
  sl_admitted :: nat
  sl_idle :: "connection option list"
  sl_leased :: "connection option list"
  sl_returned :: nat
  sl_next :: nat

datatype lease_event = Quiet | SlotUnavailable | Used nat

definition clients_new :: "connection \<Rightarrow> nat \<Rightarrow> lease_pool" where
  "clients_new client concurrency =
     \<lparr>sl_permits = concurrency, sl_admitted = 0,
      sl_idle = replicate (concurrency - 1) None @ [Some client], sl_leased = [], sl_returned = 0,
      sl_next = Suc (cn_id client)\<rparr>"

text \<open>Whether the connection of a lease has to be made anew.\<close>

definition needs_reconnect :: "connection option \<Rightarrow> bool" where
  "needs_reconnect slot \<longleftrightarrow> (case slot of None \<Rightarrow> True | Some client \<Rightarrow> cn_closed client)"

inductive lease_step :: "lease_pool \<Rightarrow> lease_event \<Rightarrow> lease_pool \<Rightarrow> bool" where
  acquired: "sl_permits p = Suc k \<Longrightarrow>
    lease_step p Quiet (p\<lparr>sl_permits := k, sl_admitted := Suc (sl_admitted p)\<rparr>)"
| popped: "sl_admitted p = Suc k \<Longrightarrow> sl_idle p \<noteq> [] \<Longrightarrow>
    lease_step p Quiet (p\<lparr>sl_admitted := k, sl_idle := butlast (sl_idle p),
      sl_leased := sl_leased p @ [last (sl_idle p)]\<rparr>)"
| unavailable: "sl_admitted p = Suc k \<Longrightarrow> sl_idle p = [] \<Longrightarrow>
    lease_step p SlotUnavailable (p\<lparr>sl_admitted := k, sl_permits := Suc (sl_permits p)\<rparr>)"
| reconnected: "i < length (sl_leased p) \<Longrightarrow> needs_reconnect (sl_leased p ! i) \<Longrightarrow>
    lease_step p Quiet (p\<lparr>sl_leased := (sl_leased p)[i := Some \<lparr>cn_id = sl_next p, cn_closed = False\<rparr>],
      sl_next := Suc (sl_next p)\<rparr>)"
| used: "i < length (sl_leased p) \<Longrightarrow> sl_leased p ! i = Some client \<Longrightarrow> \<not> cn_closed client \<Longrightarrow>
    lease_step p (Used (cn_id client))
      (p\<lparr>sl_leased := (sl_leased p)[i := Some (client\<lparr>cn_closed := closed\<rparr>)]\<rparr>)"
| dropped: "i < length (sl_leased p) \<Longrightarrow>
    lease_step p Quiet (p\<lparr>sl_idle := sl_idle p @ [sl_leased p ! i],
      sl_leased := take i (sl_leased p) @ drop (Suc i) (sl_leased p), sl_returned := Suc (sl_returned p)\<rparr>)"
| released: "sl_returned p = Suc k \<Longrightarrow>
    lease_step p Quiet (p\<lparr>sl_returned := k, sl_permits := Suc (sl_permits p)\<rparr>)"

inductive lease_run :: "lease_pool \<Rightarrow> lease_event list \<Rightarrow> lease_pool \<Rightarrow> bool" for p where
  lease_none: "lease_run p [] p"
| lease_more: "lease_run p es q \<Longrightarrow> lease_step q e r \<Longrightarrow> lease_run p (es @ [e]) r"

text \<open>The identities of the connections of a list of slots.\<close>

definition conn_ids :: "connection option list \<Rightarrow> nat multiset" where
  "conn_ids slots = image_mset cn_id (mset (List.map_filter (\<lambda>s. s) slots))"

lemma conn_ids_simps [simp]:
  "conn_ids [] = {#}"
  "conn_ids (s # slots) = (case s of None \<Rightarrow> {#} | Some c \<Rightarrow> {#cn_id c#}) + conn_ids slots"
  "conn_ids (xs @ ys) = conn_ids xs + conn_ids ys"
  by (auto simp: conn_ids_def List.map_filter_def split: option.splits)

definition lease_inv :: "nat \<Rightarrow> lease_pool \<Rightarrow> bool" where
  "lease_inv n p \<longleftrightarrow>
     sl_permits p + sl_admitted p + length (sl_leased p) + sl_returned p = n
     \<and> length (sl_idle p) + length (sl_leased p) = n
     \<and> (\<forall>c. count (conn_ids (sl_idle p @ sl_leased p)) c \<le> 1)
     \<and> (\<forall>c \<in># conn_ids (sl_idle p @ sl_leased p). c < sl_next p)"

lemma conn_ids_replicate_None [simp]: "conn_ids (replicate k None) = {#}"
  by (induction k) auto

lemma lease_inv_new: "0 < n \<Longrightarrow> lease_inv n (clients_new client n)"
  by (auto simp: lease_inv_def clients_new_def)

lemma conn_ids_split:
  assumes "i < length xs"
  shows "conn_ids xs = conn_ids (take i xs) + conn_ids [xs ! i] + conn_ids (drop (Suc i) xs)"
proof -
  from assms have "xs = take i xs @ xs ! i # drop (Suc i) xs" by (simp add: id_take_nth_drop)
  then show ?thesis by (metis conn_ids_simps(2,3) conn_ids_simps(1) add.right_neutral add.assoc)
qed

lemma conn_ids_update:
  assumes "i < length xs"
  shows "conn_ids (xs[i := s]) = conn_ids (take i xs) + conn_ids [s] + conn_ids (drop (Suc i) xs)"
  using assms by (simp add: upd_conv_take_nth_drop)

lemma conn_ids_butlast:
  "xs \<noteq> [] \<Longrightarrow> conn_ids xs = conn_ids (butlast xs) + conn_ids [last xs]"
  by (metis append_butlast_last_id conn_ids_simps(3))

lemma count_fresh:
  fixes k :: nat
  assumes "\<And>c. count M c \<le> 1" and "\<And>c. c \<in># M \<Longrightarrow> c < k"
  shows "count (M + {#k#}) c \<le> 1"
proof (cases "c = k")
  case True
  from assms(2) [of k] have "k \<notin># M" by blast
  then have "count M k = 0" by (simp add: not_in_iff)
  with True show ?thesis by simp
qed (use assms(1) in simp)

lemma lease_step_inv:
  assumes "lease_step p e q" and inv: "lease_inv n p"
  shows "lease_inv n q \<and> e \<noteq> SlotUnavailable"
  using assms
proof cases
  case (popped k)
  then show ?thesis using inv conn_ids_butlast [OF popped(4)]
    by (auto simp: lease_inv_def algebra_simps)
next
  case (unavailable k)
  with inv show ?thesis by (auto simp: lease_inv_def)
next
  case (reconnected i)
  let ?old = "conn_ids [sl_leased p ! i]"
  have ids: "conn_ids (sl_idle p @ sl_leased p) = conn_ids (sl_idle p @ take i (sl_leased p))
       + conn_ids (drop (Suc i) (sl_leased p)) + ?old"
    using conn_ids_split [OF reconnected(3)] by (simp add: algebra_simps)
  let ?rest = "conn_ids (sl_idle p @ take i (sl_leased p)) + conn_ids (drop (Suc i) (sl_leased p))"
  have new: "conn_ids (sl_idle q @ sl_leased q) = ?rest + {#sl_next p#}"
    using conn_ids_update [OF reconnected(3)] reconnected(2) by (simp add: algebra_simps)
  from inv ids have rest: "count ?rest c \<le> 1" "c \<in># ?rest \<Longrightarrow> c < sl_next p" for c
    unfolding lease_inv_def
    by (metis add_leD1 count_union, metis UnCI set_mset_union)
  then have "count (?rest + {#sl_next p#}) c \<le> 1" for c by (rule count_fresh)
  moreover from rest(2) have "\<And>c. c \<in># ?rest + {#sl_next p#} \<Longrightarrow> c < sl_next q"
    using reconnected(2) by (auto simp: less_Suc_eq)
  ultimately show ?thesis using inv reconnected(1,2) unfolding lease_inv_def new by simp
next
  case (used i client closed)
  from conn_ids_split [OF used(3)] conn_ids_update [OF used(3)] used(4)
  have "conn_ids (sl_leased q) = conn_ids (sl_leased p)" by (simp add: used(2))
  with inv used show ?thesis by (simp add: lease_inv_def)
next
  case (dropped i)
  with conn_ids_split [OF dropped(3)] inv show ?thesis
    by (simp add: lease_inv_def algebra_simps)
qed (auto simp: lease_inv_def)

lemma lease_run_inv:
  "lease_run p es q \<Longrightarrow> lease_inv n p \<Longrightarrow> lease_inv n q \<and> SlotUnavailable \<notin> set es"
  by (induction rule: lease_run.induct) (use lease_step_inv in \<open>fastforce+\<close>)

lemma conn_ids_twice:
  assumes "i < j" "j < length xs" "xs ! i = Some a" "xs ! j = Some b" "cn_id a = cn_id b"
  shows "2 \<le> count (conn_ids xs) (cn_id a)"
proof -
  have "drop (Suc i) xs ! (j - Suc i) = Some b" using assms by simp
  with assms conn_ids_split [of "j - Suc i" "drop (Suc i) xs"]
  have "1 \<le> count (conn_ids (drop (Suc i) xs)) (cn_id a)" by simp
  moreover from assms conn_ids_split [of i xs]
  have "conn_ids xs = conn_ids (take i xs) + {#cn_id a#} + conn_ids (drop (Suc i) xs)" by simp
  then have "count (conn_ids xs) (cn_id a)
      = count (conn_ids (take i xs)) (cn_id a) + 1 + count (conn_ids (drop (Suc i) xs)) (cn_id a)" by simp
  ultimately show ?thesis by linarith
qed

text \<open>C11: the bridge's connections are shared safely.  With at least one slot, in every interleaving
  of the requests an admitted request finds a slot, no connection is in the hands of two requests,
  at most \<open>concurrency\<close> requests hold one, and no slot is ever lost.\<close>

theorem connections_are_not_shared:
  assumes "0 < concurrency" and "lease_run (clients_new client concurrency) es p"
  shows "SlotUnavailable \<notin> set es
    \<and> (0 < sl_admitted p \<longrightarrow> sl_idle p \<noteq> [])
    \<and> length (sl_idle p) + length (sl_leased p) = concurrency
    \<and> (\<forall>i j a b. i < j \<and> j < length (sl_leased p) \<and> sl_leased p ! i = Some a \<and> sl_leased p ! j = Some b
         \<longrightarrow> cn_id a \<noteq> cn_id b)"
proof -
  from lease_run_inv [OF assms(2) lease_inv_new [OF assms(1)]]
  have inv: "lease_inv concurrency p" and quiet: "SlotUnavailable \<notin> set es" by auto
  have "cn_id a \<noteq> cn_id b" if "i < j" "j < length (sl_leased p)" "sl_leased p ! i = Some a"
    "sl_leased p ! j = Some b" for i j a b
  proof
    assume "cn_id a = cn_id b"
    from conn_ids_twice [OF that this] have "2 \<le> count (conn_ids (sl_idle p @ sl_leased p)) (cn_id a)"
      by simp
    moreover from inv have "count (conn_ids (sl_idle p @ sl_leased p)) (cn_id a) \<le> 1"
      unfolding lease_inv_def by blast
    ultimately show False by simp
  qed
  with quiet inv show ?thesis by (auto simp: lease_inv_def)
qed

theorem connections_are_not_shared_witness:
  "\<exists>p. lease_run (clients_new \<lparr>cn_id = 0, cn_closed = False\<rparr> 2) [Quiet, Quiet] p
     \<and> length (sl_leased p) = 1 \<and> length (sl_idle p) + length (sl_leased p) = 2"
proof -
  let ?p0 = "clients_new \<lparr>cn_id = 0, cn_closed = False\<rparr> 2"
  let ?p1 = "?p0\<lparr>sl_permits := 1, sl_admitted := Suc (sl_admitted ?p0)\<rparr>"
  let ?p2 = "?p1\<lparr>sl_admitted := 0, sl_idle := butlast (sl_idle ?p1),
      sl_leased := sl_leased ?p1 @ [last (sl_idle ?p1)]\<rparr>"
  have "lease_step ?p0 Quiet ?p1" by (rule acquired) (simp add: clients_new_def)
  moreover have "lease_step ?p1 Quiet ?p2" by (rule popped) (simp_all add: clients_new_def)
  ultimately have run: "lease_run ?p0 [Quiet, Quiet] ?p2"
    using lease_more [OF lease_more [OF lease_none]] by fastforce
  with connections_are_not_shared [OF _ run] show ?thesis
    by (intro exI [of _ ?p2]) (simp add: clients_new_def)
qed

end
