(* ===== verification/McpClient.thy ===== *)
theory McpClient
  imports Wire Protocol Deadline
begin

text \<open>
  A client's session over one pool connection (\<open>src/mcp_client.rs\<close>).  A client without a stream is
  closed.  Whether a deadline passes first is an argument: \<open>cw_expires\<close> for the request with the
  given identifier, \<open>cw_notify_expires\<close> for a notification and \<open>cw_list_expires\<close> for a whole
  listing.  Durations are in nanoseconds here, as \<open>timeout_milliseconds\<close> rounds them.
\<close>

record mcp_client =
  mc_stream :: "channel option"
  mc_next_id :: u64
  mc_deadline :: nat
  mc_info :: "connection_info option"

record client_world =
  cw_parse :: parser
  cw_ser :: "json \<Rightarrow> string"
  cw_expires :: "u64 \<Rightarrow> bool"
  cw_notify_expires :: bool
  cw_list_expires :: bool

definition is_closed :: "mcp_client \<Rightarrow> bool" where
  "is_closed mc \<longleftrightarrow> mc_stream mc = None"

text \<open>The protocol a server definition asks for, given its transport.\<close>

definition connect_preference :: "protocol_preference \<Rightarrow> string \<Rightarrow> string + protocol_preference" where
  "connect_preference preference kind =
     (if preference = ModernProtocol \<and> kind = ''sse''
      then Inl ''Pinned modern MCP requires stdio or HTTP, not legacy SSE''
      else if preference = AutoProtocol \<and> kind = ''sse'' then Inr LegacyProtocol
      else Inr preference)"

definition timeout_milliseconds :: "nat \<Rightarrow> string + u64" where
  "timeout_milliseconds deadline =
     (if deadline = 0 then Inl ''MCP operation deadline must be positive''
      else let milliseconds = (deadline + 999999) div 1000000 in
        if milliseconds < 2 ^ 64 then Inr (of_nat milliseconds)
        else Inl ''MCP operation deadline exceeds supported milliseconds'')"

definition validate_parameters :: "string \<Rightarrow> json \<Rightarrow> string + unit" where
  "validate_parameters m params =
     (if m = ''notifications/cancelled''
      then Inl ''MCP cancellation is unsafe: the pool does not translate requestId''
      else if m = [] then Inl ''MCP method must not be empty''
      else if \<not> is_object params \<and> \<not> is_array params
      then Inl ''JSON-RPC params must be an object or array''
      else Inr ())"

definition stamp_for :: "mcp_client \<Rightarrow> json \<Rightarrow> string + json" where
  "stamp_for mc params =
     (if (case mc_info mc of Some info \<Rightarrow> ci_era info = ModernEra | None \<Rightarrow> False)
      then stamp params else Inr params)"

definition request_message :: "u64 \<Rightarrow> string \<Rightarrow> json \<Rightarrow> u64 \<Rightarrow> json" where
  "request_message request_id m params timeout =
     JObject (obj_insert TIMEOUT_FIELD (from_u64 timeout)
       [(''jsonrpc'', JString ''2.0''), (''id'', from_u64 request_id),
        (''method'', JString m), (''params'', params)])"

definition request ::
  "client_world \<Rightarrow> string \<Rightarrow> json \<Rightarrow> mcp_client \<Rightarrow> (client_error + json) \<times> mcp_client" where
  "request w m params0 mc =
     (case stamp_for mc params0 of
        Inl e \<Rightarrow> (Inl (Failure e), mc)
      | Inr params \<Rightarrow>
          (case validate_parameters m params of
             Inl e \<Rightarrow> (Inl (Failure e), mc)
           | Inr _ \<Rightarrow>
               (case timeout_milliseconds (mc_deadline mc) of
                  Inl e \<Rightarrow> (Inl (Failure e), mc)
                | Inr timeout \<Rightarrow>
                    let request_id = mc_next_id mc in
                    if request_id = - 1 then (Inl (Failure ''MCP request IDs exhausted''), mc)
                    else
                      let mc' = mc\<lparr>mc_next_id := request_id + 1, mc_stream := None\<rparr> in
                      (case mc_stream mc of
                         None \<Rightarrow> (Inl (Failure ''MCP connection is closed''), mc')
                       | Some ch \<Rightarrow>
                           if cw_expires w request_id
                           then (Inl (Failure (''MCP '' @ m @ '' deadline exceeded; request outcome is unknown'')), mc')
                           else
                             (case write_message (cw_ser w) (request_message request_id m params timeout) ch of
                                (Inl e, _) \<Rightarrow> (Inl e, mc')
                              | (Inr _, ch1) \<Rightarrow>
                                  (case receive_result (cw_parse w) (cw_ser w) request_id ch1 of
                                     (Inl e, _) \<Rightarrow> (Inl e, mc')
                                   | (Inr outcome, ch2) \<Rightarrow> (outcome, mc'\<lparr>mc_stream := Some ch2\<rparr>)))))))"

definition notify ::
  "client_world \<Rightarrow> string \<Rightarrow> json \<Rightarrow> mcp_client \<Rightarrow> (client_error + unit) \<times> mcp_client" where
  "notify w m params0 mc =
     (case stamp_for mc params0 of
        Inl e \<Rightarrow> (Inl (Failure e), mc)
      | Inr params \<Rightarrow>
          (case validate_parameters m params of
             Inl e \<Rightarrow> (Inl (Failure e), mc)
           | Inr _ \<Rightarrow>
               (case mc_stream mc of
                  None \<Rightarrow> (Inl (Failure ''MCP connection is closed''), mc)
                | Some ch \<Rightarrow>
                    let mc' = mc\<lparr>mc_stream := None\<rparr> in
                    if cw_notify_expires w
                    then (Inl (Failure (''MCP '' @ m @ '' notification deadline exceeded'')), mc')
                    else
                      (case write_message (cw_ser w)
                              (JObject [(''jsonrpc'', JString ''2.0''), (''method'', JString m), (''params'', params)]) ch of
                         (Inl e, _) \<Rightarrow> (Inl e, mc')
                       | (Inr _, ch') \<Rightarrow> (Inr (), mc\<lparr>mc_stream := Some ch'\<rparr>)))))"

definition wait_for_notification ::
  "client_world \<Rightarrow> mcp_client \<Rightarrow> (client_error + json option) \<times> mcp_client" where
  "wait_for_notification w mc =
     (case mc_stream mc of
        None \<Rightarrow> (Inl (Failure ''MCP connection is closed''), mc)
      | Some ch \<Rightarrow>
          (case receive_notification (cw_parse w) (cw_ser w) ch of
             (Inr (Some v), ch') \<Rightarrow> (Inr (Some v), mc\<lparr>mc_stream := Some ch'\<rparr>)
           | (r, _) \<Rightarrow> (r, mc\<lparr>mc_stream := None\<rparr>)))"

subsection \<open>Collecting the pages of a listing\<close>

definition input_left :: "mcp_client \<Rightarrow> nat" where
  "input_left mc = (case mc_stream mc of None \<Rightarrow> 0 | Some ch \<Rightarrow> Suc (stream_size (ch_in ch)))"

lemma request_consumes:
  assumes "request w m params mc = (Inr v, mc')"
  shows "input_left mc' < input_left mc"
proof -
  from assms obtain ch ch1 ch2 r msg where s: "mc_stream mc = Some ch"
    "write_message (cw_ser w) msg ch = (r, ch1)"
    "receive_result (cw_parse w) (cw_ser w) (mc_next_id mc) ch1 = (Inr (Inr v), ch2)"
    "mc_stream mc' = Some ch2"
    by (auto simp: request_def Let_def split: sum.splits option.splits prod.splits if_splits)
  from receive_result_consumes [OF s(3)] write_message_in [OF s(2)] s(1,4)
  show ?thesis by (simp add: input_left_def)
qed

definition page_of :: "string \<Rightarrow> string \<Rightarrow> json \<Rightarrow> string + json list" where
  "page_of m field result =
     (case Option.bind (vget field result) as_array of
        None \<Rightarrow> Inl (''MCP '' @ m @ '' result omitted '' @ field @ '' array'')
      | Some page \<Rightarrow>
          if field \<noteq> ''tools'' \<and> (\<exists>entry \<in> set page. \<not> is_object entry)
          then Inl (''MCP '' @ m @ '' returned a non-object '' @ field @ '' entry'')
          else Inr page)"

function collect_pages ::
  "client_world \<Rightarrow> string \<Rightarrow> string \<Rightarrow> json list \<Rightarrow> json \<Rightarrow> string set \<Rightarrow> mcp_client
     \<Rightarrow> (client_error + json list) \<times> mcp_client" where
  "collect_pages w m field entries params cursors mc =
     (case request w m params mc of
        (Inl e, mc') \<Rightarrow> (Inl e, mc')
      | (Inr result, mc') \<Rightarrow>
          (case page_of m field result of
             Inl e \<Rightarrow> (Inl (Failure e), mc')
           | Inr page \<Rightarrow>
               (case vget ''nextCursor'' result of
                  None \<Rightarrow> (Inr (entries @ page), mc')
                | Some next_cursor \<Rightarrow>
                    (case as_str next_cursor of
                       None \<Rightarrow> (Inl (Failure (''MCP '' @ m @ '' nextCursor must be a string'')), mc')
                     | Some cursor \<Rightarrow>
                         if cursor \<in> cursors
                         then (Inl (Failure (''MCP '' @ m @ '' repeated pagination cursor'')), mc')
                         else collect_pages w m field (entries @ page) (JObject [(''cursor'', JString cursor)])
                           (insert cursor cursors) mc'))))"
  by pat_completeness auto
termination
  by (relation "measure (\<lambda>(_, _, _, _, _, _, mc). input_left mc)")
     (auto dest!: sym [of _ "request _ _ _ _"] request_consumes)

declare collect_pages.simps [simp del]

text \<open>A listing that expires leaves the client closed, so its identifier counter no longer matters.\<close>

definition list_entries ::
  "client_world \<Rightarrow> string \<Rightarrow> string \<Rightarrow> mcp_client \<Rightarrow> (client_error + json list) \<times> mcp_client" where
  "list_entries w m field mc =
     (if cw_list_expires w
      then (Inl (Failure (''MCP '' @ m @ '' pagination deadline exceeded'')), mc\<lparr>mc_stream := None\<rparr>)
      else collect_pages w m field [] (JObject []) {} mc)"

definition list_tools :: "client_world \<Rightarrow> mcp_client \<Rightarrow> (client_error + json list) \<times> mcp_client" where
  "list_tools w mc = list_entries w ''tools/list'' ''tools'' mc"

definition list_resources :: "client_world \<Rightarrow> mcp_client \<Rightarrow> (client_error + json list) \<times> mcp_client" where
  "list_resources w mc = list_entries w ''resources/list'' ''resources'' mc"

subsection \<open>Opening a session\<close>

definition is_rpc_error :: "client_error \<Rightarrow> bool" where
  "is_rpc_error e \<longleftrightarrow> (case e of RpcError _ _ _ \<Rightarrow> True | Failure _ \<Rightarrow> False)"

definition rejects_discovery :: "client_error \<Rightarrow> bool" where
  "rejects_discovery e \<longleftrightarrow>
     (case e of RpcError code _ data \<Rightarrow> discovery_unsupported code data | Failure _ \<Rightarrow> False)"

definition initialize_params :: json where
  "initialize_params =
     JObject [(''protocolVersion'', JString LEGACY_VERSION), (''capabilities'', JObject []),
       (''clientInfo'', JObject [(''name'', JString ''mcp-cli''), (''version'', JString ''0.1.0'')])]"

definition open_legacy :: "client_world \<Rightarrow> mcp_client \<Rightarrow> client_error + mcp_client" where
  "open_legacy w mc =
     (case request w ''initialize'' initialize_params mc of
        (Inl e, _) \<Rightarrow> Inl e
      | (Inr result, mc1) \<Rightarrow>
          (case connection_info result LegacyEra of
             Inl e \<Rightarrow> Inl (Failure e)
           | Inr info \<Rightarrow>
               (case notify w ''notifications/initialized'' (JObject []) (mc1\<lparr>mc_info := Some info\<rparr>) of
                  (Inl e, _) \<Rightarrow> Inl e
                | (Inr _, mc2) \<Rightarrow> Inr mc2)))"

definition discovery_failure :: "client_error \<Rightarrow> string" where
  "discovery_failure e =
     (if is_rpc_error e then ''MCP protocol discovery failed; no upstream or operation was replayed''
      else ''MCP protocol discovery failed; no upstream or operation was replayed. For a legacy server that cannot handle discovery, set protocolVersion to legacy'')"

definition negotiate ::
  "client_world \<Rightarrow> channel \<Rightarrow> nat \<Rightarrow> bool \<Rightarrow> protocol_preference \<Rightarrow> client_error + mcp_client" where
  "negotiate w stream deadline fits_clock preference =
     (if deadline = 0 then Inl (Failure ''MCP operation deadline must be positive'')
      else if \<not> fits_clock then Inl (Failure ''MCP operation deadline is too large'')
      else
        let mc = \<lparr>mc_stream = Some stream, mc_next_id = 1, mc_deadline = deadline, mc_info = None\<rparr> in
        if preference = LegacyProtocol then open_legacy w mc
        else
          (case stamp (JObject []) of
             Inl e \<Rightarrow> Inl (Failure e)
           | Inr parameters \<Rightarrow>
               (case request w ''server/discover'' parameters mc of
                  (Inr result, mc1) \<Rightarrow>
                    (case discovery_offers_modern result of
                       Inl e \<Rightarrow> Inl (Failure e)
                     | Inr offers \<Rightarrow>
                         if offers
                         then (case connection_info result ModernEra of
                                 Inl e \<Rightarrow> Inl (Failure e)
                               | Inr info \<Rightarrow> Inr (mc1\<lparr>mc_info := Some info\<rparr>))
                         else if preference = AutoProtocol then open_legacy w mc1
                         else Inl (Failure (''MCP server does not support pinned protocol version '' @ MODERN_VERSION)))
                | (Inl e, mc1) \<Rightarrow>
                    if preference = AutoProtocol \<and> rejects_discovery e then open_legacy w mc1
                    else Inl (case e of
                           RpcError code m data \<Rightarrow> RpcError code m data
                         | Failure m \<Rightarrow> Failure (discovery_failure e @ '': '' @ m)))))"

subsection \<open>A broken stream is never used again\<close>

text \<open>
  Outcomes of a request: nothing was sent and the stream is untouched; or the stream is gone; or the
  request was sent and a response with its identifier was read, so that stream and client agree.
\<close>

lemma request_cases:
  assumes "request w m params mc = (r, mc')" and "mc_stream mc = Some ch"
  obtains (unsent) e where "r = Inl (Failure e)" "mc' = mc"
  | (closed) e where "r = Inl e" "mc_stream mc' = None" "mc_next_id mc' = mc_next_id mc + 1"
      "mc_next_id mc \<noteq> - 1"
  | (answered) params' timeout ch1 ch2 where "mc_stream mc' = Some ch2" "mc_next_id mc \<noteq> - 1"
      "mc_next_id mc' = mc_next_id mc + 1" "stamp_for mc params = Inr params'"
      "write_message (cw_ser w) (request_message (mc_next_id mc) m params' timeout) ch = (Inr (), ch1)"
      "receive_result (cw_parse w) (cw_ser w) (mc_next_id mc) ch1 = (Inr r, ch2)"
proof (cases "stamp_for mc params")
  case (Inl e)
  with assms show thesis by (intro unsent [of e]) (simp_all add: request_def)
next
  case stamped: (Inr params')
  show thesis
  proof (cases "validate_parameters m params'")
    case (Inl e)
    with stamped assms show thesis by (intro unsent [of e]) (simp_all add: request_def)
  next
    case valid: (Inr u)
    show thesis
    proof (cases "timeout_milliseconds (mc_deadline mc)")
      case (Inl e)
      with stamped valid assms show thesis by (intro unsent [of e]) (simp_all add: request_def)
    next
      case timeout: (Inr timeout)
      let ?mc = "mc\<lparr>mc_next_id := mc_next_id mc + 1, mc_stream := None\<rparr>"
      obtain written ch1 where wr: "write_message (cw_ser w) (request_message (mc_next_id mc) m params' timeout) ch
          = (written, ch1)" by fastforce
      obtain received ch2 where rd: "receive_result (cw_parse w) (cw_ser w) (mc_next_id mc) ch1 = (received, ch2)"
        by fastforce
      note eqs = stamped valid timeout wr rd
      show thesis
      proof (cases "mc_next_id mc = - 1")
        case True
        with eqs assms show thesis
          by (intro unsent [of "''MCP request IDs exhausted''"]) (simp_all add: request_def)
      next
        case False
        note closing = closed [of _, OF _ _ _ False]
        show thesis
        proof (cases "cw_expires w (mc_next_id mc)")
          case True
          with False eqs assms show thesis by (intro closing) (auto simp: request_def Let_def)
        next
          case alive: False
          show thesis
          proof (cases written)
            case (Inl e)
            with alive False eqs assms show thesis by (intro closing) (auto simp: request_def Let_def)
          next
            case sent: (Inr u)
            show thesis
            proof (cases received)
              case (Inl e)
              with sent alive False eqs assms show thesis by (intro closing) (auto simp: request_def Let_def)
            next
              case (Inr r')
              with sent alive False eqs assms show thesis
                by (intro answered [of ch2 params' timeout ch1]) (auto simp: request_def Let_def)
            qed
          qed
        qed
      qed
    qed
  qed
qed

lemma match_response_rejection:
  "match_response i message = Inr (Inl e) \<Longrightarrow> is_rpc_error e"
  by (auto simp: match_response_def is_rpc_error_def split: if_splits option.splits json.splits)

lemma receive_result_matched:
  "receive_result parse ser i ch = (Inr r, ch') \<Longrightarrow>
     \<exists>message. obj_get ''id'' message = Some (from_u64 i) \<and> match_response i message = Inr r"
proof (induction parse ser i ch rule: receive_result.induct)
  case (1 parse ser i ch)
  from 1(2) obtain x ch1 where x: "receive_message parse ser ch = (Inr (Some x), ch1)"
    by (subst (asm) receive_result.simps) (auto split: prod.splits sum.splits option.splits)
  show ?case
  proof (cases x)
    case (Notification v)
    with 1(2) x have "receive_result parse ser i ch1 = (Inr r, ch')"
      by (simp add: receive_result.simps [of parse ser i ch])
    with 1(1) [OF x [symmetric] refl refl Notification] show ?thesis by simp
  next
    case (Response message)
    with 1(2) x have "match_response i message = Inr r"
      by (simp add: receive_result.simps [of parse ser i ch])
    then show ?thesis by (auto simp: match_response_def split: if_splits)
  qed
qed

lemma uint_succ: "x \<noteq> - 1 \<Longrightarrow> uint (x + 1 :: u64) = uint x + 1"
proof -
  assume "x \<noteq> - 1"
  then have "1 + x \<noteq> 0" by (metis add.commute eq_neg_iff_add_eq_0)
  then have "unat (1 + x) = Suc (unat x)" by (rule unatSuc)
  then have "int (unat (1 + x)) = int (Suc (unat x))" by (rule arg_cong)
  then show ?thesis by (simp add: add.commute)
qed

lemma closed_stays_closed:
  "mc_stream mc = None \<Longrightarrow> \<exists>e mc2. request w m params mc = (Inl e, mc2) \<and> mc_stream mc2 = None"
  by (auto simp: request_def Let_def split: sum.splits)

text \<open>C10: a client never confuses two requests.  When a request returns a result or a rejection, it
  is that of a response carrying the identifier the request was sent with; whenever the outcome of a
  request is unknown (its deadline, a write error, a malformed or unexpected frame) the stream is
  gone for good; and the identifier of a request that may have reached the server is never used
  again.\<close>

theorem answers_belong_to_their_request:
  assumes "request w m params mc = (r, mc')" and "mc_stream mc = Some ch"
  shows "(case mc_stream mc' of
       None \<Rightarrow> \<exists>e. r = Inl e
     | Some ch' \<Rightarrow>
         (mc' = mc \<and> (\<exists>e. r = Inl (Failure e)))
         \<or> (\<exists>params' timeout ch1.
               write_message (cw_ser w) (request_message (mc_next_id mc) m params' timeout) ch = (Inr (), ch1)
             \<and> receive_result (cw_parse w) (cw_ser w) (mc_next_id mc) ch1 = (Inr r, ch'))
           \<and> (\<exists>message. obj_get ''id'' message = Some (from_u64 (mc_next_id mc))
               \<and> match_response (mc_next_id mc) message = Inr r))
    \<and> (mc' = mc \<or> uint (mc_next_id mc') = uint (mc_next_id mc) + 1)
    \<and> (mc_stream mc' = None \<longrightarrow>
        (\<forall>w2 m2 params2. \<exists>e mc2. request w2 m2 params2 mc' = (Inl e, mc2) \<and> mc_stream mc2 = None))"
  using assms
proof (cases rule: request_cases)
  case (unsent e)
  with assms show ?thesis by simp
next
  case (closed e)
  then show ?thesis by (simp add: uint_succ closed_stays_closed)
next
  case (answered params' timeout ch1 ch2)
  from receive_result_matched [OF answered(6)] obtain message where
    "obj_get ''id'' message = Some (from_u64 (mc_next_id mc))" "match_response (mc_next_id mc) message = Inr r" by blast
  with answered(5,6) have "(\<exists>params' timeout ch1.
        write_message (cw_ser w) (request_message (mc_next_id mc) m params' timeout) ch = (Inr (), ch1)
        \<and> receive_result (cw_parse w) (cw_ser w) (mc_next_id mc) ch1 = (Inr r, ch2))
      \<and> (\<exists>message. obj_get ''id'' message = Some (from_u64 (mc_next_id mc))
           \<and> match_response (mc_next_id mc) message = Inr r)" by blast
  with answered(1,2,3) show ?thesis by (simp add: uint_succ)
qed

theorem answers_belong_to_their_request_witness:
  "\<exists>mc'. request \<lparr>cw_parse = (\<lambda>_. Some (JObject [(''jsonrpc'', JString ''2.0''), (''id'', from_u64 7), (''result'', JNull)])),
        cw_ser = (\<lambda>_. ''x''), cw_expires = (\<lambda>_. False), cw_notify_expires = False, cw_list_expires = False\<rparr>
      ''ping'' (JObject [])
      \<lparr>mc_stream = Some \<lparr>ch_in = [''x'' @ [CHR 0x0A]], ch_failing = False, ch_out = [], ch_writable = True\<rparr>,
       mc_next_id = 6, mc_deadline = 1, mc_info = None\<rparr>
      = (Inl (Failure ''MCP response ID does not match the outstanding request''), mc')
    \<and> mc_stream mc' = None \<and> uint (mc_next_id mc') = 7"
proof -
  let ?w = "\<lparr>cw_parse = (\<lambda>_::string. Some (JObject [(''jsonrpc'', JString ''2.0''), (''id'', from_u64 7), (''result'', JNull)])),
        cw_ser = (\<lambda>_::json. ''x''), cw_expires = (\<lambda>_::u64. False), cw_notify_expires = False, cw_list_expires = False\<rparr>"
  let ?ch = "\<lparr>ch_in = [''x'' @ [CHR 0x0A]], ch_failing = False, ch_out = [], ch_writable = True\<rparr>"
  let ?mc = "\<lparr>mc_stream = Some ?ch, mc_next_id = 6, mc_deadline = 1, mc_info = None\<rparr>"
  let ?mc' = "\<lparr>mc_stream = None, mc_next_id = 7, mc_deadline = 1, mc_info = None\<rparr>"
  have r: "request ?w ''ping'' (JObject []) ?mc
      = (Inl (Failure ''MCP response ID does not match the outstanding request''), ?mc')"
    by (simp add: request_def stamp_for_def validate_parameters_def timeout_milliseconds_def write_message_def
        receive_result.simps receive_message.simps read_message_def read_frame.simps frame_count_def
        after_chunk_def blank_def blank_byte_def MAX_FRAME_BYTES_def classify_def match_response_def obj_get_def)
  from answers_belong_to_their_request [OF r] have "uint (mc_next_id ?mc') = uint (mc_next_id ?mc) + 1" by simp
  with r show ?thesis by (intro exI [of _ ?mc']) simp
qed

subsection \<open>Negotiation\<close>

text \<open>The state of a client before its first request.\<close>

definition fresh_client :: "channel \<Rightarrow> nat \<Rightarrow> mcp_client" where
  "fresh_client stream deadline =
     \<lparr>mc_stream = Some stream, mc_next_id = 1, mc_deadline = deadline, mc_info = None\<rparr>"

definition discovery :: "client_world \<Rightarrow> channel \<Rightarrow> nat \<Rightarrow> client_error + json" where
  "discovery w stream deadline =
     (case stamp (JObject []) of
        Inl e \<Rightarrow> Inl (Failure e)
      | Inr parameters \<Rightarrow> fst (request w ''server/discover'' parameters (fresh_client stream deadline)))"

lemma request_success:
  "request w m params mc = (Inr v, mc') \<Longrightarrow> mc_stream mc' \<noteq> None \<and> mc_info mc' = mc_info mc"
  by (auto simp: request_def Let_def split: sum.splits option.splits prod.splits if_splits)

lemma notify_success:
  "notify w m params mc = (Inr u, mc') \<Longrightarrow> mc_stream mc' \<noteq> None \<and> mc_info mc' = mc_info mc"
  by (auto simp: notify_def Let_def split: sum.splits option.splits prod.splits if_splits)

lemma open_legacy_session:
  assumes "open_legacy w mc = Inr mc'"
  shows "\<exists>info. mc_info mc' = Some info \<and> ci_era info = LegacyEra
    \<and> supports_version (ci_protocol_version info) \<and> ci_protocol_version info \<noteq> MODERN_VERSION
    \<and> mc_stream mc' \<noteq> None"
proof -
  from assms obtain result mc1 info u where "request w ''initialize'' initialize_params mc = (Inr result, mc1)"
    and info: "connection_info result LegacyEra = Inr info"
    and n: "notify w ''notifications/initialized'' (JObject []) (mc1\<lparr>mc_info := Some info\<rparr>) = (Inr u, mc')"
    by (auto simp: open_legacy_def split: sum.splits prod.splits)
  with notify_success [OF n] connection_info_supported [OF info] show ?thesis by auto
qed

text \<open>C14: a session that was opened speaks a protocol version the program supports and that the
  configuration allows: modern exactly in the modern era, legacy when legacy is configured, modern
  when modern is pinned; and with automatic choice the client falls back to the legacy handshake only
  after the server answered discovery without offering the modern version or definitively rejected
  it, never after an error that leaves the outcome open.\<close>

theorem negotiated_sessions_are_supported:
  assumes "negotiate w stream deadline fits_clock preference = Inr mc"
  shows "\<exists>info. mc_info mc = Some info \<and> mc_stream mc \<noteq> None
    \<and> supports_version (ci_protocol_version info)
    \<and> (ci_era info = ModernEra \<longleftrightarrow> ci_protocol_version info = MODERN_VERSION)
    \<and> (preference = LegacyProtocol \<longrightarrow> ci_era info = LegacyEra)
    \<and> (preference = ModernProtocol \<longrightarrow> ci_era info = ModernEra)
    \<and> (preference = AutoProtocol \<and> ci_era info = LegacyEra \<longrightarrow>
         (\<exists>result. discovery w stream deadline = Inr result \<and> discovery_offers_modern result = Inr False)
         \<or> (\<exists>code msg data. discovery w stream deadline = Inl (RpcError code msg data)
               \<and> discovery_unsupported code data))"
proof (cases "preference = LegacyProtocol")
  case True
  with assms have "open_legacy w (fresh_client stream deadline) = Inr mc"
    by (simp add: negotiate_def fresh_client_def split: if_splits)
  from open_legacy_session [OF this] True show ?thesis by auto
next
  case False
  from assms False obtain parameters where st: "stamp (JObject []) = Inr parameters"
    by (auto simp: negotiate_def Let_def split: if_splits sum.splits)
  obtain outcome mc1 where rq: "request w ''server/discover'' parameters (fresh_client stream deadline) = (outcome, mc1)"
    by fastforce
  have d: "discovery w stream deadline = outcome" by (simp add: discovery_def st rq)
  note rq' = rq [unfolded fresh_client_def]
  show ?thesis
  proof (cases outcome)
    case (Inl e)
    with assms False st rq' have "preference = AutoProtocol" "rejects_discovery e" "open_legacy w mc1 = Inr mc"
      by (auto simp: negotiate_def Let_def split: if_splits)
    with open_legacy_session [of w mc1 mc] d Inl show ?thesis
      by (cases e) (auto simp: rejects_discovery_def)
  next
    case (Inr result)
    with rq request_success have open1: "mc_stream mc1 \<noteq> None" by blast
    from assms False st rq' Inr obtain offers where offers: "discovery_offers_modern result = Inr offers"
      by (auto simp: negotiate_def Let_def split: if_splits sum.splits)
    show ?thesis
    proof (cases offers)
      case True
      with assms False st rq' Inr offers obtain info where info: "connection_info result ModernEra = Inr info"
        "mc = mc1\<lparr>mc_info := Some info\<rparr>"
        by (auto simp: negotiate_def Let_def split: if_splits sum.splits)
      with connection_info_supported [OF info(1)] open1 False show ?thesis by auto
    next
      case no: False
      with assms False st rq' Inr offers have "preference = AutoProtocol" "open_legacy w mc1 = Inr mc"
        by (auto simp: negotiate_def Let_def split: if_splits)
      with open_legacy_session [of w mc1 mc] d Inr no offers show ?thesis by auto
    qed
  qed
qed

definition sample_world :: "json \<Rightarrow> client_world" where
  "sample_world v = \<lparr>cw_parse = (\<lambda>_. Some v), cw_ser = (\<lambda>_. ''x''), cw_expires = (\<lambda>_. False),
     cw_notify_expires = False, cw_list_expires = False\<rparr>"

definition sample_channel :: channel where
  "sample_channel = \<lparr>ch_in = [''x'' @ [CHR 0x0A]], ch_failing = False, ch_out = [], ch_writable = True\<rparr>"

lemma sample_request:
  assumes "0 < deadline" "deadline \<le> 1000000" "stamp_for mc params = Inr params'"
    "validate_parameters m params' = Inr u" "mc_next_id mc \<noteq> - 1" "mc_deadline mc = deadline"
    "mc_stream mc = Some sample_channel"
  shows "request (sample_world (JObject [(''jsonrpc'', JString ''2.0''), (''id'', from_u64 (mc_next_id mc)), (''result'', v)]))
      m params mc
    = (Inr v, mc\<lparr>mc_next_id := mc_next_id mc + 1, mc_stream := Some (sample_channel\<lparr>ch_in := [], ch_out := [''x'' @ [CHR 0x0A]]\<rparr>)\<rparr>)"
proof -
  have "(deadline + 999999) div 1000000 = 1"
    by (rule div_nat_eqI) (use assms(1,2) in simp_all)
  then have "timeout_milliseconds (mc_deadline mc) = Inr 1"
    using assms by (simp add: timeout_milliseconds_def)
  let ?v = "JObject [(''jsonrpc'', JString ''2.0''), (''id'', from_u64 (mc_next_id mc)), (''result'', v)]"
  let ?ch1 = "sample_channel\<lparr>ch_out := [''x'' @ [CHR 0x0A]]\<rparr>"
  have "classify ?v = Deliver (Response [(''jsonrpc'', JString ''2.0''), (''id'', from_u64 (mc_next_id mc)), (''result'', v)])"
    by (simp add: classify_def obj_get_def)
  moreover have "read_message (\<lambda>_. Some ?v) ?ch1 = (Inr (Some ?v), ?ch1\<lparr>ch_in := []\<rparr>)"
    by (simp add: read_message_def sample_channel_def read_frame.simps frame_count_def
        after_chunk_def blank_def blank_byte_def MAX_FRAME_BYTES_def)
  ultimately have "receive_message (\<lambda>_. Some ?v) (\<lambda>_. ''x'') ?ch1
      = (Inr (Some (Response [(''jsonrpc'', JString ''2.0''), (''id'', from_u64 (mc_next_id mc)), (''result'', v)])),
         ?ch1\<lparr>ch_in := []\<rparr>)"
    by (subst receive_message.simps) simp
  then have "receive_result (\<lambda>_. Some ?v) (\<lambda>_. ''x'') (mc_next_id mc) ?ch1 = (Inr (Inr v), ?ch1\<lparr>ch_in := []\<rparr>)"
    by (subst receive_result.simps) (simp add: match_response_def obj_get_def)
  moreover have "write_message (\<lambda>_. ''x'') msg sample_channel = (Inr (), ?ch1)" for msg
    by (simp add: write_message_def sample_channel_def MAX_FRAME_BYTES_def)
  ultimately show ?thesis
    using assms \<open>timeout_milliseconds (mc_deadline mc) = Inr 1\<close>
    by (simp add: request_def sample_world_def Let_def)
qed

theorem negotiated_sessions_are_supported_witness:
  "\<exists>mc info. negotiate (sample_world (JObject [(''jsonrpc'', JString ''2.0''), (''id'', from_u64 1),
         (''result'', JObject [(''capabilities'', JObject []), (''supportedVersions'', JArray [JString ''2026-07-28''])])]))
       sample_channel 5 True ModernProtocol = Inr mc
     \<and> mc_info mc = Some info \<and> ci_era info = ModernEra"
proof -
  let ?result = "JObject [(''capabilities'', JObject []), (''supportedVersions'', JArray [JString ''2026-07-28''])]"
  let ?w = "sample_world (JObject [(''jsonrpc'', JString ''2.0''), (''id'', from_u64 1), (''result'', ?result)])"
  let ?info = "\<lparr>ci_protocol_version = MODERN_VERSION, ci_era = ModernEra, ci_instructions = None\<rparr>"
  obtain params where st: "stamp (JObject []) = Inr (JObject params)" by (simp add: stamp_def obj_get_def)
  have rq: "request ?w ''server/discover'' (JObject params) (fresh_client sample_channel 5)
      = (Inr ?result, (fresh_client sample_channel 5)\<lparr>mc_next_id := 2,
           mc_stream := Some (sample_channel\<lparr>ch_in := [], ch_out := [''x'' @ [CHR 0x0A]]\<rparr>)\<rparr>)"
    using sample_request [of 5 "fresh_client sample_channel 5" "JObject params" "JObject params" "''server/discover''" "()" ?result]
    by (simp add: fresh_client_def stamp_for_def validate_parameters_def)
  have offers: "discovery_offers_modern ?result = Inr True"
    by (simp add: discovery_offers_modern_def obj_get_def MODERN_VERSION_def)
  then have info: "connection_info ?result ModernEra = Inr ?info"
    by (simp add: connection_info_def negotiated_version_def obj_get_def)
  have "\<exists>mc. negotiate ?w sample_channel 5 True ModernProtocol = Inr mc"
    using st rq offers info by (simp add: negotiate_def fresh_client_def Let_def)
  then obtain mc where "negotiate ?w sample_channel 5 True ModernProtocol = Inr mc" by blast
  with negotiated_sessions_are_supported [OF this] show ?thesis by auto
qed

subsection \<open>Pagination\<close>

text \<open>
  A listing that succeeds: one request per page, each after the first with the cursor the page before
  gave; a run lists the pages with the cursors that follow them.
\<close>

fun fetched ::
  "client_world \<Rightarrow> string \<Rightarrow> string \<Rightarrow> json \<Rightarrow> mcp_client \<Rightarrow> (json list \<times> string option) list \<Rightarrow> mcp_client \<Rightarrow> bool" where
  "fetched w m field params mc [] mc' \<longleftrightarrow> False"
| "fetched w m field params mc ((page, next_cursor) # pages) mc' \<longleftrightarrow>
     (case request w m params mc of
        (Inl e, _) \<Rightarrow> False
      | (Inr result, mc1) \<Rightarrow>
          page_of m field result = Inr page
          \<and> (case next_cursor of
               None \<Rightarrow> vget ''nextCursor'' result = None \<and> pages = [] \<and> mc' = mc1
             | Some cursor \<Rightarrow>
                 vget ''nextCursor'' result = Some (JString cursor)
                 \<and> fetched w m field (JObject [(''cursor'', JString cursor)]) mc1 pages mc'))"

fun cursors_of :: "(json list \<times> string option) list \<Rightarrow> string list" where
  "cursors_of [] = []"
| "cursors_of ((page, None) # pages) = cursors_of pages"
| "cursors_of ((page, Some cursor) # pages) = cursor # cursors_of pages"

lemma collect_pages_iff:
  "collect_pages w m field entries params cursors mc = (Inr result, mc') \<longleftrightarrow>
     (\<exists>pages. fetched w m field params mc pages mc' \<and> result = entries @ concat (map fst pages)
        \<and> distinct (cursors_of pages) \<and> set (cursors_of pages) \<inter> cursors = {})"
proof (induction w m field entries params cursors mc arbitrary: result mc' rule: collect_pages.induct)
  case (1 w m field entries params cursors mc)
  note simps = collect_pages.simps [of w m field entries params cursors mc]
  have Ex_pages: "(\<exists>pages. P pages) \<longleftrightarrow> P [] \<or> (\<exists>page c pages. P ((page, c) # pages))" for P
    by (metis list.exhaust prod.exhaust)
  obtain r mc1 where rq: "request w m params mc = (r, mc1)" by fastforce
  show ?case
  proof (cases r)
    case (Inl e)
    with rq show ?thesis by (subst Ex_pages) (simp add: simps)
  next
    case (Inr v)
    show ?thesis
    proof (cases "page_of m field v")
      case (Inl e)
      with rq Inr show ?thesis by (subst Ex_pages) (simp add: simps)
    next
      case page: (Inr page)
      show ?thesis
      proof (cases "vget ''nextCursor'' v")
        case None
        with rq Inr page
        have "fetched w m field params mc ((p, c) # ps) mc' \<longleftrightarrow> p = page \<and> c = None \<and> ps = [] \<and> mc' = mc1" for p c ps
          by (auto split: option.splits)
        with rq Inr page None show ?thesis by (subst Ex_pages) (auto simp: simps)
      next
        case (Some next_cursor)
        show ?thesis
        proof (cases "as_str next_cursor")
          case None
          with rq Inr page Some show ?thesis
            by (subst Ex_pages) (auto simp: simps split: option.splits)
        next
          case cursor: (Some cursor)
          then have next_cursor: "next_cursor = JString cursor" by (simp add: as_str_Some)
          with rq Inr page Some
          have unfold: "fetched w m field params mc ((p, c) # ps) mc' \<longleftrightarrow> p = page \<and> c = Some cursor
              \<and> fetched w m field (JObject [(''cursor'', JString cursor)]) mc1 ps mc'" for p c ps
            by (auto split: option.splits)
          note IH = 1 [OF rq [symmetric] Inr page Some cursor]
          show ?thesis
          proof (cases "cursor \<in> cursors")
            case True
            with rq Inr page Some cursor show ?thesis
              by (subst Ex_pages) (simp add: simps unfold del: fetched.simps(2))
          next
            case False
            have "collect_pages w m field entries params cursors mc =
                collect_pages w m field (entries @ page) (JObject [(''cursor'', JString cursor)])
                  (insert cursor cursors) mc1"
              using rq Inr page Some cursor False by (simp add: simps)
            with IH [OF False, of result mc'] False show ?thesis
              by (subst Ex_pages) (auto simp: unfold simp del: fetched.simps(2))
          qed
        qed
      qed
    qed
  qed
qed


end
