(* ===== verification/Ordered.thy ===== *)
theory Ordered
  imports Prelude "HOL-Library.List_Lexorder" "HOL-Library.Char_ord" "HOL-Library.Product_Lexorder"
begin

text \<open>
  \<open>BTreeMap\<close> as its list of entries in key order.  Strings compare byte by byte, which is the
  lexicographic order of \<open>List_Lexorder\<close> over \<open>Char_ord\<close>.
\<close>

type_synonym ('k, 'v) btree = "('k \<times> 'v) list"

definition bt_get :: "'k \<Rightarrow> ('k, 'v) btree \<Rightarrow> 'v option" where
  "bt_get k m = map_of m k"

fun bt_insert :: "'k::linorder \<Rightarrow> 'v \<Rightarrow> ('k, 'v) btree \<Rightarrow> ('k, 'v) btree" where
  "bt_insert k v [] = [(k, v)]"
| "bt_insert k v (e # m) =
     (if k < fst e then (k, v) # e # m
      else if k = fst e then (k, v) # m
      else e # bt_insert k v m)"

definition bt_remove :: "'k \<Rightarrow> ('k, 'v) btree \<Rightarrow> ('k, 'v) btree" where
  "bt_remove k m = filter (\<lambda>e. fst e \<noteq> k) m"

abbreviation bt_wf :: "('k::linorder, 'v) btree \<Rightarrow> bool" where
  "bt_wf m \<equiv> sorted_wrt (<) (map fst m)"

text \<open>\<open>collect\<close> into a map: the entries are inserted in turn.\<close>

abbreviation bt_collect :: "('k::linorder \<times> 'v) list \<Rightarrow> ('k, 'v) btree" where
  "bt_collect kvs \<equiv> fold (\<lambda>(k, v). bt_insert k v) kvs []"

lemma fst_set_bt_insert: "fst ` set (bt_insert k v m) = insert k (fst ` set m)"
  by (induction k v m rule: bt_insert.induct) auto

lemma bt_wf_insert: "bt_wf m \<Longrightarrow> bt_wf (bt_insert k v m)"
  by (induction k v m rule: bt_insert.induct) (auto simp: fst_set_bt_insert simp flip: image_set)

lemma bt_wf_remove: "bt_wf m \<Longrightarrow> bt_wf (bt_remove k m)"
  by (auto simp: bt_remove_def sorted_wrt_map intro: sorted_wrt_filter)

lemma bt_get_insert: "bt_wf m \<Longrightarrow> bt_get k (bt_insert k' v m) = (if k = k' then Some v else bt_get k m)"
  by (induction k' v m rule: bt_insert.induct) (auto simp: bt_get_def)

lemma bt_get_remove: "bt_get k (bt_remove k' m) = (if k = k' then None else bt_get k m)"
  by (induction m) (auto simp: bt_get_def bt_remove_def)

interpretation bt: dictionary "bt_get :: 'k::linorder \<Rightarrow> ('k \<times> 'v) list \<Rightarrow> 'v option" bt_insert bt_remove bt_wf
  by unfold_locales (auto simp: bt_get_insert bt_get_remove bt_wf_insert bt_wf_remove)

lemma bt_wf_distinct: "bt_wf m \<Longrightarrow> distinct (map fst m)"
  by (simp add: strict_sorted_iff)

text \<open>A map is determined by its lookups.\<close>

lemma bt_ext:
  assumes "bt_wf m" and "bt_wf m'" and "\<And>k. bt_get k m = bt_get k m'"
  shows "m = m'"
proof -
  have "set m = set m'"
    using assms bt_wf_distinct by (intro map_of_inject_set [THEN iffD1]) (auto simp: bt_get_def fun_eq_iff)
  moreover have "inj_on fst (set m)" using bt_wf_distinct [OF assms(1)] by (simp add: distinct_map)
  moreover have "sorted (map fst m)" "distinct (map fst m)" "sorted (map fst m')" "distinct (map fst m')"
    using assms(1,2) by (simp_all add: strict_sorted_iff)
  ultimately show ?thesis by (intro map_sorted_distinct_set_unique [of fst]) auto
qed

lemma bt_wf_collect: "bt_wf (bt_collect kvs)"
  by (rule bt.invar_fold_ins) simp

lemma bt_get_collect: "bt_get k (bt_collect kvs) = map_of (rev kvs) k"
  by (subst bt.get_fold_ins) (auto simp: bt_get_def split: option.splits)

lemma bt_get_collect_distinct: "distinct (map fst kvs) \<Longrightarrow> bt_get k (bt_collect kvs) = map_of kvs k"
  by (simp add: bt_get_collect map_of_inject_set [THEN iffD2, of "rev kvs" kvs] rev_map [symmetric])

end
