(* ===== verification/Tokens.thy ===== *)
theory Tokens
  imports Prelude
begin

text \<open>
  The small languages of the configuration and of the command line: command strings
  (\<open>src/stdio_tokens.rs\<close>), call expressions (\<open>src/tool_expression.rs\<close>) and environment
  placeholders (\<open>src/server_config_values.rs\<close>).  Strings are UTF-8 bytes; a white-space character
  is the \<open>ws_len\<close> bytes it takes, and every other character that matters is ASCII.
\<close>

abbreviation BACKSLASH :: char where "BACKSLASH \<equiv> CHR 0x5C"
abbreviation DQUOTE :: char where "DQUOTE \<equiv> CHR 0x22"
abbreviation SQUOTE :: char where "SQUOTE \<equiv> CHR 0x27"

definition is_quote :: "char \<Rightarrow> bool" where
  "is_quote c \<longleftrightarrow> c = SQUOTE \<or> c = DQUOTE"

subsection \<open>Command strings\<close>

definition windows_absolute :: "string \<Rightarrow> bool" where
  "windows_absolute s \<longleftrightarrow>
     (case s of
        drive # colon # slash # _ \<Rightarrow>
          is_ascii_alphabetic drive \<and> colon = CHR '':'' \<and> (slash = BACKSLASH \<or> slash = CHR ''/'')
      | _ \<Rightarrow> False)
     \<or> starts_with [BACKSLASH, BACKSLASH] s"

record token_state =
  tk_tokens :: "string list"
  tk_current :: string
  tk_quote :: "char option"
  tk_started :: bool

definition push_text :: "string \<Rightarrow> token_state \<Rightarrow> token_state" where
  "push_text text t = t\<lparr>tk_current := tk_current t @ text, tk_started := True\<rparr>"

definition end_token :: "token_state \<Rightarrow> token_state" where
  "end_token t =
     (if tk_started t
      then t\<lparr>tk_tokens := tk_tokens t @ [tk_current t], tk_current := [], tk_started := False\<rparr>
      else t)"

text \<open>One turn of the loop: the number of bytes consumed and the new state.\<close>

definition token_step :: "string \<Rightarrow> token_state \<Rightarrow> nat \<times> token_state" where
  "token_step s t =
     (let c = hd s in
      if is_quote c \<and> tk_quote t = Some c then (1, t\<lparr>tk_quote := None\<rparr>)
      else if is_quote c \<and> tk_quote t = None then (1, t\<lparr>tk_quote := Some c, tk_started := True\<rparr>)
      else if c = BACKSLASH \<and> \<not> windows_absolute (tk_current t) then
        (let next = tl s;
             n = (if next \<noteq> [] \<and> is_quote (hd next) then 1 else ws_len next)
         in if n > 0 then (Suc n, push_text (take n next) t) else (1, push_text [c] t))
      else if ws_len s > 0 \<and> tk_quote t = None then (ws_len s, end_token t)
      else if ws_len s > 0 then (ws_len s, push_text (take (ws_len s) s) t)
      else (1, push_text [c] t))"

lemma token_step_progress: "token_step s t = (n, t') \<Longrightarrow> 0 < n"
  by (auto simp: token_step_def Let_def split: if_splits)

function token_loop :: "string \<Rightarrow> token_state \<Rightarrow> token_state" where
  "token_loop s t =
     (if s = [] then t else (case token_step s t of (n, t') \<Rightarrow> token_loop (drop n s) t'))"
  by pat_completeness auto
termination
  by (relation "measure (\<lambda>(s, t). length s)") (auto dest!: token_step_progress [OF sym])

declare token_loop.simps [simp del]

definition command_tokens :: "string \<Rightarrow> string + string list" where
  "command_tokens command =
     (let t = token_loop (trim command)
                \<lparr>tk_tokens = [], tk_current = [], tk_quote = None, tk_started = False\<rparr>
      in if is_some (tk_quote t) then Inl ''unclosed quote in command string''
         else Inr (if tk_started t then tk_tokens t @ [tk_current t] else tk_tokens t))"

subsection \<open>Call expressions\<close>

text \<open>
  \<open>split_expression\<close>: the parts read so far, the text of the current part, the closing brackets that
  are due, the open quote and whether the next character is escaped.
\<close>

fun split_from ::
  "string list \<Rightarrow> string \<Rightarrow> string \<Rightarrow> char option \<Rightarrow> bool \<Rightarrow> string \<Rightarrow> string + string list" where
  "split_from parts part delimiters quote escaped [] =
     (if is_some quote \<or> delimiters \<noteq> [] then Inl ''Unclosed quote or collection in call expression''
      else Inr (if trim part = [] then parts else parts @ [trim part]))"
| "split_from parts part delimiters quote escaped (c # cs) =
     (let on = (\<lambda>ds q e. split_from parts (part @ [c]) ds q e cs) in
      if escaped then on delimiters quote False
      else if c = BACKSLASH \<and> is_some quote then on delimiters quote True
      else if is_some quote then on delimiters (if quote = Some c then None else quote) False
      else if is_quote c then on delimiters (Some c) False
      else if c = CHR ''['' then on (CHR '']'' # delimiters) None False
      else if c = CHR ''{'' then on (CHR ''}'' # delimiters) None False
      else if c = CHR ''('' then on (CHR '')'' # delimiters) None False
      else if c = CHR '']'' \<or> c = CHR ''}'' \<or> c = CHR '')'' then
        (case delimiters of
           d # ds \<Rightarrow> if d = c then on ds None False else Inl ''Unbalanced call expression''
         | [] \<Rightarrow> Inl ''Unbalanced call expression'')
      else if c = CHR '','' \<and> delimiters = [] then
        split_from (parts @ [trim part]) [] delimiters None False cs
      else on delimiters None False)"

definition split_expression :: "string \<Rightarrow> string + string list" where
  "split_expression contents = split_from [] [] [] None False contents"

subsection \<open>Environment placeholders\<close>

definition valid_environment_name :: "string \<Rightarrow> bool" where
  "valid_environment_name name \<longleftrightarrow>
     (case name of
        [] \<Rightarrow> False
      | c # cs \<Rightarrow> (is_ascii_alphabetic c \<or> c = CHR ''_'')
          \<and> list_all (\<lambda>c. is_ascii_alphanumeric c \<or> c = CHR ''_'') cs)"

definition missing_variable :: "string \<Rightarrow> string" where
  "missing_variable name = ''required environment variable '' @ [SQUOTE] @ name @ [SQUOTE] @ '' is missing''"

definition looks_like_path :: "string \<Rightarrow> bool" where
  "looks_like_path v \<longleftrightarrow>
     windows_absolute v \<or> starts_with ''/'' v \<or> starts_with ''~'' v
     \<or> CHR ''/'' \<in> set v \<or> BACKSLASH \<in> set v"

text \<open>The value of one placeholder.\<close>

definition placeholder_value ::
  "(string \<Rightarrow> string + string option) \<Rightarrow> string \<Rightarrow> string option \<Rightarrow> string + string" where
  "placeholder_value environment name fallback =
     (case environment name of
        Inl e \<Rightarrow> Inl e
      | Inr existing \<Rightarrow>
          (case (existing, fallback) of
             (Some x, f) \<Rightarrow> if x \<noteq> [] then Inr x else (case f of Some d \<Rightarrow> Inr d | None \<Rightarrow> Inr [])
           | (None, Some d) \<Rightarrow> Inr d
           | (None, None) \<Rightarrow> Inl (missing_variable name)))"

definition placeholder_parts :: "string \<Rightarrow> string \<times> string option" where
  "placeholder_parts placeholder =
     (case split_once '':-'' placeholder of
        Some (name, fallback) \<Rightarrow> (name, Some fallback)
      | None \<Rightarrow> (placeholder, None))"

lemma placeholder_found: "str_find ''${'' s = Some i \<Longrightarrow> 0 < length s"
  by (cases s) auto

function expand_from ::
  "(string \<Rightarrow> string + string option) \<Rightarrow> string \<Rightarrow> string \<Rightarrow> string + string" where
  "expand_from environment result remaining =
     (case str_find ''${'' remaining of
        None \<Rightarrow> Inr (result @ remaining)
      | Some position \<Rightarrow>
          let pre = take position remaining; after = drop (position + 2) remaining in
          (case str_find ''}'' after of
             None \<Rightarrow> Inr (result @ remaining)
           | Some end_ \<Rightarrow>
               (case placeholder_parts (take end_ after) of
                  (name, fallback) \<Rightarrow>
                    if \<not> valid_environment_name name
                    then expand_from environment (result @ pre @ ''${'') after
                    else
                      (case placeholder_value environment name fallback of
                         Inl e \<Rightarrow> Inl e
                       | Inr v \<Rightarrow>
                           expand_from environment
                             (result @ (case strip_suffix [BACKSLASH] pre of Some p \<Rightarrow> p | None \<Rightarrow> pre) @ v)
                             (drop (end_ + 1) after)))))"
  by pat_completeness auto
termination
  by (relation "measure (\<lambda>(_, _, remaining). length remaining)") (auto dest!: placeholder_found)

declare expand_from.simps [simp del]

definition expand_environment :: "(string \<Rightarrow> string + string option) \<Rightarrow> string \<Rightarrow> string + string" where
  "expand_environment environment v =
     (if str_contains ''${env:'' v
      then Inl ''unsupported environment placeholder; use ${VAR}, ${VAR:-fallback}, or $env:VAR''
      else
        (case strip_prefix ''$env:'' v of
           Some name \<Rightarrow>
             if \<not> valid_environment_name name then Inl ''invalid whole-value environment placeholder''
             else (case environment name of
                     Inl e \<Rightarrow> Inl e
                   | Inr (Some x) \<Rightarrow> Inr x
                   | Inr None \<Rightarrow> Inl (missing_variable name))
         | None \<Rightarrow> expand_from environment [] v))"

subsection \<open>Quoted tokens\<close>

definition quote_token :: "string \<Rightarrow> string" where
  "quote_token t = DQUOTE # t @ [DQUOTE]"

fun join_tokens :: "string list \<Rightarrow> string" where
  "join_tokens [] = []"
| "join_tokens [t] = quote_token t"
| "join_tokens (t # ts) = quote_token t @ CHR '' '' # join_tokens ts"

lemma ws_len_inside:
  "t \<noteq> [] \<Longrightarrow> ws_len (t @ DQUOTE # rest) \<le> length t"
  by (cases t rule: ws_len.cases; cases rest)
     (auto simp: is_ascii_ws_def ws_pair_def ws_triple_def in_range_def)

lemma token_loop_inside:
  assumes "DQUOTE \<notin> set t" and "BACKSLASH \<notin> set t" and "tk_quote st = Some DQUOTE" and "tk_started st"
  shows "token_loop (t @ DQUOTE # rest) st
       = token_loop rest (st\<lparr>tk_current := tk_current st @ t, tk_quote := None\<rparr>)"
  using assms
proof (induction "length t" arbitrary: t st rule: less_induct)
  case less
  show ?case
  proof (cases t)
    case Nil
    with less.prems show ?thesis
      by (subst token_loop.simps) (simp add: token_step_def is_quote_def)
  next
    case (Cons c cs)
    let ?s = "t @ DQUOTE # rest"
    define n where "n = (if ws_len ?s > 0 then ws_len ?s else 1)"
    have n: "0 < n" "n \<le> length t" using ws_len_inside [of t rest] Cons by (auto simp: n_def)
    from less.prems Cons have c: "c \<noteq> DQUOTE" "c \<noteq> BACKSLASH" "hd ?s = c" by auto
    have "token_step ?s st = (n, push_text (take n ?s) st)"
    proof (cases "ws_len ?s > 0")
      case True
      with c less.prems(3) show ?thesis by (simp add: token_step_def n_def)
    next
      case False
      with c less.prems(3) Cons show ?thesis by (simp add: token_step_def n_def)
    qed
    moreover have "take n ?s = take n t" using n by simp
    ultimately have "token_step ?s st = (n, push_text (take n t) st)" by simp
    then have "token_loop ?s st = token_loop (drop n t @ DQUOTE # rest) (push_text (take n t) st)"
      using n by (subst token_loop.simps) simp
    also have "\<dots> = token_loop rest ((push_text (take n t) st)\<lparr>tk_current := tk_current (push_text (take n t) st) @ drop n t,
        tk_quote := None\<rparr>)"
      using less.prems n Cons
      by (intro less.hyps) (auto simp: push_text_def dest: in_set_dropD)
    finally show ?thesis using less.prems by (cases st) (simp add: push_text_def)
  qed
qed

definition between :: "string list \<Rightarrow> token_state" where
  "between ts = \<lparr>tk_tokens = ts, tk_current = [], tk_quote = None, tk_started = False\<rparr>"

lemma token_loop_quoted:
  assumes "DQUOTE \<notin> set t" and "BACKSLASH \<notin> set t"
  shows "token_loop (quote_token t @ rest) (between ts)
       = token_loop rest \<lparr>tk_tokens = ts, tk_current = t, tk_quote = None, tk_started = True\<rparr>"
proof -
  have "token_loop (quote_token t @ rest) (between ts)
      = token_loop (t @ DQUOTE # rest) ((between ts)\<lparr>tk_quote := Some DQUOTE, tk_started := True\<rparr>)"
    by (subst token_loop.simps) (simp add: quote_token_def token_step_def is_quote_def between_def)
  also have "\<dots> = token_loop rest \<lparr>tk_tokens = ts, tk_current = t, tk_quote = None, tk_started = True\<rparr>"
    using assms by (subst token_loop_inside) (simp_all add: between_def)
  finally show ?thesis .
qed

lemma ws_len_space [simp]: "ws_len (CHR '' '' # rest) = 1"
  by (cases "CHR '' '' # rest" rule: ws_len.cases) (auto simp: is_ascii_ws_def)

lemma token_loop_space:
  "token_loop (CHR '' '' # rest) \<lparr>tk_tokens = ts, tk_current = t, tk_quote = None, tk_started = True\<rparr>
     = token_loop rest (between (ts @ [t]))"
  by (subst token_loop.simps) (simp add: token_step_def is_quote_def end_token_def between_def)

lemma token_loop_join:
  assumes "\<forall>t \<in> set toks. DQUOTE \<notin> set t \<and> BACKSLASH \<notin> set t" and "toks \<noteq> []"
  shows "token_loop (join_tokens toks) (between ts)
       = \<lparr>tk_tokens = ts @ butlast toks, tk_current = last toks, tk_quote = None, tk_started = True\<rparr>"
  using assms
proof (induction toks arbitrary: ts rule: join_tokens.induct)
  case (2 t)
  with token_loop_quoted [of t "[]" ts] show ?case by (simp add: token_loop.simps [of "[]"])
next
  case (3 t t' toks)
  then have "token_loop (join_tokens (t # t' # toks)) (between ts)
      = token_loop (join_tokens (t' # toks)) (between (ts @ [t]))"
    using token_loop_quoted [of t "CHR '' '' # join_tokens (t' # toks)" ts] token_loop_space by simp
  with 3 show ?case by simp
qed simp

lemma join_tokens_starts: "toks \<noteq> [] \<Longrightarrow> \<exists>s. join_tokens toks = DQUOTE # s"
  by (induction toks rule: join_tokens.induct) (auto simp: quote_token_def)

lemma join_tokens_ends: "toks \<noteq> [] \<Longrightarrow> \<exists>s. join_tokens toks = s @ [DQUOTE]"
proof (induction toks rule: join_tokens.induct)
  case (3 t t' toks)
  then obtain s where "join_tokens (t' # toks) = s @ [DQUOTE]" by auto
  then have "join_tokens (t # t' # toks) = (quote_token t @ CHR '' '' # s) @ [DQUOTE]" by simp
  then show ?case by blast
qed (auto simp: quote_token_def)

lemma trim_delimited:
  assumes "s = DQUOTE # a" and "s = b @ [DQUOTE]"
  shows "trim s = s"
proof -
  have "ws_len s = 0" unfolding assms(1)
    by (cases "DQUOTE # a" rule: ws_len.cases) (auto simp: is_ascii_ws_def ws_pair_def ws_triple_def)
  then have "trim_start s = s" by (rule trim_start_id)
  moreover have "ws_len_rev (rev s) = 0" unfolding assms(2)
    by (cases "DQUOTE # rev b" rule: ws_len_rev.cases) (auto simp: is_ascii_ws_def ws_pair_def ws_triple_def)
  then have "trim_start_rev (rev s) = rev s" by (simp add: trim_start_rev.simps)
  ultimately show ?thesis by (simp add: trim_def trim_end_def)
qed

text \<open>A command line written with its words in double quotes is read back word by word: blanks,
  single quotes and any other character inside a word are kept, empty words included, whenever no
  word contains a double quote or a backslash.\<close>

theorem command_words_roundtrip:
  assumes "\<forall>t \<in> set toks. DQUOTE \<notin> set t \<and> BACKSLASH \<notin> set t"
  shows "command_tokens (join_tokens toks) = Inr toks"
proof (cases "toks = []")
  case True
  then show ?thesis
    by (simp add: command_tokens_def trim_def trim_end_def trim_start_id trim_start_rev.simps token_loop.simps)
next
  case False
  with join_tokens_starts join_tokens_ends trim_delimited have "trim (join_tokens toks) = join_tokens toks" by blast
  with token_loop_join [OF assms False, of "[]"] False show ?thesis
    by (simp add: command_tokens_def between_def)
qed

theorem command_words_roundtrip_witness:
  "command_tokens (join_tokens [''npx'', ''my server'', []]) = Inr [''npx'', ''my server'', []]"
  by (rule command_words_roundtrip) simp

end
