(* ===== verification/ServerConfig.thy ===== *)
theory ServerConfig
  imports Definitions Names Ordered Tokens
begin

text \<open>
  Reading of the configuration (\<open>src/server_config.rs\<close>, \<open>server_config_entry.rs\<close>,
  \<open>server_config_settings.rs\<close>, \<open>server_config_auth.rs\<close>, \<open>server_config_values.rs\<close>).  Paths are Unix
  paths.  What the operating system and third-party parsers answer is the record \<open>config_system\<close>:
  the environment, the home and current directories, files, the JSONC parser, the URL parser and
  serde's decoding of an entry's fields.
\<close>

subsection \<open>Paths\<close>

definition path_absolute :: "string \<Rightarrow> bool" where
  "path_absolute p \<longleftrightarrow> starts_with ''/'' p"

definition path_join :: "string \<Rightarrow> string \<Rightarrow> string" where
  "path_join d p =
     (if path_absolute p then p
      else if d = [] \<or> last d = CHR ''/'' then d @ p else d @ ''/'' @ p)"

text \<open>
  \<open>Path::parent\<close>: separators and \<open>.\<close> components at the end do not count.  The helper reads the
  bytes from the end.
\<close>

fun rev_trim_path :: "string \<Rightarrow> string" where
  "rev_trim_path [] = []"
| "rev_trim_path [c] = [c]"
| "rev_trim_path (c # d # r) =
     (if c = CHR ''/'' then rev_trim_path (d # r)
      else if c = CHR ''.'' \<and> d = CHR ''/'' then rev_trim_path (d # r)
      else c # d # r)"

definition path_parent :: "string \<Rightarrow> string option" where
  "path_parent p =
     (let t = rev_trim_path (rev p) in
      if t = [] \<or> t = ''/'' then None
      else Some (rev (rev_trim_path (dropWhile (\<lambda>c. c \<noteq> CHR ''/'') t))))"

subsection \<open>Entries\<close>

datatype command = Text string | CommandTokens "string list"

datatype entry_policy = New | Preserve

record entry =
  en_url :: "string option"
  en_command :: "command option"
  en_executable :: "string option"
  en_args :: "string list"
  en_env :: "(string \<times> string) list"
  en_headers :: "(string \<times> string) list"
  en_cwd :: "string option"
  en_transport :: "string option"
  en_description :: "string option"
  en_timeout_ms :: "u64 option"
  en_protocol_version :: protocol_preference
  en_bearer_token :: "string option"
  en_bearer_token_env :: "string option"

datatype file_contents = Contents string | NotFound string | ReadError string

record config_system =
  cs_variable :: "string \<Rightarrow> string + string option"
  cs_caller :: "string + (string \<times> string) list"
  cs_home :: "string option"
  cs_current :: "string + string"
  cs_read :: "string \<Rightarrow> file_contents"
  cs_is_file :: "string \<Rightarrow> string + bool"
  cs_jsonc :: "string \<Rightarrow> (unit + json option)"
  cs_url :: "string \<Rightarrow> (string \<times> string option) option"
  cs_decode :: "json \<Rightarrow> entry option"

definition URL_FIELDS :: "string list" where
  "URL_FIELDS = [''baseUrl'', ''base_url'', ''url'', ''serverUrl'', ''server_url'']"

definition is_remote_entry :: "obj \<Rightarrow> bool" where
  "is_remote_entry e \<longleftrightarrow> list_ex (\<lambda>field. is_some (obj_get field e)) URL_FIELDS"

definition is_server_entry :: "obj \<Rightarrow> bool" where
  "is_server_entry e \<longleftrightarrow>
     is_remote_entry e \<or> is_some (obj_get ''command'' e) \<or> is_some (obj_get ''executable'' e)"

fun find_map :: "('a \<Rightarrow> 'b option) \<Rightarrow> 'a list \<Rightarrow> 'b option" where
  "find_map f [] = None"
| "find_map f (x # xs) = (case f x of Some y \<Rightarrow> Some y | None \<Rightarrow> find_map f xs)"

definition selected_url :: "json \<Rightarrow> string option" where
  "selected_url raw = find_map (\<lambda>field. Option.bind (vget field raw) as_str) URL_FIELDS"

definition decode_entry :: "config_system \<Rightarrow> json \<Rightarrow> string + entry" where
  "decode_entry sys raw =
     (case cs_decode sys raw of
        None \<Rightarrow> Inl ''Invalid server field types''
      | Some e \<Rightarrow>
          if list_ex (\<lambda>field. case vget field raw of None \<Rightarrow> False
                             | Some v \<Rightarrow> \<not> is_null v \<and> \<not> is_string v) URL_FIELDS
          then Inl ''Invalid URL field type''
          else Inr (e\<lparr>en_url := selected_url raw\<rparr>))"

definition remote_url :: "entry \<Rightarrow> string option" where
  "remote_url e = (case en_url e of Some u \<Rightarrow> if u \<noteq> [] then Some u else None | None \<Rightarrow> None)"

definition entry_transport :: "entry \<Rightarrow> string \<Rightarrow> string + string" where
  "entry_transport e tr =
     (if is_some (remote_url e) then
        (if tr \<in> {[], ''http'', ''streamable-http''} then Inr ''http''
         else if tr = ''sse'' then Inr ''sse''
         else Inl (''field '' @ [SQUOTE] @ ''transport'' @ [SQUOTE] @ '' must be http or sse for a URL''))
      else
        (if tr \<in> {[], ''stdio''} then Inr ''stdio''
         else Inl (''field '' @ [SQUOTE] @ ''transport'' @ [SQUOTE] @ '' must be stdio for a command'')))"

definition bad_url :: string where
  "bad_url = ''field '' @ [SQUOTE] @ ''url'' @ [SQUOTE] @ '' must be an absolute HTTP/SSE URL''"

definition validate_url :: "config_system \<Rightarrow> string \<Rightarrow> string + unit" where
  "validate_url sys url =
     (case cs_url sys url of
        None \<Rightarrow> Inl bad_url
      | Some (scheme, host) \<Rightarrow>
          if (scheme \<noteq> ''http'' \<and> scheme \<noteq> ''https'') \<or> host = None then Inl bad_url else Inr ())"

definition entry_executable :: "entry \<Rightarrow> string option" where
  "entry_executable e =
     (case en_command e of
        Some (Text c) \<Rightarrow> Some c
      | Some (CommandTokens tokens) \<Rightarrow> (case tokens of [] \<Rightarrow> None | t # _ \<Rightarrow> Some t)
      | None \<Rightarrow> en_executable e)"

definition validate_target :: "config_system \<Rightarrow> entry \<Rightarrow> string + unit" where
  "validate_target sys e =
     (case remote_url e of
        Some url \<Rightarrow> if CHR ''$'' \<in> set url then Inr () else validate_url sys url
      | None \<Rightarrow>
          (case entry_executable e of
             None \<Rightarrow> Inl ''needs a nonempty executable''
           | Some x \<Rightarrow> if trim x = [] then Inl ''needs a nonempty executable'' else Inr ()))"

definition entry_validate :: "config_system \<Rightarrow> entry_policy \<Rightarrow> entry \<Rightarrow> string + unit" where
  "entry_validate sys policy e =
     (if policy = New \<and> is_some (en_url e) = (is_some (en_command e) \<or> is_some (en_executable e))
      then Inl ''needs exactly one URL or command''
      else res_bind (validate_target sys e) (\<lambda>_.
        let tr = (case en_transport e of Some t \<Rightarrow> t | None \<Rightarrow> []) in
        if policy \<noteq> Preserve \<or> CHR ''$'' \<notin> set tr
        then res_bind (entry_transport e tr) (\<lambda>_. Inr ()) else Inr ()))"

subsection \<open>Settings of an entry\<close>

text \<open>On Unix names of variables are compared exactly.\<close>

definition environment_names_match :: "string \<Rightarrow> string \<Rightarrow> bool" where
  "environment_names_match configured name \<longleftrightarrow> configured = name"

definition configured_entries :: "json \<Rightarrow> obj option" where
  "configured_entries raw = Option.bind (vget ''env'' raw) as_object"

definition configured_get :: "config_system \<Rightarrow> json \<Rightarrow> string \<Rightarrow> string + string option" where
  "configured_get sys raw name =
     (case Option.bind (configured_entries raw)
             (List.find (\<lambda>e. environment_names_match (fst e) name)) of
        Some (_, v) \<Rightarrow>
          res_bind (ok_or ''env values must be strings'' (as_str v)) (\<lambda>s.
            res_bind (expand_environment (cs_variable sys) s) (\<lambda>x. Inr (Some x)))
      | None \<Rightarrow> cs_variable sys name)"

definition configured_expand :: "config_system \<Rightarrow> json \<Rightarrow> string \<Rightarrow> string + string" where
  "configured_expand sys raw v = expand_environment (configured_get sys raw) v"

definition contains_exact :: "json \<Rightarrow> string \<Rightarrow> bool" where
  "contains_exact raw name \<longleftrightarrow>
     (case configured_entries raw of None \<Rightarrow> False | Some m \<Rightarrow> is_some (obj_get name m))"

definition configured_contains :: "json \<Rightarrow> string \<Rightarrow> bool" where
  "configured_contains raw name \<longleftrightarrow>
     (case configured_entries raw of
        None \<Rightarrow> False | Some m \<Rightarrow> list_ex (\<lambda>e. environment_names_match (fst e) name) m)"

definition configured_keys :: "json \<Rightarrow> string list" where
  "configured_keys raw = (case configured_entries raw of None \<Rightarrow> [] | Some m \<Rightarrow> map fst m)"

definition nonempty_string :: "json \<Rightarrow> string \<Rightarrow> string option" where
  "nonempty_string raw key =
     (case Option.bind (vget key raw) as_str of
        Some v \<Rightarrow> if trim v \<noteq> [] then Some v else None
      | None \<Rightarrow> None)"

definition string_alias :: "json \<Rightarrow> string \<Rightarrow> string \<Rightarrow> string option" where
  "string_alias raw camel snake =
     (case nonempty_string raw camel of Some v \<Rightarrow> Some v | None \<Rightarrow> nonempty_string raw snake)"

record oauth_settings =
  oa_auth :: "string option"
  oa_token_cache_directory :: "string option"
  oa_client_name :: "string option"
  oa_client_id :: "string option"
  oa_client_secret :: "string option"
  oa_client_secret_env :: "string option"
  oa_token_auth_method :: "string option"
  oa_redirect_url :: "string option"
  oa_client_metadata_url :: "string option"
  oa_scope :: "string option"
  oa_helper_arguments :: "json list option"

definition oauth_settings_from_raw :: "json \<Rightarrow> oauth_settings" where
  "oauth_settings_from_raw raw =
     \<lparr>oa_auth = nonempty_string raw ''auth'',
      oa_token_cache_directory = string_alias raw ''tokenCacheDir'' ''token_cache_dir'',
      oa_client_name = string_alias raw ''clientName'' ''client_name'',
      oa_client_id = string_alias raw ''oauthClientId'' ''oauth_client_id'',
      oa_client_secret = string_alias raw ''oauthClientSecret'' ''oauth_client_secret'',
      oa_client_secret_env = string_alias raw ''oauthClientSecretEnv'' ''oauth_client_secret_env'',
      oa_token_auth_method =
        string_alias raw ''oauthTokenEndpointAuthMethod'' ''oauth_token_endpoint_auth_method'',
      oa_redirect_url = string_alias raw ''oauthRedirectUrl'' ''oauth_redirect_url'',
      oa_client_metadata_url = string_alias raw ''oauthClientMetadataUrl'' ''oauth_client_metadata_url'',
      oa_scope =
        (case string_alias raw ''oauthRequestedScope'' ''oauth_requested_scope'' of
           Some s \<Rightarrow> Some s | None \<Rightarrow> string_alias raw ''oauthScope'' ''oauth_scope''),
      oa_helper_arguments =
        Option.bind (Option.bind
          (case vget ''oauthCommand'' raw of Some c \<Rightarrow> Some c | None \<Rightarrow> vget ''oauth_command'' raw)
          (vget ''args'')) as_array\<rparr>"

definition projection :: "oauth_settings \<Rightarrow> (string \<times> string option) list" where
  "projection s =
     [(''auth'', oa_auth s), (''tokenCacheDir'', oa_token_cache_directory s),
      (''clientName'', oa_client_name s), (''oauthClientId'', oa_client_id s),
      (''oauthClientSecretEnv'', oa_client_secret_env s),
      (''oauthTokenEndpointAuthMethod'', oa_token_auth_method s),
      (''oauthRedirectUrl'', oa_redirect_url s), (''oauthClientMetadataUrl'', oa_client_metadata_url s),
      (''oauthRequestedScope'', oa_scope s)]"

definition configured_lifecycle :: "json \<Rightarrow> bool option" where
  "configured_lifecycle raw =
     Option.bind (vget ''lifecycle'' raw) (\<lambda>lifecycle.
       case (case lifecycle of
               JString s \<Rightarrow> Some s
             | JObject m \<Rightarrow> Option.bind (vget ''mode'' lifecycle) as_str
             | _ \<Rightarrow> None) of
         Some mode \<Rightarrow> if mode = ''keep-alive'' then Some True else if mode = ''ephemeral'' then Some False else None
       | None \<Rightarrow> None)"

subsection \<open>Values\<close>

definition expand_home :: "config_system \<Rightarrow> string \<Rightarrow> string + string" where
  "expand_home sys path =
     (case (if path = ''~'' then Some []
            else case strip_prefix ''~/'' path of Some s \<Rightarrow> Some s
                 | None \<Rightarrow> strip_prefix [CHR ''~'', BACKSLASH] path) of
        Some rest \<Rightarrow>
          res_bind (ok_or ''home directory not found'' (cs_home sys)) (\<lambda>home. Inr (path_join home rest))
      | None \<Rightarrow> Inr path)"

definition resolve_path :: "config_system \<Rightarrow> string \<Rightarrow> string \<Rightarrow> string + string" where
  "resolve_path sys path directory =
     res_bind (expand_home sys path) (\<lambda>path.
       if path_absolute path \<or> windows_absolute path then Inr path else Inr (path_join directory path))"

definition existing_command_path :: "config_system \<Rightarrow> string \<Rightarrow> string \<Rightarrow> string + bool" where
  "existing_command_path sys c directory =
     (if CHR '' '' \<notin> set c \<or> \<not> looks_like_path c \<or> (c \<noteq> [] \<and> is_quote (hd c)) then Inr False
      else res_bind (resolve_path sys c directory) (\<lambda>path.
        with_context ''could not inspect command path'' (cs_is_file sys path)))"

subsection \<open>Normalization of an entry\<close>

definition field :: "string \<Rightarrow> string" where
  "field name = ''field '' @ [SQUOTE] @ name @ [SQUOTE]"

text \<open>Expansion of the values of a map, stopping at the first error.\<close>

definition expand_values ::
  "(string \<Rightarrow> string + string) \<Rightarrow> string \<Rightarrow> (string \<times> string) list \<Rightarrow> string + (string \<times> string) list" where
  "expand_values expand name entries =
     res_bind (traverse (\<lambda>(k, v). res_bind (with_context (field name) (expand v)) (\<lambda>x. Inr (k, x))) entries)
       (\<lambda>kvs. Inr (bt_collect kvs))"

definition effective_environment ::
  "config_system \<Rightarrow> (string \<times> string) list \<Rightarrow> string \<Rightarrow> string + string option" where
  "effective_environment sys configured name =
     (case List.find (\<lambda>e. environment_names_match (fst e) name) configured of
        None \<Rightarrow> cs_variable sys name
      | Some (_, v) \<Rightarrow> Inr (Some v))"

definition normalized_headers ::
  "(string \<Rightarrow> string + string) \<Rightarrow> entry \<Rightarrow> string + (string \<times> string) list" where
  "normalized_headers expand e =
     res_bind (expand_values expand ''headers'' (en_headers e)) (\<lambda>headers.
     res_bind
       (case en_bearer_token e of
          None \<Rightarrow> Inr headers
        | Some token \<Rightarrow>
            res_bind (with_context (field ''bearerToken'') (expand token)) (\<lambda>t.
              Inr (bt_insert ''Authorization'' (''Bearer '' @ t) headers))) (\<lambda>headers.
       (case en_bearer_token_env e of
          None \<Rightarrow> Inr headers
        | Some name \<Rightarrow>
            res_bind (with_context (field ''bearerTokenEnv'') (expand (''$env:'' @ name))) (\<lambda>t.
              Inr (bt_insert ''Authorization'' t headers)))))"

definition normalized_tokens :: "config_system \<Rightarrow> entry \<Rightarrow> string \<Rightarrow> string + string list" where
  "normalized_tokens sys e directory =
     (let expand = expand_environment (cs_variable sys);
          c = (case en_command e of Some c \<Rightarrow> Some c | None \<Rightarrow> map_option Text (en_executable e))
      in case c of
           Some (CommandTokens tokens) \<Rightarrow> traverse (\<lambda>v. with_context (field ''command'') (expand v)) tokens
         | Some (Text c) \<Rightarrow>
             res_bind (with_context (field ''command'') (expand c)) (\<lambda>c.
             res_bind (if en_args e \<noteq> [] then Inr True else existing_command_path sys c directory) (\<lambda>whole.
               if whole
               then res_bind (traverse (\<lambda>a. with_context (field ''args'') (expand a)) (en_args e))
                      (\<lambda>args. Inr (c # args))
               else with_context (field ''command'') (command_tokens c)))
         | None \<Rightarrow> Inl ''missing baseUrl/url or command definition'')"

definition normalized_command ::
  "config_system \<Rightarrow> entry \<Rightarrow> string \<Rightarrow> 'a server_def \<Rightarrow> string + 'a server_def" where
  "normalized_command sys e directory d =
     res_bind (normalized_tokens sys e directory) (\<lambda>tokens.
     case tokens of
       [] \<Rightarrow> Inl (field ''command'' @ '' must contain an executable'')
     | c # args \<Rightarrow>
         if trim c = [] then Inl (field ''command'' @ '' must contain an executable'')
         else
           res_bind (if looks_like_path c then resolve_path sys c directory else Inr c) (\<lambda>c.
           res_bind
             (case en_cwd e of
                None \<Rightarrow> Inr None
              | Some v \<Rightarrow> res_bind (with_context (field ''cwd'') (expand_environment (cs_variable sys) v))
                           (\<lambda>v. Inr (Some v))) (\<lambda>cwd.
           res_bind
             (case cwd of
                None \<Rightarrow> Inr directory
              | Some v \<Rightarrow> if v = [] then Inr directory else resolve_path sys v directory) (\<lambda>cwd.
           res_bind (with_context ''could not capture caller environment'' (cs_caller sys)) (\<lambda>caller.
           Inr (d\<lparr>sd_command := c, sd_args := args, sd_cwd := Some cwd,
                  sd_env := fold (\<lambda>(k, v). bt_insert k v) (sd_env d) caller, sd_clear_env := True\<rparr>))))))"

definition base_definition ::
  "string \<Rightarrow> string \<Rightarrow> string \<Rightarrow> entry \<Rightarrow> string \<Rightarrow> string \<Rightarrow> (string \<times> string) list \<Rightarrow> (string \<times> string) list
     \<Rightarrow> 'a server_def" where
  "base_definition name source directory e tr description env headers =
     default_definition\<lparr>
       sd_credential_scope := Some directory,
       sd_configuration_entry := Some \<lparr>ce_source = source, ce_name = name, ce_scope = Some directory,
                                       ce_credential_store = None\<rparr>,
       sd_description := description, sd_timeout_ms := en_timeout_ms e,
       sd_protocol_version := en_protocol_version e, sd_env := env, sd_headers := headers,
       sd_transport := tr\<rparr>"

definition normalize_entry ::
  "config_system \<Rightarrow> string \<Rightarrow> string \<Rightarrow> entry \<Rightarrow> string \<Rightarrow> string + 'a server_def" where
  "normalize_entry sys name source e directory =
     (let expand = expand_environment (cs_variable sys);
          text = (\<lambda>t. case t of Some s \<Rightarrow> s | None \<Rightarrow> [])
      in
      res_bind (with_context (field ''transport'') (expand (text (en_transport e)))) (\<lambda>tr.
      res_bind (entry_transport e tr) (\<lambda>tr.
      res_bind (with_context (field ''description'') (expand (text (en_description e)))) (\<lambda>description.
      res_bind (expand_values expand ''env'' (en_env e)) (\<lambda>env.
      let effective = expand_environment (effective_environment sys env) in
      res_bind (normalized_headers effective e) (\<lambda>headers.
      let d = base_definition name source directory e tr description env headers
      in
      case remote_url e of
        Some url \<Rightarrow>
          res_bind (with_context (field ''url'') (effective url)) (\<lambda>url.
          res_bind (validate_url sys url) (\<lambda>_. Inr (d\<lparr>sd_url := url\<rparr>)))
      | None \<Rightarrow> normalized_command sys e directory d))))))"

subsection \<open>Documents\<close>

record 'a configured_server =
  cv_name :: string
  cv_definition :: "'a server_def"
  cv_raw :: json
  cv_source :: string

record 'a server_configuration =
  sc_source :: string
  sc_servers :: "(string \<times> 'a configured_server) list"
  sc_credential_scope :: "string option"
  sc_warnings :: "string list"

definition legacy_imports :: "json \<Rightarrow> string + json list" where
  "legacy_imports document =
     (case vget ''imports'' document of
        None \<Rightarrow> Inr []
      | Some v \<Rightarrow>
          (case v of
             JArray imports \<Rightarrow> if list_all is_string imports then Inr imports
                               else Inl ''imports must be an array of strings''
           | _ \<Rightarrow> Inl ''imports must be an array of strings''))"

definition validate_server :: "config_system \<Rightarrow> entry_policy \<Rightarrow> string \<times> json \<Rightarrow> string + unit" where
  "validate_server sys policy e =
     (case e of (name, raw) \<Rightarrow>
        if trim name = [] then Inl ''Server name cannot be empty''
        else
          res_bind (with_context (''Invalid definition for server '' @ [SQUOTE] @ name @ [SQUOTE])
             (res_bind (decode_entry sys raw) (entry_validate sys policy))) (\<lambda>_.
          res_bind (tool_filter_from_raw raw) (\<lambda>_. Inr ())))"

definition validate_entries :: "config_system \<Rightarrow> entry_policy \<Rightarrow> json \<Rightarrow> string + unit" where
  "validate_entries sys policy document =
     res_bind (legacy_imports document) (\<lambda>_.
     res_bind (ok_or ''MCP config needs an mcpServers object''
                 (Option.bind (vget ''mcpServers'' document) as_object)) (\<lambda>servers.
     res_bind (traverse (validate_server sys policy) servers) (\<lambda>_. Inr ())))"

definition mcp_config :: "string \<Rightarrow> string" where
  "mcp_config source = ''MCP config '' @ source"

definition invalid_definition :: "string \<Rightarrow> string \<Rightarrow> string" where
  "invalid_definition name source =
     ''invalid server definition for '' @ [SQUOTE] @ name @ [SQUOTE] @ '' in '' @ source
     @ '': expected string fields, string arrays/maps, an unsigned timeoutMs, and protocolVersion auto, legacy, or 2026-07-28''"

definition import_warning :: "string \<Rightarrow> json list \<Rightarrow> string list" where
  "import_warning source imports =
     (if imports = [] then []
      else [''Ignoring '' @ show_nat (length imports) @ '' legacy import(s) in '' @ source
            @ ''; run `mcp-cli import SOURCE` to copy server definitions explicitly.''])"

definition configure_server ::
  "config_system \<Rightarrow> string \<Rightarrow> string \<Rightarrow> string \<times> json \<Rightarrow> string + string \<times> 'a configured_server" where
  "configure_server sys source directory e =
     (case e of (name, raw) \<Rightarrow>
        res_bind (map_err (invalid_definition name source) (decode_entry sys raw)) (\<lambda>en.
        res_bind (with_context (''server '' @ [SQUOTE] @ name @ [SQUOTE] @ '' in '' @ source)
                   (normalize_entry sys name source en directory)) (\<lambda>d.
        Inr (name, \<lparr>cv_name = name, cv_definition = d, cv_raw = raw, cv_source = source\<rparr>))))"

definition normalize_document :: "config_system \<Rightarrow> string \<Rightarrow> json \<Rightarrow> string + 'a server_configuration" where
  "normalize_document sys source raw =
     res_bind (ok_or (mcp_config source @ '' must be an object'') (as_object raw)) (\<lambda>document.
     res_bind (ok_or (mcp_config source @ '' needs an mcpServers object'')
                (Option.bind (obj_get ''mcpServers'' document) as_object)) (\<lambda>entries.
     res_bind (case legacy_imports raw of Inl e \<Rightarrow> Inl (mcp_config source @ '' '' @ e) | Inr i \<Rightarrow> Inr i) (\<lambda>imports.
     res_bind (ok_or ''MCP config has no parent directory'' (path_parent source)) (\<lambda>directory.
     res_bind (traverse (configure_server sys source directory) entries) (\<lambda>servers.
     Inr \<lparr>sc_source = source, sc_servers = bt_collect servers, sc_credential_scope = Some directory,
          sc_warnings = import_warning source imports\<rparr>)))))"

definition absolute_source :: "config_system \<Rightarrow> string \<Rightarrow> string + string" where
  "absolute_source sys source =
     res_bind (expand_home sys source) (\<lambda>expanded.
     if path_absolute expanded \<or> windows_absolute expanded then Inr expanded
     else res_bind (cs_current sys) (\<lambda>current. Inr (path_join current expanded)))"

definition parse_document :: "config_system \<Rightarrow> string \<Rightarrow> json \<Rightarrow> string + 'a server_configuration" where
  "parse_document sys source document =
     res_bind (absolute_source sys source) (\<lambda>source. normalize_document sys source document)"

definition BYTE_ORDER_MARK :: string where
  "BYTE_ORDER_MARK = [CHR 0xEF, CHR 0xBB, CHR 0xBF]"

function strip_marks :: "string \<Rightarrow> string" where
  "strip_marks s = (if starts_with BYTE_ORDER_MARK s then strip_marks (drop 3 s) else s)"
  by pat_completeness auto
termination
  by (relation "measure length") (auto simp: starts_with_def BYTE_ORDER_MARK_def dest: arg_cong [of _ _ length])

declare strip_marks.simps [simp del]

definition parse_config_json :: "config_system \<Rightarrow> string \<Rightarrow> string \<Rightarrow> string + json" where
  "parse_config_json sys source contents =
     res_bind (map_err (''invalid JSONC in '' @ mcp_config source) (cs_jsonc sys (strip_marks contents))) (\<lambda>v.
     ok_or (''empty '' @ mcp_config source) v)"

definition read_raw :: "config_system \<Rightarrow> string \<Rightarrow> bool \<Rightarrow> string + json" where
  "read_raw sys source optional =
     (case cs_read sys source of
        Contents c \<Rightarrow> parse_config_json sys source c
      | NotFound e \<Rightarrow>
          if optional then Inr (JObject [(''mcpServers'', JObject [])])
          else Inl (''Could not read '' @ mcp_config source @ '': '' @ e)
      | ReadError e \<Rightarrow> Inl (''Could not read '' @ mcp_config source @ '': '' @ e))"

text \<open>Entries of the home file that the project file also has are dropped before they are decoded.\<close>

definition without_shadowed :: "obj \<Rightarrow> obj \<Rightarrow> json \<Rightarrow> json" where
  "without_shadowed local inherited document =
     (case document of
        JObject m \<Rightarrow>
          JObject (obj_insert ''mcpServers''
            (JObject (filter (\<lambda>e. obj_get (fst e) local = None) inherited)) m)
      | v \<Rightarrow> v)"

text \<open>
  \<open>load_at\<close>, given what \<open>config_paths\<close> answers for the explicit path, the home file and the
  project file, and whether the project file is a file.
\<close>

definition load_at ::
  "config_system \<Rightarrow> string + string option \<Rightarrow> string + string \<Rightarrow> string + string \<Rightarrow> bool
     \<Rightarrow> string + 'a server_configuration" where
  "load_at sys explicit home project project_is_file =
     res_bind explicit (\<lambda>explicit.
     case explicit of
       Some source \<Rightarrow> res_bind (read_raw sys source False) (parse_document sys source)
     | None \<Rightarrow>
         res_bind home (\<lambda>home.
         res_bind project (\<lambda>project.
         res_bind (read_raw sys home True) (\<lambda>home_document.
         if project = home then parse_document sys home home_document
         else
           res_bind (read_raw sys project True) (\<lambda>project_document.
           res_bind (ok_or ''Project config needs an mcpServers object''
                      (Option.bind (vget ''mcpServers'' project_document) as_object)) (\<lambda>local.
           res_bind (ok_or ''Home config needs an mcpServers object''
                      (Option.bind (vget ''mcpServers'' home_document) as_object)) (\<lambda>inherited.
           res_bind (parse_document sys home (without_shadowed local inherited home_document)) (\<lambda>c.
           res_bind (parse_document sys project project_document) (\<lambda>l.
           let c = c\<lparr>sc_servers := fold (\<lambda>(k, v). bt_insert k v) (sc_servers l) (sc_servers c),
                     sc_warnings := sc_warnings c @ sc_warnings l\<rparr>
           in Inr (if project_is_file
                   then c\<lparr>sc_source := project, sc_credential_scope := sc_credential_scope l\<rparr>
                   else c))))))))))"

subsection \<open>Inputs of the authentication\<close>

definition READ_ONLY_NAMES :: "string list" where
  "READ_ONLY_NAMES = [''MCP_CLI_CREDENTIALS_READ_ONLY'', ''MCP_POOL_CREDENTIALS_READ_ONLY'']"

text \<open>Insertion of the values that are present, each computed in turn.\<close>

fun insert_present ::
  "('a \<Rightarrow> string + (string \<times> string) option) \<Rightarrow> 'a list \<Rightarrow> obj \<Rightarrow> string + obj" where
  "insert_present f [] m = Inr m"
| "insert_present f (x # xs) m =
     res_bind (f x) (\<lambda>kv.
       insert_present f xs (case kv of None \<Rightarrow> m | Some (k, v) \<Rightarrow> obj_insert k (JString v) m))"

definition authentication_projection :: "config_system \<Rightarrow> json \<Rightarrow> string \<Rightarrow> string + obj" where
  "authentication_projection sys entry endpoint =
     res_bind (insert_present
       (\<lambda>(field, v). case v of
            None \<Rightarrow> Inr None
          | Some v \<Rightarrow> res_bind (configured_expand sys entry v) (\<lambda>x. Inr (Some (field, x))))
       (projection (oauth_settings_from_raw entry)) [(''baseUrl'', JString endpoint)]) (\<lambda>projected.
     res_bind (insert_present
       (\<lambda>name. res_bind (configured_get sys entry name) (\<lambda>v. Inr (map_option (Pair name) v)))
       READ_ONLY_NAMES []) (\<lambda>env.
     Inr (if env = [] then projected else obj_insert ''env'' (JObject env) projected)))"

definition authentication_server ::
  "config_system \<Rightarrow> string \<Rightarrow> string \<Rightarrow> json \<Rightarrow> string + 'a configured_server" where
  "authentication_server sys source name entry =
     res_bind (ok_or ''Remote authentication needs a server URL'' (selected_url entry)) (\<lambda>endpoint.
     res_bind (authentication_projection sys entry endpoint) (\<lambda>projected.
     res_bind (absolute_source sys source) (\<lambda>source.
     res_bind (normalize_document (sys\<lparr>cs_variable := configured_get sys entry\<rparr>) source
                 (JObject [(''mcpServers'', JObject [(name, JObject projected)])])) (\<lambda>c.
     ok_or ''Missing authentication server'' (bt_get name (sc_servers c))))))"

subsection \<open>What a normalized definition looks like\<close>

lemma expand_values_get:
  assumes "expand_values expand name entries = Inr m" and "distinct (map fst entries)"
  shows "bt_wf m"
    and "bt_get k m = (case map_of entries k of None \<Rightarrow> None
                       | Some v \<Rightarrow> (case expand v of Inr x \<Rightarrow> Some x | Inl _ \<Rightarrow> None))"
    and "map_of entries k = Some v \<Longrightarrow> \<exists>x. expand v = Inr x"
proof -
  from assms(1) obtain kvs where m: "m = bt_collect kvs"
    and t0: "list_all2 (\<lambda>e kv. (case e of (k, v) \<Rightarrow>
        res_bind (with_context (field name) (expand v)) (\<lambda>x. Inr (k, x))) = Inr kv) entries kvs"
    unfolding expand_values_def by (auto simp: traverse_Inr elim!: res_bindE)
  from t0 have t: "list_all2 (\<lambda>(k, v) kv. \<exists>x. expand v = Inr x \<and> kv = (k, x)) entries kvs"
    by (rule list_all2_mono) (auto elim!: res_bindE)
  from t have keys: "map fst kvs = map fst entries"
    by (induction rule: list_all2_induct) auto
  from t have vals: "map_of kvs k = (case map_of entries k of None \<Rightarrow> None
      | Some v \<Rightarrow> (case expand v of Inr x \<Rightarrow> Some x | Inl _ \<Rightarrow> None))"
    by (induction rule: list_all2_induct) auto
  show "bt_wf m" unfolding m by (rule bt_wf_collect)
  from t show "map_of entries k = Some v \<Longrightarrow> \<exists>x. expand v = Inr x"
    by (induction rule: list_all2_induct) (auto split: if_splits)
  show "bt_get k m = (case map_of entries k of None \<Rightarrow> None
      | Some v \<Rightarrow> (case expand v of Inr x \<Rightarrow> Some x | Inl _ \<Rightarrow> None))"
    unfolding m using keys vals assms(2) by (simp add: bt_get_collect_distinct)
qed

lemma normalized_command_Inr:
  assumes "normalized_command sys e directory d = Inr d'"
  shows "\<exists>c args cwd caller. cs_caller sys = Inr caller
     \<and> d' = d\<lparr>sd_command := c, sd_args := args, sd_cwd := Some cwd,
               sd_env := fold (\<lambda>(k, v). bt_insert k v) (sd_env d) caller, sd_clear_env := True\<rparr>"
  using assms by (auto simp: normalized_command_def elim!: res_bindE split: list.splits if_split_asm) blast+

lemma validate_url_Inr:
  "validate_url sys url = Inr u \<longleftrightarrow>
     (\<exists>scheme host. cs_url sys url = Some (scheme, Some host) \<and> scheme \<in> {''http'', ''https''})"
  by (auto simp: validate_url_def split: option.splits)

lemma entry_transport_Inr:
  "entry_transport e tr = Inr t \<Longrightarrow>
     if is_some (remote_url e) then t = ''http'' \<or> t = ''sse'' else t = ''stdio''"
  by (auto simp: entry_transport_def split: if_splits)

lemma normalize_entry_Inr:
  assumes "normalize_entry sys name source e directory = Inr (d :: 'a server_def)"
  obtains tr env d0 where
    "entry_transport e tr = Inr (sd_transport d)"
    "expand_values (expand_environment (cs_variable sys)) ''env'' (en_env e) = Inr env"
    "sd_env d0 = env" "sd_transport d0 = sd_transport d" "sd_command d0 = []" "sd_url d0 = []"
    "case remote_url e of
       Some url \<Rightarrow> \<exists>url'. validate_url sys url' = Inr () \<and> d = d0\<lparr>sd_url := url'\<rparr>
     | None \<Rightarrow> normalized_command sys e directory d0 = Inr d"
proof -
  from assms obtain tr0 tr description env headers where t: "entry_transport e tr0 = Inr tr"
    and v: "expand_values (expand_environment (cs_variable sys)) ''env'' (en_env e) = Inr env"
    and d: "(case remote_url e of
        Some url \<Rightarrow>
          res_bind (with_context (field ''url'') (expand_environment (effective_environment sys env) url)) (\<lambda>url.
          res_bind (validate_url sys url)
            (\<lambda>_. Inr ((base_definition name source directory e tr description env headers)\<lparr>sd_url := url\<rparr>)))
      | None \<Rightarrow> normalized_command sys e directory
          (base_definition name source directory e tr description env headers)) = Inr d"
    unfolding normalize_entry_def Let_def by (elim res_bindE) (rule that)
  let ?b = "base_definition name source directory e tr description env headers :: 'a server_def"
  have d': "case remote_url e of
       Some url \<Rightarrow> \<exists>url'. validate_url sys url' = Inr () \<and> d = ?b\<lparr>sd_url := url'\<rparr>
     | None \<Rightarrow> normalized_command sys e directory ?b = Inr d"
    using d by (cases "remote_url e") (auto elim!: res_bindE)
  have b: "sd_env ?b = env" "sd_transport ?b = tr" "sd_command ?b = []" "sd_url ?b = []"
    by (simp_all add: base_definition_def default_definition_def)
  from d' b have "sd_transport d = tr"
    by (cases "remote_url e") (auto dest!: normalized_command_Inr)
  with t v d' b show ?thesis by (intro that [of tr0 env ?b]) simp_all
qed


text \<open>A system without variables and files, on which the examples run.\<close>

definition sample_system :: config_system where
  "sample_system =
     \<lparr>cs_variable = (\<lambda>_. Inr None), cs_caller = Inr [(''HOME'', ''/h''), (''PATH'', ''/bin'')],
      cs_home = Some ''/h'', cs_current = Inr ''/'', cs_read = (\<lambda>_. NotFound ''none''),
      cs_is_file = (\<lambda>_. Inr False), cs_jsonc = (\<lambda>_. Inl ()),
      cs_url = (\<lambda>url. if starts_with ''https://'' url then Some (''https'', Some (drop 8 url)) else None),
      cs_decode = (\<lambda>_. None)\<rparr>"

definition sample_entry :: entry where
  "sample_entry =
     \<lparr>en_url = None, en_command = Some (Text ''npx srv''), en_executable = None, en_args = [],
      en_env = [(''K'', ''v''), (''PATH'', ''/x'')], en_headers = [], en_cwd = None, en_transport = None,
      en_description = None, en_timeout_ms = None, en_protocol_version = AutoProtocol,
      en_bearer_token = None, en_bearer_token_env = None\<rparr>"


subsection \<open>Which file a server comes from\<close>

lemma list_all2_keys: "list_all2 (\<lambda>e s. fst s = fst e) es ss \<Longrightarrow> map fst ss = map fst es"
  by (induction rule: list_all2_induct) auto

lemma configure_server_Inr:
  "configure_server sys source directory e = Inr (name, s) \<Longrightarrow>
     e = (name, cv_raw s) \<and> cv_name s = name \<and> cv_source s = source"
  by (cases e) (auto simp: configure_server_def elim!: res_bindE)

lemma list_all2_source: "list_all2 P xs ys \<Longrightarrow> y \<in> set ys \<Longrightarrow> \<exists>x \<in> set xs. P x y"
  by (induction rule: list_all2_induct) auto

lemma normalize_document_servers:
  assumes "normalize_document sys source raw = Inr c"
  obtains entries where "vget ''mcpServers'' raw = Some (JObject entries)"
    and "bt_wf (sc_servers c)" and "fst ` set (sc_servers c) = fst ` set entries"
    and "\<forall>name s. bt_get name (sc_servers c) = Some s \<longrightarrow>
           cv_name s = name \<and> cv_source s = source \<and> (name, cv_raw s) \<in> set entries"
proof -
  from assms obtain document entries directory servers where
    raw: "raw = JObject document" "obj_get ''mcpServers'' document = Some (JObject entries)"
    and tr: "traverse (configure_server sys source directory) entries = Inr servers"
    and c: "sc_servers c = bt_collect servers"
    unfolding normalize_document_def
    by (auto simp: as_object_Some bind_eq_Some_conv elim!: res_bindE)
  from tr have t: "list_all2 (\<lambda>e s. configure_server sys source directory e = Inr s) entries servers"
    by (simp add: traverse_Inr)
  have keys: "map fst servers = map fst entries"
    by (rule list_all2_keys, rule list_all2_mono [OF t]) (auto dest: configure_server_Inr)
  have each: "cv_name s = name \<and> cv_source s = source \<and> (name, cv_raw s) \<in> set entries"
    if "(name, s) \<in> set servers" for name s
    using list_all2_source [OF t that] by (auto dest: configure_server_Inr)
  show ?thesis
  proof (rule that [of entries])
    show "vget ''mcpServers'' raw = Some (JObject entries)" using raw by simp
    show "bt_wf (sc_servers c)" unfolding c by (rule bt_wf_collect)
    have "bt_get k (bt_collect servers) = None \<longleftrightarrow> k \<notin> fst ` set servers" for k
      by (auto simp: bt_get_collect map_of_eq_None_iff)
    then have "fst ` set (bt_collect servers) = fst ` set servers"
      by (auto simp: bt_get_def map_of_eq_None_iff)
    with keys show "fst ` set (sc_servers c) = fst ` set entries"
      unfolding c by (metis list.set_map)
    show "\<forall>name s. bt_get name (sc_servers c) = Some s \<longrightarrow>
        cv_name s = name \<and> cv_source s = source \<and> (name, cv_raw s) \<in> set entries"
      unfolding c bt_get_collect using each by (metis map_of_SomeD set_rev)
  qed
qed

lemma vget_without_shadowed:
  assumes "vget ''mcpServers'' document = Some (JObject inherited)"
  shows "vget ''mcpServers'' (without_shadowed local inherited document)
       = Some (JObject (filter (\<lambda>e. obj_get (fst e) local = None) inherited))"
  using assms by (cases document) (auto simp: without_shadowed_def map_simps)


text \<open>Two files that both define the server a.\<close>

definition two_files :: config_system where
  "two_files =
     sample_system\<lparr>cs_read := Contents, cs_decode := (\<lambda>_. Some sample_entry),
       cs_jsonc := (\<lambda>path.
         if path = ''/h/c''
         then Inr (Some (JObject [(''mcpServers'', JObject [(''a'', JBool True), (''b'', JNull)])]))
         else Inr (Some (JObject [(''mcpServers'', JObject [(''a'', JBool False)])])))\<rparr>"


end
