(* ===== verification/Unicode.thy ===== *)
theory Unicode
  imports Prelude
begin

text \<open>
  Characters of a UTF-8 string and the character operations that read the Unicode tables
  (\<open>char::is_alphanumeric\<close>, \<open>is_uppercase\<close>, \<open>is_lowercase\<close>, \<open>to_lowercase\<close>).  A character is the
  bytes that encode it.  The ASCII part of the tables is written out; the entries of the other
  characters belong to the compiler's release and are an argument, so what is proved holds for
  every version of the tables.
\<close>

record unicode =
  uc_alphanumeric :: "string \<Rightarrow> bool"
  uc_uppercase :: "string \<Rightarrow> bool"
  uc_lowercase :: "string \<Rightarrow> bool"
  uc_to_lower :: "string \<Rightarrow> string"
  uc_to_upper :: "string \<Rightarrow> string"
  uc_cased :: "string \<Rightarrow> bool"
  uc_case_ignorable :: "string \<Rightarrow> bool"

text \<open>The number of bytes of the character a string starts with.\<close>

definition char_len :: "string \<Rightarrow> nat" where
  "char_len s =
     (case s of
        [] \<Rightarrow> 0
      | a # _ \<Rightarrow> if in_range 194 223 a then 2 else if in_range 224 239 a then 3
                else if in_range 240 244 a then 4 else 1)"

lemma char_len_pos: "s \<noteq> [] \<Longrightarrow> 0 < char_len s"
  by (auto simp: char_len_def split: list.splits)

function chars :: "string \<Rightarrow> string list" where
  "chars s = (if s = [] then [] else take (char_len s) s # chars (drop (char_len s) s))"
  by pat_completeness auto
termination
  by (relation "measure length") (use char_len_pos in auto)

declare chars.simps [simp del]

lemma chars_Nil [simp]: "chars [] = []"
  by (simp add: chars.simps)

lemma concat_chars [simp]: "concat (chars s) = s"
  by (induction s rule: chars.induct) (subst chars.simps, simp)

lemma chars_nonempty: "c \<in> set (chars s) \<Longrightarrow> c \<noteq> []"
proof (induction s rule: chars.induct)
  case (1 s)
  then show ?case
    using char_len_pos [of s] by (subst (asm) (2) chars.simps) (auto split: if_splits)
qed

lemma chars_inject: "chars s = chars t \<longleftrightarrow> s = t"
  by (metis concat_chars)

lemma chars_eq_Nil [simp]: "chars s = [] \<longleftrightarrow> s = []"
  by (metis chars_Nil concat_chars)

definition ascii :: "string \<Rightarrow> bool" where
  "ascii ch \<longleftrightarrow> list_all (in_range 0 127) ch"

definition is_alphanumeric :: "unicode \<Rightarrow> string \<Rightarrow> bool" where
  "is_alphanumeric u ch \<longleftrightarrow>
     (if ascii ch then list_all is_ascii_alphanumeric ch else uc_alphanumeric u ch)"

definition is_uppercase :: "unicode \<Rightarrow> string \<Rightarrow> bool" where
  "is_uppercase u ch \<longleftrightarrow> (if ascii ch then list_all is_ascii_upper ch else uc_uppercase u ch)"

definition is_lowercase :: "unicode \<Rightarrow> string \<Rightarrow> bool" where
  "is_lowercase u ch \<longleftrightarrow> (if ascii ch then list_all is_ascii_lower ch else uc_lowercase u ch)"

definition char_to_lowercase :: "unicode \<Rightarrow> string \<Rightarrow> string" where
  "char_to_lowercase u ch = (if ascii ch then to_ascii_lower ch else uc_to_lower u ch)"

definition char_to_uppercase :: "unicode \<Rightarrow> string \<Rightarrow> string" where
  "char_to_uppercase u ch =
     (if ascii ch then map (\<lambda>c. if is_ascii_lower c then char_of (of_char c - 32 :: nat) else c) ch
      else uc_to_upper u ch)"

text \<open>
  \<open>str::to_lowercase\<close>: each character by itself, but a capital sigma at the end of a word becomes
  a final one.  The word goes on where, after the case-ignorable characters, a cased one follows.
\<close>

definition is_cased :: "unicode \<Rightarrow> string \<Rightarrow> bool" where
  "is_cased u ch \<longleftrightarrow> (if ascii ch then list_all is_ascii_alphabetic ch else uc_cased u ch)"

definition is_case_ignorable :: "unicode \<Rightarrow> string \<Rightarrow> bool" where
  "is_case_ignorable u ch \<longleftrightarrow>
     (if ascii ch then ch \<in> {[CHR 0x27], ''.'', '':'', ''^'', [CHR 0x60]} else uc_case_ignorable u ch)"

definition cased_next :: "unicode \<Rightarrow> string list \<Rightarrow> bool" where
  "cased_next u cs \<longleftrightarrow>
     (case dropWhile (is_case_ignorable u) cs of [] \<Rightarrow> False | c # _ \<Rightarrow> is_cased u c)"

fun lowercase_chars :: "unicode \<Rightarrow> string list \<Rightarrow> string list \<Rightarrow> string" where
  "lowercase_chars u before [] = []"
| "lowercase_chars u before (c # cs) =
     (if c = [CHR 0xCE, CHR 0xA3]
      then (if cased_next u before \<and> \<not> cased_next u cs then [CHR 0xCF, CHR 0x82] else [CHR 0xCF, CHR 0x83])
      else char_to_lowercase u c) @ lowercase_chars u (c # before) cs"

definition str_to_lowercase :: "unicode \<Rightarrow> string \<Rightarrow> string" where
  "str_to_lowercase u s = lowercase_chars u [] (chars s)"

text \<open>
  A table without entries outside ASCII, on which the examples run.
\<close>

definition ascii_tables :: unicode where
  "ascii_tables = \<lparr>uc_alphanumeric = (\<lambda>_. False), uc_uppercase = (\<lambda>_. False),
     uc_lowercase = (\<lambda>_. False), uc_to_lower = id, uc_to_upper = id,
     uc_cased = (\<lambda>_. False), uc_case_ignorable = (\<lambda>_. False)\<rparr>"

lemma chars_ascii: "ascii s \<Longrightarrow> chars s = map (\<lambda>c. [c]) s"
proof (induction s)
  case (Cons c s)
  then have "char_len (c # s) = 1"
    by (auto simp: char_len_def ascii_def in_range_def)
  with Cons show ?case by (subst chars.simps) (simp add: ascii_def)
qed simp

lemma lowercase_chars_ascii:
  "ascii s \<Longrightarrow> lowercase_chars u before (map (\<lambda>c. [c]) s) = to_ascii_lower s"
  by (induction s arbitrary: before) (auto simp: ascii_def char_to_lowercase_def to_ascii_lower_def)

lemma str_to_lowercase_ascii: "ascii s \<Longrightarrow> str_to_lowercase u s = to_ascii_lower s"
  by (simp add: str_to_lowercase_def chars_ascii lowercase_chars_ascii)

end
