(* ===== verification/Identity.thy ===== *)
theory Identity
  imports ServerConfig Unicode
begin

text \<open>
  The name under which a configured server runs in the pool (\<open>src/pool_identity.rs\<close>).  The
  serialization of the definition (serde), the printing of JSON and the SHA-256 digest in
  hexadecimal are arguments.
\<close>

subsection \<open>Canonical values\<close>

text \<open>Objects are rebuilt from a \<open>BTreeMap\<close>, so their entries are in key order at every depth.\<close>

fun canonical :: "json \<Rightarrow> json" where
  "canonical (JObject m) = JObject (bt_collect (map (\<lambda>e. (fst e, canonical (snd e))) m))"
| "canonical (JArray vs) = JArray (map canonical vs)"
| "canonical v = v"

subsection \<open>Names\<close>

definition char_boundary :: "nat \<Rightarrow> string \<Rightarrow> bool" where
  "char_boundary n s \<longleftrightarrow> n = length s \<or> n < length s \<and> \<not> in_range 128 191 (s ! n)"

definition identity_budget_error :: string where
  "identity_budget_error =
     ''The MCP pool socket directory leaves insufficient space for a safe server identity. Set MCP_CLI_HOME to a shorter directory.''"

definition bounded_name :: "string \<Rightarrow> string \<Rightarrow> nat \<Rightarrow> string + string" where
  "bounded_name label digest budget =
     (let minimum = length ''mcp-'' + length digest in
      if budget < minimum then Inl identity_budget_error
      else
        let label_budget = budget - (minimum + 1);
            n = min (length label) label_budget
        in if \<not> char_boundary n label then Inl ''Invalid pool label''
           else
             let label = take n label in
             Inr (if label = [] then ''mcp-'' @ digest else ''mcp-'' @ label @ ''-'' @ digest))"

definition label_char :: "string \<Rightarrow> string" where
  "label_char ch =
     (if list_all (\<lambda>c. is_ascii_alphanumeric c \<or> c = CHR ''-'' \<or> c = CHR ''_'') ch then ch else ''-'')"

text \<open>The part of the serialized definition that identifies a server.\<close>

definition identity_definition :: "json \<Rightarrow> json \<Rightarrow> json" where
  "identity_definition raw serialized =
     (case serialized of
        JObject m \<Rightarrow>
          (let m = obj_remove ''configuration_entry'' m in
           case Option.bind (obj_get ''env'' m) as_object of
             None \<Rightarrow> JObject m
           | Some env \<Rightarrow>
               (let env = filter (\<lambda>e. configured_contains raw (fst e)) env in
                JObject (if env = [] then obj_remove ''env'' m else obj_insert ''env'' (JObject env) m)))
      | v \<Rightarrow> v)"

definition identity_content :: "string \<Rightarrow> string \<Rightarrow> json \<Rightarrow> json" where
  "identity_content source name body =
     JObject [(''source'', JString source), (''name'', JString name), (''definition'', body)]"

definition pool_label :: "string \<Rightarrow> string" where
  "pool_label name = concat (take 16 (map label_char (chars name)))"

text \<open>\<open>overhead\<close> is the length of the socket path around the name, on Unix.\<close>

definition pool_name ::
  "(json \<Rightarrow> string) \<Rightarrow> (string \<Rightarrow> string) \<Rightarrow> string + nat \<Rightarrow> ('a server_def \<Rightarrow> string + json)
     \<Rightarrow> 'a configured_server \<Rightarrow> 'a server_def \<Rightarrow> string + string" where
  "pool_name to_vec sha256 overhead serialize server d =
     res_bind (serialize d) (\<lambda>serialized.
     let content = canonical (identity_content (cv_source server) (cv_name server)
                     (identity_definition (cv_raw server) serialized));
         digest = sha256 (to_vec content)
     in
     res_bind (if length digest < 32 \<or> \<not> char_boundary 32 digest then Inl ''Invalid identity digest''
               else Inr (take 32 digest)) (\<lambda>digest.
     res_bind overhead (\<lambda>overhead.
     bounded_name (pool_label (cv_name server)) digest (103 - overhead))))"

subsection \<open>When two values have the same canonical form\<close>

text \<open>Equality up to the order of the entries of objects; the order of arrays counts.\<close>

inductive same_json :: "json \<Rightarrow> json \<Rightarrow> bool" where
  same_atom: "\<not> is_array v \<Longrightarrow> \<not> is_object v \<Longrightarrow> same_json v v"
| same_array: "list_all2 same_json xs ys \<Longrightarrow> same_json (JArray xs) (JArray ys)"
| same_object: "(\<And>k. rel_option same_json (map_of m k) (map_of m' k)) \<Longrightarrow> same_json (JObject m) (JObject m')"

inductive_simps same_json_simps [simp]:
  "same_json JNull w" "same_json (JBool b) w" "same_json (JNumber n) w" "same_json (JString s) w"
inductive_cases same_arrayE: "same_json (JArray xs) w"
inductive_cases same_objectE: "same_json (JObject m) w"

lemma map_of_mapped_values: "map_of (map (\<lambda>e. (fst e, f (snd e))) m) k = map_option f (map_of m k)"
  by (induction m) auto

lemma canonical_lookup:
  "distinct (map fst m) \<Longrightarrow>
     bt_get k (bt_collect (map (\<lambda>e. (fst e, canonical (snd e))) m)) = map_option canonical (map_of m k)"
  by (subst bt_get_collect_distinct) (simp_all add: map_of_mapped_values comp_def)

lemma same_json_canonical:
  "same_json v w \<Longrightarrow> json_wf v \<Longrightarrow> json_wf w \<Longrightarrow> canonical v = canonical w"
proof (induction rule: same_json.induct)
  case (same_array xs ys)
  then have "list_all2 (\<lambda>x y. canonical x = canonical y) xs ys"
    by (auto simp: list_all2_conv_all_nth)
  then show ?case by (simp add: list_all2_eq list.rel_map)
next
  case (same_object m m')
  have "map_option canonical (map_of m k) = map_option canonical (map_of m' k)" for k
    using same_object.IH [of k] same_object.prems
    by (cases "map_of m k"; cases "map_of m' k") (auto dest!: map_of_SomeD)
  with same_object.prems show ?case
    by (simp, intro bt_ext) (simp_all add: bt_wf_collect canonical_lookup)
qed simp

lemma canonical_same_json:
  "canonical v = canonical w \<Longrightarrow> json_wf v \<Longrightarrow> json_wf w \<Longrightarrow> same_json v w"
proof (induction v arbitrary: w rule: canonical.induct)
  case (1 m)
  from 1(2) obtain m' where w: "w = JObject m'" by (cases w) auto
  have k: "rel_option same_json (map_of m k) (map_of m' k)" for k
  proof -
    have "map_option canonical (map_of m k) = map_option canonical (map_of m' k)"
      using 1(2-4) w canonical_lookup [of m k] canonical_lookup [of m' k] by simp
    then show ?thesis
      using 1(1,3,4) w by (cases "map_of m k"; cases "map_of m' k") (auto dest!: map_of_SomeD)
  qed
  show ?case unfolding w by (intro same_object k)
next
  case (2 vs)
  from 2(2) obtain ws where w: "w = JArray ws" by (cases w) auto
  with 2(2) have "map canonical vs = map canonical ws" by simp
  then have "list_all2 (\<lambda>x y. canonical x = canonical y) vs ws"
    by (simp add: list_all2_eq list.rel_map)
  with 2(1,3,4) w show ?case
    by (auto simp: list_all2_conv_all_nth intro!: same_array)
qed (case_tac w; simp)+

subsection \<open>Names identify servers\<close>

lemma bounded_name_Inr:
  assumes "bounded_name label digest budget = Inr n"
  shows "length n \<le> budget" and "\<exists>p. n = ''mcp-'' @ p @ digest"
    and "set n \<subseteq> set ''mcp-'' \<union> set label \<union> set digest"
proof -
  define l where "l = take (min (length label) (budget - (length ''mcp-'' + length digest + 1))) label"
  from assms have b: "4 + length digest \<le> budget"
    and n: "n = (if l = [] then ''mcp-'' @ digest else ''mcp-'' @ l @ ''-'' @ digest)"
    unfolding l_def
    by (auto simp: bounded_name_def Let_def simp del: take_eq_Nil take_eq_Nil2 append.simps split: if_splits)
  have l: "length l \<le> budget - (5 + length digest)" "set l \<subseteq> set label"
    unfolding l_def by (auto dest: in_set_takeD)
  show "length n \<le> budget"
  proof (cases "l = []")
    case False
    then have "1 \<le> length l" by (cases l) simp_all
    with l(1) have "length l + 5 + length digest \<le> budget" by linarith
    with n False show ?thesis by simp
  qed (use b n in simp)
  show "\<exists>p. n = ''mcp-'' @ p @ digest"
  proof (cases "l = []")
    case True
    with n show ?thesis by (intro exI [of _ "[]"]) simp
  next
    case False
    with n show ?thesis by (intro exI [of _ "l @ ''-''"]) simp
  qed
  from n l(2) show "set n \<subseteq> set ''mcp-'' \<union> set label \<union> set digest"
    by (auto split: if_splits)
qed

definition identity_of :: "('a server_def \<Rightarrow> string + json) \<Rightarrow> 'a configured_server \<Rightarrow> 'a server_def \<Rightarrow> json option" where
  "identity_of serialize server d =
     (case serialize d of
        Inl e \<Rightarrow> None
      | Inr v \<Rightarrow> Some (identity_content (cv_source server) (cv_name server) (identity_definition (cv_raw server) v)))"

lemma pool_name_Inr:
  assumes "pool_name to_vec sha256 overhead serialize server d = Inr n"
  obtains content o' where "identity_of serialize server d = Some content" and "overhead = Inr o'"
    and "length (take 32 (sha256 (to_vec (canonical content)))) = 32"
    and "bounded_name (pool_label (cv_name server)) (take 32 (sha256 (to_vec (canonical content)))) (103 - o') = Inr n"
  using assms
  by (auto simp: pool_name_def identity_of_def Let_def elim!: res_bindE split: if_splits)

lemma label_char_safe:
  "c \<in> set (label_char ch) \<Longrightarrow> is_ascii_alphanumeric c \<or> c = CHR ''-'' \<or> c = CHR ''_''"
  by (auto simp: label_char_def list_all_iff split: if_splits)

lemma pool_label_safe:
  "c \<in> set (pool_label name) \<Longrightarrow> is_ascii_alphanumeric c \<or> c = CHR ''-'' \<or> c = CHR ''_''"
  using label_char_safe by (fastforce simp: pool_label_def dest!: in_set_takeD)

lemma identity_content_name:
  assumes "canonical (identity_content s n b) = canonical (identity_content s' n' b')"
  shows "n = n'"
proof -
  have "bt_get ''name'' (bt_collect (map (\<lambda>e. (fst e, canonical (snd e)))
          [(''source'', JString s), (''name'', JString n), (''definition'', b)]))
      = bt_get ''name'' (bt_collect (map (\<lambda>e. (fst e, canonical (snd e)))
          [(''source'', JString s'), (''name'', JString n'), (''definition'', b')]))"
    using assms by (simp only: identity_content_def canonical.simps json.inject)
  then show ?thesis by (subst (asm) (1 2) canonical_lookup) simp_all
qed


definition sample_server :: "unit configured_server" where
  "sample_server =
     \<lparr>cv_name = ''my docs'', cv_definition = default_definition,
      cv_raw = JObject [(''env'', JObject [(''KEY'', JString ''1'')])], cv_source = ''/c/config.json''\<rparr>"

text \<open>A serialization of the command and the environment, and a digest of equal digits.\<close>

definition sample_serialize :: "unit server_def \<Rightarrow> string + json" where
  "sample_serialize d =
     Inr (JObject [(''command'', JString (sd_command d)),
                   (''env'', JObject (map (\<lambda>(k, v). (k, JString v)) (sd_env d)))])"

abbreviation sample_pool_name :: "unit server_def \<Rightarrow> string + string" where
  "sample_pool_name \<equiv> pool_name (\<lambda>_. []) (\<lambda>_. replicate 64 (CHR ''0'')) (Inr 40) sample_serialize sample_server"


text \<open>A pool name fits its socket: with the path around it, it stays within 103 bytes, and whenever
  the digest is made of letters and digits it is a safe file name, so that the file of its socket
  reads back as the same name.\<close>

theorem pool_names_fit_their_sockets:
  assumes "pool_name to_vec sha256 (Inr overhead) serialize a d = Inr n"
    and "\<And>x. list_all is_ascii_alphanumeric (sha256 x)"
  shows "length n + overhead \<le> 103 \<and> sanitize_socket_name n = n
     \<and> server_name_from_file (server_socket_name n) = Some n"
proof -
  from assms(1) obtain content where b: "bounded_name (pool_label (cv_name a))
      (take 32 (sha256 (to_vec (canonical content)))) (103 - overhead) = Inr n"
    and l: "length (take 32 (sha256 (to_vec (canonical content)))) = 32"
    by (elim pool_name_Inr) auto
  from bounded_name_Inr(2) [OF b] l have len: "32 \<le> length n" by auto
  with bounded_name_Inr(1) [OF b] have fits: "length n + overhead \<le> 103" by linarith
  have "socket_safe c" if "c \<in> set n" for c
  proof -
    from bounded_name_Inr(3) [OF b] that
    have "c \<in> set ''mcp-'' \<or> c \<in> set (pool_label (cv_name a)) \<or> c \<in> set (sha256 (to_vec (canonical content)))"
      by (blast dest: in_set_takeD)
    then show ?thesis
      using assms(2) pool_label_safe
      by (auto simp: list_all_iff socket_safe_def is_ascii_alphanumeric_def is_ascii_alphabetic_def
          is_ascii_lower_def)
  qed
  then have "concat (map sanitize_byte n) = n" by (intro sanitize_safe_id) (simp add: list_all_iff)
  with len have safe: "sanitize_socket_name n = n" by (auto simp: sanitize_socket_name_def Let_def)
  then have "server_name_from_file (server_socket_name n) = Some n"
    using socket_name_reads_back [of n] by simp
  with fits safe show ?thesis by simp
qed

theorem pool_names_fit_their_sockets_witness:
  "case sample_pool_name default_definition of
     Inr n \<Rightarrow> length n \<le> 63 \<and> server_name_from_file (server_socket_name n) = Some n | Inl e \<Rightarrow> False"
proof -
  have "case sample_pool_name default_definition of Inr n \<Rightarrow> True | Inl e \<Rightarrow> False"
    by code_simp
  then obtain n where n: "sample_pool_name default_definition = Inr n"
    by (auto split: sum.splits)
  have "list_all is_ascii_alphanumeric (replicate 64 (CHR ''0''))" by code_simp
  from pool_names_fit_their_sockets [OF n this] n show ?thesis by simp
qed

end
