(* ===== verification/SchemaView.thy ===== *)
theory SchemaView
  imports Json Unicode Ordered
begin

text \<open>
  The reading of a tool's input schema (\<open>src/tool_schema_view.rs\<close>): references, kinds, the type
  shown to the user, and the option names derived from property names.  JSON pointers and the
  printing of values belong to the JSON library and are arguments (\<open>pointer\<close>, \<open>ser\<close>).
\<close>

subsection \<open>Kinds\<close>

datatype kind = KString | KInteger | KNumber | KBoolean | KObject | KArray | KNull

definition kind_parse :: "string \<Rightarrow> kind option" where
  "kind_parse name =
     (if name = ''string'' then Some KString
      else if name = ''integer'' then Some KInteger
      else if name = ''number'' then Some KNumber
      else if name = ''boolean'' then Some KBoolean
      else if name = ''object'' then Some KObject
      else if name = ''array'' then Some KArray
      else if name = ''null'' then Some KNull
      else None)"

text \<open>\<open>is_i64() || is_u64()\<close> holds of every integer number.\<close>

fun is_integer :: "json \<Rightarrow> bool" where
  "is_integer (JNumber (Float f)) = False"
| "is_integer (JNumber n) = True"
| "is_integer v = False"

fun accepts :: "kind \<Rightarrow> json \<Rightarrow> bool" where
  "accepts KString v = is_string v"
| "accepts KInteger v = is_integer v"
| "accepts KNumber v = is_number v"
| "accepts KBoolean v = is_boolean v"
| "accepts KObject v = is_object v"
| "accepts KArray v = is_array v"
| "accepts KNull v = is_null v"

definition kinds :: "json \<Rightarrow> kind list" where
  "kinds schema =
     (case vget ''type'' schema of
        None \<Rightarrow> []
      | Some v \<Rightarrow>
          (case v of
             JString name \<Rightarrow> (case kind_parse name of Some k \<Rightarrow> [k] | None \<Rightarrow> [])
           | JArray vs \<Rightarrow> List.map_filter (\<lambda>v. Option.bind (as_str v) kind_parse) vs
           | _ \<Rightarrow> []))"

subsection \<open>References\<close>

text \<open>
  The loop of \<open>resolve_schema\<close> follows at most eight references; the argument counts them.
\<close>

function resolve_schema ::
  "(json \<Rightarrow> string \<Rightarrow> json option) \<Rightarrow> json \<Rightarrow> json \<Rightarrow> nat \<Rightarrow> (json \<times> nat) option" where
  "resolve_schema pointer schema root depth =
     (if depth < 8 then
        (case Option.bind (vget ''$ref'' schema) as_str of
           None \<Rightarrow> Some (schema, depth)
         | Some reference \<Rightarrow>
             (case Option.bind (strip_prefix ''#'' reference) (pointer root) of
                None \<Rightarrow> Some (schema, depth)
              | Some resolved \<Rightarrow> resolve_schema pointer resolved root (depth + 1)))
      else None)"
  by pat_completeness auto
termination
  by (relation "measure (\<lambda>(_, _, _, depth). 8 - depth)") auto

declare resolve_schema.simps [simp del]

lemma resolve_schema_depth:
  "resolve_schema pointer schema root depth = Some (s, d) \<Longrightarrow> depth \<le> d \<and> d < 8"
proof (induction pointer schema root depth rule: resolve_schema.induct)
  case (1 pointer schema root depth)
  from 1(2) show ?case
    by (subst (asm) resolve_schema.simps)
       (auto split: if_splits option.splits dest!: 1(1))
qed

lemma resolve_schema_total: "depth \<ge> 8 \<Longrightarrow> resolve_schema pointer schema root depth = None"
  by (simp add: resolve_schema.simps)

subsection \<open>The type shown to the user\<close>

text \<open>
  \<open>type_name\<close> and \<open>primitive_type\<close> call each other one level deeper.  \<open>primitive_type\<close> is only
  reached with a depth that \<open>resolve_schema\<close> returned, which is below 8; above it the type of the
  items would be unknown, as written here.
\<close>

definition bar_joined :: "string list \<Rightarrow> string" where
  "bar_joined ss = (case ss of [] \<Rightarrow> [] | s # ss \<Rightarrow> s @ concat (map (\<lambda>t. '' | '' @ t) ss))"

text \<open>Without repetitions, the first occurrence stays.\<close>

definition distinct_strings :: "string list \<Rightarrow> string list" where
  "distinct_strings ss = rev (fold (\<lambda>s acc. if s \<in> set acc then acc else s # acc) ss [])"

definition scalar :: "json \<Rightarrow> bool" where
  "scalar v \<longleftrightarrow> is_string v \<or> is_number v \<or> is_boolean v \<or> is_null v"

definition array_at :: "string \<Rightarrow> json \<Rightarrow> json list option" where
  "array_at key schema = Option.bind (vget key schema) as_array"

definition array_type :: "string \<Rightarrow> string" where
  "array_type item = (if str_contains '' | '' item then ''('' @ item @ '')[]'' else item @ ''[]'')"

definition enum_types :: "(json \<Rightarrow> string) \<Rightarrow> json \<Rightarrow> string list" where
  "enum_types ser schema =
     (case array_at ''enum'' schema of
        None \<Rightarrow> []
      | Some vs \<Rightarrow> distinct_strings (map ser (filter scalar vs)))"

function (sequential)
  type_name :: "(json \<Rightarrow> string) \<Rightarrow> (json \<Rightarrow> string \<Rightarrow> json option) \<Rightarrow> json \<Rightarrow> json \<Rightarrow> nat \<Rightarrow> string" and
  primitive_type :: "(json \<Rightarrow> string) \<Rightarrow> (json \<Rightarrow> string \<Rightarrow> json option) \<Rightarrow> string \<Rightarrow> json \<Rightarrow> json \<Rightarrow> nat \<Rightarrow> string"
where
  "type_name ser pointer schema root depth =
     (case resolve_schema pointer schema root depth of
        None \<Rightarrow> ''unknown''
      | Some (schema, depth) \<Rightarrow>
          if enum_types ser schema \<noteq> [] then bar_joined (enum_types ser schema)
          else
            (case array_at ''oneOf'' schema of
               Some (v # vs) \<Rightarrow>
                 bar_joined (distinct_strings (map (\<lambda>v. type_name ser pointer v root (depth + 1)) (v # vs)))
             | _ \<Rightarrow>
            (case array_at ''anyOf'' schema of
               Some (v # vs) \<Rightarrow>
                 bar_joined (distinct_strings (map (\<lambda>v. type_name ser pointer v root (depth + 1)) (v # vs)))
             | _ \<Rightarrow>
            (case array_at ''type'' schema of
               Some ks \<Rightarrow>
                 (let types = map (\<lambda>k. primitive_type ser pointer k schema root depth) (List.map_filter as_str ks)
                  in if types = [] then ''unknown'' else bar_joined types)
             | None \<Rightarrow>
                 primitive_type ser pointer
                   (case Option.bind (vget ''type'' schema) as_str of
                      Some k \<Rightarrow> k
                    | None \<Rightarrow> if is_some (vget ''properties'' schema) then ''object'' else ''unknown'')
                   schema root depth))))"
| "primitive_type ser pointer kind schema root depth =
     (case kind_parse kind of
        Some KInteger \<Rightarrow> ''number''
      | Some KNumber \<Rightarrow> ''number''
      | Some KString \<Rightarrow> kind
      | Some KBoolean \<Rightarrow> kind
      | Some KNull \<Rightarrow> kind
      | Some KObject \<Rightarrow> ''Record<string, unknown>''
      | Some KArray \<Rightarrow>
          (if depth < 8
           then array_type (type_name ser pointer
                  (case vget ''items'' schema of Some v \<Rightarrow> v | None \<Rightarrow> JNull) root (depth + 1))
           else array_type ''unknown'')
      | None \<Rightarrow> ''unknown'')"
  by pat_completeness auto
termination
  by (relation "measure (\<lambda>x. case x of Inl (_, _, _, _, depth) \<Rightarrow> 2 * (9 - depth)
                               | Inr (_, _, _, _, _, depth) \<Rightarrow> 2 * (9 - depth) - 1)")
     (auto dest!: resolve_schema_depth)

declare type_name.simps [simp del] primitive_type.simps [simp del]

function example_descriptor ::
  "(json \<Rightarrow> string \<Rightarrow> json option) \<Rightarrow> json \<Rightarrow> json \<Rightarrow> nat \<Rightarrow> json" where
  "example_descriptor pointer schema root depth =
     (case resolve_schema pointer schema root depth of
        None \<Rightarrow> JNull
      | Some (schema, depth) \<Rightarrow>
          (case (schema, vget ''items'' schema) of
             (JObject m, Some items) \<Rightarrow>
               JObject (obj_insert ''items'' (example_descriptor pointer items root (depth + 1)) m)
           | _ \<Rightarrow> schema))"
  by pat_completeness auto
termination
  by (relation "measure (\<lambda>(_, _, _, depth). 9 - depth)") (auto dest!: resolve_schema_depth)

declare example_descriptor.simps [simp del]

fun first_kind :: "kind list \<Rightarrow> kind option" where
  "first_kind [] = None"
| "first_kind (k # ks) = (if k \<noteq> KNull then Some k else first_kind ks)"

definition projection_kind :: "json \<Rightarrow> kind option" where
  "projection_kind v =
     (case Option.bind (as_str v) kind_parse of
        Some k \<Rightarrow> if k \<noteq> KNull then Some k else
            first_kind (List.map_filter (\<lambda>v. Option.bind (as_str v) kind_parse)
              (case as_array v of Some vs \<Rightarrow> vs | None \<Rightarrow> []))
      | None \<Rightarrow>
          first_kind (List.map_filter (\<lambda>v. Option.bind (as_str v) kind_parse)
            (case as_array v of Some vs \<Rightarrow> vs | None \<Rightarrow> [])))"

definition projection_type :: "json option \<Rightarrow> string" where
  "projection_type v =
     (case Option.bind v projection_kind of
        Some KInteger \<Rightarrow> ''number''
      | Some KNumber \<Rightarrow> ''number''
      | Some KString \<Rightarrow> ''string''
      | Some KBoolean \<Rightarrow> ''boolean''
      | Some KArray \<Rightarrow> ''array''
      | Some KObject \<Rightarrow> ''object''
      | _ \<Rightarrow> ''unknown'')"

subsection \<open>Option names\<close>

abbreviation DASH :: char where "DASH \<equiv> CHR ''-''"

definition push_dash :: "string \<Rightarrow> string" where
  "push_dash result = (if result \<noteq> [] \<and> last result \<noteq> DASH then result @ [DASH] else result)"

text \<open>One turn of the loop; \<open>following\<close> is what \<open>peek\<close> shows.\<close>

definition kebab_step :: "unicode \<Rightarrow> string option \<Rightarrow> string \<Rightarrow> string option \<Rightarrow> string \<Rightarrow> string" where
  "kebab_step u previous character following result =
     (if is_uppercase u character then
        (let boundary =
               (case previous of
                  None \<Rightarrow> False
                | Some p \<Rightarrow>
                    is_lowercase u p \<or> (ascii p \<and> list_all is_ascii_digit p)
                    \<or> (is_uppercase u p \<and> (case following of None \<Rightarrow> False | Some n \<Rightarrow> is_lowercase u n)))
         in (if boundary then push_dash result else result) @ char_to_lowercase u character)
      else if character \<in> {''_'', '' '', ''.'', ''-''} then push_dash result
      else result @ character)"

fun kebab_from :: "unicode \<Rightarrow> string option \<Rightarrow> string list \<Rightarrow> string \<Rightarrow> string" where
  "kebab_from u previous [] result = result"
| "kebab_from u previous (c # cs) result =
     kebab_from u (Some c) cs
       (kebab_step u previous c (case cs of [] \<Rightarrow> None | n # _ \<Rightarrow> Some n) result)"

definition trim_dashes :: "string \<Rightarrow> string" where
  "trim_dashes s = rev (dropWhile (\<lambda>c. c = DASH) (rev (dropWhile (\<lambda>c. c = DASH) s)))"

definition kebab :: "unicode \<Rightarrow> string \<Rightarrow> string" where
  "kebab u property =
     (let result = trim_dashes (kebab_from u None (chars property) [])
      in if result = [] then ''option'' else result)"

subsection \<open>The view\<close>

record schema_view =
  sv_root :: json
  sv_properties :: "obj option"
  sv_aliases :: "(string \<times> string list) list"

text \<open>\<open>entry(..).or_default().push(..)\<close>.\<close>

definition push_alias :: "string \<Rightarrow> string \<Rightarrow> (string \<times> string list) list \<Rightarrow> (string \<times> string list) list" where
  "push_alias alias name m =
     bt_insert alias ((case bt_get alias m of Some names \<Rightarrow> names | None \<Rightarrow> []) @ [name]) m"

definition schema_view_new :: "unicode \<Rightarrow> json \<Rightarrow> schema_view" where
  "schema_view_new u root =
     (let properties = Option.bind (vget ''properties'' root) as_object in
      \<lparr>sv_root = root, sv_properties = properties,
       sv_aliases = fold (\<lambda>name. push_alias (kebab u name) name)
                      (case properties of None \<Rightarrow> [] | Some m \<Rightarrow> map fst m) []\<rparr>)"

definition view_properties :: "schema_view \<Rightarrow> obj" where
  "view_properties view = (case sv_properties view of None \<Rightarrow> [] | Some m \<Rightarrow> m)"

definition view_required :: "schema_view \<Rightarrow> string \<Rightarrow> bool" where
  "view_required view name \<longleftrightarrow>
     (case array_at ''required'' (sv_root view) of
        None \<Rightarrow> False | Some vs \<Rightarrow> list_ex (\<lambda>v. as_str v = Some name) vs)"

definition view_property :: "schema_view \<Rightarrow> string \<Rightarrow> json option" where
  "view_property view name = Option.bind (sv_properties view) (obj_get name)"

definition view_resolve :: "(json \<Rightarrow> string \<Rightarrow> json option) \<Rightarrow> schema_view \<Rightarrow> json \<Rightarrow> json" where
  "view_resolve pointer view descriptor =
     (case resolve_schema pointer descriptor (sv_root view) 0 of None \<Rightarrow> JNull | Some (schema, _) \<Rightarrow> schema)"

definition property_name :: "schema_view \<Rightarrow> string \<Rightarrow> string + string" where
  "property_name view name =
     (if is_some (view_property view name) then Inr name
      else
        (case bt_get name (sv_aliases view) of
           None \<Rightarrow> Inr name
         | Some [property] \<Rightarrow> Inr property
         | Some properties \<Rightarrow>
             Inl (''Tool option '' @ quoted name @ '' is ambiguous; matches: ''
                  @ comma_joined properties)))"

lemma push_alias_wf: "bt_wf m \<Longrightarrow> bt_wf (push_alias alias name m)"
  by (simp add: push_alias_def bt_wf_insert)

lemma push_alias_get:
  "bt_wf m \<Longrightarrow> bt_get k (push_alias alias name m) =
     (if k = alias then Some ((case bt_get alias m of Some names \<Rightarrow> names | None \<Rightarrow> []) @ [name]) else bt_get k m)"
  by (simp add: push_alias_def bt_get_insert)

lemma aliases_get:
  "bt_wf m \<Longrightarrow>
     bt_get k (fold (\<lambda>name. push_alias (f name) name) names m) =
       (case (bt_get k m, filter (\<lambda>n. f n = k) names) of
          (Some ns, found) \<Rightarrow> Some (ns @ found)
        | (None, []) \<Rightarrow> None
        | (None, found) \<Rightarrow> Some found)"
proof (induction names arbitrary: m)
  case (Cons n names)
  show ?case
    unfolding fold_Cons comp_def Cons.IH [OF push_alias_wf [OF Cons.prems]]
    by (auto simp: push_alias_get [OF Cons.prems] split: option.splits list.splits)
qed (simp split: option.splits)

text \<open>The names of the schema whose option name is the given one.\<close>

definition names_of_option :: "unicode \<Rightarrow> json \<Rightarrow> string \<Rightarrow> string list" where
  "names_of_option u root option =
     filter (\<lambda>n. kebab u n = option) (map fst (view_properties (schema_view_new u root)))"

lemma view_alias:
  "bt_get k (sv_aliases (schema_view_new u root)) =
     (if names_of_option u root k = [] then None else Some (names_of_option u root k))"
proof -
  have "bt_get k (fold (\<lambda>name. push_alias (kebab u name) name) names []) =
      (if filter (\<lambda>n. kebab u n = k) names = [] then None else Some (filter (\<lambda>n. kebab u n = k) names))" for names
    using aliases_get [of "[]" k "kebab u" names]
    by (cases "filter (\<lambda>n. kebab u n = k) names") (auto simp: bt_get_def)
  then show ?thesis
    by (cases "Option.bind (vget ''properties'' root) as_object")
       (simp_all add: schema_view_new_def names_of_option_def view_properties_def bt_get_def)
qed

lemma view_property_iff:
  "is_some (view_property (schema_view_new u root) name)
     \<longleftrightarrow> name \<in> fst ` set (view_properties (schema_view_new u root))"
  using map_of_eq_None_iff [of "view_properties (schema_view_new u root)" name]
  by (cases "sv_properties (schema_view_new u root)") (auto simp: view_property_def view_properties_def obj_get_def)

text \<open>An option of a tool means at most one property.  A property is reached by its own name, even if
  that is another property's option name; otherwise an option name stands for the only property
  with this name in kebab case, several such properties are refused, and a name that belongs to
  none passes unchanged.\<close>

theorem option_names_are_unambiguous:
  "property_name (schema_view_new u root) name = Inr property \<longleftrightarrow>
     (if name \<in> fst ` set (view_properties (schema_view_new u root)) then property = name
      else names_of_option u root name = [property] \<or> names_of_option u root name = [] \<and> property = name)"
  using view_property_iff [of u root name]
  by (auto simp: property_name_def view_alias split: list.splits)

end
