(* ===== verification/Inputs.thy ===== *)
theory Inputs
  imports SchemaView Tokens
begin

text \<open>
  The arguments of a tool call: values read from the command line (\<open>coerce\<close> and its helpers in
  \<open>src/tool_arguments.rs\<close>), the inputs in the order they were given (\<open>src/tool_inputs.rs\<close>) and their
  completion against the tool's schema (\<open>src/tool_schema.rs\<close>).  The JSON library, floating-point
  text, files and the clock are the record \<open>cli_system\<close>.
\<close>

text \<open>
  Floating-point text: \<open>str::parse::<f64>\<close>, the tests the program makes of the number, and its
  decimal and scientific text.
\<close>

record float_text =
  ft_parse :: "string \<Rightarrow> u64 option"
  ft_finite :: "u64 \<Rightarrow> bool"
  ft_zero :: "u64 \<Rightarrow> bool"
  ft_extreme :: "u64 \<Rightarrow> bool"
  ft_decimal :: "u64 \<Rightarrow> string"
  ft_scientific :: "u64 \<Rightarrow> string"

record cli_system =
  cl_unicode :: unicode
  cl_parse :: "string \<Rightarrow> json option"
  cl_print :: "json \<Rightarrow> string"
  cl_pointer :: "json \<Rightarrow> string \<Rightarrow> json option"
  cl_float :: float_text
  cl_clock :: clock
  cl_metadata :: "string \<Rightarrow> string + bool \<times> nat"
  cl_read :: "string \<Rightarrow> string + string"
  cl_url_parse :: "string \<Rightarrow> string option"
  cl_url_path :: "string \<Rightarrow> string"
  cl_url_set_path :: "string \<Rightarrow> string \<Rightarrow> string"
  cl_url_without_fragment :: "string \<Rightarrow> string"

subsection \<open>Values\<close>

definition unquote :: "cli_system \<Rightarrow> string \<Rightarrow> string" where
  "unquote sys content =
     (let plain =
            (if 2 \<le> length content \<and> hd content = SQUOTE \<and> last content = SQUOTE
             then str_replace [BACKSLASH, SQUOTE] [SQUOTE] (take (length content - 2) (tl content))
             else content)
      in if content \<noteq> [] \<and> hd content = DQUOTE then
           (case cl_parse sys content of Some (JString text) \<Rightarrow> text | _ \<Rightarrow> plain)
         else plain)"

definition canonical_number :: "float_text \<Rightarrow> u64 \<Rightarrow> string" where
  "canonical_number ft number =
     (if ft_zero ft number then ''0''
      else if ft_extreme ft number then
        (case split_once ''e'' (ft_scientific ft number) of
           None \<Rightarrow> ft_scientific ft number
         | Some (mantissa, exponent) \<Rightarrow>
             mantissa @ ''e'' @ (if starts_with ''-'' exponent then [] else ''+'') @ exponent)
      else ft_decimal ft number)"

definition is_canonical_number :: "float_text \<Rightarrow> string \<Rightarrow> bool" where
  "is_canonical_number ft content \<longleftrightarrow>
     (case ft_parse ft content of
        None \<Rightarrow> False | Some number \<Rightarrow> ft_finite ft number \<and> canonical_number ft number = content)"

definition coerce :: "cli_system \<Rightarrow> string \<Rightarrow> bool \<Rightarrow> json" where
  "coerce sys content raw =
     (let content = trim content in
      if content \<in> {''null'', ''none''} then JNull
      else if content \<in> {''true'', ''false''} then JBool (content = ''true'')
      else if content \<noteq> [] \<and> hd content \<in> {CHR ''{'', CHR ''[''} then
        (case cl_parse sys content of Some v \<Rightarrow> v | None \<Rightarrow> JString content)
      else if \<not> raw \<and> is_canonical_number (cl_float sys) content \<and> is_some (cl_parse sys content)
      then the (cl_parse sys content)
      else JString (unquote sys content))"

definition merge_json :: "cli_system \<Rightarrow> obj \<Rightarrow> string \<Rightarrow> string + obj" where
  "merge_json sys target content =
     res_bind (ok_or ''Arguments must be valid JSON'' (cl_parse sys content)) (\<lambda>parsed.
     res_bind (ok_or ''Arguments must be a JSON object'' (as_object parsed)) (\<lambda>kvs.
     Inr (obj_extend target kvs)))"

text \<open>\<open>@file\<close> and \<open>@@literal\<close>: the contents, or nothing for an ordinary value.\<close>

definition named_value :: "cli_system \<Rightarrow> string \<Rightarrow> string + string option" where
  "named_value sys content =
     (case strip_prefix ''@@'' content of
        Some literal \<Rightarrow> Inr (Some (CHR ''@'' # literal))
      | None \<Rightarrow>
          (case strip_prefix ''@'' content of
             None \<Rightarrow> Inr None
           | Some path \<Rightarrow>
               if path = [] then
                 Inl ''Named @file arguments require a file path; use @@ for a literal @''
               else
                 res_bind (with_context ''Inspecting named argument file'' (cl_metadata sys path)) (\<lambda>(is_file, len).
                 if \<not> is_file \<or> 16 * 1024 * 1024 < len then
                   Inl ''Named argument input must be a regular UTF-8 file no larger than 16 MiB''
                 else
                   res_bind (with_context ''Reading named argument UTF-8 file'' (cl_read sys path))
                     (\<lambda>text. Inr (Some text)))))"

subsection \<open>Calls and their inputs\<close>

datatype output_mode = AutoOutput | TextOutput | MarkdownOutput | JsonOutput | RawOutput

definition output_parse :: "string \<Rightarrow> string + output_mode" where
  "output_parse v =
     (if v = ''auto'' then Inr AutoOutput
      else if v = ''text'' then Inr TextOutput
      else if v = ''markdown'' then Inr MarkdownOutput
      else if v = ''json'' then Inr JsonOutput
      else if v = ''raw'' then Inr RawOutput
      else Inl ''--output must be auto, text, markdown, json, or raw'')"

datatype provenance = FromJson | FromNamed string | FromLiteral

datatype input =
    ObjectInput obj
  | StdinInput obj
  | NamedInput string string
  | ResolvedInput string json provenance

type_synonym inputs = "(nat \<times> input) list"

record ad_hoc =
  ah_url :: "string option"
  ah_command :: "string option"
  ah_arguments :: "string list"
  ah_environment :: "(string \<times> string) list"
  ah_headers :: "(string \<times> string) list"
  ah_cwd :: "string option"
  ah_name :: "string option"
  ah_allow_http :: bool
  ah_persist :: "string option"
  ah_description :: "string option"
  ah_transport :: "string option"

record tool_call =
  tc_server :: "string option"
  tc_tool :: "string option"
  tc_arguments :: obj
  tc_positionals :: "json list"
  tc_generic_flags :: "string list"
  tc_inputs :: inputs
  tc_output :: output_mode
  tc_timeout :: "u64 option"
  tc_no_oauth :: bool
  tc_raw_strings :: bool
  tc_no_coerce :: bool
  tc_ephemeral :: ad_hoc
  tc_save_images :: "string option"
  tc_tail_log :: bool

definition call_value :: "cli_system \<Rightarrow> string \<Rightarrow> tool_call \<Rightarrow> json" where
  "call_value sys content call =
     (if tc_no_coerce call then JString (trim content) else coerce sys content (tc_raw_strings call))"

definition has_stdin :: "inputs \<Rightarrow> bool" where
  "has_stdin inputs \<longleftrightarrow> list_ex (\<lambda>(_, i). case i of StdinInput m \<Rightarrow> True | _ \<Rightarrow> False) inputs"

definition has_explicit_json :: "inputs \<Rightarrow> bool" where
  "has_explicit_json inputs \<longleftrightarrow>
     list_ex (\<lambda>(_, i). case i of ObjectInput m \<Rightarrow> True | StdinInput m \<Rightarrow> True | _ \<Rightarrow> False) inputs"

definition inputs_json :: "cli_system \<Rightarrow> nat \<Rightarrow> string \<Rightarrow> inputs \<Rightarrow> string + inputs" where
  "inputs_json sys order contents inputs =
     (if contents = ''-'' then Inr (inputs @ [(order, StdinInput [])])
      else res_bind (merge_json sys [] contents) (\<lambda>m. Inr (inputs @ [(order, ObjectInput m)])))"

definition inputs_named :: "nat \<Rightarrow> string \<Rightarrow> string \<Rightarrow> inputs \<Rightarrow> inputs" where
  "inputs_named order key raw inputs = inputs @ [(order, NamedInput key raw)]"

definition prepare_input :: "cli_system \<Rightarrow> tool_call \<Rightarrow> nat \<times> input \<Rightarrow> string + nat \<times> input" where
  "prepare_input sys call e =
     (case e of
        (order, NamedInput key raw) \<Rightarrow>
          res_bind (named_value sys raw) (\<lambda>found.
          Inr (order, case found of
                 Some contents \<Rightarrow> ResolvedInput key (JString contents) FromLiteral
               | None \<Rightarrow> ResolvedInput key (call_value sys raw call) (FromNamed raw)))
      | _ \<Rightarrow> Inr e)"

definition inputs_prepare :: "cli_system \<Rightarrow> tool_call \<Rightarrow> inputs \<Rightarrow> string + inputs" where
  "inputs_prepare sys call inputs = traverse (prepare_input sys call) (sort_key fst inputs)"

definition hydrate_value :: "cli_system \<Rightarrow> json \<Rightarrow> provenance \<Rightarrow> bool \<Rightarrow> json \<Rightarrow> json" where
  "hydrate_value sys descriptor source raw_strings v =
     (if raw_strings then v
      else
        (let ks = kinds descriptor;
             kind = first_kind ks;
             unfit = (length ks = 1 \<or> \<not> list_ex (\<lambda>k. accepts k v) ks);
             v = (if kind = Some KString \<and> unfit then
                    (case source of
                       FromNamed raw \<Rightarrow> JString (unquote sys raw)
                     | _ \<Rightarrow> if is_string v then v else JString (cl_print sys v))
                  else v)
         in if kind = Some KArray \<and> (length ks = 1 \<or> \<not> list_ex (\<lambda>k. accepts k v) ks) \<and> source \<noteq> FromLiteral then
              (case as_str v of
                 Some original \<Rightarrow> JArray (map (\<lambda>part. coerce sys (trim part) False) (split_on (CHR '','') original))
               | None \<Rightarrow> v)
            else v))"

text \<open>\<open>Inputs::insert\<close>: the property a key stands for and the value fitted to its descriptor.\<close>

definition insert_input ::
  "cli_system \<Rightarrow> schema_view option \<Rightarrow> string \<Rightarrow> json \<Rightarrow> provenance \<Rightarrow> tool_call \<Rightarrow> string + tool_call" where
  "insert_input sys schema key v source call =
     res_bind (case schema of Some view \<Rightarrow> property_name view key | None \<Rightarrow> Inr key) (\<lambda>name.
     let descriptor = Option.bind schema (\<lambda>view.
           map_option (view_resolve (cl_pointer sys) view) (view_property view name));
         v = (case descriptor of
                Some d \<Rightarrow> hydrate_value sys d source (tc_raw_strings call) v
              | None \<Rightarrow> v)
     in Inr (call\<lparr>tc_arguments := obj_insert name v (tc_arguments call)\<rparr>))"

fun insert_values ::
  "cli_system \<Rightarrow> schema_view option \<Rightarrow> obj \<Rightarrow> tool_call \<Rightarrow> string + tool_call" where
  "insert_values sys schema [] call = Inr call"
| "insert_values sys schema ((key, v) # kvs) call =
     res_bind (insert_input sys schema key v FromJson call) (insert_values sys schema kvs)"

fun apply_inputs ::
  "cli_system \<Rightarrow> schema_view option \<Rightarrow> inputs \<Rightarrow> tool_call \<Rightarrow> string + tool_call" where
  "apply_inputs sys schema [] call = Inr call"
| "apply_inputs sys schema ((_, i) # inputs) call =
     res_bind
       (case i of
          ObjectInput values \<Rightarrow> insert_values sys schema values call
        | StdinInput values \<Rightarrow> insert_values sys schema values call
        | ResolvedInput key v source \<Rightarrow> insert_input sys schema key v source call
        | NamedInput key raw \<Rightarrow> Inl ''Tool inputs were not prepared before application'')
       (apply_inputs sys schema inputs)"

definition inputs_apply ::
  "cli_system \<Rightarrow> schema_view option \<Rightarrow> inputs \<Rightarrow> tool_call \<Rightarrow> string + tool_call" where
  "inputs_apply sys schema inputs call = apply_inputs sys schema inputs (call\<lparr>tc_arguments := []\<rparr>)"

definition merge_stdin :: "cli_system \<Rightarrow> string \<Rightarrow> tool_call \<Rightarrow> string + tool_call" where
  "merge_stdin sys contents call =
     res_bind (merge_json sys [] contents) (\<lambda>values.
     let inputs = map (\<lambda>(order, i). (order, case i of StdinInput m \<Rightarrow> StdinInput values | _ \<Rightarrow> i)) (tc_inputs call)
     in res_bind (inputs_apply sys None inputs (call\<lparr>tc_inputs := []\<rparr>)) (\<lambda>call. Inr (call\<lparr>tc_inputs := inputs\<rparr>)))"

subsection \<open>Completion against the schema\<close>

definition check_flag :: "schema_view \<Rightarrow> string \<Rightarrow> string + unit" where
  "check_flag view flag =
     res_bind (property_name view flag) (\<lambda>name.
     if view_property view name = None then Inl (''Unknown tool option '' @ quoted (''--'' @ flag)) else Inr ())"

fun fill_positionals ::
  "cli_system \<Rightarrow> schema_view \<Rightarrow> json list \<Rightarrow> tool_call \<Rightarrow> string + tool_call" where
  "fill_positionals sys view [] call = Inr call"
| "fill_positionals sys view (p # ps) call =
     (case List.find (\<lambda>e. obj_get (fst e) (tc_arguments call) = None) (view_properties view) of
        None \<Rightarrow> Inl (''Too many positional arguments for this tool'' @ [SQUOTE] @ ''s schema'')
      | Some (name, descriptor) \<Rightarrow>
          fill_positionals sys view ps
            (call\<lparr>tc_arguments := obj_insert name
               (hydrate_value sys (view_resolve (cl_pointer sys) view descriptor) FromJson
                  (tc_raw_strings call) p) (tc_arguments call)\<rparr>))"

definition check_argument :: "cli_system \<Rightarrow> schema_view \<Rightarrow> tool_call \<Rightarrow> string \<times> json \<Rightarrow> string + unit" where
  "check_argument sys view call e =
     (case e of (name, property) \<Rightarrow>
        (case obj_get name (tc_arguments call) of
           None \<Rightarrow> Inr ()
         | Some argument \<Rightarrow>
             let descriptor = view_resolve (cl_pointer sys) view property; ks = kinds descriptor in
             if \<not> tc_raw_strings call \<and> ks \<noteq> [] \<and> \<not> list_ex (\<lambda>k. accepts k argument) ks then
               (case vget ''type'' descriptor of
                  None \<Rightarrow> Inl ''Schema type missing''
                | Some kind \<Rightarrow>
                    Inl (''Argument '' @ quoted name @ '' must be ''
                         @ (case as_str kind of Some s \<Rightarrow> s | None \<Rightarrow> cl_print sys kind)))
             else
               (case array_at ''enum'' descriptor of
                  Some choices \<Rightarrow>
                    if \<not> list_ex (json_eq argument) choices
                    then Inl (''Argument '' @ quoted name @ '' is not an allowed enum value'')
                    else Inr ()
                | None \<Rightarrow> Inr ())))"

definition required_names :: "json \<Rightarrow> string list" where
  "required_names schema =
     (case array_at ''required'' schema of None \<Rightarrow> [] | Some vs \<Rightarrow> List.map_filter as_str vs)"

definition check_required :: "tool_call \<Rightarrow> string \<Rightarrow> string + unit" where
  "check_required call name =
     (if obj_get name (tc_arguments call) = None
      then Inl (''Missing required argument '' @ quoted name) else Inr ())"

definition check_known :: "schema_view \<Rightarrow> string \<Rightarrow> string + unit" where
  "check_known view name =
     (if view_property view name = None
      then Inl (''Unknown argument '' @ quoted name @ '' for this tool'') else Inr ())"

definition hydrate :: "cli_system \<Rightarrow> json \<Rightarrow> tool_call \<Rightarrow> string + tool_call" where
  "hydrate sys schema call =
     (let view = schema_view_new (cl_unicode sys) schema in
      res_bind (traverse (check_flag view) (tc_generic_flags call)) (\<lambda>_.
      res_bind (inputs_apply sys (Some view) (tc_inputs call) call) (\<lambda>call.
      res_bind (fill_positionals sys view (tc_positionals call) (call\<lparr>tc_positionals := []\<rparr>)) (\<lambda>call.
      res_bind (traverse (check_argument sys view call) (view_properties view)) (\<lambda>_.
      res_bind (traverse (check_required call) (required_names schema)) (\<lambda>_.
      res_bind (if vget ''additionalProperties'' schema = Some (JBool False)
                then traverse (check_known view) (map fst (tc_arguments call)) else Inr []) (\<lambda>_.
      Inr call)))))))"

subsection \<open>The last input wins\<close>

fun input_entries :: "input \<Rightarrow> obj" where
  "input_entries (ObjectInput m) = m"
| "input_entries (StdinInput m) = m"
| "input_entries (ResolvedInput key v source) = [(key, v)]"
| "input_entries (NamedInput key raw) = []"

lemma insert_values_plain:
  "insert_values sys None kvs call =
     Inr (call\<lparr>tc_arguments := fold (\<lambda>(k, v). obj_insert k v) kvs (tc_arguments call)\<rparr>)"
  by (induction kvs arbitrary: call) (auto simp: insert_input_def)

lemma apply_inputs_plain:
  "apply_inputs sys None inputs call = Inr call' \<Longrightarrow>
     tc_arguments call' = fold (\<lambda>(k, v). obj_insert k v) (concat (map (input_entries \<circ> snd) inputs)) (tc_arguments call)"
proof (induction inputs arbitrary: call)
  case (Cons e inputs)
  obtain order i where e: "e = (order, i)" by fastforce
  with Cons.prems obtain call1 where
    "(case i of
          ObjectInput values \<Rightarrow> insert_values sys None values call
        | StdinInput values \<Rightarrow> insert_values sys None values call
        | ResolvedInput key v source \<Rightarrow> insert_input sys None key v source call
        | NamedInput key raw \<Rightarrow> Inl ''Tool inputs were not prepared before application'') = Inr call1"
    and rest: "apply_inputs sys None inputs call1 = Inr call'"
    by (auto elim!: res_bindE)
  then have "tc_arguments call1 = fold (\<lambda>(k, v). obj_insert k v) (input_entries i) (tc_arguments call)"
    by (cases i) (auto simp: insert_values_plain insert_input_def)
  with Cons.IH [OF rest] e show ?case by simp
qed simp

lemma prepared_orders:
  assumes "inputs_prepare sys call inputs = Inr prepared"
  shows "map fst prepared = sort (map fst inputs)"
proof -
  have "list_all2 (\<lambda>e e'. prepare_input sys call e = Inr e') (sort_key fst inputs) prepared"
    using assms by (simp add: inputs_prepare_def traverse_Inr)
  then have "map fst prepared = map fst (sort_key fst inputs)"
    by (induction rule: list_all2_induct)
       (auto simp: prepare_input_def split: prod.splits input.splits elim!: res_bindE)
  then show ?thesis
    by (metis mset_map mset_sort properties_for_sort sorted_sort_key)
qed

text \<open>Of several values for one argument the last on the command line counts, wherever they come from:
  JSON objects, standard input, named values and files are applied in the order of their tokens, so
  the argument is the value of the last entry with its name, and an argument that no input names is
  absent.\<close>

theorem the_last_input_wins:
  assumes "inputs_prepare sys call inputs = Inr prepared"
    and "inputs_apply sys None prepared call = Inr call'"
  shows "obj_get k (tc_arguments call') = map_of (rev (concat (map (input_entries \<circ> snd) prepared))) k
     \<and> map fst prepared = sort (map fst inputs)"
proof -
  have "tc_arguments call' = fold (\<lambda>(k, v). obj_insert k v) (concat (map (input_entries \<circ> snd) prepared)) []"
    using apply_inputs_plain [OF assms(2) [unfolded inputs_apply_def]] by simp
  then have "obj_get k (tc_arguments call') = map_of (rev (concat (map (input_entries \<circ> snd) prepared))) k"
    by (simp add: obj.get_fold_ins) (simp add: obj_get_def split: option.splits)
  with prepared_orders [OF assms(1)] show ?thesis by blast
qed

text \<open>A system for the examples: JSON text is not read, every file is missing.\<close>

definition sample_cli :: cli_system where
  "sample_cli =
     \<lparr>cl_unicode = ascii_tables, cl_parse = (\<lambda>_. None), cl_print = (\<lambda>_. ''?''), cl_pointer = (\<lambda>_ _. None),
      cl_float = \<lparr>ft_parse = (\<lambda>_. None), ft_finite = (\<lambda>_. False), ft_zero = (\<lambda>_. False),
        ft_extreme = (\<lambda>_. False), ft_decimal = (\<lambda>_. []), ft_scientific = (\<lambda>_. [])\<rparr>,
      cl_clock = sample_clock, cl_metadata = (\<lambda>_. Inl ''missing''), cl_read = (\<lambda>_. Inl ''missing''),
      cl_url_parse = (\<lambda>_. None), cl_url_path = id, cl_url_set_path = (\<lambda>_ p. p),
      cl_url_without_fragment = id\<rparr>"

definition no_ad_hoc :: ad_hoc where
  "no_ad_hoc =
     \<lparr>ah_url = None, ah_command = None, ah_arguments = [], ah_environment = [], ah_headers = [],
      ah_cwd = None, ah_name = None, ah_allow_http = False, ah_persist = None, ah_description = None,
      ah_transport = None\<rparr>"

definition empty_call :: tool_call where
  "empty_call =
     \<lparr>tc_server = None, tc_tool = None, tc_arguments = [], tc_positionals = [], tc_generic_flags = [],
      tc_inputs = [], tc_output = AutoOutput, tc_timeout = None, tc_no_oauth = False, tc_raw_strings = False,
      tc_no_coerce = False, tc_ephemeral = no_ad_hoc, tc_save_images = None, tc_tail_log = False\<rparr>"

theorem the_last_input_wins_witness:
  "\<exists>prepared call'.
     inputs_prepare sample_cli empty_call [(3, NamedInput ''a'' ''true''), (1, ObjectInput [(''a'', JNull)])] = Inr prepared
     \<and> inputs_apply sample_cli None prepared empty_call = Inr call'
     \<and> obj_get ''a'' (tc_arguments call') = Some (JBool True)"
proof -
  let ?prepared = "[(1, ObjectInput [(''a'', JNull)]), (3, ResolvedInput ''a'' (JBool True) (FromNamed ''true''))]"
  have p: "inputs_prepare sample_cli empty_call [(3, NamedInput ''a'' ''true''), (1, ObjectInput [(''a'', JNull)])]
      = Inr ?prepared"
  proof -
    have "trim ''true'' = ''true''" by code_simp
    then show ?thesis
      by (simp add: inputs_prepare_def prepare_input_def named_value_def call_value_def coerce_def
          strip_prefix_def empty_call_def)
  qed
  obtain call' where c: "inputs_apply sample_cli None ?prepared empty_call = Inr call'"
    by (simp add: inputs_apply_def insert_values_plain insert_input_def)
  from the_last_input_wins [OF p c, of "''a''"] p c show ?thesis by auto
qed

subsection \<open>Positional arguments\<close>

lemma find_filter: "List.find P xs = (case filter P xs of [] \<Rightarrow> None | x # _ \<Rightarrow> Some x)"
  by (induction xs) auto

definition free_properties :: "schema_view \<Rightarrow> obj \<Rightarrow> obj" where
  "free_properties view arguments = filter (\<lambda>e. obj_get (fst e) arguments = None) (view_properties view)"

lemma free_properties_insert:
  assumes "distinct (map fst (view_properties view))" and "free_properties view arguments = (name, d) # free"
  shows "free_properties view (obj_insert name v arguments) = free"
proof -
  have "free_properties view (obj_insert name v arguments) = filter (\<lambda>e. fst e \<noteq> name) (free_properties view arguments)"
    by (auto simp: free_properties_def obj_get_insert intro: filter_cong)
  moreover have "distinct (map fst ((name, d) # free))"
    using hm_wf_filter [OF assms(1)] assms(2) unfolding free_properties_def by metis
  then have "\<forall>e \<in> set free. fst e \<noteq> name" by (auto simp: image_iff)
  then have "filter (\<lambda>e. fst e \<noteq> name) free = free" by (simp add: filter_id_conv)
  ultimately show ?thesis using assms(2) by simp
qed

definition fitted_positional :: "cli_system \<Rightarrow> schema_view \<Rightarrow> bool \<Rightarrow> (string \<times> json) \<times> json \<Rightarrow> string \<times> json" where
  "fitted_positional sys view raw x =
     (case x of ((name, descriptor), p) \<Rightarrow>
        (name, hydrate_value sys (view_resolve (cl_pointer sys) view descriptor) FromJson raw p))"

lemma fill_positionals_Inr:
  assumes "fill_positionals sys view ps call = Inr call'" and "distinct (map fst (view_properties view))"
  shows "length ps \<le> length (free_properties view (tc_arguments call))
     \<and> tc_raw_strings call' = tc_raw_strings call
     \<and> tc_arguments call' = fold (\<lambda>(k, v). obj_insert k v)
          (map (fitted_positional sys view (tc_raw_strings call)) (zip (free_properties view (tc_arguments call)) ps))
          (tc_arguments call)"
  using assms(1)
proof (induction ps arbitrary: call)
  case (Cons p ps)
  then obtain name d free where f: "free_properties view (tc_arguments call) = (name, d) # free"
    by (auto simp: find_filter free_properties_def split: list.splits)
  let ?v = "hydrate_value sys (view_resolve (cl_pointer sys) view d) FromJson (tc_raw_strings call) p"
  let ?c = "call\<lparr>tc_arguments := obj_insert name ?v (tc_arguments call)\<rparr>"
  have "fill_positionals sys view ps ?c = Inr call'"
    using Cons.prems f by (simp add: find_filter free_properties_def)
  from Cons.IH [OF this] free_properties_insert [OF assms(2) f] f show ?case
    by (simp add: fitted_positional_def)
qed simp

subsection \<open>Completed calls fit the schema\<close>

lemma traverse_unit: "traverse f xs = Inr (us :: unit list) \<Longrightarrow> \<forall>x \<in> set xs. f x = Inr ()"
  by (auto simp: traverse_Inr list_all2_conv_all_nth in_set_conv_nth)

lemma hydrate_Inr:
  assumes "hydrate sys schema call = Inr call'" and "view = schema_view_new (cl_unicode sys) schema"
  obtains call1 where "inputs_apply sys (Some view) (tc_inputs call) call = Inr call1"
    and "fill_positionals sys view (tc_positionals call1) (call1\<lparr>tc_positionals := []\<rparr>) = Inr call'"
    and "\<forall>flag \<in> set (tc_generic_flags call). check_flag view flag = Inr ()"
    and "\<forall>e \<in> set (view_properties view). check_argument sys view call' e = Inr ()"
    and "\<forall>name \<in> set (required_names schema). check_required call' name = Inr ()"
    and "vget ''additionalProperties'' schema = Some (JBool False) \<longrightarrow>
       (\<forall>e \<in> set (tc_arguments call'). check_known view (fst e) = Inr ())"
  using assms(1) unfolding hydrate_def Let_def assms(2) [symmetric]
  by (elim res_bindE) (rule that, auto dest!: traverse_unit split: if_splits, force)

lemma check_argument_Inr:
  assumes "check_argument sys view call (name, property) = Inr ()" and "obj_get name (tc_arguments call) = Some v"
  shows "tc_raw_strings call \<or> kinds (view_resolve (cl_pointer sys) view property) = []
       \<or> list_ex (\<lambda>k. accepts k v) (kinds (view_resolve (cl_pointer sys) view property))"
    and "array_at ''enum'' (view_resolve (cl_pointer sys) view property) = Some choices \<Longrightarrow> list_ex (json_eq v) choices"
  using assms by (auto simp: check_argument_def Let_def split: if_splits option.splits)

lemma hydrate_fits:
  assumes "hydrate sys schema call = Inr call'" and "view = schema_view_new (cl_unicode sys) schema"
  shows "(\<forall>name \<in> set (required_names schema). obj_get name (tc_arguments call') \<noteq> None)
     \<and> (\<forall>(name, property) \<in> set (view_properties view). \<forall>v. obj_get name (tc_arguments call') = Some v \<longrightarrow>
          (let descriptor = view_resolve (cl_pointer sys) view property in
           (tc_raw_strings call' \<or> kinds descriptor = [] \<or> list_ex (\<lambda>k. accepts k v) (kinds descriptor))
         \<and> (case array_at ''enum'' descriptor of None \<Rightarrow> True | Some choices \<Rightarrow> list_ex (json_eq v) choices)))
     \<and> (vget ''additionalProperties'' schema = Some (JBool False) \<longrightarrow>
          (\<forall>name \<in> fst ` set (tc_arguments call'). view_property view name \<noteq> None))
     \<and> (\<forall>flag \<in> set (tc_generic_flags call). \<exists>name. property_name view flag = Inr name \<and> view_property view name \<noteq> None)"
proof -
  from hydrate_Inr [OF assms] have
    flags: "\<forall>flag \<in> set (tc_generic_flags call). check_flag view flag = Inr ()"
    and args: "\<forall>e \<in> set (view_properties view). check_argument sys view call' e = Inr ()"
    and required: "\<forall>name \<in> set (required_names schema). check_required call' name = Inr ()"
    and known: "vget ''additionalProperties'' schema = Some (JBool False) \<longrightarrow>
       (\<forall>e \<in> set (tc_arguments call'). check_known view (fst e) = Inr ())"
    by blast+
  have "\<forall>name \<in> set (required_names schema). obj_get name (tc_arguments call') \<noteq> None"
    using required by (auto simp: check_required_def split: if_splits)
  moreover have "\<forall>(name, property) \<in> set (view_properties view). \<forall>v. obj_get name (tc_arguments call') = Some v \<longrightarrow>
          (let descriptor = view_resolve (cl_pointer sys) view property in
           (tc_raw_strings call' \<or> kinds descriptor = [] \<or> list_ex (\<lambda>k. accepts k v) (kinds descriptor))
         \<and> (case array_at ''enum'' descriptor of None \<Rightarrow> True | Some choices \<Rightarrow> list_ex (json_eq v) choices))"
    using args check_argument_Inr [of sys view call'] by (fastforce simp: Let_def split: option.splits)
  moreover have "vget ''additionalProperties'' schema = Some (JBool False) \<longrightarrow>
          (\<forall>name \<in> fst ` set (tc_arguments call'). view_property view name \<noteq> None)"
    using known by (auto simp: check_known_def split: if_splits)
  moreover have "\<forall>flag \<in> set (tc_generic_flags call). \<exists>name. property_name view flag = Inr name \<and> view_property view name \<noteq> None"
    using flags by (auto simp: check_flag_def elim!: res_bindE split: if_splits)
  ultimately show ?thesis by blast
qed

text \<open>C34: a call that is completed fits the tool's schema: every required argument is present; every
  argument whose property declares types has one of them, unless strings are to stay raw; an
  argument with listed choices is one of them; if the schema allows no other arguments there are
  none; and every option given on the command line belongs to a property.\<close>

theorem completed_calls_fit_the_schema:
  assumes "hydrate sys schema call = Inr call'" and "view = schema_view_new (cl_unicode sys) schema"
  shows "(\<forall>name \<in> set (required_names schema). obj_get name (tc_arguments call') \<noteq> None)
     \<and> (\<forall>(name, property) \<in> set (view_properties view). \<forall>v. obj_get name (tc_arguments call') = Some v \<longrightarrow>
          (let descriptor = view_resolve (cl_pointer sys) view property in
           (tc_raw_strings call' \<or> kinds descriptor = [] \<or> list_ex (\<lambda>k. accepts k v) (kinds descriptor))
         \<and> (case array_at ''enum'' descriptor of None \<Rightarrow> True | Some choices \<Rightarrow> list_ex (json_eq v) choices)))
     \<and> (vget ''additionalProperties'' schema = Some (JBool False) \<longrightarrow>
          (\<forall>name \<in> fst ` set (tc_arguments call'). view_property view name \<noteq> None))
     \<and> (\<forall>flag \<in> set (tc_generic_flags call). \<exists>name. property_name view flag = Inr name \<and> view_property view name \<noteq> None)"
  by (rule hydrate_fits [OF assms])

definition sample_schema :: json where
  "sample_schema =
     JObject [(''properties'', JObject [(''n'', JObject [(''type'', JString ''string'')])]),
              (''required'', JArray [JString ''n'']), (''additionalProperties'', JBool False)]"

theorem completed_calls_fit_the_schema_witness:
  "\<exists>call'. hydrate sample_cli sample_schema (empty_call\<lparr>tc_positionals := [JString ''x'']\<rparr>) = Inr call'
     \<and> obj_get ''n'' (tc_arguments call') \<noteq> None"
proof -
  have k: "kebab ascii_tables ''n'' = ''n''" by code_simp
  have v: "schema_view_new (cl_unicode sample_cli) sample_schema =
      \<lparr>sv_root = sample_schema, sv_properties = Some [(''n'', JObject [(''type'', JString ''string'')])],
       sv_aliases = [(''n'', [''n''])]\<rparr>"
    by (simp add: schema_view_new_def sample_schema_def sample_cli_def obj_get_def k push_alias_def bt_get_def)
  have r: "resolve_schema p (JObject [(''type'', JString ''string'')]) root 0
      = Some (JObject [(''type'', JString ''string'')], 0)" for p root
    by (simp add: resolve_schema.simps obj_get_def)
  have "\<exists>call'. hydrate sample_cli sample_schema (empty_call\<lparr>tc_positionals := [JString ''x'']\<rparr>) = Inr call'"
    unfolding hydrate_def Let_def v
    by (simp add: empty_call_def inputs_apply_def view_properties_def obj_get_def hydrate_value_def view_resolve_def r
        kinds_def kind_parse_def check_argument_def array_at_def required_names_def sample_schema_def
        check_required_def check_known_def view_property_def map_filter_simps)
  then obtain call' where c: "hydrate sample_cli sample_schema (empty_call\<lparr>tc_positionals := [JString ''x'']\<rparr>) = Inr call'"
    by blast
  have "required_names sample_schema = [''n'']"
    by (simp add: required_names_def array_at_def sample_schema_def obj_get_def map_filter_simps)
  with completed_calls_fit_the_schema [OF c refl] c show ?thesis by simp
qed

end
