(* ===== verification/Resolution.thy ===== *)
theory Resolution
  imports Names Unicode Ordered
begin

text \<open>
  Resolution of a tool named on the command line (\<open>src/tool_resolution.rs\<close>): exact names, aliases
  that agree up to case and punctuation, and the suggestion offered for a typo, with the edit
  distance behind it and its specification by single edits.
\<close>

subsection \<open>Aliases\<close>

definition normalize :: "unicode \<Rightarrow> string \<Rightarrow> string" where
  "normalize u name = concat (map (char_to_lowercase u) (filter (is_alphanumeric u) (chars name)))"

definition is_discovery_pseudo :: "unicode \<Rightarrow> string \<Rightarrow> bool" where
  "is_discovery_pseudo u name \<longleftrightarrow> normalize u name = ''listtools'' \<or> normalize u name = ''help''"

definition catalog_names :: "json list \<Rightarrow> string list" where
  "catalog_names tools = List.map_filter tool_entry_name tools"

definition has_real_tool :: "unicode \<Rightarrow> json list \<Rightarrow> string \<Rightarrow> bool" where
  "has_real_tool u tools requested \<longleftrightarrow>
     (let requested_key = normalize u requested in
      list_ex (\<lambda>name. name = requested \<or> (requested_key \<noteq> [] \<and> normalize u name = requested_key))
        (filter (\<lambda>name. name \<noteq> []) (catalog_names tools)))"

subsection \<open>Edit distance\<close>

text \<open>
  One row of the table.  The cells pair a character of the right word with the cost above it and
  the cost diagonally above it; \<open>left_cost\<close> is the cost to the left.
\<close>

fun row_costs :: "'a \<Rightarrow> (('a \<times> nat) \<times> nat) list \<Rightarrow> nat \<Rightarrow> nat list" where
  "row_costs left_character [] left_cost = []"
| "row_costs left_character (((right_character, upper_cost), diagonal_cost) # cells) left_cost =
     (let insertion = left_cost + 1;
          deletion = upper_cost + 1;
          substitution = diagonal_cost + (if left_character \<noteq> right_character then 1 else 0);
          cost = min (min insertion deletion) substitution
      in cost # row_costs left_character cells cost)"

fun distance_rows :: "'a list \<Rightarrow> nat \<Rightarrow> nat list \<Rightarrow> nat \<Rightarrow> 'a list \<Rightarrow> nat" where
  "distance_rows right left_index previous final_cost [] = final_cost"
| "distance_rows right left_index previous final_cost (left_character # left) =
     (let current = (left_index + 1)
            # row_costs left_character (zip (zip right (tl previous)) previous) (left_index + 1)
      in distance_rows right (left_index + 1) current (last current) left)"

definition distance :: "string \<Rightarrow> string \<Rightarrow> nat" where
  "distance left right =
     (let right = chars right
      in distance_rows right 0 [0..<length right + 1] (length right) (chars left))"

definition suggestion :: "unicode \<Rightarrow> string \<Rightarrow> string list \<Rightarrow> string option" where
  "suggestion u requested visible =
     (let requested = normalize u requested in
      if requested = [] then None
      else
        (case sort (map (\<lambda>name. (distance requested (normalize u name), name)) visible) of
           [] \<Rightarrow> None
         | (d, name) # others \<Rightarrow>
             if list_ex (\<lambda>candidate. fst candidate = d) others \<or> max (length requested) 3 div 3 < d
             then None else Some name))"

subsection \<open>Resolution\<close>

definition excluded_tool :: "string \<Rightarrow> string \<Rightarrow> string" where
  "excluded_tool requested server_name =
     ''Tool '' @ quoted requested @ '' is excluded by the configuration for '' @ quoted server_name"

definition resolve_tool_name ::
  "unicode \<Rightarrow> string \<Rightarrow> json list \<Rightarrow> string option \<Rightarrow> (string \<Rightarrow> bool) \<Rightarrow> string + string" where
  "resolve_tool_name u server_name tools requested allowed =
     (let names = catalog_names tools; visible = filter allowed names in
      case requested of
        None \<Rightarrow>
          (case visible of
             [name] \<Rightarrow> Inr name
           | [] \<Rightarrow> Inl (''Server '' @ quoted server_name @ '' exposes no available tools'')
           | _ \<Rightarrow> Inl (''Missing tool: '' @ quoted server_name @ '' exposes multiple tools; use call ''
                      @ server_name @ ''.TOOL''))
      | Some requested \<Rightarrow>
          if requested \<in> set names then
            (if requested \<in> set visible then Inr requested else Inl (excluded_tool requested server_name))
          else
            (let requested_key = normalize u requested;
                 aliases = filter (\<lambda>name. requested_key \<noteq> [] \<and> normalize u name = requested_key) visible
             in case aliases of
                  [name] \<Rightarrow> Inr name
                | [] \<Rightarrow>
                    if list_ex (\<lambda>name. normalize u name = requested_key) names
                    then Inl (excluded_tool requested server_name)
                    else
                      (case suggestion u requested visible of
                         Some s \<Rightarrow> Inl (''Unknown tool '' @ quoted requested @ '' on '' @ quoted server_name
                                      @ ''. Did you mean '' @ quoted s @ ''?'')
                       | None \<Rightarrow> Inl (''Unknown tool '' @ quoted requested @ '' on '' @ quoted server_name))
                | _ \<Rightarrow> Inl (''Tool '' @ quoted requested @ '' is ambiguous on '' @ quoted server_name
                            @ ''; matches: '' @ comma_joined aliases)))"

subsection \<open>What the edit distance means\<close>

text \<open>One edit replaces, inserts or deletes at most one character.\<close>

definition one_edit :: "'a list \<Rightarrow> 'a list \<Rightarrow> bool" where
  "one_edit xs ys \<longleftrightarrow>
     (\<exists>a b u v. xs = a @ u @ b \<and> ys = a @ v @ b \<and> length u \<le> 1 \<and> length v \<le> 1)"

fun lev :: "'a list \<Rightarrow> 'a list \<Rightarrow> nat" where
  "lev [] ys = length ys"
| "lev (x # xs) [] = Suc (length xs)"
| "lev (x # xs) (y # ys) =
     min (min (Suc (lev (x # xs) ys)) (Suc (lev xs (y # ys)))) (lev xs ys + (if x = y then 0 else 1))"

lemma lev_Nil2 [simp]: "lev xs [] = length xs"
  by (cases xs) simp_all

lemma lev_Cons_right: "lev xs (y # ys) \<le> Suc (lev xs ys)"
  by (cases xs) simp_all

lemma lev_Cons_left: "lev (x # xs) ys \<le> Suc (lev xs ys)"
  by (cases ys) simp_all

lemma lev_delete_right: "lev xs ys \<le> Suc (lev xs (y # ys))"
proof (induction xs)
  case (Cons x xs)
  with lev_Cons_left [of x xs ys] show ?case by simp
qed simp

lemma lev_replace_right: "lev xs (y # ys) \<le> Suc (lev xs (z # ys))"
proof (induction xs)
  case (Cons x xs)
  with lev_Cons_right [of "x # xs" y ys] show ?case by (auto simp: min_def)
qed simp

lemma lev_Cons_mono: "(\<And>xs. lev xs ys \<le> Suc (lev xs zs)) \<Longrightarrow> lev xs (c # ys) \<le> Suc (lev xs (c # zs))"
proof (induction xs)
  case Nil
  from Nil [of "[]"] show ?case by simp
next
  case (Cons x xs)
  from Cons.IH Cons.prems have "lev xs (c # ys) \<le> Suc (lev xs (c # zs))" by blast
  with Cons.prems [of "x # xs"] Cons.prems [of xs] show ?case by auto
qed

lemma lev_one_edit_core:
  assumes "length u \<le> 1" and "length v \<le> 1"
  shows "lev xs (u @ b) \<le> Suc (lev xs (v @ b))"
proof -
  from assms(1) consider "u = []" | y where "u = [y]" by (cases u) auto
  moreover from assms(2) consider "v = []" | z where "v = [z]" by (cases v) auto
  ultimately show ?thesis
    using lev_Cons_right lev_delete_right lev_replace_right by (metis append_Cons append_Nil le_Suc_eq order_refl)
qed

lemma lev_one_edit: "one_edit ys zs \<Longrightarrow> lev xs zs \<le> Suc (lev xs ys)"
proof -
  assume "one_edit ys zs"
  then obtain a b u v where e: "ys = a @ u @ b" "zs = a @ v @ b" "length u \<le> 1" "length v \<le> 1"
    by (auto simp: one_edit_def)
  have "lev xs (a @ v @ b) \<le> Suc (lev xs (a @ u @ b))" for xs
    by (induction a arbitrary: xs) (simp_all add: lev_one_edit_core [OF e(4,3)] lev_Cons_mono)
  with e show ?thesis by simp
qed

lemma lev_refl [simp]: "lev xs xs = 0"
  by (induction xs) simp_all

lemma lev_lower: "(one_edit ^^ n) xs ys \<Longrightarrow> lev xs ys \<le> n"
proof (induction n arbitrary: ys)
  case (Suc n)
  then obtain zs where "(one_edit ^^ n) xs zs" "one_edit zs ys" by auto
  with Suc.IH [of zs] lev_one_edit [of zs ys xs] show ?case by linarith
qed simp

lemma one_edit_Cons: "one_edit xs ys \<Longrightarrow> one_edit (c # xs) (c # ys)"
  unfolding one_edit_def by (metis append_Cons)

lemma edits_Cons: "(one_edit ^^ n) xs ys \<Longrightarrow> (one_edit ^^ n) (c # xs) (c # ys)"
  by (induction n arbitrary: ys) (auto intro: one_edit_Cons)

lemma one_edit_head: "length u \<le> 1 \<Longrightarrow> length v \<le> 1 \<Longrightarrow> one_edit (u @ b) (v @ b)"
  unfolding one_edit_def by (metis append_Nil)

lemmas one_edit_heads =
  one_edit_head [of "[]" "[y]" for y, simplified] one_edit_head [of "[x]" "[]" for x, simplified]
  one_edit_head [of "[x]" "[y]" for x y, simplified]

lemma edits_first: "one_edit xs ys \<Longrightarrow> (one_edit ^^ n) ys zs \<Longrightarrow> (one_edit ^^ Suc n) xs zs"
  by (metis relpowp_Suc_I2)

lemma edits_last: "(one_edit ^^ n) xs ys \<Longrightarrow> one_edit ys zs \<Longrightarrow> (one_edit ^^ Suc n) xs zs"
  by auto

lemma lev_upper: "(one_edit ^^ lev xs ys) xs ys"
proof (induction xs ys rule: lev.induct)
  case (1 ys)
  show ?case by (induction ys) (auto intro: edits_last [simplified] one_edit_heads)
next
  case (2 x xs)
  have "(one_edit ^^ length (x # xs)) (x # xs) []"
    by (induction "x # xs" arbitrary: x xs) (metis edits_first length_Cons list.size(3) neq_Nil_conv one_edit_heads(2) relpowp_0_I)
  then show ?case by simp
next
  case (3 x xs y ys)
  have ins: "(one_edit ^^ Suc (lev (x # xs) ys)) (x # xs) (y # ys)"
    using 3(1) one_edit_heads(1) by (rule edits_last)
  have del: "(one_edit ^^ Suc (lev xs (y # ys))) (x # xs) (y # ys)"
    using one_edit_heads(2) 3(2) by (rule edits_first)
  have sub: "(one_edit ^^ (lev xs ys + (if x = y then 0 else 1))) (x # xs) (y # ys)"
    using edits_Cons [OF 3(3), of y] edits_first [OF one_edit_heads(3) edits_Cons [OF 3(3), of y], of x] by simp
  from ins del sub show ?case by (simp add: min_def)
qed

lemma lev_least: "lev xs ys = (LEAST n. (one_edit ^^ n) xs ys)"
  using lev_upper lev_lower by (metis (mono_tags, lifting) Least_equality)

subsection \<open>The table computes it\<close>

text \<open>The table works on prefixes; \<open>pre_lev\<close> reads the words from the end.\<close>

definition pre_lev :: "'a list \<Rightarrow> 'a list \<Rightarrow> nat" where
  "pre_lev xs ys = lev (rev xs) (rev ys)"

lemma pre_lev_Nil [simp]: "pre_lev [] ys = length ys" "pre_lev xs [] = length xs"
  by (simp_all add: pre_lev_def)

lemma pre_lev_snoc:
  "pre_lev (xs @ [x]) (ys @ [y]) =
     min (min (pre_lev (xs @ [x]) ys + 1) (pre_lev xs (ys @ [y]) + 1)) (pre_lev xs ys + (if x \<noteq> y then 1 else 0))"
  by (simp add: pre_lev_def)

fun costs_from :: "'a list \<Rightarrow> 'a list \<Rightarrow> 'a list \<Rightarrow> nat list" where
  "costs_from xs ys [] = []"
| "costs_from xs ys (r # rs) = pre_lev xs (ys @ [r]) # costs_from xs (ys @ [r]) rs"

lemma row_costs_correct:
  "row_costs x (zip (zip rs (costs_from xs ys rs)) (pre_lev xs ys # costs_from xs ys rs)) (pre_lev (xs @ [x]) ys)
     = costs_from (xs @ [x]) ys rs"
proof (induction rs arbitrary: ys)
  case (Cons r rs)
  show ?case
    by (simp only: costs_from.simps zip_Cons_Cons row_costs.simps Let_def pre_lev_snoc [symmetric] Cons.IH)
qed simp

lemma costs_from_first: "costs_from [] ys rs = [length ys + 1..<length ys + length rs + 1]"
  by (induction rs arbitrary: ys) (simp_all add: upt_conv_Cons del: upt_Suc)

lemma costs_from_last: "last (pre_lev xs ys # costs_from xs ys rs) = pre_lev xs (ys @ rs)"
  by (induction rs arbitrary: ys) simp_all

lemma distance_rows_correct:
  "distance_rows right (length xs) (pre_lev xs [] # costs_from xs [] right) (pre_lev xs right) left
     = pre_lev (xs @ left) right"
proof (induction left arbitrary: xs)
  case (Cons x left)
  have row: "(length xs + 1) # row_costs x (zip (zip right (costs_from xs [] right)) (pre_lev xs [] # costs_from xs [] right))
        (length xs + 1) = pre_lev (xs @ [x]) [] # costs_from (xs @ [x]) [] right"
    using row_costs_correct [of x right xs "[]"] by simp
  have "last (pre_lev (xs @ [x]) [] # costs_from (xs @ [x]) [] right) = pre_lev (xs @ [x]) right"
    using costs_from_last [of "xs @ [x]" "[]" right] by simp
  with Cons.IH [of "xs @ [x]"] row show ?case by (simp add: Let_def)
qed simp

lemma distance_pre_lev: "distance left right = pre_lev (chars left) (chars right)"
  using distance_rows_correct [of "chars right" "[]" "chars left"] costs_from_first [of "[]" "chars right"]
  by (simp add: distance_def Let_def upt_conv_Cons [of 0] del: upt_Suc)

lemma one_edit_rev: "one_edit (rev xs) (rev ys) \<longleftrightarrow> one_edit xs ys"
proof -
  have "one_edit (rev xs) (rev ys)" if "one_edit xs ys" for xs ys :: "'a list"
    using that unfolding one_edit_def by (metis append.assoc length_rev rev_append)
  from this [of xs ys] this [of "rev xs" "rev ys"] show ?thesis by auto
qed

lemma edits_rev: "(one_edit ^^ n) (rev xs) (rev ys) \<longleftrightarrow> (one_edit ^^ n) xs ys"
proof -
  have "(one_edit ^^ n) (rev xs) (rev ys)" if "(one_edit ^^ n) xs ys" for xs ys :: "'a list"
    using that
  proof (induction n arbitrary: ys)
    case (Suc n)
    then obtain zs where "(one_edit ^^ n) xs zs" "one_edit zs ys" by auto
    with Suc.IH show ?case by (metis one_edit_rev relpowp_Suc_I)
  qed simp
  from this [of xs ys] this [of "rev xs" "rev ys"] show ?thesis by auto
qed

text \<open>C40: the cost behind a suggestion is the edit distance: the two-row table of \<open>distance\<close> yields the
  least number of single-character insertions, deletions and replacements that turn one word into
  the other, counted in characters and not in bytes.\<close>

theorem distance_is_the_least_number_of_edits:
  "(one_edit ^^ distance left right) (chars left) (chars right)
   \<and> distance left right = (LEAST n. (one_edit ^^ n) (chars left) (chars right))"
  using lev_upper [of "rev (chars left)" "rev (chars right)"] lev_least [of "rev (chars left)" "rev (chars right)"]
  by (simp add: distance_pre_lev pre_lev_def edits_rev)

lemma distance_zero: "distance a b = 0 \<longleftrightarrow> a = b"
proof
  assume "distance a b = 0"
  then have "(one_edit ^^ 0) (rev (chars a)) (rev (chars b))"
    using lev_upper [of "rev (chars a)" "rev (chars b)"] by (simp add: distance_pre_lev pre_lev_def)
  then show "a = b" by (simp add: chars_inject)
qed (simp add: distance_pre_lev pre_lev_def)

subsection \<open>Which tool a name resolves to\<close>

lemma singleton_case: "(case xs of [x] \<Rightarrow> f x | [] \<Rightarrow> a | _ \<Rightarrow> b) =
    (if xs = [] then a else if tl xs = [] then f (hd xs) else b)"
  by (auto split: list.splits)

lemma sorted_candidates:
  assumes "sort cs = (d, n) # others"
  shows "(d, n) \<in> set cs" and "\<forall>c \<in> set cs. d \<le> fst c"
    and "\<not> list_ex (\<lambda>c. fst c = d) others \<Longrightarrow> c \<in> set cs \<Longrightarrow> c \<noteq> (d, n) \<Longrightarrow> d < fst c"
proof -
  have s: "set cs = insert (d, n) (set others)" using assms by (metis set_sort list.simps(15))
  then show "(d, n) \<in> set cs" by simp
  have "sorted ((d, n) # others)" using assms by (metis sorted_sort)
  with s show le: "\<forall>c \<in> set cs. d \<le> fst c" by (auto simp: less_eq_prod_def)
  assume "\<not> list_ex (\<lambda>c. fst c = d) others" "c \<in> set cs" "c \<noteq> (d, n)"
  with s le show "d < fst c" by (force simp: list_ex_iff le_less)
qed

lemma suggestion_is_visible_and_closest:
  assumes "suggestion u requested visible = Some name"
  shows "name \<in> set visible"
    and "distance (normalize u requested) (normalize u name) \<le> max (length (normalize u requested)) 3 div 3"
    and "\<And>other. other \<in> set visible \<Longrightarrow> other \<noteq> name \<Longrightarrow>
           distance (normalize u requested) (normalize u name) < distance (normalize u requested) (normalize u other)"
proof -
  let ?d = "\<lambda>n. distance (normalize u requested) (normalize u n)"
  let ?cs = "map (\<lambda>n. (?d n, n)) visible"
  from assms obtain d others where s: "sort ?cs = (d, name) # others"
    "\<not> list_ex (\<lambda>c. fst c = d) others" "d \<le> max (length (normalize u requested)) 3 div 3"
    by (auto simp: suggestion_def Let_def split: if_splits list.splits)
  from sorted_candidates(1) [OF s(1)] show n: "name \<in> set visible" by auto
  from sorted_candidates(1) [OF s(1)] have d: "d = ?d name" by auto
  with s show "?d name \<le> max (length (normalize u requested)) 3 div 3" by simp
  fix other assume "other \<in> set visible" "other \<noteq> name"
  with sorted_candidates(3) [OF s(1,2), of "(?d other, other)"] d show "?d name < ?d other" by force
qed

lemma resolve_tool_iff:
  "(resolve_tool_name u server tools None allowed = Inr name \<longleftrightarrow> filter allowed (catalog_names tools) = [name])
   \<and> (resolve_tool_name u server tools (Some requested) allowed = Inr name \<longleftrightarrow>
        (if requested \<in> set (catalog_names tools) then name = requested \<and> allowed name
         else normalize u requested \<noteq> []
            \<and> filter (\<lambda>n. allowed n \<and> normalize u n = normalize u requested) (catalog_names tools) = [name]))"
  by (cases "normalize u requested = []")
     (auto simp: resolve_tool_name_def Let_def conj_commute split: list.splits option.splits)

text \<open>A call runs the tool that was named and no other.  Without a name the one visible tool is
  taken.  A name of the catalog stands for itself if the configuration allows it and is refused
  otherwise, whatever other tools look like it.  Any other name is taken for the only allowed tool
  that agrees with it up to case and punctuation; a resemblance, however close, only yields a
  suggestion in the error.\<close>

theorem resolved_tools_are_meant:
  "(resolve_tool_name u server tools None allowed = Inr name \<longleftrightarrow> filter allowed (catalog_names tools) = [name])
   \<and> (resolve_tool_name u server tools (Some requested) allowed = Inr name \<longleftrightarrow>
        (if requested \<in> set (catalog_names tools) then name = requested \<and> allowed name
         else normalize u requested \<noteq> []
            \<and> filter (\<lambda>n. allowed n \<and> normalize u n = normalize u requested) (catalog_names tools) = [name]))"
  by (rule resolve_tool_iff)

end
