(* ===== verification/Arguments.thy ===== *)
theory Arguments
  imports Inputs Resolution
begin

text \<open>
  The command line of a tool call: options (\<open>src/tool_options.rs\<close>), selectors
  (\<open>src/server_selector.rs\<close>), the parser \<open>call\<close> (\<open>src/tool_arguments.rs\<close>), and what the call
  sends to the server (\<open>src/tool_call.rs\<close>).
\<close>

subsection \<open>Options\<close>

datatype call_option =
    OptServer | OptTool | OptTimeout | OptOutput | OptRaw | OptRawStrings | OptNoCoerce | OptNoOauth
  | OptYes | OptTailLog | OptSaveImages | OptJson

definition call_option_parse :: "string \<Rightarrow> call_option option" where
  "call_option_parse flag =
     (if flag = ''--server'' \<or> flag = ''--mcp'' then Some OptServer
      else if flag = ''--tool'' then Some OptTool
      else if flag = ''--timeout'' then Some OptTimeout
      else if flag = ''--output'' then Some OptOutput
      else if flag = ''--raw'' then Some OptRaw
      else if flag = ''--raw-strings'' then Some OptRawStrings
      else if flag = ''--no-coerce'' then Some OptNoCoerce
      else if flag = ''--no-oauth'' then Some OptNoOauth
      else if flag = ''--yes'' then Some OptYes
      else if flag = ''--tail-log'' then Some OptTailLog
      else if flag = ''--save-images'' then Some OptSaveImages
      else if flag = ''--args'' \<or> flag = ''--params'' \<or> flag = ''--json'' then Some OptJson
      else None)"

definition call_option_takes_value :: "call_option \<Rightarrow> bool" where
  "call_option_takes_value opt \<longleftrightarrow> opt \<in> {OptServer, OptTool, OptTimeout, OptOutput, OptSaveImages, OptJson}"

datatype ad_hoc_option =
    AdHttpUrl | AdSse | AdStdio | AdStdioArg | AdCwd | AdName | AdAllowHttp | AdEnv | AdHeader
  | AdPersist | AdDescription

definition ad_hoc_option_parse :: "string \<Rightarrow> ad_hoc_option option" where
  "ad_hoc_option_parse flag =
     (if flag = ''--http-url'' then Some AdHttpUrl
      else if flag = ''--sse'' then Some AdSse
      else if flag = ''--stdio'' then Some AdStdio
      else if flag = ''--stdio-arg'' then Some AdStdioArg
      else if flag = ''--cwd'' then Some AdCwd
      else if flag = ''--name'' then Some AdName
      else if flag = ''--allow-http'' then Some AdAllowHttp
      else if flag = ''--env'' then Some AdEnv
      else if flag = ''--header'' then Some AdHeader
      else if flag = ''--persist'' then Some AdPersist
      else if flag = ''--description'' then Some AdDescription
      else None)"

definition takes_value :: "string \<Rightarrow> bool" where
  "takes_value flag \<longleftrightarrow>
     (case call_option_parse flag of Some opt \<Rightarrow> call_option_takes_value opt | None \<Rightarrow> False)
     \<or> (case ad_hoc_option_parse flag of Some opt \<Rightarrow> opt \<noteq> AdAllowHttp | None \<Rightarrow> False)"

text \<open>The next token as the value of a flag.\<close>

definition flag_value :: "string list \<Rightarrow> string \<Rightarrow> string + string \<times> string list" where
  "flag_value tokens flag =
     (case tokens of
        [] \<Rightarrow> Inl (''Flag '' @ quoted flag @ '' requires a value'')
      | t # ts \<Rightarrow> Inr (t, ts))"

subsection \<open>Ad-hoc servers\<close>

definition ad_hoc_present :: "ad_hoc \<Rightarrow> bool" where
  "ad_hoc_present a \<longleftrightarrow> is_some (ah_url a) \<or> is_some (ah_command a)"

definition ad_hoc_entry :: "string \<Rightarrow> string + string \<times> string" where
  "ad_hoc_entry entry =
     res_bind (ok_or ''--env/--header requires KEY=value''
       (case split_once ''='' entry of Some kv \<Rightarrow> Some kv | None \<Rightarrow> split_once '':'' entry)) (\<lambda>(key, content).
     if trim key = [] then Inl ''Empty environment/header name'' else Inr (trim key, trim content))"

definition ad_hoc_set :: "ad_hoc_option \<Rightarrow> string \<Rightarrow> ad_hoc \<Rightarrow> string + ad_hoc" where
  "ad_hoc_set opt v a =
     (case opt of
        AdHttpUrl \<Rightarrow> Inr (a\<lparr>ah_url := Some v, ah_transport := Some ''http''\<rparr>)
      | AdSse \<Rightarrow> Inr (a\<lparr>ah_url := Some v, ah_transport := Some ''sse''\<rparr>)
      | AdStdio \<Rightarrow> Inr (a\<lparr>ah_command := Some v\<rparr>)
      | AdStdioArg \<Rightarrow> Inr (a\<lparr>ah_arguments := ah_arguments a @ [v]\<rparr>)
      | AdCwd \<Rightarrow> Inr (a\<lparr>ah_cwd := Some v\<rparr>)
      | AdName \<Rightarrow> Inr (a\<lparr>ah_name := Some v\<rparr>)
      | AdAllowHttp \<Rightarrow> Inr (a\<lparr>ah_allow_http := True\<rparr>)
      | AdEnv \<Rightarrow> res_bind (ad_hoc_entry v) (\<lambda>(key, content).
          Inr (a\<lparr>ah_environment := bt_insert key content (ah_environment a)\<rparr>))
      | AdHeader \<Rightarrow> res_bind (ad_hoc_entry v) (\<lambda>(key, content).
          Inr (a\<lparr>ah_headers := bt_insert key content (ah_headers a)\<rparr>))
      | AdPersist \<Rightarrow> Inr (a\<lparr>ah_persist := Some v\<rparr>)
      | AdDescription \<Rightarrow> Inr (a\<lparr>ah_description := Some v\<rparr>))"

text \<open>\<open>AdHoc::consume\<close>: nothing if the token is no ad-hoc option.\<close>

definition ad_hoc_consume ::
  "string \<Rightarrow> string list \<Rightarrow> ad_hoc \<Rightarrow> string + (string list \<times> ad_hoc) option" where
  "ad_hoc_consume token tokens a =
     (case ad_hoc_option_parse token of
        None \<Rightarrow> Inr None
      | Some AdAllowHttp \<Rightarrow> Inr (Some (tokens, a\<lparr>ah_allow_http := True\<rparr>))
      | Some opt \<Rightarrow>
          res_bind (flag_value tokens token) (\<lambda>(v, tokens).
          res_bind (ad_hoc_set opt v a) (\<lambda>a. Inr (Some (tokens, a)))))"

definition ad_hoc_validate :: "ad_hoc \<Rightarrow> string + unit" where
  "ad_hoc_validate a =
     (if \<not> ad_hoc_present a
         \<and> (is_some (ah_persist a) \<or> is_some (ah_description a) \<or> is_some (ah_name a) \<or> is_some (ah_cwd a)
            \<or> ah_allow_http a \<or> ah_arguments a \<noteq> [] \<or> ah_environment a \<noteq> [] \<or> ah_headers a \<noteq> [])
      then Inl ''Ad-hoc options require --stdio, --http-url, --sse, or an HTTP URL selector''
      else if is_some (ah_command a) \<and> (ah_headers a \<noteq> [] \<or> ah_allow_http a)
      then Inl ''--header and --allow-http require an ad-hoc HTTP/SSE target''
      else if is_some (ah_url a) \<and> (ah_arguments a \<noteq> [] \<or> is_some (ah_cwd a))
      then Inl ''--stdio-arg and --cwd require an ad-hoc stdio command''
      else Inr ())"

subsection \<open>Timeouts\<close>

definition timeout_error :: string where
  "timeout_error = ''--timeout must be a positive integer (milliseconds)''"

definition decimal_value :: "string \<Rightarrow> nat" where
  "decimal_value ds = foldl (\<lambda>n d. 10 * n + (of_char d - 48)) 0 ds"

definition positive_milliseconds :: "cli_system \<Rightarrow> string \<Rightarrow> string + u64" where
  "positive_milliseconds sys content =
     (if content = [] \<or> starts_with ''0'' content \<or> \<not> list_all is_ascii_digit content then Inl timeout_error
      else if 2 ^ 64 \<le> decimal_value content then Inl timeout_error
      else if checked_add (cl_clock sys) (now (cl_clock sys) 0) (decimal_value content) = None
      then Inl ''Timeout exceeds the supported clock range''
      else Inr (of_nat (decimal_value content)))"

subsection \<open>Selectors\<close>

definition rsplit_once :: "char \<Rightarrow> string \<Rightarrow> (string \<times> string) option" where
  "rsplit_once c s =
     (case split_once [c] (rev s) of None \<Rightarrow> None | Some (b, a) \<Rightarrow> Some (rev a, rev b))"

definition selected_tool :: "string \<Rightarrow> (string \<times> string) option" where
  "selected_tool segment =
     (case rsplit_once (CHR ''.'') segment of
        None \<Rightarrow> None
      | Some (base, tool) \<Rightarrow>
          if base \<noteq> [] \<and> tool \<noteq> []
             \<and> list_all (\<lambda>c. is_ascii_alphanumeric c \<or> c = CHR ''_'' \<or> c = CHR ''-'') tool
          then Some (base, tool) else None)"

definition split_http :: "cli_system \<Rightarrow> string \<Rightarrow> string + (string \<times> string option) option" where
  "split_http sys selector =
     (let selector = trim selector in
      if \<not> starts_with ''http://'' selector \<and> \<not> starts_with ''https://'' selector then Inr None
      else
        res_bind (ok_or ''Invalid HTTP server selector'' (cl_url_parse sys selector)) (\<lambda>url.
        let pathname = cl_url_path sys url;
            segment = (case rsplit_once (CHR ''/'') pathname of None \<Rightarrow> pathname | Some (_, s) \<Rightarrow> s)
        in case selected_tool segment of
             None \<Rightarrow> Inr (Some (cl_url_without_fragment sys url, None))
           | Some (base, tool) \<Rightarrow>
               let directory = take (length pathname - length segment) pathname in
               Inr (Some (cl_url_without_fragment sys (cl_url_set_path sys url (directory @ base)), Some tool))))"

definition has_whitespace :: "string \<Rightarrow> bool" where
  "has_whitespace s \<longleftrightarrow> list_ex (\<lambda>c. 0 < ws_len c) (chars s)"

definition command_selector :: "string \<Rightarrow> bool" where
  "command_selector s \<longleftrightarrow>
     has_whitespace s \<or> starts_with ''/'' s \<or> starts_with ''~'' s
     \<or> starts_with [CHR ''.'', BACKSLASH] s \<or> starts_with ''./'' s
     \<or> starts_with [CHR ''.'', CHR ''.'', BACKSLASH] s \<or> starts_with ''../'' s
     \<or> starts_with [BACKSLASH, BACKSLASH] s \<or> take 2 (drop 1 s) = [CHR '':'', BACKSLASH]"

definition conflicts :: "string option \<Rightarrow> string \<Rightarrow> bool" where
  "conflicts existing s \<longleftrightarrow> (case existing of None \<Rightarrow> False | Some x \<Rightarrow> x \<noteq> s)"

definition set_selector :: "cli_system \<Rightarrow> string \<Rightarrow> tool_call \<Rightarrow> string + tool_call" where
  "set_selector sys selector call =
     res_bind (split_http sys selector) (\<lambda>http.
     case http of
       Some (url, tool) \<Rightarrow>
         (let call = call\<lparr>tc_ephemeral := (tc_ephemeral call)\<lparr>ah_url := Some url\<rparr>\<rparr> in
          Inr (case tool of Some t \<Rightarrow> call\<lparr>tc_tool := Some t\<rparr> | None \<Rightarrow> call))
     | None \<Rightarrow>
         if command_selector selector
         then Inr (call\<lparr>tc_ephemeral := (tc_ephemeral call)\<lparr>ah_command := Some selector\<rparr>\<rparr>)
         else
           (case split_once ''.'' selector of
              Some (server, tool) \<Rightarrow>
                if conflicts (tc_server call) server \<or> conflicts (tc_tool call) tool
                then Inl ''Conflicting server/tool selector and flags''
                else Inr (call\<lparr>tc_server := Some server, tc_tool := Some tool\<rparr>)
            | None \<Rightarrow>
                if is_some (tc_server call) then
                  (if conflicts (tc_tool call) selector then Inl ''Conflicting tool selector and flags''
                   else Inr (call\<lparr>tc_tool := Some selector\<rparr>))
                else Inr (call\<lparr>tc_server := Some selector\<rparr>)))"

definition named_token :: "cli_system \<Rightarrow> string \<Rightarrow> (string \<times> string) option" where
  "named_token sys token =
     (case (case split_once ''='' token of Some kv \<Rightarrow> Some kv | None \<Rightarrow> split_once '':'' token) of
        None \<Rightarrow> None
      | Some (key, content) \<Rightarrow>
          let key = trim key in
          if key = [] \<or> \<not> list_all (\<lambda>ch. is_alphanumeric (cl_unicode sys) ch \<or> ch \<in> {''_'', ''-'', ''.''}) (chars key)
          then None else Some (key, trim content))"

subsection \<open>The parser\<close>

function strip_dashes :: "string \<Rightarrow> string" where
  "strip_dashes s = (if starts_with ''--'' s then strip_dashes (drop 2 s) else s)"
  by pat_completeness auto
termination
  by (relation "measure length") (auto simp: starts_with_def dest: arg_cong [of _ _ length])

declare strip_dashes.simps [simp del]

definition generic_flag :: "string \<Rightarrow> nat \<Rightarrow> string list \<Rightarrow> tool_call \<Rightarrow> string list \<times> tool_call" where
  "generic_flag token order rest call =
     (let flag = strip_dashes token in
      case split_once ''='' flag of
        Some (key, content) \<Rightarrow>
          (rest, call\<lparr>tc_generic_flags := insort_insert key (tc_generic_flags call),
                      tc_inputs := inputs_named order key content (tc_inputs call)\<rparr>)
      | None \<Rightarrow>
          (let (content, rest) =
                 (case rest of
                    next # rest' \<Rightarrow> if starts_with ''--'' next then (''true'', rest) else (next, rest')
                  | [] \<Rightarrow> (''true'', rest))
           in (rest, call\<lparr>tc_generic_flags := insort_insert flag (tc_generic_flags call),
                          tc_inputs := inputs_named order flag content (tc_inputs call)\<rparr>)))"

definition option_with_value ::
  "cli_system \<Rightarrow> call_option \<Rightarrow> nat \<Rightarrow> string \<Rightarrow> tool_call \<Rightarrow> string + tool_call" where
  "option_with_value sys opt order v call =
     (case opt of
        OptServer \<Rightarrow> Inr (call\<lparr>tc_server := Some v\<rparr>)
      | OptTool \<Rightarrow> Inr (call\<lparr>tc_tool := Some v\<rparr>)
      | OptTimeout \<Rightarrow> res_bind (positive_milliseconds sys v) (\<lambda>ms. Inr (call\<lparr>tc_timeout := Some ms\<rparr>))
      | OptOutput \<Rightarrow> res_bind (output_parse v) (\<lambda>out. Inr (call\<lparr>tc_output := out\<rparr>))
      | OptSaveImages \<Rightarrow> Inr (call\<lparr>tc_save_images := Some v\<rparr>)
      | OptJson \<Rightarrow> res_bind (inputs_json sys order v (tc_inputs call)) (\<lambda>inputs. Inr (call\<lparr>tc_inputs := inputs\<rparr>))
      | _ \<Rightarrow> Inr call)"

definition option_alone :: "call_option \<Rightarrow> tool_call \<Rightarrow> tool_call" where
  "option_alone opt call =
     (case opt of
        OptRaw \<Rightarrow> call\<lparr>tc_output := RawOutput\<rparr>
      | OptRawStrings \<Rightarrow> call\<lparr>tc_raw_strings := True\<rparr>
      | OptNoCoerce \<Rightarrow> call\<lparr>tc_raw_strings := True, tc_no_coerce := True\<rparr>
      | OptNoOauth \<Rightarrow> call\<lparr>tc_no_oauth := True\<rparr>
      | OptTailLog \<Rightarrow> call\<lparr>tc_tail_log := True\<rparr>
      | _ \<Rightarrow> call)"

text \<open>One token: the tokens that remain, the call, and the token if it is positional.\<close>

definition call_token ::
  "cli_system \<Rightarrow> nat \<Rightarrow> string \<Rightarrow> string list \<Rightarrow> tool_call \<Rightarrow> string + string list \<times> tool_call \<times> (nat \<times> string) list" where
  "call_token sys order token rest call =
     res_bind (ad_hoc_consume token rest (tc_ephemeral call)) (\<lambda>consumed.
     case consumed of
       Some (rest, a) \<Rightarrow> Inr (rest, call\<lparr>tc_ephemeral := a\<rparr>, [])
     | None \<Rightarrow>
         (case call_option_parse token of
            Some opt \<Rightarrow>
              if call_option_takes_value opt then
                res_bind (flag_value rest token) (\<lambda>(v, rest).
                res_bind (option_with_value sys opt order v call) (\<lambda>call. Inr (rest, call, [])))
              else Inr (rest, option_alone opt call, [])
          | None \<Rightarrow>
              if starts_with ''--'' token
              then (let (rest, call) = generic_flag token order rest call in Inr (rest, call, []))
              else Inr (rest, call, [(order, token)])))"

lemma call_token_progress:
  "call_token sys order token rest call = Inr (rest', call', pos) \<Longrightarrow> length rest' \<le> length rest"
  by (auto simp: call_token_def ad_hoc_consume_def flag_value_def generic_flag_def Let_def
      elim!: res_bindE split: option.splits ad_hoc_option.splits list.splits if_splits prod.splits)

text \<open>The loop: the call, the positional tokens and what follows a lone \<open>--\<close>.\<close>

function call_tokens ::
  "cli_system \<Rightarrow> nat \<Rightarrow> string list \<Rightarrow> tool_call \<Rightarrow> (nat \<times> string) list
     \<Rightarrow> string + tool_call \<times> (nat \<times> string) list \<times> string list" where
  "call_tokens sys token_count [] call positional = Inr (call, positional, [])"
| "call_tokens sys token_count (token # rest) call positional =
     (if token = ''--'' then Inr (call, positional, rest)
      else
        (case call_token sys (token_count - length rest) token rest call of
           Inl e \<Rightarrow> Inl e
         | Inr (rest, call, pos) \<Rightarrow> call_tokens sys token_count rest call (positional @ pos)))"
  by pat_completeness auto
termination
  by (relation "measure (\<lambda>(_, _, tokens, _, _). length tokens)") (auto dest!: call_token_progress)

definition is_expression :: "string \<Rightarrow> bool" where
  "is_expression token \<longleftrightarrow>
     (case str_find ''('' token of
        None \<Rightarrow> False
      | Some opening \<Rightarrow>
          \<not> starts_with ''http'' token
          \<or> (case str_find ''?'' token of None \<Rightarrow> True | Some query \<Rightarrow> opening < query))"

definition expression_part ::
  "cli_system \<Rightarrow> nat \<Rightarrow> string \<Rightarrow> tool_call \<times> (nat \<times> string \<times> string) list
     \<Rightarrow> tool_call \<times> (nat \<times> string \<times> string) list" where
  "expression_part sys order part st =
     (case st of (call, named) \<Rightarrow>
        (case named_token sys part of
           Some (key, content) \<Rightarrow> (call, named @ [(order, key, content)])
         | None \<Rightarrow> (call\<lparr>tc_positionals := tc_positionals call @ [call_value sys (trim part) call]\<rparr>, named)))"

definition call_expression ::
  "cli_system \<Rightarrow> nat \<Rightarrow> string \<Rightarrow> tool_call \<Rightarrow> string + tool_call \<times> (nat \<times> string \<times> string) list" where
  "call_expression sys order expression call =
     res_bind (ok_or ''Invalid call expression'' (str_find ''('' expression)) (\<lambda>opening.
     if \<not> ends_with '')'' expression then Inl ''Unclosed call expression''
     else
       (let selector = take opening expression in
        res_bind
          (if ad_hoc_present (tc_ephemeral call) \<or> is_some (tc_server call) then
             (let selector = (case tc_server call of
                    None \<Rightarrow> selector
                  | Some server \<Rightarrow> (case strip_prefix (server @ ''.'') selector of None \<Rightarrow> selector | Some s \<Rightarrow> s))
              in if conflicts (tc_tool call) selector then Inl ''Conflicting tool selector and flags''
                 else Inr (call\<lparr>tc_tool := Some selector\<rparr>))
           else set_selector sys selector call) (\<lambda>call.
        let contents = take (length expression - 1 - (opening + 1)) (drop (opening + 1) expression) in
        res_bind (split_expression contents) (\<lambda>parts.
        Inr (fold (expression_part sys order) parts (call, []))))))"

definition is_dotted_selector :: "string \<Rightarrow> bool" where
  "is_dotted_selector token \<longleftrightarrow>
     CHR ''.'' \<in> set token \<and> CHR ''='' \<notin> set token
     \<and> (CHR '':'' \<notin> set token \<or> starts_with ''http'' token)"

text \<open>The first positional token, if it names the server or the tool.\<close>

definition call_head ::
  "cli_system \<Rightarrow> (nat \<times> string) list \<Rightarrow> tool_call
     \<Rightarrow> string + (nat \<times> string) list \<times> tool_call \<times> (nat \<times> string \<times> string) list" where
  "call_head sys positional call =
     (case positional of
        [] \<Rightarrow> Inr ([], call, [])
      | (order, token) # rest \<Rightarrow>
          if is_expression token then
            res_bind (call_expression sys order token call) (\<lambda>(call, named). Inr (rest, call, named))
          else if is_dotted_selector token \<and> (tc_server call = None \<or> tc_tool call = None)
               \<and> \<not> ad_hoc_present (tc_ephemeral call) then
            res_bind (set_selector sys token call) (\<lambda>call. Inr (rest, call, []))
          else if tc_server call = None \<and> \<not> ad_hoc_present (tc_ephemeral call) then
            res_bind (set_selector sys token call) (\<lambda>call. Inr (rest, call, []))
          else Inr (positional, call, []))"

definition call_tool_token ::
  "cli_system \<Rightarrow> (nat \<times> string) list \<Rightarrow> tool_call \<Rightarrow> (nat \<times> string) list \<times> tool_call" where
  "call_tool_token sys positional call =
     (case positional of
        (_, token) # rest \<Rightarrow>
          if tc_tool call = None \<and> named_token sys token = None
          then (rest, call\<lparr>tc_tool := Some token\<rparr>) else (positional, call)
      | [] \<Rightarrow> (positional, call))"

fun call_positionals ::
  "cli_system \<Rightarrow> (nat \<times> string) list \<Rightarrow> tool_call \<Rightarrow> (nat \<times> string \<times> string) list
     \<Rightarrow> string + tool_call \<times> (nat \<times> string \<times> string) list" where
  "call_positionals sys [] call named = Inr (call, named)"
| "call_positionals sys ((order, token) # rest) call named =
     (case named_token sys token of
        None \<Rightarrow>
          call_positionals sys rest
            (call\<lparr>tc_positionals := tc_positionals call @ [call_value sys token call]\<rparr>) named
      | Some (key, content) \<Rightarrow>
          if content = [] \<and> ends_with '':'' token then
            (case rest of
               [] \<Rightarrow> Inl (''Argument '' @ quoted token @ '' requires a value'')
             | (_, content) # rest' \<Rightarrow> call_positionals sys rest' call (named @ [(order, key, content)]))
          else call_positionals sys rest call (named @ [(order, key, content)]))"

definition call_finish ::
  "cli_system \<Rightarrow> (nat \<times> string \<times> string) list \<Rightarrow> string list \<Rightarrow> tool_call \<Rightarrow> string + tool_call" where
  "call_finish sys named literal call =
     (let call = fold (\<lambda>(order, key, content) c. c\<lparr>tc_inputs := inputs_named order key content (tc_inputs c)\<rparr>)
                   named call
      in res_bind (inputs_prepare sys call (tc_inputs call)) (\<lambda>inputs.
         res_bind (inputs_apply sys None inputs (call\<lparr>tc_inputs := []\<rparr>)) (\<lambda>call.
         let call = call\<lparr>tc_inputs := inputs\<rparr>;
             call = call\<lparr>tc_positionals := tc_positionals call @ map (\<lambda>content. call_value sys content call) literal\<rparr>
         in if tc_tool call = Some [] then Inl ''Tool name cannot be empty''
            else if tc_server call = None \<and> \<not> ad_hoc_present (tc_ephemeral call)
            then Inl ''Missing server. Use server.tool or --server NAME''
            else res_bind (ad_hoc_validate (tc_ephemeral call)) (\<lambda>_. Inr call))))"

definition call_arguments :: "cli_system \<Rightarrow> string list \<Rightarrow> string + tool_call" where
  "call_arguments sys arguments =
     res_bind (call_tokens sys (length arguments) arguments empty_call []) (\<lambda>(call, positional, literal).
     res_bind (call_head sys positional call) (\<lambda>(positional, call, named).
     let (positional, call) = call_tool_token sys positional call in
     res_bind (call_positionals sys positional call named) (\<lambda>(call, named).
     call_finish sys named literal call)))"

subsection \<open>Explicit flags\<close>

text \<open>A script can call any tool with any arguments: a server and a tool given by their flags, whatever
  characters their names contain, arguments given as the text of a JSON object, and the literal
  positional arguments after a lone \<open>--\<close> come through unchanged, none of them being read as an
  option or as a selector.\<close>

theorem explicit_calls_come_through:
  assumes "cl_parse sys j = Some (JObject m)" and "obj_wf m" and "j \<noteq> ''-''" and "t \<noteq> []"
  shows "call_arguments sys ([''--server'', s, ''--tool'', t, ''--args'', j, ''--''] @ literals)
     = Inr (empty_call\<lparr>tc_server := Some s, tc_tool := Some t, tc_arguments := m,
              tc_inputs := [(5, ObjectInput m)], tc_positionals := map (\<lambda>c. coerce sys c False) literals\<rparr>)"
proof -
  let ?call = "empty_call\<lparr>tc_server := Some s, tc_tool := Some t, tc_inputs := [(5, ObjectInput m)]\<rparr>"
  have tokens: "call_tokens sys (7 + length literals) ([''--server'', s, ''--tool'', t, ''--args'', j, ''--''] @ literals)
      empty_call [] = Inr (?call, [], literals)"
    using assms
    by (simp add: call_token_def ad_hoc_consume_def ad_hoc_option_parse_def call_option_parse_def
        call_option_takes_value_def flag_value_def option_with_value_def inputs_json_def merge_json_def empty_call_def)
  have "call_head sys [] ?call = Inr ([], ?call, [])" "call_tool_token sys [] ?call = ([], ?call)"
    by (simp_all add: call_head_def call_tool_token_def)
  moreover have "call_finish sys [] literals ?call =
      Inr (?call\<lparr>tc_arguments := m, tc_positionals := map (\<lambda>c. coerce sys c False) literals\<rparr>)"
    using assms
    by (simp add: call_finish_def inputs_prepare_def prepare_input_def inputs_apply_def insert_values_plain
        call_value_def empty_call_def no_ad_hoc_def ad_hoc_validate_def ad_hoc_present_def)
  moreover have len: "length ([''--server'', s, ''--tool'', t, ''--args'', j, ''--''] @ literals) = 7 + length literals"
    by simp
  ultimately show ?thesis
    unfolding call_arguments_def len tokens by simp
qed

theorem explicit_calls_come_through_witness:
  "call_arguments (sample_cli\<lparr>cl_parse := (\<lambda>s. if s = ''{}'' then Some (JObject []) else None)\<rparr>)
     ([''--server'', ''--x y'', ''--tool'', ''a(b'', ''--args'', ''{}'', ''--''] @ [''--raw''])
   = Inr (empty_call\<lparr>tc_server := Some ''--x y'', tc_tool := Some ''a(b'', tc_arguments := [],
            tc_inputs := [(5, ObjectInput [])],
            tc_positionals := map (\<lambda>c. coerce (sample_cli\<lparr>cl_parse := (\<lambda>s. if s = ''{}'' then Some (JObject []) else None)\<rparr>) c False)
              [''--raw'']\<rparr>)"
  by (rule explicit_calls_come_through) (simp_all add: sample_cli_def)

subsection \<open>What a call sends\<close>

datatype call_plan = Discover | Invoke string obj

definition carries_arguments :: "tool_call \<Rightarrow> bool" where
  "carries_arguments call \<longleftrightarrow>
     has_explicit_json (tc_inputs call) \<or> has_stdin (tc_inputs call) \<or> tc_arguments call \<noteq> []
     \<or> tc_positionals call \<noteq> [] \<or> tc_generic_flags call \<noteq> []"

definition invoke_resolved ::
  "cli_system \<Rightarrow> string \<Rightarrow> json list \<Rightarrow> string \<Rightarrow> tool_call \<Rightarrow> string + call_plan" where
  "invoke_resolved sys server_name tools resolved call =
     (case List.find (\<lambda>t. tool_entry_name t = Some resolved) tools of
        None \<Rightarrow> Inl (''Tool '' @ quoted resolved @ '' not found on '' @ quoted server_name)
      | Some metadata \<Rightarrow>
          (case vget ''inputSchema'' metadata of
             Some schema \<Rightarrow>
               res_bind (hydrate sys schema call) (\<lambda>call. Inr (Invoke resolved (tc_arguments call)))
           | None \<Rightarrow>
               if tc_positionals call \<noteq> [] then
                 Inl ''Tool has no schema for positional arguments; use key=value''
               else if tc_generic_flags call \<noteq> [] then
                 Inl ''Tool declares no schema options; use key=value or --args for named arguments''
               else Inr (Invoke resolved (tc_arguments call))))"

definition plan_call ::
  "cli_system \<Rightarrow> string \<Rightarrow> tool_filter \<Rightarrow> json list \<Rightarrow> tool_call \<Rightarrow> string + call_plan" where
  "plan_call sys server_name f tools call =
     (let tools = normalize_catalog tools; u = cl_unicode sys in
      case (case tc_tool call of
              Some requested \<Rightarrow>
                if is_discovery_pseudo u requested \<and> \<not> has_real_tool u tools requested
                then Some requested else None
            | None \<Rightarrow> None) of
        Some requested \<Rightarrow>
          if carries_arguments call
          then Inl (''Pseudo-tool '' @ quoted requested @ '' does not accept tool arguments or positionals'')
          else Inr Discover
      | None \<Rightarrow>
          res_bind (resolve_tool_name u server_name tools (tc_tool call) (permits f)) (\<lambda>resolved.
          invoke_resolved sys server_name tools resolved call))"

lemma catalog_metadata:
  "List.find (\<lambda>t. tool_entry_name t = Some name) tools = None \<longleftrightarrow> name \<notin> set (catalog_names tools)"
  by (auto simp: find_None_iff catalog_names_def List.map_filter_def image_iff)

lemma resolved_is_listed:
  assumes "resolve_tool_name u server tools requested allowed = Inr name"
  shows "name \<in> set (catalog_names tools)" and "allowed name"
proof -
  have "name \<in> set (filter allowed (catalog_names tools))"
  proof (cases requested)
    case None
    with assms resolve_tool_iff [of u server tools allowed name] show ?thesis by simp
  next
    case (Some r)
    have "name \<in> set (filter P xs)" if "filter P xs = [name]" for P :: "string \<Rightarrow> bool" and xs
      using that by simp
    with Some assms resolve_tool_iff [of u server tools allowed name r] show ?thesis
      by (fastforce split: if_splits)
  qed
  then show "name \<in> set (catalog_names tools)" "allowed name" by simp_all
qed

text \<open>C18: what a call sends is allowed and complete.  The tool it invokes is listed by the server and
  permitted by the configuration; if the tool has a schema, the arguments are those of the completed
  call, with every required one present; without a schema they are the named arguments as given,
  and positional arguments or unknown options are refused.  The listing is shown instead only if
  the call names a discovery word that is no tool of the server, and carries no arguments.\<close>

theorem invocations_are_permitted_and_complete:
  "(plan_call sys server_name f tools call = Inr (Invoke name arguments) \<longrightarrow>
      permits f name \<and> name \<in> set (catalog_names (normalize_catalog tools))
    \<and> (\<exists>metadata \<in> set (normalize_catalog tools). tool_entry_name metadata = Some name
        \<and> (case vget ''inputSchema'' metadata of
             Some schema \<Rightarrow> \<exists>call'. hydrate sys schema call = Inr call' \<and> arguments = tc_arguments call'
               \<and> (\<forall>n \<in> set (required_names schema). obj_get n arguments \<noteq> None)
           | None \<Rightarrow> arguments = tc_arguments call \<and> tc_positionals call = [] \<and> tc_generic_flags call = [])))
   \<and> (plan_call sys server_name f tools call = Inr Discover \<longleftrightarrow>
        (\<exists>requested. tc_tool call = Some requested \<and> is_discovery_pseudo (cl_unicode sys) requested
          \<and> \<not> has_real_tool (cl_unicode sys) (normalize_catalog tools) requested \<and> \<not> carries_arguments call))"
proof -
  let ?tools = "normalize_catalog tools"
  have invoke: "permits f name \<and> name \<in> set (catalog_names ?tools)
    \<and> (\<exists>metadata \<in> set ?tools. tool_entry_name metadata = Some name
        \<and> (case vget ''inputSchema'' metadata of
             Some schema \<Rightarrow> \<exists>call'. hydrate sys schema call = Inr call' \<and> arguments = tc_arguments call'
               \<and> (\<forall>n \<in> set (required_names schema). obj_get n arguments \<noteq> None)
           | None \<Rightarrow> arguments = tc_arguments call \<and> tc_positionals call = [] \<and> tc_generic_flags call = []))"
    if p: "plan_call sys server_name f tools call = Inr (Invoke name arguments)"
  proof -
    from p obtain resolved where r: "resolve_tool_name (cl_unicode sys) server_name ?tools (tc_tool call) (permits f) = Inr resolved"
      and i: "invoke_resolved sys server_name ?tools resolved call = Inr (Invoke name arguments)"
      by (auto simp: plan_call_def Let_def elim!: res_bindE split: option.splits if_splits)
    from i obtain metadata where m: "List.find (\<lambda>t. tool_entry_name t = Some resolved) ?tools = Some metadata"
      by (auto simp: invoke_resolved_def split: option.splits)
    then have "metadata \<in> set ?tools" "tool_entry_name metadata = Some resolved"
      by (auto simp: find_Some_iff)
    moreover have "resolved = name"
      using i m by (auto simp: invoke_resolved_def elim!: res_bindE split: option.splits if_splits)
    moreover have "case vget ''inputSchema'' metadata of
             Some schema \<Rightarrow> \<exists>call'. hydrate sys schema call = Inr call' \<and> arguments = tc_arguments call'
               \<and> (\<forall>n \<in> set (required_names schema). obj_get n arguments \<noteq> None)
           | None \<Rightarrow> arguments = tc_arguments call \<and> tc_positionals call = [] \<and> tc_generic_flags call = []"
    proof (cases "vget ''inputSchema'' metadata")
      case None
      with i m show ?thesis by (simp add: invoke_resolved_def split: if_splits)
    next
      case (Some schema)
      with i m obtain call' where h: "hydrate sys schema call = Inr call'" "arguments = tc_arguments call'"
        by (auto simp: invoke_resolved_def elim!: res_bindE)
      with hydrate_fits [OF h(1) refl] Some show ?thesis by auto
    qed
    ultimately show ?thesis using resolved_is_listed [OF r] by blast
  qed
  have "invoke_resolved sys server_name ?tools resolved call \<noteq> Inr Discover" for resolved
    by (auto simp: invoke_resolved_def elim!: res_bindE split: option.splits)
  then have "plan_call sys server_name f tools call = Inr Discover \<longleftrightarrow>
        (\<exists>requested. tc_tool call = Some requested \<and> is_discovery_pseudo (cl_unicode sys) requested
          \<and> \<not> has_real_tool (cl_unicode sys) ?tools requested \<and> \<not> carries_arguments call)"
    by (auto simp: plan_call_def Let_def elim!: res_bindE split: option.splits if_splits)
  with invoke show ?thesis by blast
qed

theorem invocations_are_permitted_and_complete_witness:
  "plan_call sample_cli ''s'' \<lparr>tf_allowed = None, tf_blocked = Some {''rm''}\<rparr>
     [JObject [(''name'', JString ''echo'')], JObject [(''name'', JString ''rm'')]]
     (empty_call\<lparr>tc_tool := Some ''Echo''\<rparr>) = Inr (Invoke ''echo'' [])
   \<and> permits \<lparr>tf_allowed = None, tf_blocked = Some {''rm''}\<rparr> ''echo''"
proof -
  let ?tools = "[JObject [(''name'', JString ''echo'')], JObject [(''name'', JString ''rm'')]]"
  have n: "normalize ascii_tables ''Echo'' = ''echo''" "normalize ascii_tables ''echo'' = ''echo''"
    "normalize ascii_tables ''rm'' = ''rm''"
    by code_simp+
  have t: "normalize_catalog ?tools = ?tools" "catalog_names ?tools = [''echo'', ''rm'']"
    by code_simp+
  have "plan_call sample_cli ''s'' \<lparr>tf_allowed = None, tf_blocked = Some {''rm''}\<rparr> ?tools
     (empty_call\<lparr>tc_tool := Some ''Echo''\<rparr>) = Inr (Invoke ''echo'' [])"
    unfolding plan_call_def Let_def t(1)
    by (simp add: sample_cli_def is_discovery_pseudo_def resolve_tool_name_def t(2) n permits_def empty_call_def
        invoke_resolved_def tool_entry_name_def obj_get_def)
  with invocations_are_permitted_and_complete [of sample_cli "''s''"
      "\<lparr>tf_allowed = None, tf_blocked = Some {''rm''}\<rparr>" ?tools "empty_call\<lparr>tc_tool := Some ''Echo''\<rparr>" "''echo''" "[]"]
  show ?thesis by blast
qed

end
