(* ===== verification/ServeOptions.thy ===== *)
theory ServeOptions
  imports ServerConfig Unicode
begin

text \<open>
  The options of the bridge and the servers it serves (\<open>src/mcp_bridge_options.rs\<close>).  The process
  environment is an argument, \<open>env\<close>; a variable that is not Unicode counts as absent.
\<close>

definition DEFAULT_HTTP_HOST :: string where
  "DEFAULT_HTTP_HOST = ''127.0.0.1''"

datatype serve_mode = Stdio | Http string nat

record serve_options =
  so_mode :: serve_mode
  so_servers :: "string list option"
  so_concurrency :: nat

subsection \<open>Parsing\<close>

definition parse_concurrency :: "string \<Rightarrow> string + nat" where
  "parse_concurrency v =
     ok_or ''Flag '--concurrency' requires an integer from 1 to 64.''
       (case parse_unsigned (2 ^ 64 - 1) v of
          Some n \<Rightarrow> if 1 \<le> n \<and> n \<le> 64 then Some n else None
        | None \<Rightarrow> None)"

definition parse_port :: "string \<Rightarrow> string + nat" where
  "parse_port v =
     (if trim v = [] then Inl ''Flag '--http' requires a port.''
      else ok_or (''Invalid HTTP port '' @ quoted v @ ''.'') (parse_unsigned 65535 v))"

fun first_repeated :: "string list \<Rightarrow> string list \<Rightarrow> string option" where
  "first_repeated previous [] = None"
| "first_repeated previous (name # names) =
     (if name \<in> set previous then Some name else first_repeated (name # previous) names)"

definition server_names :: "string \<Rightarrow> string list" where
  "server_names v = filter (\<lambda>name. name \<noteq> []) (map trim (split_on (CHR '','') v))"

definition parse_servers :: "string \<Rightarrow> string + string list" where
  "parse_servers v =
     (let names = server_names v in
      if names = [] then Inl ''Flag '--servers' requires at least one server name.''
      else case first_repeated [] names of
             Some name \<Rightarrow> Inl (''Flag '--servers' contains duplicate server '' @ quoted name @ ''.'')
           | None \<Rightarrow> Inr names)"

definition non_empty :: "string option \<Rightarrow> string \<Rightarrow> string + string" where
  "non_empty v error =
     ok_or error (case v of Some s \<Rightarrow> if trim s \<noteq> [] then Some s else None | None \<Rightarrow> None)"

record flag_values =
  sf_host :: "string option"
  sf_port :: "nat option"
  sf_servers :: "string list option"
  sf_stdio :: bool
  sf_concurrency :: nat

definition no_flags :: flag_values where
  "no_flags = \<lparr>sf_host = None, sf_port = None, sf_servers = None, sf_stdio = False, sf_concurrency = 1\<rparr>"

definition HOST_REQUIRED :: string where
  "HOST_REQUIRED = ''Flag '--host' requires a value.''"

definition next_argument :: "string list \<Rightarrow> string option \<times> string list" where
  "next_argument arguments = (case arguments of [] \<Rightarrow> (None, []) | a # rest \<Rightarrow> (Some a, rest))"

definition set_port :: "flag_values \<Rightarrow> string \<Rightarrow> string + flag_values" where
  "set_port flags v = res_bind (parse_port v) (\<lambda>port. Inr (flags\<lparr>sf_port := Some port\<rparr>))"

definition set_host :: "flag_values \<Rightarrow> string option \<Rightarrow> string + flag_values" where
  "set_host flags v = res_bind (non_empty v HOST_REQUIRED) (\<lambda>host. Inr (flags\<lparr>sf_host := Some host\<rparr>))"

definition set_servers :: "flag_values \<Rightarrow> string \<Rightarrow> string + flag_values" where
  "set_servers flags v = res_bind (parse_servers v) (\<lambda>names. Inr (flags\<lparr>sf_servers := Some names\<rparr>))"

definition set_concurrency :: "flag_values \<Rightarrow> string \<Rightarrow> string + flag_values" where
  "set_concurrency flags v = res_bind (parse_concurrency v) (\<lambda>n. Inr (flags\<lparr>sf_concurrency := n\<rparr>))"

text \<open>One turn of the loop: the flag, and the arguments after it of which it may take one.\<close>

definition serve_flag :: "string \<Rightarrow> string list \<Rightarrow> flag_values \<Rightarrow> string + flag_values \<times> string list" where
  "serve_flag argument rest flags =
     (let (v, rest') = next_argument rest;
          taking = (\<lambda>r. res_bind r (\<lambda>flags. Inr (flags, rest')));
          inline = (\<lambda>r. res_bind r (\<lambda>flags. Inr (flags, rest)))
      in
      if argument = ''--stdio'' then Inr (flags\<lparr>sf_stdio := True\<rparr>, rest)
      else if argument = ''--http'' then
        taking (res_bind (ok_or ''Flag '--http' requires a port.'' v) (set_port flags))
      else if argument = ''--host'' then taking (set_host flags v)
      else if argument = ''--servers'' then
        taking (res_bind (ok_or ''Flag '--servers' requires a comma-separated list.'' v) (set_servers flags))
      else if argument = ''--concurrency'' then
        taking (set_concurrency flags (case v of Some s \<Rightarrow> s | None \<Rightarrow> []))
      else if starts_with ''--concurrency='' argument then
        inline (set_concurrency flags (trim_start_matches ''--concurrency='' argument))
      else if starts_with ''--http='' argument then
        inline (set_port flags (trim_start_matches ''--http='' argument))
      else if starts_with ''--host='' argument then
        inline (set_host flags (Some (trim_start_matches ''--host='' argument)))
      else if starts_with ''--servers='' argument then
        inline (set_servers flags (trim_start_matches ''--servers='' argument))
      else Inl (''Unknown serve flag '' @ quoted argument @ ''.''))"

lemma serve_flag_rest: "serve_flag argument rest flags = Inr (flags', rest') \<Longrightarrow> length rest' \<le> length rest"
  by (auto simp: serve_flag_def next_argument_def Let_def res_bind_Inr split: list.splits if_splits)

function serve_flags :: "string list \<Rightarrow> flag_values \<Rightarrow> string + flag_values" where
  "serve_flags arguments flags =
     (case arguments of
        [] \<Rightarrow> Inr flags
      | argument # rest \<Rightarrow>
          (case serve_flag argument rest flags of
             Inl e \<Rightarrow> Inl e
           | Inr (flags, rest) \<Rightarrow> serve_flags rest flags))"
  by pat_completeness auto
termination
  by (relation "measure (\<lambda>(arguments, _). length arguments)") (auto dest!: sym [of "Inr _"] serve_flag_rest)

declare serve_flags.simps [simp del]

definition parse_serve :: "string list \<Rightarrow> string + serve_options" where
  "parse_serve arguments =
     res_bind (serve_flags arguments no_flags) (\<lambda>flags.
     if sf_stdio flags \<and> is_some (sf_port flags)
     then Inl ''Flags '--stdio' and '--http' cannot be used together.''
     else if is_some (sf_host flags) \<and> sf_port flags = None
     then Inl ''Flag '--host' can only be used with '--http'.''
     else Inr \<lparr>so_mode =
            (case sf_port flags of
               Some port \<Rightarrow> Http (case sf_host flags of Some h \<Rightarrow> h | None \<Rightarrow> DEFAULT_HTTP_HOST) port
             | None \<Rightarrow> Stdio),
          so_servers = sf_servers flags, so_concurrency = sf_concurrency flags\<rparr>)"

subsection \<open>Which servers are served\<close>

text \<open>Variables that name servers, or \<open>*\<close> for all of them.\<close>

record override_set =
  ov_all :: bool
  ov_names :: "string list"

definition no_overrides :: override_set where
  "no_overrides = \<lparr>ov_all = False, ov_names = []\<rparr>"

definition override_parse :: "unicode \<Rightarrow> string \<Rightarrow> override_set" where
  "override_parse u v =
     (let names = filter (\<lambda>t. t \<noteq> []) (map (\<lambda>t. str_to_lowercase u (trim t)) (split_on (CHR '','') v))
      in \<lparr>ov_all = (''*'' \<in> set names), ov_names = names\<rparr>)"

definition override_matches :: "override_set \<Rightarrow> string list \<Rightarrow> bool" where
  "override_matches s candidates \<longleftrightarrow>
     ov_all s \<or> list_ex (\<lambda>candidate. candidate \<in> set (ov_names s)) candidates"

definition environment_override :: "unicode \<Rightarrow> (string \<Rightarrow> string option) \<Rightarrow> string \<Rightarrow> override_set" where
  "environment_override u env name =
     (case env name of Some v \<Rightarrow> override_parse u v | None \<Rightarrow> no_overrides)"

definition command_parts :: "'a server_def \<Rightarrow> string list" where
  "command_parts d = sd_command d # sd_args d"

definition FRAGMENTS :: "(string \<times> string list) list" where
  "FRAGMENTS =
     [(''chrome-devtools'', [''chrome-devtools-mcp'']),
      (''mobile-mcp'', [''@mobilenext/mobile-mcp'', ''mobile-mcp'']),
      (''playwright'', [''@playwright/mcp'', ''playwright/mcp'']),
      (''cloudbase'', [''@cloudbase/cloudbase-mcp'', ''cloudbase-mcp''])]"

definition default_keep_alive_name :: "unicode \<Rightarrow> 'a configured_server \<Rightarrow> string option" where
  "default_keep_alive_name u server =
     map_option fst
       (List.find (\<lambda>(label, needles).
           list_ex (\<lambda>part. list_ex (\<lambda>needle. str_contains needle (str_to_lowercase u part)) needles)
             (command_parts (cv_definition server)))
         FRAGMENTS)"

definition DEFAULT_KEEP_ALIVE :: "string list" where
  "DEFAULT_KEEP_ALIVE = [''chrome-devtools'', ''mobile-mcp'', ''playwright'', ''cloudbase'']"

definition candidate_names :: "unicode \<Rightarrow> 'a configured_server \<Rightarrow> string list" where
  "candidate_names u server =
     str_to_lowercase u (cv_name server)
       # (case default_keep_alive_name u server of Some n \<Rightarrow> [n] | None \<Rightarrow> [])"

definition needs_browser_url :: "'a server_def \<Rightarrow> bool" where
  "needs_browser_url d \<longleftrightarrow>
     list_ex (\<lambda>argument. str_contains ([BACKSLASH] @ ''${CHROME_DEVTOOLS_URL}'') argument
                \<or> str_contains ''$env:CHROME_DEVTOOLS_URL'' argument) (command_parts d)"

definition disabled_overrides :: "unicode \<Rightarrow> (string \<Rightarrow> string option) \<Rightarrow> override_set" where
  "disabled_overrides u env =
     (case (case env ''MCPORTER_DISABLE_KEEPALIVE'' of Some v \<Rightarrow> Some v | None \<Rightarrow> env ''MCPORTER_NO_KEEPALIVE'') of
        Some v \<Rightarrow> override_parse u v
      | None \<Rightarrow> no_overrides)"

definition is_keep_alive :: "unicode \<Rightarrow> (string \<Rightarrow> string option) \<Rightarrow> 'a configured_server \<Rightarrow> bool" where
  "is_keep_alive u env server \<longleftrightarrow>
     (let candidates = candidate_names u server in
      if override_matches (environment_override u env ''MCPORTER_KEEPALIVE'') candidates then True
      else if override_matches (disabled_overrides u env) candidates then False
      else case configured_lifecycle (cv_raw server) of
             Some configured \<Rightarrow> configured
           | None \<Rightarrow>
               if needs_browser_url (cv_definition server) then False
               else list_ex (\<lambda>candidate. candidate \<in> set DEFAULT_KEEP_ALIVE) candidates)"

definition cannot_be_served :: "string \<Rightarrow> string" where
  "cannot_be_served name =
     ''Server '' @ quoted name @ '' is not configured for keep-alive and cannot be served.''"

definition select_server ::
  "unicode \<Rightarrow> (string \<Rightarrow> string option) \<Rightarrow> 'a server_configuration \<Rightarrow> string \<Rightarrow> string + 'a configured_server" where
  "select_server u env c name =
     (case bt_get name (sc_servers c) of
        None \<Rightarrow> Inl (cannot_be_served name)
      | Some server \<Rightarrow> if is_keep_alive u env server then Inr server else Inl (cannot_be_served name))"

definition select_servers ::
  "unicode \<Rightarrow> (string \<Rightarrow> string option) \<Rightarrow> 'a server_configuration \<Rightarrow> string list option
     \<Rightarrow> string + 'a configured_server list" where
  "select_servers u env c requested =
     res_bind
       (case requested of
          Some names \<Rightarrow> traverse (select_server u env c) names
        | None \<Rightarrow> Inr (filter (is_keep_alive u env) (map snd (sc_servers c))))
       (\<lambda>selected.
         if selected = [] then Inl ''No MCP servers are configured for keep-alive; nothing to serve.''
         else Inr selected)"

subsection \<open>Exactly the valid options are parsed\<close>

lemma first_repeated_None: "first_repeated previous names = None \<longleftrightarrow> distinct names \<and> set names \<inter> set previous = {}"
  by (induction names arbitrary: previous) auto

definition valid_server_names :: "string list \<Rightarrow> bool" where
  "valid_server_names names \<longleftrightarrow>
     names \<noteq> [] \<and> distinct names
     \<and> list_all (\<lambda>name. name \<noteq> [] \<and> trim name = name \<and> CHR '','' \<notin> set name) names"

definition valid_serve_options :: "serve_options \<Rightarrow> bool" where
  "valid_serve_options o' \<longleftrightarrow>
     (case so_mode o' of Stdio \<Rightarrow> True | Http host port \<Rightarrow> trim host \<noteq> [] \<and> port \<le> 65535)
     \<and> (case so_servers o' of None \<Rightarrow> True | Some names \<Rightarrow> valid_server_names names)
     \<and> 1 \<le> so_concurrency o' \<and> so_concurrency o' \<le> 64"

definition print_serve :: "serve_options \<Rightarrow> string list" where
  "print_serve o' =
     (case so_mode o' of
        Stdio \<Rightarrow> [''--stdio'']
      | Http host port \<Rightarrow> [''--http'', show_nat port, ''--host'', host])
     @ (case so_servers o' of None \<Rightarrow> [] | Some names \<Rightarrow> [''--servers'', joined_with (CHR '','') names])
     @ [''--concurrency'', show_nat (so_concurrency o')]"

lemma parse_servers_valid: "parse_servers v = Inr names \<Longrightarrow> valid_server_names names"
  using set_trim split_on_parts
  by (fastforce simp: parse_servers_def server_names_def valid_server_names_def Let_def first_repeated_None
      list_all_iff split: if_splits option.splits)

lemma parse_servers_joined:
  assumes "valid_server_names names"
  shows "parse_servers (joined_with (CHR '','') names) = Inr names"
proof -
  from assms have ok: "names \<noteq> []" "distinct names"
    "\<forall>name \<in> set names. name \<noteq> [] \<and> trim name = name \<and> CHR '','' \<notin> set name"
    by (auto simp: valid_server_names_def list_all_iff)
  then have "split_on (CHR '','') (joined_with (CHR '','') names) = names" by (intro split_on_joined) auto
  moreover have "filter (\<lambda>name. name \<noteq> []) (map trim names) = names" using ok(3) by (induction names) auto
  ultimately have "server_names (joined_with (CHR '','') names) = names" by (simp add: server_names_def)
  moreover have "first_repeated [] names = None" using ok by (simp add: first_repeated_None)
  ultimately show ?thesis using ok by (simp add: parse_servers_def)
qed

lemma parse_port_show: "port \<le> 65535 \<Longrightarrow> parse_port (show_nat port) = Inr port"
  by (simp add: parse_port_def trim_show_nat show_nat_nonempty parse_unsigned_show_nat)

lemma parse_concurrency_show: "1 \<le> n \<Longrightarrow> n \<le> 64 \<Longrightarrow> parse_concurrency (show_nat n) = Inr n"
  by (simp add: parse_concurrency_def parse_unsigned_show_nat)

text \<open>What the loop keeps of the flags it has read.\<close>

definition flags_ok :: "flag_values \<Rightarrow> bool" where
  "flags_ok flags \<longleftrightarrow>
     (\<forall>host. sf_host flags = Some host \<longrightarrow> trim host \<noteq> [])
     \<and> (\<forall>port. sf_port flags = Some port \<longrightarrow> port \<le> 65535)
     \<and> (\<forall>names. sf_servers flags = Some names \<longrightarrow> valid_server_names names)
     \<and> 1 \<le> sf_concurrency flags \<and> sf_concurrency flags \<le> 64"

lemma flags_ok_set:
  assumes "flags_ok flags"
  shows "set_port flags v = Inr flags' \<Longrightarrow> flags_ok flags'"
    and "set_host flags w = Inr flags' \<Longrightarrow> flags_ok flags'"
    and "set_servers flags v = Inr flags' \<Longrightarrow> flags_ok flags'"
    and "set_concurrency flags v = Inr flags' \<Longrightarrow> flags_ok flags'"
  using assms
  by (auto simp: set_port_def set_host_def set_servers_def set_concurrency_def flags_ok_def parse_port_def
      non_empty_def parse_concurrency_def res_bind_Inr
      dest: parse_unsigned_le parse_servers_valid split: if_splits option.splits)

lemma if_InrE:
  assumes "(if c then a else b) = Inr x"
  obtains "c" and "a = Inr x" | "\<not> c" and "b = Inr x"
  using assms by (cases c) auto

lemma serve_flag_ok:
  assumes "serve_flag argument rest flags = Inr (flags', rest')" and "flags_ok flags"
  shows "flags_ok flags'"
proof -
  note set = flags_ok_set [OF assms(2)]
  obtain v r where v: "next_argument rest = (v, r)" by (cases "next_argument rest")
  have "flags_ok (flags\<lparr>sf_stdio := True\<rparr>)" using assms(2) by (simp add: flags_ok_def)
  with assms(1) show ?thesis
    unfolding serve_flag_def Let_def v prod.case
    by (elim if_InrE res_bindE) (simp_all only: sum.inject prod.inject sum.simps set)
qed

lemma serve_flags_ok: "serve_flags arguments flags = Inr flags' \<Longrightarrow> flags_ok flags \<Longrightarrow> flags_ok flags'"
proof (induction arguments flags rule: serve_flags.induct)
  case (1 arguments flags)
  show ?case
  proof (cases arguments)
    case Nil
    with 1 show ?thesis by (simp add: serve_flags.simps)
  next
    case (Cons argument rest)
    with 1(2) obtain f r where "serve_flag argument rest flags = Inr (f, r)" "serve_flags r f = Inr flags'"
      by (subst (asm) serve_flags.simps) (auto split: sum.splits)
    with 1(1) [OF Cons this(1) refl] 1(3) serve_flag_ok show ?thesis by blast
  qed
qed

lemma serve_flags_Nil: "serve_flags [] flags = Inr flags"
  by (subst serve_flags.simps) simp

lemma serve_flags_Cons:
  "serve_flags (argument # rest) flags =
     res_bind (serve_flag argument rest flags) (\<lambda>(flags, rest). serve_flags rest flags)"
  by (subst serve_flags.simps) (simp add: res_bind_def split: sum.splits)

lemma serve_flag_steps:
  "serve_flag ''--stdio'' rest flags = Inr (flags\<lparr>sf_stdio := True\<rparr>, rest)"
  "serve_flag ''--http'' (v # rest) flags = res_bind (set_port flags v) (\<lambda>flags. Inr (flags, rest))"
  "serve_flag ''--host'' (v # rest) flags = res_bind (set_host flags (Some v)) (\<lambda>flags. Inr (flags, rest))"
  "serve_flag ''--servers'' (v # rest) flags = res_bind (set_servers flags v) (\<lambda>flags. Inr (flags, rest))"
  "serve_flag ''--concurrency'' (v # rest) flags = res_bind (set_concurrency flags v) (\<lambda>flags. Inr (flags, rest))"
  by (simp_all add: serve_flag_def next_argument_def)

lemma set_flags:
  "port \<le> 65535 \<Longrightarrow> set_port flags (show_nat port) = Inr (flags\<lparr>sf_port := Some port\<rparr>)"
  "trim host \<noteq> [] \<Longrightarrow> set_host flags (Some host) = Inr (flags\<lparr>sf_host := Some host\<rparr>)"
  "valid_server_names names \<Longrightarrow>
     set_servers flags (joined_with (CHR '','') names) = Inr (flags\<lparr>sf_servers := Some names\<rparr>)"
  "1 \<le> n \<Longrightarrow> n \<le> 64 \<Longrightarrow> set_concurrency flags (show_nat n) = Inr (flags\<lparr>sf_concurrency := n\<rparr>)"
  by (simp_all add: set_port_def set_host_def set_servers_def set_concurrency_def non_empty_def
      parse_port_show parse_concurrency_show parse_servers_joined)

text \<open>C33: the serve options.  Every parsed command line gives valid options: a host that is not blank
  and a port of sixteen bits with HTTP, between 1 and 64 requests at a time, and server names that are
  not empty, trimmed and all different.  Conversely, every valid combination of options can be
  written as a command line that parses to it.\<close>

theorem serve_options_roundtrip:
  "(parse_serve arguments = Inr parsed \<longrightarrow> valid_serve_options parsed)
   \<and> (valid_serve_options options \<longrightarrow> parse_serve (print_serve options) = Inr options)"
proof (intro conjI impI)
  assume "parse_serve arguments = Inr parsed"
  then obtain flags where flags: "serve_flags arguments no_flags = Inr flags"
    and parsed: "parsed = \<lparr>so_mode =
            (case sf_port flags of
               Some port \<Rightarrow> Http (case sf_host flags of Some h \<Rightarrow> h | None \<Rightarrow> DEFAULT_HTTP_HOST) port
             | None \<Rightarrow> Stdio), so_servers = sf_servers flags, so_concurrency = sf_concurrency flags\<rparr>"
    unfolding parse_serve_def by (elim res_bindE) (auto split: if_splits)
  have "flags_ok no_flags" by (simp add: flags_ok_def no_flags_def)
  with flags have "flags_ok flags" by (rule serve_flags_ok)
  moreover have "trim DEFAULT_HTTP_HOST \<noteq> []" by code_simp
  ultimately show "valid_serve_options parsed"
    by (auto simp: parsed valid_serve_options_def flags_ok_def split: option.splits)
next
  assume valid: "valid_serve_options options"
  then show "parse_serve (print_serve options) = Inr options"
    by (cases options; cases "so_mode options"; cases "so_servers options")
       (simp_all add: valid_serve_options_def print_serve_def parse_serve_def serve_flags_Nil serve_flags_Cons
          serve_flag_steps set_flags no_flags_def)
qed

theorem serve_options_roundtrip_witness:
  "parse_serve (print_serve \<lparr>so_mode = Http ''localhost'' 8080, so_servers = Some [''a'', ''b''], so_concurrency = 4\<rparr>)
   = Inr \<lparr>so_mode = Http ''localhost'' 8080, so_servers = Some [''a'', ''b''], so_concurrency = 4\<rparr>"
proof -
  have trims: "trim ''localhost'' = ''localhost''" "trim ''a'' = ''a''" "trim ''b'' = ''b''" by code_simp+
  have "valid_serve_options \<lparr>so_mode = Http ''localhost'' 8080, so_servers = Some [''a'', ''b''], so_concurrency = 4\<rparr>"
    using trims by (simp add: valid_serve_options_def valid_server_names_def)
  with serve_options_roundtrip show ?thesis by blast
qed

subsection \<open>The selection\<close>

lemma traverse_select:
  "traverse (select_server u env c) names = Inr selected \<longleftrightarrow>
     map Some selected = map (\<lambda>name. bt_get name (sc_servers c)) names
     \<and> list_all (is_keep_alive u env) selected"
proof -
  have "select_server u env c name = Inr server \<longleftrightarrow>
      bt_get name (sc_servers c) = Some server \<and> is_keep_alive u env server" for name server
    by (auto simp: select_server_def split: option.splits)
  then show ?thesis
    unfolding traverse_Inr
    by (auto simp: list_all2_conv_all_nth list_eq_iff_nth_eq list_all_length)
qed

text \<open>The servers served: those requested, in that order, when each of them is configured and kept
  alive; without a request all that are kept alive, in the order of their names; never none.\<close>

lemma select_servers_Inr:
  "select_servers u env c requested = Inr selected \<longleftrightarrow>
     selected \<noteq> []
     \<and> (case requested of
          Some names \<Rightarrow> map Some selected = map (\<lambda>name. bt_get name (sc_servers c)) names
            \<and> list_all (is_keep_alive u env) selected
        | None \<Rightarrow> selected = filter (is_keep_alive u env) (map snd (sc_servers c)))"
  by (auto simp: select_servers_def res_bind_Inr traverse_select split: option.splits)

text \<open>The variables decide before the configuration, and the enabling one before the disabling one.\<close>

lemma keep_alive_precedence:
  "override_matches (environment_override u env ''MCPORTER_KEEPALIVE'') (candidate_names u server)
     \<Longrightarrow> is_keep_alive u env server"
  "\<not> override_matches (environment_override u env ''MCPORTER_KEEPALIVE'') (candidate_names u server)
     \<Longrightarrow> override_matches (disabled_overrides u env) (candidate_names u server)
     \<Longrightarrow> \<not> is_keep_alive u env server"
  by (simp_all add: is_keep_alive_def)

end
