(* ===== verification/ConfigPaths.thy ===== *)
theory ConfigPaths
  imports ServerConfig
begin

text \<open>
  Where the configuration is (\<open>src/config_paths.rs\<close>, \<open>src/environment.rs\<close>): the home and project
  files, the explicit path, and the resolution of a path whose end need not exist.  The operating
  system is the record \<open>file_system\<close>: variables, directories, and what exists where.
\<close>

datatype metadata = IsFile | NotAFile | Absent | Unknown string

record file_system =
  fs_variable :: "string \<Rightarrow> string option"
  fs_home :: "string option"
  fs_current :: "string + string"
  fs_absolute :: "string \<Rightarrow> string + string"
  fs_exists :: "string \<Rightarrow> bool"
  fs_is_dir :: "string \<Rightarrow> bool"
  fs_canonical :: "string \<Rightarrow> string + string"
  fs_metadata :: "string \<Rightarrow> metadata"

text \<open>Variables of the program have an older name as well.\<close>

definition environment_value :: "(string \<Rightarrow> string option) \<Rightarrow> string \<Rightarrow> string option" where
  "environment_value variable name =
     (case variable name of
        Some v \<Rightarrow> Some v
      | None \<Rightarrow> Option.bind (map_option (\<lambda>s. ''MCP_POOL_'' @ s) (strip_prefix ''MCP_CLI_'' name)) variable)"

definition HOME_UNAVAILABLE :: string where
  "HOME_UNAVAILABLE = ''Home directory unavailable''"

definition home_directory :: "file_system \<Rightarrow> string + string" where
  "home_directory fs =
     (case environment_value (fs_variable fs) ''MCP_CLI_HOME'' of
        Some home \<Rightarrow> Inr (path_join home ''config'')
      | None \<Rightarrow> res_bind (ok_or HOME_UNAVAILABLE (fs_home fs)) (\<lambda>home. Inr (path_join home ''.mcp'')))"

definition home_config :: "file_system \<Rightarrow> string + string" where
  "home_config fs = res_bind (home_directory fs) (\<lambda>directory. Inr (path_join directory ''config.json''))"

subsection \<open>Absolute paths\<close>

text \<open>\<open>Path::file_name\<close>: the last component, if it is a name.\<close>

definition path_file_name :: "string \<Rightarrow> string option" where
  "path_file_name p =
     (let name = rev (takeWhile (\<lambda>c. c \<noteq> CHR ''/'') (rev_trim_path (rev p)))
      in if name = [] \<or> name = ''.'' \<or> name = ''..'' then None else Some name)"

lemma length_rev_trim_path: "length (rev_trim_path r) \<le> length r"
  by (induction r rule: rev_trim_path.induct) auto

lemma rev_trim_path_start: "rev_trim_path r = CHR ''/'' # s \<Longrightarrow> s = []"
  by (induction r rule: rev_trim_path.induct) (auto split: if_splits)

lemma path_parent_shorter: "path_parent p = Some q \<Longrightarrow> length q < length p"
proof -
  assume parent: "path_parent p = Some q"
  let ?t = "rev_trim_path (rev p)"
  let ?rest = "dropWhile (\<lambda>c. c \<noteq> CHR ''/'') ?t"
  from parent have t: "?t \<noteq> []" "?t \<noteq> ''/''" and q: "q = rev (rev_trim_path ?rest)"
    by (auto simp: path_parent_def Let_def split: if_splits)
  from t obtain c s where c: "?t = c # s" "c \<noteq> CHR ''/''"
    using rev_trim_path_start [of "rev p"] by (cases ?t) auto
  then have "length ?rest < length ?t" using length_dropWhile_le [of _ s] by (simp add: le_imp_less_Suc)
  moreover have "length ?t \<le> length p" using length_rev_trim_path [of "rev p"] by simp
  moreover have "length q \<le> length ?rest" using length_rev_trim_path q by simp
  ultimately show ?thesis by linarith
qed

text \<open>The part of the path that exists, and the names below it that do not, innermost first.\<close>

function existing_part :: "file_system \<Rightarrow> string \<Rightarrow> string list \<Rightarrow> string + string \<times> string list" where
  "existing_part fs existing names =
     (if fs_exists fs existing then Inr (existing, names)
      else
        (case path_file_name existing of
           None \<Rightarrow> Inl ''Config path has no filename''
         | Some name \<Rightarrow>
             (case path_parent existing of
                None \<Rightarrow> Inl ''Config path has no parent''
              | Some parent \<Rightarrow> existing_part fs parent (names @ [name]))))"
  by pat_completeness auto
termination
  by (relation "measure (\<lambda>(_, existing, _). length existing)") (auto dest: path_parent_shorter)

declare existing_part.simps [simp del]

definition absolute :: "file_system \<Rightarrow> string \<Rightarrow> string + string" where
  "absolute fs path =
     res_bind
       (if path = ''~'' then ok_or HOME_UNAVAILABLE (fs_home fs)
        else
          (case (case strip_prefix ''~/'' path of Some s \<Rightarrow> Some s
                 | None \<Rightarrow> strip_prefix [CHR ''~'', BACKSLASH] path) of
             Some relative \<Rightarrow> res_bind (ok_or HOME_UNAVAILABLE (fs_home fs)) (\<lambda>home. Inr (path_join home relative))
           | None \<Rightarrow> Inr path)) (\<lambda>expanded.
     res_bind (fs_absolute fs expanded) (\<lambda>absolute.
     res_bind (existing_part fs absolute []) (\<lambda>(existing, names).
     res_bind (with_context ''Resolving configuration path'' (fs_canonical fs existing)) (\<lambda>resolved.
     Inr (fold (\<lambda>name path. path_join path name) (rev names) resolved)))))"

subsection \<open>Which file\<close>

function ancestors :: "string \<Rightarrow> string list" where
  "ancestors path = path # (case path_parent path of None \<Rightarrow> [] | Some parent \<Rightarrow> ancestors parent)"
  by pat_completeness auto
termination
  by (relation "measure length") (auto dest: path_parent_shorter)

declare ancestors.simps [simp del]

definition is_project :: "file_system \<Rightarrow> string option \<Rightarrow> string \<Rightarrow> bool" where
  "is_project fs home ancestor \<longleftrightarrow>
     fs_exists fs (path_join ancestor ''.git'')
     \<or> (Some ancestor \<noteq> home \<and> fs_is_dir fs (path_join ancestor ''.mcp''))"

definition project_directory :: "file_system \<Rightarrow> string option \<Rightarrow> string + string" where
  "project_directory fs root =
     res_bind (fs_current fs) (\<lambda>current.
     res_bind (absolute fs (case root of Some r \<Rightarrow> r | None \<Rightarrow> current)) (\<lambda>selected.
     if \<not> fs_is_dir fs selected then Inl ''Project root must be an existing directory''
     else if is_some root then Inr selected
     else
       res_bind (case fs_home fs of
                   None \<Rightarrow> Inr None
                 | Some home \<Rightarrow> res_bind (absolute fs home) (\<lambda>home. Inr (Some home))) (\<lambda>home.
       case List.find (is_project fs home) (ancestors selected) of
         Some ancestor \<Rightarrow> Inr ancestor
       | None \<Rightarrow> Inr selected)))"

definition project_config :: "file_system \<Rightarrow> string option \<Rightarrow> string + string" where
  "project_config fs root =
     res_bind (project_directory fs root) (\<lambda>directory.
       Inr (path_join (path_join directory ''.mcp'') ''config.json''))"

definition explicit_config :: "file_system \<Rightarrow> string option \<Rightarrow> string + string option" where
  "explicit_config fs path =
     (case (case path of Some p \<Rightarrow> Some p | None \<Rightarrow> environment_value (fs_variable fs) ''MCP_CLI_CONFIG'') of
        None \<Rightarrow> Inr None
      | Some p \<Rightarrow> res_bind (absolute fs p) (\<lambda>p. Inr (Some p)))"

definition config_destination :: "file_system \<Rightarrow> string option \<Rightarrow> string option \<Rightarrow> string + string" where
  "config_destination fs path root =
     res_bind (explicit_config fs path) (\<lambda>explicit.
     case explicit of
       Some p \<Rightarrow> Inr p
     | None \<Rightarrow>
         res_bind (project_config fs root) (\<lambda>project.
         case fs_metadata fs project of
           IsFile \<Rightarrow> Inr project
         | NotAFile \<Rightarrow> Inl ''Project config is not a file''
         | Absent \<Rightarrow> home_config fs
         | Unknown e \<Rightarrow> Inl (''Inspecting project config: '' @ e)))"

text \<open>
  \<open>server_config::load_at\<close>: the configuration at the explicit path, or the project's file over the
  home file.
\<close>

definition load_configuration ::
  "config_system \<Rightarrow> file_system \<Rightarrow> string option \<Rightarrow> string option \<Rightarrow> string + 'a server_configuration" where
  "load_configuration sys fs path root =
     load_at sys (explicit_config fs path) (res_bind (home_config fs) (absolute fs))
       (res_bind (project_config fs root) (absolute fs))
       (case res_bind (project_config fs root) (absolute fs) of
          Inr project \<Rightarrow> fs_metadata fs project = IsFile
        | Inl _ \<Rightarrow> False)"

end
