(* ===== verification/Import.thy ===== *)
theory Import
  imports ConfigPaths
begin

text \<open>
  The import of server definitions from other tools' configuration files
  (\<open>src/config_import_kind.rs\<close>, \<open>src/config_import_convert.rs\<close>, \<open>src/config_import_sources.rs\<close>), as
  built for Linux.  Printing a JSON value is the argument \<open>ser\<close>; files, the TOML and JSONC parsers and
  the resolution of paths are the record \<open>import_system\<close>.
\<close>

subsection \<open>Kinds of sources\<close>

datatype import_kind =
    Claude | ClaudeDesktop | Codex | Mcporter | ProjectSources | Native | Cursor | Windsurf | OpenCode | VsCode

definition import_kind_parse :: "string \<Rightarrow> string + import_kind" where
  "import_kind_parse source =
     (if source = ''claude'' \<or> source = ''claude-code'' then Inr Claude
      else if source = ''claude-desktop'' then Inr ClaudeDesktop
      else if source = ''codex'' then Inr Codex
      else if source = ''mcporter'' then Inr Mcporter
      else if source = ''project'' then Inr ProjectSources
      else if source = ''mcp-pool'' then Inr Native
      else if source = ''cursor'' then Inr Cursor
      else if source = ''windsurf'' then Inr Windsurf
      else if source = ''opencode'' then Inr OpenCode
      else if source = ''vscode'' \<or> source = ''vs-code'' then Inr VsCode
      else Inl ''Import source must be claude, claude-desktop, codex, mcporter, project, mcp-pool, cursor, windsurf, opencode, or vscode'')"

definition is_editor :: "import_kind \<Rightarrow> bool" where
  "is_editor kind \<longleftrightarrow> kind \<in> {Cursor, Windsurf, OpenCode, VsCode}"

definition is_toml :: "import_kind \<Rightarrow> bool" where
  "is_toml kind \<longleftrightarrow> kind \<in> {Codex, Native}"

fun import_containers :: "import_kind \<Rightarrow> string list" where
  "import_containers Codex = [''mcp_servers'']"
| "import_containers Native = [''server'']"
| "import_containers OpenCode = [''mcp'']"
| "import_containers Cursor = [''mcpServers'', ''servers'']"
| "import_containers Windsurf = [''mcpServers'', ''servers'']"
| "import_containers VsCode = [''mcpServers'', ''servers'']"
| "import_containers _ = [''mcpServers'']"

fun kind_name :: "import_kind \<Rightarrow> string" where
  "kind_name Claude = ''claude''"
| "kind_name ClaudeDesktop = ''claude-desktop''"
| "kind_name Codex = ''codex''"
| "kind_name Mcporter = ''mcporter''"
| "kind_name ProjectSources = ''project''"
| "kind_name Native = ''mcp-pool''"
| "kind_name Cursor = ''cursor''"
| "kind_name Windsurf = ''windsurf''"
| "kind_name OpenCode = ''opencode''"
| "kind_name VsCode = ''vscode''"

subsection \<open>Placeholders\<close>

definition UNSUPPORTED_MARKERS :: "string list" where
  "UNSUPPORTED_MARKERS =
     [''{file:'', ''{input:'', ''${input:'', ''${command:'', ''${env:'', ''${workspaceFolder'', ''${config:'', ''${secret:'']"

definition helper_name_ok :: "string \<Rightarrow> bool" where
  "helper_name_ok name \<longleftrightarrow> name \<noteq> [] \<and> list_all (\<lambda>c. is_ascii_alphanumeric c \<or> c = CHR ''_'') name"

lemma helper_found: "str_find ''{env:'' s = Some i \<Longrightarrow> 0 < length s"
  by (cases s) auto

text \<open>The loop over the helpers of \<open>text\<close>, from \<open>remaining\<close> on.\<close>

function replace_helpers :: "string \<Rightarrow> string \<Rightarrow> string + string" where
  "replace_helpers whole remaining =
     (case str_find ''{env:'' remaining of
        None \<Rightarrow> Inr remaining
      | Some start \<Rightarrow>
          let variable = drop (start + 5) remaining in
          (case str_find ''}'' variable of
             None \<Rightarrow> Inl ''Unclosed {env: variable helper''
           | Some close \<Rightarrow>
               let name = take close variable in
               if \<not> helper_name_ok name then Inl ''Invalid {env: variable helper''
               else
                 res_bind (replace_helpers whole (drop (close + 1) variable)) (\<lambda>rest.
                 Inr (take start remaining
                   @ (if whole = ''{env:'' @ name @ ''}'' then ''$env:'' @ name else ''${'' @ name @ ''}'')
                   @ rest))))"
  by pat_completeness auto
termination
  by (relation "measure (\<lambda>(_, remaining). length remaining)") (auto dest!: helper_found)

declare replace_helpers.simps [simp del]

definition normalize_text :: "string \<Rightarrow> string + string" where
  "normalize_text t =
     (case List.find (\<lambda>marker. str_contains marker t) UNSUPPORTED_MARKERS of
        Some marker \<Rightarrow> Inl (''Unsupported variable helper '' @ quoted marker @ ''; configure this server manually'')
      | None \<Rightarrow> if str_contains ''{env:'' t then replace_helpers t t else Inr t)"

fun normalize_placeholders :: "json \<Rightarrow> string + json" where
  "normalize_placeholders (JString t) = res_bind (normalize_text t) (\<lambda>t. Inr (JString t))"
| "normalize_placeholders (JArray vs) =
     res_bind (traverse normalize_placeholders vs) (\<lambda>vs. Inr (JArray vs))"
| "normalize_placeholders (JObject m) =
     res_bind (traverse (\<lambda>e. res_bind (normalize_placeholders (snd e)) (\<lambda>v. Inr (fst e, v))) m)
       (\<lambda>m. Inr (JObject m))"
| "normalize_placeholders v = Inr v"

subsection \<open>Helpers of the conversion\<close>

definition is_environment_reference :: "string \<Rightarrow> bool" where
  "is_environment_reference v \<longleftrightarrow>
     starts_with ''$env:'' v \<or> str_contains ''${'' v \<or> str_contains ''{env:'' v"

definition tool_names :: "json \<Rightarrow> string + string list" where
  "tool_names v =
     res_bind (ok_or ''Tool filters must be string arrays'' (as_array v)) (\<lambda>vs.
     traverse (\<lambda>v. ok_or ''Tool filters must be string arrays'' (as_str v)) vs)"

definition rename_field :: "string \<Rightarrow> string \<Rightarrow> obj \<Rightarrow> obj" where
  "rename_field old new e =
     (case obj_get old e of None \<Rightarrow> e | Some v \<Rightarrow> obj_insert new v (obj_remove old e))"

text \<open>\<open>entry(key).or_insert(value)\<close>.\<close>

definition obj_or_insert :: "string \<Rightarrow> json \<Rightarrow> obj \<Rightarrow> obj" where
  "obj_or_insert k v m = (if is_some (obj_get k m) then m else obj_insert k v m)"

text \<open>\<open>bail!\<close> when a condition holds.\<close>

definition refuse :: "bool \<Rightarrow> string \<Rightarrow> string + unit" where
  "refuse condition message = (if condition then Inl message else Inr ())"

text \<open>The first of the fields that the entry has.\<close>

definition first_present :: "string list \<Rightarrow> obj \<Rightarrow> string option" where
  "first_present ks e = List.find (\<lambda>k. is_some (obj_get k e)) ks"

definition REFUSED_TOKEN :: string where
  "REFUSED_TOKEN = ''Refusing to import a bearerToken credential; use bearerTokenEnv with an environment variable instead''"

definition check_token :: "string \<Rightarrow> obj \<Rightarrow> string + obj" where
  "check_token key e =
     (case obj_get key e of
        None \<Rightarrow> Inr e
      | Some v \<Rightarrow>
          res_bind (ok_or ''bearerToken must be a string; configure bearerTokenEnv instead'' (as_str v)) (\<lambda>token.
          if token = ''******'' \<or> \<not> is_environment_reference token then Inl REFUSED_TOKEN
          else res_bind (normalize_placeholders (JString token)) (\<lambda>v. Inr (obj_insert key v e))))"

text \<open>The field \<open>enabled\<close>, taken out, says whether the server is imported at all.\<close>

definition take_enabled :: "obj \<Rightarrow> string + obj \<times> bool" where
  "take_enabled e =
     (case obj_get ''enabled'' e of
        None \<Rightarrow> Inr (e, True)
      | Some v \<Rightarrow>
          res_bind (ok_or ''enabled must be a boolean'' (as_bool v)) (\<lambda>enabled.
          Inr (obj_remove ''enabled'' e, enabled)))"

subsection \<open>Editors\<close>

definition EDITOR_UNSUPPORTED :: "string list" where
  "EDITOR_UNSUPPORTED =
     [''headersHelper'', ''http_headers_helper'', ''envFile'', ''oauth'', ''refresh'', ''authorization'',
      ''authentication'', ''inputs'']"

definition CREDENTIAL_FRAGMENTS :: "string list" where
  "CREDENTIAL_FRAGMENTS =
     [''auth'', ''token'', ''secret'', ''credential'', ''header'', ''password'', ''apikey'', ''api_key'', ''variable'']"

definition CREDENTIAL_FIELDS :: "string list" where
  "CREDENTIAL_FIELDS =
     [''auth'', ''headers'', ''bearerToken'', ''bearer_token'', ''bearerTokenEnv'', ''bearer_token_env'',
      ''tokenCacheDir'', ''token_cache_dir'', ''oauthClientId'', ''oauth_client_id'', ''oauthClientSecretEnv'',
      ''oauth_client_secret_env'', ''oauthClientMetadataUrl'', ''oauth_client_metadata_url'',
      ''oauthTokenEndpointAuthMethod'', ''oauth_token_endpoint_auth_method'', ''oauthRedirectUrl'',
      ''oauth_redirect_url'', ''oauthRequestedScope'', ''oauth_requested_scope'']"

definition credential_field :: "string \<Rightarrow> bool" where
  "credential_field name \<longleftrightarrow>
     list_ex (\<lambda>fragment. str_contains fragment (to_ascii_lower name)) CREDENTIAL_FRAGMENTS
     \<and> name \<notin> set CREDENTIAL_FIELDS"

definition editor_refusals :: "import_kind \<Rightarrow> obj \<Rightarrow> string + unit" where
  "editor_refusals kind e =
     (case first_present EDITOR_UNSUPPORTED e of
        Some name \<Rightarrow> Inl (''Unsupported '' @ kind_name kind @ '' option '' @ quoted name @ ''; configure this server manually'')
      | None \<Rightarrow>
          (case List.find credential_field (map fst e) of
             Some name \<Rightarrow> Inl (''Unsupported '' @ kind_name kind @ '' credential option '' @ quoted name
                            @ ''; configure this server manually'')
           | None \<Rightarrow> Inr ()))"

definition editor_transport :: "import_kind \<Rightarrow> obj \<Rightarrow> string + obj" where
  "editor_transport kind e =
     (case obj_get ''type'' e of
        None \<Rightarrow> Inr e
      | Some v \<Rightarrow>
          res_bind (ok_or ''type must be a string'' (as_str v)) (\<lambda>t.
          res_bind
            (if t = ''local'' then Inr ''stdio''
             else if t = ''remote'' then Inr ''http''
             else if t \<in> {''stdio'', ''http'', ''sse'', ''streamable-http''} then Inr t
             else Inl (''Unsupported '' @ kind_name kind @ '' transport '' @ quoted t)) (\<lambda>tr.
          Inr (obj_or_insert ''transport'' (JString tr) (obj_remove ''type'' e)))))"

text \<open>Numbers and booleans of a map of strings are printed.\<close>

definition printed_scalars :: "(json \<Rightarrow> string) \<Rightarrow> string \<Rightarrow> obj \<Rightarrow> string + obj" where
  "printed_scalars ser name e =
     (case obj_get name e of
        None \<Rightarrow> Inr e
      | Some v \<Rightarrow>
          res_bind (ok_or (name @ '' must be an object'') (as_object v)) (\<lambda>m.
          Inr (obj_insert name
            (JObject (map (\<lambda>(k, v). (k, if is_number v \<or> is_boolean v then JString (ser v) else v)) m)) e)))"

definition editor_command :: "obj \<Rightarrow> string + obj" where
  "editor_command e =
     (case (Option.bind (obj_get ''command'' e) as_array, obj_get ''args'' e) of
        (Some tokens, Some arguments) \<Rightarrow>
          res_bind (ok_or ''args must be a string array'' (as_array arguments)) (\<lambda>arguments.
          Inr (obj_insert ''command'' (JArray (tokens @ arguments)) (obj_remove ''args'' e)))
      | _ \<Rightarrow> Inr e)"

definition editor_renames :: "import_kind \<Rightarrow> obj \<Rightarrow> obj" where
  "editor_renames kind e =
     (let e = rename_field ''environment'' ''env'' e
      in if kind = OpenCode then rename_field ''timeout'' ''timeoutMs'' e else e)"

definition editor_entry :: "(json \<Rightarrow> string) \<Rightarrow> import_kind \<Rightarrow> obj \<Rightarrow> string + obj option" where
  "editor_entry ser kind e =
     res_bind (take_enabled e) (\<lambda>(e, enabled).
     if \<not> enabled then Inr None
     else
       res_bind (editor_refusals kind e) (\<lambda>_.
       res_bind (editor_transport kind (editor_renames kind e)) (\<lambda>e.
       res_bind (printed_scalars ser ''env'' e) (\<lambda>e.
       res_bind (printed_scalars ser ''headers'' e) (\<lambda>e.
       res_bind (editor_command e) (\<lambda>e.
       res_bind (traverse (\<lambda>e. res_bind (normalize_placeholders (snd e)) (\<lambda>v. Inr (fst e, v))) e)
         (\<lambda>e. Inr (Some e))))))))"

subsection \<open>Codex\<close>

text \<open>
  Seconds as milliseconds, in 64-bit floating point.  A finite float is a sign, a mantissa and an
  exponent of two; the product with 1000 is rounded to 53 bits, ties to even.  What is below one
  or above the range is refused, so that neither subnormal results nor overflow matter.
\<close>

fun bit_length :: "nat \<Rightarrow> nat" where
  "bit_length n = (if n = 0 then 0 else Suc (bit_length (n div 2)))"

declare bit_length.simps [simp del]

definition round_mantissa :: "nat \<Rightarrow> nat \<times> nat" where
  "round_mantissa m =
     (let bits = bit_length m in
      if bits \<le> 53 then (m, 0)
      else
        let k = bits - 53; q = m div 2 ^ k; r = m mod 2 ^ k; half = 2 ^ (k - 1)
        in (if r > half \<or> (r = half \<and> odd q) then q + 1 else q, k))"

fun float_parts :: "number \<Rightarrow> (bool \<times> nat \<times> int) option" where
  "float_parts (PosInt n) = (case round_mantissa (unat n) of (m, k) \<Rightarrow> Some (False, m, int k))"
| "float_parts (NegInt n) = (case round_mantissa (nat (- sint n)) of (m, k) \<Rightarrow> Some (True, m, int k))"
| "float_parts (Float f) =
     (let e = unat (drop_bit 52 f) mod 2048; m = unat f mod 2 ^ 52 in
      if e = 2047 then None
      else Some (bit f 63, if e = 0 then m else m + 2 ^ 52, (if e = 0 then 1 else int e) - 1075))"

definition milliseconds :: "number \<Rightarrow> u64 option" where
  "milliseconds seconds =
     (case float_parts seconds of
        None \<Rightarrow> None
      | Some (negative, m, e) \<Rightarrow>
          (case round_mantissa (m * 1000) of
             (p, k) \<Rightarrow>
               let v = (if 0 \<le> e + int k then p * 2 ^ nat (e + int k) else p div 2 ^ nat (- (e + int k)))
               in if negative \<or> v < 1 \<or> v \<ge> 2 ^ 64 then None else Some (of_nat v)))"

definition CODEX_UNSUPPORTED :: "string list" where
  "CODEX_UNSUPPORTED =
     [''http_headers_helper'', ''experimental_environment'', ''tools'', ''default_tools_approval_mode'',
      ''oauth_client_secret'', ''oauthClientSecret'']"

definition codex_refusals :: "obj \<Rightarrow> string + unit" where
  "codex_refusals e =
     (case first_present CODEX_UNSUPPORTED e of
        Some name \<Rightarrow> Inl (''Unsupported Codex option '' @ quoted name @ ''; remove it or configure this server manually'')
      | None \<Rightarrow>
          refuse (\<exists>v. obj_get ''auth'' e = Some v \<and> as_str v \<noteq> Some ''oauth'')
            ''Unsupported Codex auth method; configure this server manually'')"

text \<open>Headers and variables that name variables.\<close>

definition environment_reference :: "string \<Rightarrow> json" where
  "environment_reference name = JString (''$env:'' @ name)"

fun header_variables :: "obj \<Rightarrow> obj \<Rightarrow> string + obj" where
  "header_variables [] headers = Inr headers"
| "header_variables (e # dynamic) headers =
     res_bind (ok_or ''env_http_headers must be a string map'' (as_str (snd e))) (\<lambda>name.
     header_variables dynamic (obj_insert (fst e) (environment_reference name) headers))"

definition codex_headers :: "obj \<Rightarrow> string + obj" where
  "codex_headers e =
     (case obj_get ''env_http_headers'' e of
        None \<Rightarrow> Inr e
      | Some v \<Rightarrow>
          let e = obj_or_insert ''headers'' (JObject []) (obj_remove ''env_http_headers'' e) in
          res_bind (ok_or ''env_http_headers must be a string map'' (as_object v)) (\<lambda>dynamic.
          res_bind (ok_or ''http_headers must be an object'' (Option.bind (obj_get ''headers'' e) as_object)) (\<lambda>headers.
          res_bind (header_variables dynamic headers) (\<lambda>headers.
          Inr (obj_insert ''headers'' (JObject headers) e)))))"

fun passed_variables :: "json list \<Rightarrow> obj \<Rightarrow> string + obj" where
  "passed_variables [] env = Inr env"
| "passed_variables (v # vs) env =
     res_bind (ok_or ''Only local string env_vars are supported'' (as_str v)) (\<lambda>name.
     passed_variables vs (obj_or_insert name (environment_reference name) env))"

definition codex_variables :: "obj \<Rightarrow> string + obj" where
  "codex_variables e =
     (case obj_get ''env_vars'' e of
        None \<Rightarrow> Inr e
      | Some v \<Rightarrow>
          let e = obj_or_insert ''env'' (JObject []) (obj_remove ''env_vars'' e) in
          res_bind (ok_or ''env_vars must be a string array'' (as_array v)) (\<lambda>variables.
          res_bind (ok_or ''env must be an object'' (Option.bind (obj_get ''env'' e) as_object)) (\<lambda>env.
          res_bind (passed_variables variables env) (\<lambda>env.
          Inr (obj_insert ''env'' (JObject env) e)))))"

definition string_list :: "string list \<Rightarrow> json" where
  "string_list ss = JArray (map JString ss)"

definition codex_filters :: "obj \<Rightarrow> string + obj" where
  "codex_filters e =
     (let allowed = obj_get ''enabled_tools'' e; blocked = obj_get ''disabled_tools'' e;
          e = obj_remove ''disabled_tools'' (obj_remove ''enabled_tools'' e)
      in
      (case allowed of
         Some v \<Rightarrow>
           res_bind (tool_names v) (\<lambda>allowed.
           res_bind (case blocked of None \<Rightarrow> Inr [] | Some b \<Rightarrow> tool_names b) (\<lambda>blocked.
           Inr (obj_insert ''allowedTools'' (string_list (filter (\<lambda>n. n \<notin> set blocked) allowed)) e)))
       | None \<Rightarrow>
           (case blocked of
              None \<Rightarrow> Inr e
            | Some v \<Rightarrow>
                res_bind (tool_names v) (\<lambda>blocked. Inr (obj_insert ''blockedTools'' (string_list blocked) e)))))"

definition codex_timeout :: "obj \<Rightarrow> string + obj" where
  "codex_timeout e =
     (case obj_get ''tool_timeout_sec'' e of
        None \<Rightarrow> Inr e
      | Some v \<Rightarrow>
          (case v of
             JNumber seconds \<Rightarrow>
               res_bind (ok_or ''tool_timeout_sec must be positive and within the supported range''
                           (milliseconds seconds)) (\<lambda>ms.
               Inr (obj_insert ''timeoutMs'' (from_u64 ms) (obj_remove ''tool_timeout_sec'' e)))
           | _ \<Rightarrow> Inl ''tool_timeout_sec must be numeric''))"

definition unapplied_warnings :: "string \<Rightarrow> obj \<Rightarrow> string list" where
  "unapplied_warnings name e =
     map (\<lambda>k. ''Server '' @ quoted name @ '' uses '' @ quoted k @ '', which is not applied by mcp-cli.'')
       (filter (\<lambda>k. is_some (obj_get k e)) [''startup_timeout_sec'', ''required''])"

definition codex_entry :: "string \<Rightarrow> obj \<Rightarrow> string + obj option \<times> string list" where
  "codex_entry name e =
     res_bind (take_enabled e) (\<lambda>(e, enabled).
     if \<not> enabled then Inr (None, [''Skipped disabled Codex server '' @ quoted name @ ''.''])
     else
       res_bind (codex_refusals e) (\<lambda>_.
       let e = rename_field ''bearer_token_env_var'' ''bearerTokenEnv'' (rename_field ''http_headers'' ''headers'' e) in
       res_bind (codex_headers e) (\<lambda>e.
       res_bind (codex_variables e) (\<lambda>e.
       res_bind (codex_filters e) (\<lambda>e.
       res_bind (codex_timeout e) (\<lambda>e.
       Inr (Some (obj_remove ''required'' (obj_remove ''startup_timeout_sec'' e)), unapplied_warnings name e)))))))"

subsection \<open>Other sources and the common end\<close>

definition claude_entry :: "obj \<Rightarrow> string + obj" where
  "claude_entry e =
     (let e = rename_field ''type'' ''transport'' e in
      (case first_present [''headersHelper'', ''oauth''] e of
         Some name \<Rightarrow> Inl (''Unsupported Claude option '' @ quoted name @ ''; configure authentication manually'')
       | None \<Rightarrow> Inr e))"

definition native_entry :: "obj \<Rightarrow> string + obj" where
  "native_entry e =
     (if (case obj_get ''auth'' e of Some v \<Rightarrow> \<not> is_null v | None \<Rightarrow> False)
      then Inl ''Legacy runtime auth cannot be imported; configure OAuth explicitly''
      else Inr (rename_field ''timeout_ms'' ''timeoutMs''
        (fold obj_remove [''configuration_entry'', ''auth'', ''clear_env'', ''credential_scope''] e)))"

definition unsupported_auth :: "import_kind \<Rightarrow> obj \<Rightarrow> bool" where
  "unsupported_auth kind e \<longleftrightarrow>
     (case obj_get ''auth'' e of
        None \<Rightarrow> False
      | Some v \<Rightarrow> (case as_str v of None \<Rightarrow> True | Some m \<Rightarrow> m \<noteq> ''oauth'' \<and> m \<noteq> ''none''))
     \<and> kind \<noteq> Native"

definition masked_authorization :: "obj \<Rightarrow> bool" where
  "masked_authorization e \<longleftrightarrow>
     Option.bind (Option.bind (Option.bind (obj_get ''headers'' e) as_object) (obj_get ''Authorization'')) as_str
       = Some ''******''"

definition check_transport :: "obj \<Rightarrow> string + unit" where
  "check_transport e =
     (case obj_get ''transport'' e of
        None \<Rightarrow> Inr ()
      | Some v \<Rightarrow>
          res_bind (ok_or ''transport must be a string'' (as_str v)) (\<lambda>tr.
          refuse (tr \<notin> {''stdio'', ''http'', ''sse'', ''streamable-http''})
            ''Unsupported transport; only stdio, http, and sse can be imported''))"

text \<open>A command and its arguments become one list of tokens.\<close>

definition joined_command :: "obj \<Rightarrow> string + obj" where
  "joined_command e =
     (case obj_get ''command'' e of
        None \<Rightarrow> Inr e
      | Some v \<Rightarrow>
          res_bind (ok_or ''command must be a string'' (as_str v)) (\<lambda>c.
          (case obj_get ''args'' e of
             None \<Rightarrow> Inr (obj_insert ''command'' (JArray [JString c]) e)
           | Some a \<Rightarrow>
               res_bind (ok_or ''args must be a string array'' (as_array a)) (\<lambda>arguments.
               if list_ex (\<lambda>v. \<not> is_string v) arguments then Inl ''args must be a string array''
               else Inr (obj_insert ''command'' (JArray (JString c # arguments)) (obj_remove ''args'' e))))))"

definition finish_entry :: "import_kind \<Rightarrow> obj \<Rightarrow> string + json" where
  "finish_entry kind e =
     res_bind (refuse (masked_authorization e)
       ''Refusing to import a masked Authorization header; use bearerTokenEnv with an environment variable instead'') (\<lambda>_.
     res_bind (check_transport e) (\<lambda>_.
     res_bind (if kind = Claude \<or> kind = Codex then joined_command e else Inr e) (\<lambda>e.
     Inr (JObject e))))"

text \<open>\<open>entry\<close>: the definition, unless the server is disabled, and the warnings.\<close>

definition import_entry ::
  "(json \<Rightarrow> string) \<Rightarrow> import_kind \<Rightarrow> json \<Rightarrow> string \<Rightarrow> string + json option \<times> string list" where
  "import_entry ser kind v name =
     res_bind (ok_or ''Server definition must be an object'' (as_object v)) (\<lambda>e.
     let e = rename_field ''protocol_version'' ''protocolVersion'' e in
     res_bind (check_token ''bearerToken'' e) (\<lambda>e.
     res_bind (check_token ''bearer_token'' e) (\<lambda>e.
     res_bind (if is_editor kind then editor_entry ser kind e else Inr (Some e)) (\<lambda>r.
     case r of
       None \<Rightarrow> Inr (None, [''Skipped disabled '' @ kind_name kind @ '' server '' @ quoted name @ ''.''])
     | Some e \<Rightarrow>
         res_bind (refuse (unsupported_auth kind e) ''Unsupported auth method; configure this server manually'') (\<lambda>_.
         res_bind (if kind = Codex then codex_entry name e else Inr (Some e, [])) (\<lambda>(r, warnings).
         case r of
           None \<Rightarrow> Inr (None, warnings)
         | Some e \<Rightarrow>
             res_bind (if kind = Claude then claude_entry e else Inr e) (\<lambda>e.
             res_bind (if kind = Native then native_entry e else Inr e) (\<lambda>e.
             res_bind (finish_entry kind e) (\<lambda>v. Inr (Some v, warnings))))))))))"

subsection \<open>Imported placeholders keep their meaning\<close>

text \<open>
  A value of another tool as a sequence of literal text and variables, what the variables make of
  it, and the value with its variables written in braces as this program writes them.
\<close>

datatype value_piece = Literal string | Helper string

fun piece_text :: "value_piece \<Rightarrow> string" where
  "piece_text (Literal l) = l"
| "piece_text (Helper n) = ''{env:'' @ n @ ''}''"

fun piece_braced :: "value_piece \<Rightarrow> string" where
  "piece_braced (Literal l) = l"
| "piece_braced (Helper n) = ''${'' @ n @ ''}''"

fun piece_ok :: "value_piece \<Rightarrow> bool" where
  "piece_ok (Literal l) \<longleftrightarrow> CHR ''{'' \<notin> set l \<and> CHR ''$'' \<notin> set l \<and> BACKSLASH \<notin> set l"
| "piece_ok (Helper n) \<longleftrightarrow> valid_environment_name n"

definition variable_value :: "(string \<Rightarrow> string + string option) \<Rightarrow> string \<Rightarrow> string + string" where
  "variable_value environment n =
     res_bind (environment n) (\<lambda>v. ok_or (missing_variable n) v)"

fun pieces_value :: "(string \<Rightarrow> string + string option) \<Rightarrow> value_piece list \<Rightarrow> string + string" where
  "pieces_value environment [] = Inr []"
| "pieces_value environment (Literal l # ps) = res_bind (pieces_value environment ps) (\<lambda>v. Inr (l @ v))"
| "pieces_value environment (Helper n # ps) =
     res_bind (variable_value environment n) (\<lambda>x. res_bind (pieces_value environment ps) (\<lambda>v. Inr (x @ v)))"

lemma str_find_skip:
  "c \<notin> set a \<Longrightarrow> str_find (c # p) (a @ b) = map_option (\<lambda>i. length a + i) (str_find (c # p) b)"
  by (induction a; cases "str_find (c # p) b") auto

lemma str_find_absent: "c \<notin> set a \<Longrightarrow> str_find (c # p) a = None"
  using str_find_skip [of c a p "[]"] by simp

lemma str_contains_middle: "str_contains p (a @ p @ b)"
proof (induction a)
  case Nil
  show ?case using starts_with_append [of p b] by (cases "p @ b") (auto simp: str_contains_def)
next
  case (Cons c a)
  then show ?case by (auto simp: str_contains_def)
qed

lemma valid_name_chars:
  assumes "valid_environment_name n"
  shows "n \<noteq> []" "list_all (\<lambda>c. is_ascii_alphanumeric c \<or> c = CHR ''_'') n"
  using assms by (auto simp: valid_environment_name_def is_ascii_alphanumeric_def split: list.splits)

lemma valid_name_fresh:
  assumes "valid_environment_name n"
  shows "CHR ''{'' \<notin> set n" "CHR ''}'' \<notin> set n" "CHR ''$'' \<notin> set n" "CHR '':'' \<notin> set n"
  using valid_name_chars(2) [OF assms]
  by (auto simp: list_all_iff is_ascii_alphanumeric_def is_ascii_alphabetic_def is_ascii_upper_def
      is_ascii_lower_def is_ascii_digit_def)

lemma replace_helpers_literal:
  assumes "CHR ''{'' \<notin> set l"
  shows "replace_helpers w (l @ r) = res_bind (replace_helpers w r) (\<lambda>x. Inr (l @ x))"
proof -
  note skip = str_find_skip [OF assms, of "''env:''" r]
  show ?thesis
  proof (cases "str_find ''{env:'' r")
    case None
    with skip show ?thesis by (simp add: replace_helpers.simps [of w])
  next
    case (Some i)
    with skip have "str_find ''{env:'' (l @ r) = Some (length l + i)" by simp
    with Some show ?thesis
      by (simp add: replace_helpers.simps [of w "l @ r"] replace_helpers.simps [of w r] Let_def res_bind_def
          split: option.splits sum.splits)
  qed
qed

lemma replace_helpers_helper:
  assumes "valid_environment_name n"
  shows "replace_helpers w (''{env:'' @ n @ ''}'' @ r) =
    res_bind (replace_helpers w r) (\<lambda>x.
      Inr ((if w = ''{env:'' @ n @ ''}'' then ''$env:'' @ n else ''${'' @ n @ ''}'') @ x))"
proof -
  have "str_find ''}'' (n @ CHR ''}'' # r) = Some (length n)"
    using valid_name_fresh(2) [OF assms] by (rule str_find_char_append)
  moreover have "helper_name_ok n" using valid_name_chars [OF assms] by (simp add: helper_name_ok_def)
  ultimately show ?thesis
    by (subst replace_helpers.simps) (simp add: Let_def)
qed

lemma replace_helpers_pieces:
  assumes "list_all piece_ok ps" and "\<And>n. valid_environment_name n \<Longrightarrow> w \<noteq> ''{env:'' @ n @ ''}''"
  shows "replace_helpers w (concat (map piece_text ps)) = Inr (concat (map piece_braced ps))"
  using assms(1)
proof (induction ps)
  case Nil
  then show ?case by (simp add: replace_helpers.simps)
next
  case (Cons p ps)
  then show ?case
    using replace_helpers_helper assms(2) by (cases p) (simp_all add: replace_helpers_literal)
qed

lemma expand_from_literal:
  assumes "CHR ''$'' \<notin> set l" and "BACKSLASH \<notin> set l"
  shows "expand_from environment acc (l @ r) = expand_from environment (acc @ l) r"
proof -
  note skip = str_find_skip [OF assms(1), of "''{''" r]
  have strip: "strip_suffix [BACKSLASH] (l @ q) = map_option (\<lambda>p. l @ p) (strip_suffix [BACKSLASH] q)" for q
    using assms(2)
    by (cases q rule: rev_cases; cases l rule: rev_cases)
       (auto simp: strip_suffix_def ends_with_singleton)
  show ?thesis
  proof (cases "str_find ''${'' r")
    case None
    with skip show ?thesis by (simp add: expand_from.simps [of environment])
  next
    case (Some i)
    with skip have "str_find ''${'' (l @ r) = Some (length l + i)" by simp
    with Some show ?thesis
      by (cases "strip_suffix [BACKSLASH] (take i r)")
         (simp_all add: expand_from.simps [of environment acc "l @ r"] expand_from.simps [of environment "acc @ l" r]
          Let_def strip split: option.splits prod.splits sum.splits)
  qed
qed

lemma expand_from_braced:
  assumes "valid_environment_name n"
  shows "expand_from environment acc (''${'' @ n @ ''}'' @ r)
       = res_bind (variable_value environment n) (\<lambda>v. expand_from environment (acc @ v) r)"
proof -
  have "str_find ''}'' (n @ CHR ''}'' # r) = Some (length n)"
    using valid_name_fresh(2) [OF assms] by (rule str_find_char_append)
  moreover have "placeholder_parts n = (n, None)"
    using valid_name_fresh(4) [OF assms] str_find_absent by (simp add: placeholder_parts_def split_once_def)
  ultimately show ?thesis
    using assms
    by (subst expand_from.simps)
       (simp add: Let_def placeholder_value_def variable_value_def res_bind_def strip_suffix_def ends_with_singleton
         split: sum.splits option.splits)
qed

lemma expand_from_pieces:
  assumes "list_all piece_ok ps"
  shows "expand_from environment acc (concat (map piece_braced ps))
       = res_bind (pieces_value environment ps) (\<lambda>v. Inr (acc @ v))"
  using assms
proof (induction ps arbitrary: acc rule: pieces_value.induct)
  case (1 environment)
  then show ?case by (simp add: expand_from.simps)
next
  case (2 environment l ps)
  then show ?case by (cases "pieces_value environment ps") (simp_all add: expand_from_literal)
next
  case (3 environment n ps)
  then show ?case
    using expand_from_braced [of n environment acc]
    by (cases "variable_value environment n"; cases "pieces_value environment ps") simp_all
qed

lemma str_replace_literal:
  "CHR ''{'' \<notin> set l \<Longrightarrow> str_replace ''{env:'' s (l @ r) = l @ str_replace ''{env:'' s r"
  by (induction l) simp_all

lemma braced_replaces:
  assumes "list_all piece_ok ps"
  shows "concat (map piece_braced ps) = str_replace ''{env:'' ''${'' (concat (map piece_text ps))"
  using assms
proof (induction ps)
  case (Cons p ps)
  show ?case
  proof (cases p)
    case (Literal l)
    with Cons show ?thesis by (simp add: str_replace_literal)
  next
    case (Helper n)
    with Cons show ?thesis
      using str_replace_literal [of "n @ ''}''" "''${''" "concat (map piece_text ps)"] valid_name_fresh [of n] by simp
  qed
qed simp

text \<open>What is refused before anything is replaced does not occur in such a text.\<close>

lemma dollar_in_pieces: "list_all piece_ok ps \<Longrightarrow> CHR ''$'' \<notin> set (concat (map piece_text ps))"
proof (induction ps)
  case (Cons p ps)
  then show ?case using valid_name_fresh(3) by (cases p) auto
qed simp

lemma other_marker_in_pieces:
  assumes "c \<noteq> CHR ''e''"
  shows "list_all piece_ok ps \<Longrightarrow> str_find (CHR ''{'' # c # m) (concat (map piece_text ps)) = None"
proof (induction ps)
  case (Cons p ps)
  show ?case
  proof (cases p)
    case (Literal l)
    with Cons show ?thesis by (simp add: str_find_skip)
  next
    case (Helper n)
    with Cons assms valid_name_fresh(1) [of n]
      str_find_skip [of "CHR ''{''" "''env:'' @ n @ ''}''" "c # m" "concat (map piece_text ps)"]
    show ?thesis by simp
  qed
qed simp

lemma markers_in_pieces:
  assumes "list_all piece_ok ps"
  shows "List.find (\<lambda>marker. str_contains marker (concat (map piece_text ps))) UNSUPPORTED_MARKERS = None"
  using str_find_absent [OF dollar_in_pieces [OF assms]] other_marker_in_pieces [OF _ assms]
  by (simp add: UNSUPPORTED_MARKERS_def str_contains_def)

lemma no_helper_in_pieces:
  assumes "list_all piece_ok ps" and "\<not> str_contains ''{env:'' (concat (map piece_text ps))"
  shows "concat (map piece_braced ps) = concat (map piece_text ps)"
proof -
  have "str_replace p r t = t" if "str_find p t = None" "p \<noteq> []" for p r t
    using that by (induction p r t rule: str_replace.induct) (auto split: if_splits)
  with assms braced_replaces show ?thesis by (simp add: str_contains_def)
qed

lemma native_env_in_braced:
  assumes "list_all piece_ok ps"
  shows "\<not> str_contains ''${env:'' (concat (map piece_braced ps))"
    and "strip_prefix ''$env:'' (concat (map piece_braced ps)) = None"
proof -
  have "str_find ''${env:'' (concat (map piece_braced ps)) = None
    \<and> \<not> starts_with ''$e'' (concat (map piece_braced ps))"
    using assms
  proof (induction ps)
    case (Cons p ps)
    show ?case
    proof (cases p)
      case (Literal l)
      with Cons show ?thesis by (cases l) (simp_all add: str_find_skip)
    next
      case (Helper n)
      with Cons.prems have "CHR '':'' \<notin> set n" using valid_name_fresh(4) by simp
      then have "\<not> starts_with ''env:'' (n @ CHR ''}'' # r)" for r
        by (cases n; cases "tl n"; cases "tl (tl n)"; cases "tl (tl (tl n))") auto
      with Helper Cons valid_name_fresh(3) [of n]
        str_find_skip [of "CHR ''$''" "CHR ''{'' # n @ ''}''" "''{env:''" "concat (map piece_braced ps)"]
      show ?thesis by simp
    qed
  qed simp
  then show "\<not> str_contains ''${env:'' (concat (map piece_braced ps))"
    and "strip_prefix ''$env:'' (concat (map piece_braced ps)) = None"
    by (auto simp: str_contains_def strip_prefix_def starts_with_prefix prefix_def split: if_splits)
qed

lemma expand_whole_value:
  assumes "valid_environment_name n"
  shows "expand_environment environment (''$env:'' @ n) = variable_value environment n"
proof -
  have "str_find ''${env:'' (''env:'' @ n) = None"
    using valid_name_fresh(3) [OF assms] by (intro str_find_absent) simp
  then have "\<not> str_contains ''${env:'' (''$env:'' @ n)" by (simp add: str_contains_def)
  moreover have "strip_prefix ''$env:'' (''$env:'' @ n) = Some n" by (rule strip_prefix_append)
  ultimately show ?thesis
    using assms unfolding expand_environment_def
    by (simp add: variable_value_def res_bind_def split: sum.splits option.splits)
qed

text \<open>C31: an imported value keeps its meaning.  A value of another tool, made of literal text (without
  dollar signs, braces that open and backslashes) and of variables, is accepted, and the value it is
  imported as expands to what the tool would make of it: the literal text with each variable replaced
  by its value, and the same error when a variable is missing.\<close>

theorem imported_values_keep_their_meaning:
  assumes "list_all piece_ok ps"
  shows "\<exists>t. normalize_placeholders (JString (concat (map piece_text ps))) = Inr (JString t)
    \<and> expand_environment environment t = pieces_value environment ps"
proof -
  let ?text = "concat (map piece_text ps)" and ?braced = "concat (map piece_braced ps)"
  have braced: "expand_environment environment ?braced = pieces_value environment ps"
    using native_env_in_braced [OF assms] expand_from_pieces [OF assms, of environment "[]"]
    by (cases "pieces_value environment ps") (simp_all add: expand_environment_def)
  note normalize = normalize_text_def markers_in_pieces [OF assms]
  show ?thesis
  proof (cases "\<exists>n. ?text = ''{env:'' @ n @ ''}'' \<and> valid_environment_name n")
    case True
    then obtain n where n: "?text = ''{env:'' @ n @ ''}''" "valid_environment_name n" by blast
    have "List.find (\<lambda>marker. str_contains marker (''{env:'' @ n @ ''}'')) UNSUPPORTED_MARKERS = None"
      using markers_in_pieces [OF assms] unfolding n(1) .
    then have "normalize_text ?text = Inr (''$env:'' @ n)"
      using n replace_helpers_helper [OF n(2), of ?text "[]"] str_contains_middle [of "''{env:''" "[]" "n @ ''}''"]
      by (simp add: normalize_text_def replace_helpers.simps [of _ "[]"])
    moreover have "?braced = ''${'' @ n @ ''}''"
      using braced_replaces [OF assms] str_replace_literal [of "n @ ''}''" "''${''" "[]"] valid_name_fresh(1) [OF n(2)]
      by (simp add: n)
    then have "pieces_value environment ps = variable_value environment n"
      using expand_from_pieces [OF assms, of environment "[]"] expand_from_braced [OF n(2), of environment "[]" "[]"]
      by (cases "pieces_value environment ps"; cases "variable_value environment n") (simp_all add: expand_from.simps [of _ _ "[]"])
    moreover have "expand_environment environment (''$env:'' @ n) = variable_value environment n"
      using n(2) by (rule expand_whole_value)
    ultimately show ?thesis by simp
  next
    case False
    have "replace_helpers ?text ?text = Inr ?braced"
      by (rule replace_helpers_pieces [OF assms]) (use False in blast)
    then have "normalize_text ?text = Inr ?braced"
      using no_helper_in_pieces [OF assms] by (simp add: normalize)
    with braced show ?thesis by simp
  qed
qed

theorem imported_values_keep_their_meaning_witness:
  "\<exists>t. normalize_placeholders (JString ''Bearer {env:TOKEN}'') = Inr (JString t)
     \<and> expand_environment (\<lambda>_. Inr (Some ''secret'')) t = Inr ''Bearer secret''"
proof -
  have "list_all piece_ok [Literal ''Bearer '', Helper ''TOKEN'']" by code_simp
  from imported_values_keep_their_meaning [OF this, of "\<lambda>_. Inr (Some ''secret'')"]
  show ?thesis by (simp add: variable_value_def)
qed

text \<open>
  The importer accepts the name of a variable that starts with a digit, which the reader of the
  configuration does not expand.
\<close>

lemma digit_helpers_are_not_expanded:
  "normalize_text ''x{env:1A}'' = Inr ''x${1A}''"
  "expand_environment environment ''x${1A}'' = Inr ''x${1A}''"
proof -
  show "normalize_text ''x{env:1A}'' = Inr ''x${1A}''" by code_simp
  have "\<not> str_contains ''${env:'' ''x${1A}''" "strip_prefix ''$env:'' ''x${1A}'' = None"
    "str_find ''${'' ''x${1A}'' = Some 1" "str_find ''}'' ''1A}'' = Some 2" "placeholder_parts ''1A'' = (''1A'', None)"
    "\<not> valid_environment_name ''1A''" "str_find ''${'' ''1A}'' = None" by code_simp+
  then show "expand_environment environment ''x${1A}'' = Inr ''x${1A}''"
    by (simp add: expand_environment_def expand_from.simps [of environment] Let_def)
qed

subsection \<open>No plain credential is imported\<close>

definition native_reference :: "string \<Rightarrow> bool" where
  "native_reference t \<longleftrightarrow> starts_with ''$env:'' t \<or> str_contains ''${'' t"

definition TOKEN_KEYS :: "string set" where
  "TOKEN_KEYS = {''bearerToken'', ''bearer_token''}"

definition token_ok :: "string set \<Rightarrow> obj \<Rightarrow> bool" where
  "token_ok ks e \<longleftrightarrow>
     obj_wf e \<and> (\<forall>key \<in> ks. \<forall>v. obj_get key e = Some v \<longrightarrow> (\<exists>t. v = JString t \<and> native_reference t))"

lemma replace_helpers_reference:
  assumes "replace_helpers w r = Inr t" and "str_contains ''{env:'' r"
  shows "native_reference t \<or> (\<exists>a n b. t = a @ ''$env:'' @ n @ b \<and> w = ''{env:'' @ n @ ''}'')"
proof -
  from assms(2) obtain start where start: "str_find ''{env:'' r = Some start" by (auto simp: str_contains_def)
  let ?variable = "drop (start + 5) r"
  from assms(1) start obtain close rest where close: "str_find ''}'' ?variable = Some close"
    and t: "t = take start r
      @ (if w = ''{env:'' @ take close ?variable @ ''}'' then ''$env:'' @ take close ?variable
         else ''${'' @ take close ?variable @ ''}'') @ rest"
    by (subst (asm) replace_helpers.simps)
       (auto simp: Let_def res_bind_Inr split: option.splits if_splits)
  show ?thesis
  proof (cases "w = ''{env:'' @ take close ?variable @ ''}''")
    case True
    with t show ?thesis by fastforce
  next
    case False
    with t have "t = take start r @ ''${'' @ (take close ?variable @ ''}'' @ rest)" by simp
    then have "str_contains ''${'' t" using str_contains_middle by metis
    then show ?thesis by (simp add: native_reference_def)
  qed
qed

lemma whole_helper:
  assumes "w = ''{env:'' @ n @ ''}''" and "replace_helpers w w = Inr t" 
  shows "native_reference t"
proof -
  have start: "str_find ''{env:'' w = Some 0" "drop 5 w = n @ ''}''" by (simp_all add: assms(1))
  from assms(2) show ?thesis
    unfolding replace_helpers.simps [of w w]
    by (auto simp: start Let_def res_bind_Inr native_reference_def str_contains_def split: option.splits if_splits)
qed

lemma normalize_text_reference:
  assumes "normalize_text t = Inr t'" and "is_environment_reference t"
  shows "native_reference t'"
proof (cases "str_contains ''{env:'' t")
  case True
  with assms(1) have r: "replace_helpers t t = Inr t'" by (auto simp: normalize_text_def split: option.splits)
  from replace_helpers_reference [OF this True] whole_helper [OF _ r] show ?thesis by blast
next
  case False
  with assms show ?thesis
    by (auto simp: normalize_text_def is_environment_reference_def native_reference_def split: option.splits)
qed

lemma native_is_reference: "native_reference t \<Longrightarrow> is_environment_reference t"
  by (auto simp: native_reference_def is_environment_reference_def)

lemma token_ok_insert: "token_ok ks e \<Longrightarrow> k \<notin> ks \<Longrightarrow> token_ok ks (obj_insert k v e)"
  by (auto simp: token_ok_def obj_wf_insert obj_get_insert)

lemma token_ok_remove: "token_ok ks e \<Longrightarrow> token_ok ks (obj_remove k e)"
  by (auto simp: token_ok_def obj_wf_remove obj_get_remove split: if_splits)

lemma token_ok_rename: "token_ok ks e \<Longrightarrow> new \<notin> ks \<Longrightarrow> token_ok ks (rename_field old new e)"
  by (auto simp: rename_field_def token_ok_insert token_ok_remove split: option.splits)

lemma token_ok_or_insert: "token_ok ks e \<Longrightarrow> k \<notin> ks \<Longrightarrow> token_ok ks (obj_or_insert k v e)"
  by (simp add: obj_or_insert_def token_ok_insert)

lemmas token_ok_keeps = token_ok_insert token_ok_remove token_ok_rename token_ok_or_insert

lemma token_ok_check:
  assumes "check_token key e = Inr e'" and "token_ok ks e"
  shows "token_ok (insert key ks) e'"
proof (cases "obj_get key e")
  case None
  with assms show ?thesis by (auto simp: check_token_def token_ok_def)
next
  case (Some v)
  with assms(1) obtain t t' where v: "v = JString t" "is_environment_reference t" "normalize_text t = Inr t'"
    "e' = obj_insert key (JString t') e"
    by (auto simp: check_token_def res_bind_Inr as_str_Some split: if_splits)
  with normalize_text_reference [OF v(3,2)] assms(2) show ?thesis
    by (auto simp: token_ok_def obj_wf_insert obj_get_insert)
qed

lemma token_ok_normalized:
  assumes "traverse (\<lambda>e. res_bind (normalize_placeholders (snd e)) (\<lambda>v. Inr (fst e, v))) e = Inr e'"
    and "token_ok ks e"
  shows "token_ok ks e'"
proof -
  from assms(1) have "list_all2 (\<lambda>x y. fst y = fst x \<and> normalize_placeholders (snd x) = Inr (snd y)) e e'"
    by (auto simp: traverse_Inr res_bind_Inr elim!: list_all2_mono)
  then have keys: "map fst e' = map fst e"
    and get: "obj_get k e' = Some v' \<Longrightarrow> \<exists>v. obj_get k e = Some v \<and> normalize_placeholders v = Inr v'" for k v'
    by (induction rule: list_all2_induct) (auto simp: obj_get_def split: if_splits)
  show ?thesis
    unfolding token_ok_def
  proof (intro conjI ballI allI impI)
    show "obj_wf e'" using assms(2) keys by (simp add: token_ok_def)
    fix key v'
    assume key: "key \<in> ks" and "obj_get key e' = Some v'"
    from get [OF this(2)] obtain v where "obj_get key e = Some v" "normalize_placeholders v = Inr v'" by blast
    moreover from assms(2) key this(1) obtain t where "v = JString t" "native_reference t"
      by (auto simp: token_ok_def)
    ultimately obtain t t' where t: "native_reference t" "normalize_text t = Inr t'" "v' = JString t'"
      by (auto simp: res_bind_Inr)
    with normalize_text_reference [OF t(2) native_is_reference] show "\<exists>t. v' = JString t \<and> native_reference t"
      by blast
  qed
qed

lemma token_ok_take_enabled: "take_enabled e = Inr (e', enabled) \<Longrightarrow> token_ok ks e \<Longrightarrow> token_ok ks e'"
  by (auto simp: take_enabled_def res_bind_Inr token_ok_keeps split: option.splits)

lemma token_ok_editor:
  assumes "editor_entry ser kind e = Inr (Some e')" and "token_ok TOKEN_KEYS e"
  shows "token_ok TOKEN_KEYS e'"
proof -
  have transport: "editor_transport kind e = Inr e' \<Longrightarrow> token_ok TOKEN_KEYS e \<Longrightarrow> token_ok TOKEN_KEYS e'" for e e'
    by (auto simp: editor_transport_def res_bind_Inr TOKEN_KEYS_def intro!: token_ok_keeps split: option.splits)
  have printed: "printed_scalars ser name e = Inr e' \<Longrightarrow> name \<notin> TOKEN_KEYS \<Longrightarrow> token_ok TOKEN_KEYS e
      \<Longrightarrow> token_ok TOKEN_KEYS e'" for name e e'
    by (auto simp: printed_scalars_def res_bind_Inr intro!: token_ok_keeps split: option.splits)
  have command: "editor_command e = Inr e' \<Longrightarrow> token_ok TOKEN_KEYS e \<Longrightarrow> token_ok TOKEN_KEYS e'" for e e'
    by (auto simp: editor_command_def res_bind_Inr TOKEN_KEYS_def intro!: token_ok_keeps split: option.splits)
  have renamed: "token_ok TOKEN_KEYS e \<Longrightarrow> token_ok TOKEN_KEYS (editor_renames kind e)" for e
    by (auto simp: editor_renames_def TOKEN_KEYS_def Let_def intro!: token_ok_keeps)
  from assms(1) obtain e1 e2 e3 e4 e5 where steps: "take_enabled e = Inr (e1, True)"
    "editor_transport kind (editor_renames kind e1) = Inr e2" "printed_scalars ser ''env'' e2 = Inr e3"
    "printed_scalars ser ''headers'' e3 = Inr e4" "editor_command e4 = Inr e5"
    and last: "traverse (\<lambda>e. res_bind (normalize_placeholders (snd e)) (\<lambda>v. Inr (fst e, v))) e5 = Inr e'"
    unfolding editor_entry_def by (elim res_bindE) (auto elim!: res_bindE split: prod.splits if_splits)
  have "token_ok TOKEN_KEYS e3"
    using printed [OF steps(3)] transport [OF steps(2)] renamed token_ok_take_enabled [OF steps(1)] assms(2)
    by (simp add: TOKEN_KEYS_def)
  then have "token_ok TOKEN_KEYS e5"
    using command [OF steps(5)] printed [OF steps(4)] by (simp add: TOKEN_KEYS_def)
  with last show ?thesis by (rule token_ok_normalized)
qed

lemma token_ok_codex:
  assumes "codex_entry name e = Inr (Some e', warnings)" and "token_ok TOKEN_KEYS e"
  shows "token_ok TOKEN_KEYS e'"
proof -
  have headers: "codex_headers e = Inr e' \<Longrightarrow> token_ok TOKEN_KEYS e \<Longrightarrow> token_ok TOKEN_KEYS e'" for e e'
    by (auto simp: codex_headers_def res_bind_Inr TOKEN_KEYS_def Let_def intro!: token_ok_keeps split: option.splits)
  have variables: "codex_variables e = Inr e' \<Longrightarrow> token_ok TOKEN_KEYS e \<Longrightarrow> token_ok TOKEN_KEYS e'" for e e'
    by (auto simp: codex_variables_def res_bind_Inr TOKEN_KEYS_def Let_def intro!: token_ok_keeps split: option.splits)
  have filters: "codex_filters e = Inr e' \<Longrightarrow> token_ok TOKEN_KEYS e \<Longrightarrow> token_ok TOKEN_KEYS e'" for e e'
    by (auto simp: codex_filters_def res_bind_Inr TOKEN_KEYS_def Let_def intro!: token_ok_keeps split: option.splits)
  have timeout: "codex_timeout e = Inr e' \<Longrightarrow> token_ok TOKEN_KEYS e \<Longrightarrow> token_ok TOKEN_KEYS e'" for e e'
    by (auto simp: codex_timeout_def res_bind_Inr TOKEN_KEYS_def intro!: token_ok_keeps split: option.splits json.splits)
  from assms(1) obtain e1 e2 e3 e4 e5 where steps: "take_enabled e = Inr (e1, True)"
    "codex_headers (rename_field ''bearer_token_env_var'' ''bearerTokenEnv'' (rename_field ''http_headers'' ''headers'' e1)) = Inr e2"
    "codex_variables e2 = Inr e3" "codex_filters e3 = Inr e4" "codex_timeout e4 = Inr e5"
    and last: "e' = obj_remove ''required'' (obj_remove ''startup_timeout_sec'' e5)"
    unfolding codex_entry_def Let_def by (elim res_bindE) (auto elim!: res_bindE split: prod.splits if_splits)
  have "token_ok TOKEN_KEYS e1" using steps(1) assms(2) by (rule token_ok_take_enabled)
  then have "token_ok TOKEN_KEYS (rename_field ''bearer_token_env_var'' ''bearerTokenEnv'' (rename_field ''http_headers'' ''headers'' e1))"
    by (intro token_ok_keeps) (auto simp: TOKEN_KEYS_def)
  with headers [OF steps(2)] variables [OF steps(3)] filters [OF steps(4)] timeout [OF steps(5)]
  have "token_ok TOKEN_KEYS e5" by blast
  then show ?thesis unfolding last by (intro token_ok_keeps)
qed

lemma token_ok_finish:
  assumes "finish_entry kind e = Inr v" and "token_ok TOKEN_KEYS e"
  shows "\<exists>m. v = JObject m \<and> token_ok TOKEN_KEYS m \<and> \<not> masked_authorization m
    \<and> (\<forall>tr. obj_get ''transport'' m = Some tr \<longrightarrow>
         tr \<in> JString ` {''stdio'', ''http'', ''sse'', ''streamable-http''})"
proof -
  from assms(1) obtain m where m: "(if kind = Claude \<or> kind = Codex then joined_command e else Inr e) = Inr m"
    "v = JObject m" and checks: "\<not> masked_authorization e" "check_transport e = Inr ()"
    unfolding finish_entry_def by (elim res_bindE) (auto simp: refuse_def split: if_splits)
  have same: "obj_get k m = obj_get k e" if "k \<noteq> ''command''" "k \<noteq> ''args''" for k
    using m(1) assms(2) that
    by (auto simp: joined_command_def res_bind_Inr obj_get_insert obj_get_remove obj_wf_remove token_ok_def
        split: if_splits option.splits)
  have "token_ok TOKEN_KEYS m"
    using m(1) assms(2)
    by (auto simp: joined_command_def res_bind_Inr TOKEN_KEYS_def intro!: token_ok_keeps
        split: if_splits option.splits)
  moreover have "\<not> masked_authorization m" using checks(1) same by (simp add: masked_authorization_def)
  moreover have "tr \<in> JString ` {''stdio'', ''http'', ''sse'', ''streamable-http''}"
    if "obj_get ''transport'' m = Some tr" for tr
    using that checks(2) same [of "''transport''"]
    by (auto simp: check_transport_def res_bind_Inr refuse_def as_str_Some split: if_splits)
  ultimately show ?thesis using m(2) by blast
qed



end
