(* ===== verification/ImportSources.thy ===== *)
theory ImportSources
  imports Import
begin

text \<open>
  The files an import reads (\<open>src/config_import_sources.rs\<close>) and the relocation of what they say
  (\<open>relocate\<close> in \<open>src/config_import_convert.rs\<close>).  Reading a file, the TOML parser and the rest of the
  operating system are \<open>import_system\<close>.
\<close>

datatype source_text = NoSuchFile string | Unreadable string | Readable nat "string + string"

text \<open>A readable file has the length of its metadata and what reading it gives.\<close>

record import_system =
  is_config :: config_system
  is_files :: file_system
  is_text :: "string \<Rightarrow> source_text"
  is_toml_parser :: "string \<Rightarrow> json option"
  is_config_directory :: "string option"

subsection \<open>Relocation\<close>

definition relocate_path :: "string \<Rightarrow> string \<Rightarrow> string" where
  "relocate_path v directory =
     (if path_absolute v \<or> starts_with ''~'' v \<or> starts_with ''$'' v
         \<or> (1 < length v \<and> v ! 1 = CHR '':'') \<or> starts_with [BACKSLASH, BACKSLASH] v
      then v else path_join directory v)"

definition relocated_executable :: "string \<Rightarrow> json \<Rightarrow> json" where
  "relocated_executable directory v =
     (case v of
        JString t \<Rightarrow>
          if (CHR ''/'' \<in> set t \<or> BACKSLASH \<in> set t) \<and> DQUOTE \<notin> set t \<and> SQUOTE \<notin> set t
          then JString (relocate_path t directory) else v
      | _ \<Rightarrow> v)"

definition relocate_command :: "string \<Rightarrow> string \<Rightarrow> obj \<Rightarrow> obj" where
  "relocate_command directory key e =
     (case obj_get key e of
        None \<Rightarrow> e
      | Some (JArray []) \<Rightarrow> e
      | Some (JArray (t # ts)) \<Rightarrow> obj_insert key (JArray (relocated_executable directory t # ts)) e
      | Some v \<Rightarrow> obj_insert key (relocated_executable directory v) e)"

text \<open>A command line is split into tokens, unless it has arguments or is an existing file.\<close>

definition split_command :: "import_system \<Rightarrow> string \<Rightarrow> obj \<Rightarrow> string + obj" where
  "split_command sys directory e =
     (case Option.bind (case obj_get ''command'' e of Some v \<Rightarrow> Some v | None \<Rightarrow> obj_get ''executable'' e) as_str of
        None \<Rightarrow> Inr e
      | Some c \<Rightarrow>
          if starts_with ''$'' c then Inr e
          else
            res_bind (case obj_get ''args'' e of None \<Rightarrow> Inr [] | Some v \<Rightarrow> tool_names v) (\<lambda>arguments.
            res_bind (if arguments \<noteq> [] then Inr True else existing_command_path (is_config sys) c directory) (\<lambda>whole.
            res_bind (if whole then Inr (c # arguments) else command_tokens c) (\<lambda>tokens.
            Inr (obj_remove ''executable'' (obj_remove ''args''
              (obj_insert ''command'' (string_list tokens) e)))))))"

definition relocate_process :: "import_system \<Rightarrow> string \<Rightarrow> obj \<Rightarrow> string + obj" where
  "relocate_process sys directory e =
     res_bind (split_command sys directory e) (\<lambda>e.
     res_bind (case obj_get ''cwd'' e of
                 None \<Rightarrow> Inr None
               | Some v \<Rightarrow> res_bind (ok_or ''cwd must be a string'' (as_str v)) (\<lambda>s. Inr (Some s))) (\<lambda>cwd.
     let cwd = (case cwd of None \<Rightarrow> directory | Some v \<Rightarrow> relocate_path v directory);
         e = obj_insert ''cwd'' (JString cwd) e
     in Inr (relocate_command directory ''executable'' (relocate_command directory ''command'' e))))"

definition relocate_cache :: "string \<Rightarrow> string \<Rightarrow> obj \<Rightarrow> string + obj" where
  "relocate_cache source key e =
     (case obj_get key e of
        None \<Rightarrow> Inr e
      | Some v \<Rightarrow>
          res_bind (ok_or ''tokenCacheDir must be a string'' (as_str v)) (\<lambda>t.
          res_bind (ok_or ''Source has no parent'' (path_parent source)) (\<lambda>parent.
          Inr (obj_insert key (JString (relocate_path t parent)) e))))"

definition relocate :: "import_system \<Rightarrow> json \<Rightarrow> string \<Rightarrow> string \<Rightarrow> string + json" where
  "relocate sys v directory source =
     res_bind (ok_or ''Server must be an object'' (as_object v)) (\<lambda>e.
     res_bind (if is_remote_entry e then Inr e else relocate_process sys directory e) (\<lambda>e.
     res_bind (relocate_cache source ''tokenCacheDir'' e) (\<lambda>e.
     res_bind (relocate_cache source ''token_cache_dir'' e) (\<lambda>e.
     Inr (JObject e)))))"

subsection \<open>Files\<close>

record imported_server =
  is_entry :: json
  is_source :: string

record import_batch =
  ib_servers :: "(string \<times> imported_server) list"
  ib_warnings :: "string list"
  ib_requested :: "string list"

definition MAX_SOURCE_BYTES :: nat where
  "MAX_SOURCE_BYTES = 16 * 1024 * 1024"

definition reading :: "string \<Rightarrow> string" where
  "reading path = ''Reading import source '' @ path"

definition read_text :: "import_system \<Rightarrow> string \<Rightarrow> bool \<Rightarrow> string + string option" where
  "read_text sys path optional =
     (case is_text sys path of
        NoSuchFile e \<Rightarrow> if optional then Inr None else with_context (reading path) (Inl e)
      | Unreadable e \<Rightarrow> with_context (reading path) (Inl e)
      | Readable len contents \<Rightarrow>
          if len > MAX_SOURCE_BYTES then Inl (''Import source '' @ path @ '' exceeds 16 MiB'')
          else with_context (reading path) (res_bind contents (\<lambda>c. Inr (Some c))))"

definition json_document :: "import_system \<Rightarrow> string \<Rightarrow> string \<Rightarrow> string + json" where
  "json_document sys path contents =
     res_bind (map_err (''Invalid JSONC in import source '' @ path)
                (cs_jsonc (is_config sys) (trim_start_matches BYTE_ORDER_MARK contents))) (\<lambda>v.
     ok_or (''Empty import source '' @ path) v)"

text \<open>\<open>Path::components\<close> and \<open>Path::starts_with\<close>.\<close>

definition path_components :: "string \<Rightarrow> string list" where
  "path_components p =
     (let parts = split_on (CHR ''/'') p in
      (if path_absolute p then [''/''] else if hd parts = ''.'' then [''.''] else [])
      @ filter (\<lambda>c. c \<noteq> [] \<and> c \<noteq> ''.'') parts)"

definition path_starts_with :: "string \<Rightarrow> string \<Rightarrow> bool" where
  "path_starts_with p base \<longleftrightarrow> prefix (path_components base) (path_components p)"

definition wanted :: "import_batch \<Rightarrow> string \<Rightarrow> bool" where
  "wanted batch name \<longleftrightarrow> ib_requested batch = [] \<or> name \<in> set (ib_requested batch)"

definition entry_base :: "import_kind \<Rightarrow> string \<Rightarrow> string \<Rightarrow> string + string" where
  "entry_base kind source project =
     (if kind = Mcporter \<or> kind = Native \<or> (is_editor kind \<and> \<not> path_starts_with source project)
      then ok_or ''Import source has no parent'' (path_parent source)
      else Inr project)"

definition occurs_twice :: "string \<Rightarrow> string \<Rightarrow> string \<Rightarrow> string" where
  "occurs_twice name previous source =
     ''Server '' @ quoted name @ '' occurs in both '' @ previous @ '' and '' @ source @ ''; import each source separately''"

fun insert_entries ::
  "(json \<Rightarrow> string) \<Rightarrow> import_system \<Rightarrow> import_kind \<Rightarrow> string \<Rightarrow> string \<Rightarrow> bool \<Rightarrow> obj \<Rightarrow> import_batch
     \<Rightarrow> string + import_batch" where
  "insert_entries ser sys kind source project replace [] batch = Inr batch"
| "insert_entries ser sys kind source project replace ((name, v) # entries) batch =
     (if \<not> wanted batch name then insert_entries ser sys kind source project replace entries batch
      else if trim name = [] then Inl ''Import source contains an empty server name''
      else
        res_bind (with_context (''Server '' @ quoted name @ '' in '' @ source) (import_entry ser kind v name)) (\<lambda>(r, warnings).
        let batch = batch\<lparr>ib_warnings := ib_warnings batch @ warnings\<rparr> in
        case r of
          None \<Rightarrow> insert_entries ser sys kind source project replace entries batch
        | Some e \<Rightarrow>
            res_bind (entry_base kind source project) (\<lambda>base.
            res_bind (relocate sys e base source) (\<lambda>e.
            case bt_get name (ib_servers batch) of
              Some previous \<Rightarrow>
                if \<not> replace then Inl (occurs_twice name (is_source previous) source)
                else insert_entries ser sys kind source project replace entries
                  (batch\<lparr>ib_servers := bt_insert name \<lparr>is_entry = e, is_source = source\<rparr> (ib_servers batch)\<rparr>)
            | None \<Rightarrow>
                insert_entries ser sys kind source project replace entries
                  (batch\<lparr>ib_servers := bt_insert name \<lparr>is_entry = e, is_source = source\<rparr> (ib_servers batch)\<rparr>)))))"

text \<open>The entries of the containers; the first container that has a name keeps it.\<close>

fun container_entries :: "string \<Rightarrow> string list \<Rightarrow> obj \<Rightarrow> obj \<Rightarrow> string + obj" where
  "container_entries path [] document entries = Inr entries"
| "container_entries path (key # keys) document entries =
     (case obj_get key document of
        None \<Rightarrow> container_entries path keys document entries
      | Some v \<Rightarrow>
          res_bind (ok_or (''Import source '' @ path @ '' needs an object named '' @ key) (as_object v)) (\<lambda>m.
          container_entries path keys document (fold (\<lambda>(k, v). obj_or_insert k v) m entries)))"

text \<open>An editor's file without any container may be the container itself.\<close>

definition bare_entries :: "import_kind \<Rightarrow> obj \<Rightarrow> obj" where
  "bare_entries kind document =
     (if is_editor kind \<and> kind \<noteq> OpenCode
         \<and> list_all (\<lambda>key. obj_get key document = None) (import_containers kind)
      then filter (\<lambda>e. case as_object (snd e) of Some m \<Rightarrow> is_server_entry m | None \<Rightarrow> False) document
      else [])"

definition legacy_import_warning :: "import_kind \<Rightarrow> string \<Rightarrow> json \<Rightarrow> string list" where
  "legacy_import_warning kind path document =
     (if kind = Mcporter
         \<and> (case Option.bind (vget ''imports'' document) as_array of Some vs \<Rightarrow> vs \<noteq> [] | None \<Rightarrow> False)
      then [path @ '' has legacy imports; import those sources explicitly.''] else [])"

definition source_document :: "import_system \<Rightarrow> import_kind \<Rightarrow> string \<Rightarrow> string \<Rightarrow> string + json" where
  "source_document sys kind path contents =
     (if is_toml kind
      then ok_or (''Invalid TOML in import source '' @ path) (is_toml_parser sys contents)
      else json_document sys path contents)"

definition read_into ::
  "(json \<Rightarrow> string) \<Rightarrow> import_system \<Rightarrow> import_kind \<Rightarrow> string \<Rightarrow> bool \<Rightarrow> bool \<Rightarrow> string \<Rightarrow> import_batch
     \<Rightarrow> string + import_batch" where
  "read_into ser sys kind project optional replace path batch =
     res_bind (read_text sys path optional) (\<lambda>contents.
     case contents of
       None \<Rightarrow> Inr batch
     | Some contents \<Rightarrow>
         res_bind (absolute (is_files sys) path) (\<lambda>path.
         res_bind (source_document sys kind path contents) (\<lambda>document.
         res_bind (ok_or (''Import source '' @ path @ '' must be an object'') (as_object document)) (\<lambda>m.
         res_bind (container_entries path (import_containers kind) m []) (\<lambda>entries.
         insert_entries ser sys kind path project replace (obj_extend entries (bare_entries kind m))
           (batch\<lparr>ib_warnings := ib_warnings batch @ legacy_import_warning kind path document\<rparr>))))))"

text \<open>The files of a list are read in turn into the same batch.\<close>

fun read_each ::
  "(string \<Rightarrow> import_batch \<Rightarrow> string + import_batch) \<Rightarrow> string list \<Rightarrow> import_batch \<Rightarrow> string + import_batch" where
  "read_each read [] batch = Inr batch"
| "read_each read (path # paths) batch = res_bind (read path batch) (read_each read paths)"

definition path_under :: "string \<Rightarrow> string list \<Rightarrow> string" where
  "path_under directory names = fold (\<lambda>name path. path_join path name) names directory"

definition empty_batch :: "string list \<Rightarrow> import_batch" where
  "empty_batch requested = \<lparr>ib_servers = [], ib_warnings = [], ib_requested = requested\<rparr>"

fun merge_project ::
  "bool \<Rightarrow> (string \<times> imported_server) list \<Rightarrow> import_batch \<Rightarrow> string + import_batch" where
  "merge_project replace [] batch = Inr batch"
| "merge_project replace ((name, server) # servers) batch =
     (if \<not> replace \<and> is_some (bt_get name (ib_servers batch))
      then Inl (''Duplicate project server '' @ quoted name @ ''; import each source separately'')
      else merge_project replace servers (batch\<lparr>ib_servers := bt_insert name server (ib_servers batch)\<rparr>))"

definition read_claude_project ::
  "(json \<Rightarrow> string) \<Rightarrow> import_system \<Rightarrow> string \<Rightarrow> bool \<Rightarrow> import_batch \<Rightarrow> string + import_batch" where
  "read_claude_project ser sys project replace batch =
     res_bind
       (read_each (read_into ser sys Claude project True True)
         [path_under project [''.claude'', ''mcp.json''], path_under project [''.claude'', ''settings.json''],
          path_under project [''.mcp.json''], path_under project [''.claude'', ''settings.local.json'']]
         (empty_batch (ib_requested batch))) (\<lambda>claude.
     res_bind (merge_project replace (ib_servers claude) batch) (\<lambda>batch.
     Inr (batch\<lparr>ib_warnings := ib_warnings batch @ ib_warnings claude\<rparr>)))"

text \<open>The servers that Claude keeps for this project in the user's file.\<close>

fun local_entries ::
  "(json \<Rightarrow> string) \<Rightarrow> import_system \<Rightarrow> string \<Rightarrow> string \<Rightarrow> obj \<Rightarrow> import_batch \<Rightarrow> string + import_batch" where
  "local_entries ser sys path project [] batch = Inr batch"
| "local_entries ser sys path project ((directory, settings) # projects) batch =
     res_bind (absolute (is_files sys) directory) (\<lambda>directory.
     if path_components directory \<noteq> path_components project
     then local_entries ser sys path project projects batch
     else
       (case vget ''mcpServers'' settings of
          None \<Rightarrow> local_entries ser sys path project projects batch
        | Some v \<Rightarrow>
            res_bind (ok_or ''Claude project mcpServers must be an object'' (as_object v)) (\<lambda>entries.
            res_bind (insert_entries ser sys Claude path project True entries batch)
              (local_entries ser sys path project projects))))"

definition read_claude_local ::
  "(json \<Rightarrow> string) \<Rightarrow> import_system \<Rightarrow> string \<Rightarrow> string \<Rightarrow> import_batch \<Rightarrow> string + import_batch" where
  "read_claude_local ser sys path project batch =
     res_bind (read_text sys path True) (\<lambda>contents.
     case contents of
       None \<Rightarrow> Inr batch
     | Some contents \<Rightarrow>
         res_bind (json_document sys path contents) (\<lambda>document.
         case Option.bind (vget ''projects'' document) as_object of
           None \<Rightarrow> Inr batch
         | Some projects \<Rightarrow>
             res_bind (absolute (is_files sys) project) (\<lambda>project.
             local_entries ser sys path project projects batch)))"

subsection \<open>The sources of a kind\<close>

text \<open>Paths are equal when their components are; the first of equal paths stays.\<close>

fun distinct_paths :: "string list list \<Rightarrow> string list \<Rightarrow> string list" where
  "distinct_paths seen [] = []"
| "distinct_paths seen (p # ps) =
     (if path_components p \<in> set seen then distinct_paths seen ps
      else p # distinct_paths (path_components p # seen) ps)"

definition xdg_directory :: "import_system \<Rightarrow> string \<Rightarrow> string" where
  "xdg_directory sys home =
     (case fs_variable (is_files sys) ''XDG_CONFIG_HOME'' of
        Some d \<Rightarrow> d | None \<Rightarrow> path_under home [''.config''])"

definition app_data_directory :: "import_system \<Rightarrow> string \<Rightarrow> string" where
  "app_data_directory sys home =
     (case fs_variable (is_files sys) ''APPDATA'' of
        Some d \<Rightarrow> d | None \<Rightarrow> path_under home [''AppData'', ''Roaming''])"

definition from_variable :: "import_system \<Rightarrow> string \<Rightarrow> string list list \<Rightarrow> string list" where
  "from_variable sys name tails =
     (case fs_variable (is_files sys) name of None \<Rightarrow> [] | Some d \<Rightarrow> map (path_under d) tails)"

definition source_paths :: "import_system \<Rightarrow> import_kind \<Rightarrow> string \<Rightarrow> string \<Rightarrow> string list" where
  "source_paths sys kind project home =
     (let xdg = xdg_directory sys home; app_data = app_data_directory sys home in
      distinct_paths []
        (case kind of
           Cursor \<Rightarrow>
             [path_under project [''.cursor'', ''mcp.json''], path_under home [''.cursor'', ''mcp.json''],
              path_under app_data [''Cursor'', ''User'', ''mcp.json''],
              path_under home [''Library'', ''Application Support'', ''Cursor'', ''User'', ''mcp.json''],
              path_under xdg [''Cursor'', ''User'', ''mcp.json'']]
         | Windsurf \<Rightarrow>
             [path_under home [''.codeium'', ''windsurf'', ''mcp_config.json''],
              path_under home [''.codeium'', ''windsurf-next'', ''mcp_config.json''],
              path_under home [''.windsurf'', ''mcp_config.json''],
              path_under home [''.config'', ''.codeium'', ''windsurf'', ''mcp_config.json'']]
         | VsCode \<Rightarrow>
             [path_under project [''.vscode'', ''mcp.json''], path_under xdg [''Code'', ''User'', ''mcp.json''],
              path_under xdg [''Code - Insiders'', ''User'', ''mcp.json'']]
         | OpenCode \<Rightarrow>
             from_variable sys ''OPENCODE_CONFIG'' [[]]
             @ [path_under project [''opencode.jsonc''], path_under project [''opencode.json'']]
             @ from_variable sys ''OPENCODE_CONFIG_DIR'' [[''opencode.jsonc''], [''opencode.json'']]
             @ [path_under project [''.openai'', ''config.json'']]
             @ from_variable sys ''OPENAI_WORKDIR'' [[''.openai'', ''config.json'']]
             @ [path_under xdg [''openai'', ''config.json''],
                path_under xdg [''opencode'', ''opencode.jsonc''], path_under xdg [''opencode'', ''opencode.json'']]
         | _ \<Rightarrow> []))"

definition collect_claude ::
  "(json \<Rightarrow> string) \<Rightarrow> import_system \<Rightarrow> string \<Rightarrow> string \<Rightarrow> import_batch \<Rightarrow> string + import_batch" where
  "collect_claude ser sys project home batch =
     (let custom = fs_variable (is_files sys) ''CLAUDE_CONFIG_DIR'';
          user = path_under (case custom of Some d \<Rightarrow> d | None \<Rightarrow> home) [''.claude.json''];
          legacy = (case custom of Some d \<Rightarrow> d | None \<Rightarrow> path_under home [''.claude''])
      in
      res_bind (read_each (read_into ser sys Claude project True True)
        [path_under legacy [''mcp.json''], path_under legacy [''settings.json''], user] batch) (\<lambda>batch.
      res_bind (read_claude_project ser sys project True batch) (\<lambda>batch.
      read_claude_local ser sys user project batch)))"

definition collect_project ::
  "(json \<Rightarrow> string) \<Rightarrow> import_system \<Rightarrow> string \<Rightarrow> import_batch \<Rightarrow> string + import_batch" where
  "collect_project ser sys project batch =
     res_bind (read_claude_project ser sys project False batch) (\<lambda>batch.
     res_bind (read_into ser sys Codex project True False (path_under project [''.codex'', ''config.toml'']) batch) (\<lambda>batch.
     read_into ser sys Mcporter project True False (path_under project [''config'', ''mcporter.json'']) batch))"

definition collect_default ::
  "(json \<Rightarrow> string) \<Rightarrow> import_system \<Rightarrow> import_kind \<Rightarrow> string \<Rightarrow> string \<Rightarrow> import_batch \<Rightarrow> string + import_batch" where
  "collect_default ser sys kind project home batch =
     (let read = (\<lambda>kind. read_into ser sys kind project True True) in
      case kind of
        Claude \<Rightarrow> collect_claude ser sys project home batch
      | ClaudeDesktop \<Rightarrow>
          read_into ser sys Claude project False True
            (path_under home [''.config'', ''Claude'', ''claude_desktop_config.json'']) batch
      | Codex \<Rightarrow>
          read_each (read Codex)
            [path_under (case fs_variable (is_files sys) ''CODEX_HOME'' of
                           Some d \<Rightarrow> d | None \<Rightarrow> path_under home [''.codex'']) [''config.toml''],
             path_under project [''.codex'', ''config.toml'']] batch
      | Mcporter \<Rightarrow>
          read_each (read Mcporter)
            [path_under home [''.mcporter'', ''mcporter.json''], path_under project [''config'', ''mcporter.json'']] batch
      | Native \<Rightarrow>
          res_bind (ok_or ''Legacy config directory unavailable; use --from PATH'' (is_config_directory sys)) (\<lambda>d.
          read_into ser sys Native project False True (path_under d [''mcp-pool'', ''config.toml'']) batch)
      | ProjectSources \<Rightarrow> collect_project ser sys project batch
      | editor \<Rightarrow> read_each (read editor) (rev (source_paths sys editor project home)) batch)"

definition collect_explicit ::
  "(json \<Rightarrow> string) \<Rightarrow> import_system \<Rightarrow> import_kind \<Rightarrow> string \<Rightarrow> string \<Rightarrow> import_batch \<Rightarrow> string + import_batch" where
  "collect_explicit ser sys kind path project batch =
     res_bind (refuse (kind = ProjectSources) ''Use a named import source with --from PATH'') (\<lambda>_.
     res_bind (read_into ser sys (if kind = ClaudeDesktop then Claude else kind) project False True path batch) (\<lambda>batch.
     if kind = Claude then read_claude_local ser sys path project batch else Inr batch))"

definition import_collect ::
  "(json \<Rightarrow> string) \<Rightarrow> import_system \<Rightarrow> string \<Rightarrow> string option \<Rightarrow> string \<Rightarrow> string \<Rightarrow> string list
     \<Rightarrow> string + import_batch" where
  "import_collect ser sys source explicit project home names =
     res_bind (import_kind_parse source) (\<lambda>kind.
     res_bind
       (case explicit of
          Some path \<Rightarrow> collect_explicit ser sys kind path project (empty_batch names)
        | None \<Rightarrow> collect_default ser sys kind project home (empty_batch names)) (\<lambda>batch.
     if ib_servers batch = []
     then Inl (''No importable servers found for '' @ quoted (kind_name kind) @ ''; use --from PATH to select a config'')
     else Inr batch))"

subsection \<open>The first source of a name wins\<close>

text \<open>
  Reading a source over a batch overlays it: whether it succeeds and what it adds does not depend on
  the batch, and what it adds replaces what was there.
\<close>

definition overlay ::
  "(string \<Rightarrow> imported_server option) \<Rightarrow> string list \<Rightarrow> import_batch \<Rightarrow> import_batch \<Rightarrow> bool" where
  "overlay new warnings b r \<longleftrightarrow>
     ib_requested r = ib_requested b \<and> bt_wf (ib_servers r)
     \<and> (\<forall>n. bt_get n (ib_servers r) = (case new n of Some s \<Rightarrow> Some s | None \<Rightarrow> bt_get n (ib_servers b)))
     \<and> (\<forall>n. new n \<noteq> None \<longrightarrow> wanted b n)
     \<and> ib_warnings r = ib_warnings b @ warnings"

definition overlays :: "string list \<Rightarrow> (import_batch \<Rightarrow> string + import_batch) \<Rightarrow> bool" where
  "overlays requested f \<longleftrightarrow>
     (\<exists>e. \<forall>b. ib_requested b = requested \<and> bt_wf (ib_servers b) \<longrightarrow> f b = Inl e)
     \<or> (\<exists>new warnings. \<forall>b. ib_requested b = requested \<and> bt_wf (ib_servers b) \<longrightarrow>
          (\<exists>r. f b = Inr r \<and> overlay new warnings b r))"

lemma overlays_error: "(\<And>b. ib_requested b = requested \<Longrightarrow> f b = Inl e) \<Longrightarrow> overlays requested f"
  by (auto simp: overlays_def)

lemma overlays_Inr: "overlays requested Inr"
  by (auto simp: overlays_def overlay_def intro!: exI [of _ "\<lambda>_. None"] exI [of _ "[]"])

lemma overlay_trans:
  assumes "overlay new ws b r" and "overlay new' ws' r r'"
  shows "overlay (\<lambda>n. case new' n of Some s \<Rightarrow> Some s | None \<Rightarrow> new n) (ws @ ws') b r'"
  using assms by (auto simp: overlay_def wanted_def split: option.splits)

lemma overlays_bind:
  assumes "overlays requested f" and "overlays requested g"
  shows "overlays requested (\<lambda>b. res_bind (f b) g)"
proof -
  from assms(1) consider e where "\<forall>b. ib_requested b = requested \<and> bt_wf (ib_servers b) \<longrightarrow> f b = Inl e"
    | new ws where "\<forall>b. ib_requested b = requested \<and> bt_wf (ib_servers b) \<longrightarrow> (\<exists>r. f b = Inr r \<and> overlay new ws b r)"
    unfolding overlays_def by blast
  then show ?thesis
  proof cases
    case 1
    then show ?thesis unfolding overlays_def by (intro disjI1) auto
  next
    case f: 2
    from assms(2) consider e where "\<forall>b. ib_requested b = requested \<and> bt_wf (ib_servers b) \<longrightarrow> g b = Inl e"
      | new' ws' where "\<forall>b. ib_requested b = requested \<and> bt_wf (ib_servers b) \<longrightarrow> (\<exists>r. g b = Inr r \<and> overlay new' ws' b r)"
      unfolding overlays_def by blast
    then show ?thesis
    proof cases
      case 1
      with f have "res_bind (f b) g = Inl e" if "ib_requested b = requested" "bt_wf (ib_servers b)" for b
        using that by (fastforce simp: overlay_def)
      then show ?thesis unfolding overlays_def by (intro disjI1) blast
    next
      case g: 2
      have "\<exists>r. res_bind (f b) g = Inr r \<and> overlay (\<lambda>n. case new' n of Some s \<Rightarrow> Some s | None \<Rightarrow> new n) (ws @ ws') b r"
        if b: "ib_requested b = requested" "bt_wf (ib_servers b)" for b
      proof -
        from f b obtain r where r: "f b = Inr r" "overlay new ws b r" by blast
        with b have "ib_requested r = requested" "bt_wf (ib_servers r)" by (auto simp: overlay_def)
        with g obtain r' where "g r = Inr r'" "overlay new' ws' r r'" by blast
        with r show ?thesis by (auto intro: overlay_trans)
      qed
      then show ?thesis unfolding overlays_def by (intro disjI2) blast
    qed
  qed
qed

lemma overlays_cong:
  assumes "overlays requested f" and "\<And>b. ib_requested b = requested \<Longrightarrow> g b = f b"
  shows "overlays requested g"
  using assms by (auto simp: overlays_def)

lemma overlays_warn: "overlays requested (\<lambda>b. Inr (b\<lparr>ib_warnings := ib_warnings b @ ws\<rparr>))"
  unfolding overlays_def
  by (rule disjI2, rule exI [of _ "\<lambda>_. None"], rule exI [of _ ws]) (simp add: overlay_def)

lemma overlays_insert:
  assumes "requested = [] \<or> name \<in> set requested"
  shows "overlays requested (\<lambda>b. Inr (b\<lparr>ib_servers := bt_insert name server (ib_servers b)\<rparr>))"
  unfolding overlays_def
  using assms
  by (intro disjI2 exI [of _ "\<lambda>n. if n = name then Some server else None"] exI [of _ "[]"])
     (auto simp: overlay_def bt_get_insert bt_wf_insert wanted_def)

lemma overlays_insert_entries:
  "overlays requested (insert_entries ser sys kind source project True entries)"
proof (induction entries)
  case Nil
  show ?case by (rule overlays_cong [OF overlays_Inr]) simp
next
  case (Cons e entries)
  obtain name v where e: "e = (name, v)" by fastforce
  let ?rest = "insert_entries ser sys kind source project True entries"
  let ?imported = "with_context (''Server '' @ quoted name @ '' in '' @ source) (import_entry ser kind v name)"
  show ?case
  proof (cases "requested = [] \<or> name \<in> set requested")
    case False
    then show ?thesis by (intro overlays_cong [OF Cons.IH]) (simp add: e wanted_def)
  next
    case True
    then have wanted: "ib_requested b = requested \<Longrightarrow> wanted b name" for b by (auto simp: wanted_def)
    show ?thesis
    proof (cases "trim name = [] \<or> (\<exists>err. ?imported = Inl err)")
      case True
      then obtain err where "(if trim name = [] then Inl ''Import source contains an empty server name''
          else res_bind ?imported (\<lambda>_. Inr ())) = Inl err" by fastforce
      then show ?thesis
        by (intro overlays_error [of _ _ err]) (auto simp: e wanted res_bind_def split: if_splits sum.splits)
    next
      case False
      then obtain r ws where r: "?imported = Inr (r, ws)" by (cases ?imported) auto
      show ?thesis
      proof (cases r)
        case None
        show ?thesis
          by (rule overlays_cong [OF overlays_bind [OF overlays_warn [of requested ws] Cons.IH]])
             (use False r None in \<open>simp add: e wanted\<close>)
      next
        case (Some d)
        let ?moved = "res_bind (entry_base kind source project) (\<lambda>base. relocate sys d base source)"
        show ?thesis
        proof (cases ?moved)
          case (Inl err)
          then show ?thesis
            using False r Some
            by (intro overlays_error [of _ _ err])
               (auto simp: e wanted Let_def res_bind_Inl)
        next
          case (Inr d')
          then obtain base where base: "entry_base kind source project = Inr base" "relocate sys d base source = Inr d'"
            by (auto simp: res_bind_Inr)
          show ?thesis
            by (rule overlays_cong [OF overlays_bind [OF overlays_bind [OF overlays_warn [of requested ws]
                    overlays_insert [OF \<open>requested = [] \<or> name \<in> set requested\<close>, of "\<lparr>is_entry = d', is_source = source\<rparr>"]] Cons.IH]])
               (use False r Some base in \<open>simp add: e wanted Let_def split: option.splits\<close>)
        qed
      qed
    qed
  qed
qed

lemma overlays_read_into: "overlays requested (read_into ser sys kind project optional True path)"
proof -
  let ?result = "res_bind (read_text sys path optional) (\<lambda>contents.
    case contents of None \<Rightarrow> Inr None
    | Some contents \<Rightarrow>
        res_bind (absolute (is_files sys) path) (\<lambda>path.
        res_bind (source_document sys kind path contents) (\<lambda>document.
        res_bind (ok_or (''Import source '' @ path @ '' must be an object'') (as_object document)) (\<lambda>m.
        res_bind (container_entries path (import_containers kind) m []) (\<lambda>entries.
        Inr (Some (path, obj_extend entries (bare_entries kind m), legacy_import_warning kind path document)))))))"
  have eq: "read_into ser sys kind project optional True path b =
    res_bind ?result (\<lambda>r. case r of None \<Rightarrow> Inr b
      | Some (path, entries, ws) \<Rightarrow> insert_entries ser sys kind path project True entries
          (b\<lparr>ib_warnings := ib_warnings b @ ws\<rparr>))" for b
    by (simp add: read_into_def res_bind_def split: sum.splits option.splits)
  show ?thesis
  proof (cases ?result)
    case (Inl e)
    then show ?thesis by (intro overlays_error [of _ _ e]) (simp only: eq res_bind_simps)
  next
    case (Inr r)
    show ?thesis
    proof (cases r)
      case None
      show ?thesis by (rule overlays_cong [OF overlays_Inr]) (simp only: eq Inr None res_bind_simps option.case)
    next
      case (Some t)
      obtain p entries ws where t: "t = (p, entries, ws)" by (cases t)
      show ?thesis
        by (rule overlays_cong [OF overlays_bind [OF overlays_warn [of requested ws] overlays_insert_entries]])
           (simp only: eq Inr Some t res_bind_simps option.case prod.case)
    qed
  qed
qed

lemma overlays_read_each:
  "(\<And>p. overlays requested (read p)) \<Longrightarrow> overlays requested (read_each read paths)"
proof (induction paths)
  case Nil
  show ?case by (rule overlays_cong [OF overlays_Inr]) simp
next
  case (Cons p paths)
  from overlays_bind [OF Cons.prems Cons.IH [OF Cons.prems]] show ?case by (rule overlays_cong) simp
qed

text \<open>What a single source offers under a name.\<close>

definition offers :: "(string \<Rightarrow> import_batch \<Rightarrow> string + import_batch) \<Rightarrow> string list \<Rightarrow> string \<Rightarrow> string \<Rightarrow> imported_server option" where
  "offers read requested name path =
     (case read path (empty_batch requested) of Inl e \<Rightarrow> None | Inr r \<Rightarrow> bt_get name (ib_servers r))"

lemma offers_overlay:
  assumes "overlays requested (read p)" and "ib_requested b = requested" "bt_wf (ib_servers b)" and "read p b = Inr r"
  shows "bt_get n (ib_servers r) = (case offers read requested n p of Some s \<Rightarrow> Some s | None \<Rightarrow> bt_get n (ib_servers b))"
    and "ib_requested r = requested" and "bt_wf (ib_servers r)"
    and "\<forall>n. offers read requested n p \<noteq> None \<longrightarrow> requested = [] \<or> n \<in> set requested"
proof -
  have empty: "ib_requested (empty_batch requested) = requested" "bt_wf (ib_servers (empty_batch requested))"
    by (simp_all add: empty_batch_def)
  from assms obtain new ws where new: "\<forall>b. ib_requested b = requested \<and> bt_wf (ib_servers b) \<longrightarrow>
      (\<exists>r. read p b = Inr r \<and> overlay new ws b r)" unfolding overlays_def by fastforce
  with empty obtain r0 where "read p (empty_batch requested) = Inr r0" "overlay new ws (empty_batch requested) r0" by blast
  then have offers: "offers read requested n p = new n" for n
    by (auto simp: offers_def overlay_def empty_batch_def bt_get_def split: option.splits)
  from new assms(2-4) have o: "overlay new ws b r" by fastforce
  then show "bt_get n (ib_servers r) = (case offers read requested n p of Some s \<Rightarrow> Some s | None \<Rightarrow> bt_get n (ib_servers b))"
    and "ib_requested r = requested" "bt_wf (ib_servers r)"
    and "\<forall>n. offers read requested n p \<noteq> None \<longrightarrow> requested = [] \<or> n \<in> set requested"
    using assms(2) by (auto simp: overlay_def offers wanted_def)
qed

lemma read_each_offers:
  assumes "\<And>p. overlays requested (read p)"
  shows "read_each read paths b = Inr r \<Longrightarrow> ib_requested b = requested \<Longrightarrow> bt_wf (ib_servers b) \<Longrightarrow>
    bt_get n (ib_servers r)
      = (case find_map (offers read requested n) (rev paths) of Some s \<Rightarrow> Some s | None \<Rightarrow> bt_get n (ib_servers b))
    \<and> bt_wf (ib_servers r)
    \<and> (find_map (offers read requested n) (rev paths) \<noteq> None \<longrightarrow> requested = [] \<or> n \<in> set requested)"
proof (induction paths arbitrary: b)
  case Nil
  then show ?case by simp
next
  case (Cons p paths)
  have append: "find_map f (xs @ ys) = (case find_map f xs of Some s \<Rightarrow> Some s | None \<Rightarrow> find_map f ys)"
    for f :: "string \<Rightarrow> imported_server option" and xs ys by (induction xs) (auto split: option.splits)
  from Cons.prems(1) obtain c where c: "read p b = Inr c" "read_each read paths c = Inr r"
    by (auto simp: res_bind_Inr)
  note one = offers_overlay [where read = read and p = p, OF assms Cons.prems(2,3) c(1)]
  from Cons.IH [OF c(2) one(2,3)] one(1) [of n] one(4) show ?case
    by (auto simp: append split: option.splits)
qed

text \<open>C30: importing from an editor.  What is imported under a name is what the first of the editor's
  files that offers the name offers; every imported server was asked for, when names were given; and
  an import without any server is an error.\<close>

theorem first_source_wins:
  assumes "import_collect ser sys source None project home names = Inr batch"
    and "import_kind_parse source = Inr kind" and "is_editor kind"
  shows "ib_servers batch \<noteq> [] \<and> bt_wf (ib_servers batch)
    \<and> (\<forall>name. bt_get name (ib_servers batch)
         = find_map (offers (read_into ser sys kind project True True) names name) (source_paths sys kind project home))
    \<and> (\<forall>name. bt_get name (ib_servers batch) \<noteq> None \<longrightarrow> names = [] \<or> name \<in> set names)"
proof -
  let ?read = "read_into ser sys kind project True True"
  from assms have each: "read_each ?read (rev (source_paths sys kind project home)) (empty_batch names) = Inr batch"
    and ne: "ib_servers batch \<noteq> []"
    by (auto simp: import_collect_def collect_default_def is_editor_def res_bind_Inr split: if_splits)
  have "ib_requested (empty_batch names) = names" "bt_wf (ib_servers (empty_batch names))"
    by (simp_all add: empty_batch_def)
  note offered = read_each_offers [OF overlays_read_into each this]
  have "bt_get n (ib_servers (empty_batch names)) = None" for n by (simp add: empty_batch_def bt_get_def)
  with offered ne show ?thesis by (auto split: option.splits)
qed

text \<open>A system on which only the last of Windsurf's files exists.\<close>

definition one_source :: import_system where
  "one_source =
     \<lparr>is_config = sample_system\<lparr>cs_jsonc := (\<lambda>_. Inr (Some (JObject [(''servers'',
          JObject [(''docs'', JObject [(''url'', JString ''https://d'')])])])))\<rparr>,
      is_files = \<lparr>fs_variable = (\<lambda>_. None), fs_home = Some ''/h'', fs_current = Inr ''/p'', fs_absolute = Inr,
        fs_exists = (\<lambda>_. True), fs_is_dir = (\<lambda>_. True), fs_canonical = Inr, fs_metadata = (\<lambda>_. Absent)\<rparr>,
      is_text = (\<lambda>p. if p = ''/h/.windsurf/mcp_config.json'' then Readable 2 (Inr ''{}'') else NoSuchFile ''none''),
      is_toml_parser = (\<lambda>_. None), is_config_directory = None\<rparr>"

lemma one_source_paths:
  "source_paths one_source Windsurf ''/p'' ''/h'' =
     [''/h/.codeium/windsurf/mcp_config.json'', ''/h/.codeium/windsurf-next/mcp_config.json'',
      ''/h/.windsurf/mcp_config.json'', ''/h/.config/.codeium/windsurf/mcp_config.json'']"
  by code_simp

theorem first_source_wins_witness:
  "\<exists>batch. import_collect (\<lambda>_. []) one_source ''windsurf'' None ''/p'' ''/h'' [''docs''] = Inr batch
     \<and> map_option is_source (bt_get ''docs'' (ib_servers batch)) = Some ''/h/.windsurf/mcp_config.json''
     \<and> offers (read_into (\<lambda>_. []) one_source Windsurf ''/p'' True True) [''docs''] ''docs''
         ''/h/.codeium/windsurf/mcp_config.json'' = None"
proof -
  let ?read = "read_into (\<lambda>_. []) one_source Windsurf ''/p'' True True"
  have none: "?read p b = Inr b" if "p \<noteq> ''/h/.windsurf/mcp_config.json''" for p b
    using that by (simp add: read_into_def read_text_def one_source_def)
  have facts: "absolute (is_files one_source) ''/h/.windsurf/mcp_config.json'' = Inr ''/h/.windsurf/mcp_config.json''"
    "entry_base Windsurf ''/h/.windsurf/mcp_config.json'' ''/p'' = Inr ''/h/.windsurf''"
    "is_remote_entry [(''url'', JString ''https://d'')]" "trim ''docs'' = ''docs''"
    "normalize_text ''https://d'' = Inr ''https://d''" by code_simp+
  have entry: "import_entry (\<lambda>_. []) Windsurf (JObject [(''url'', JString ''https://d'')]) ''docs''
      = Inr (Some (JObject [(''url'', JString ''https://d'')]), [])"
    using facts(5)
    by (simp add: import_entry_def Let_def rename_field_def check_token_def obj_get_def is_editor_def editor_entry_def
        take_enabled_def editor_refusals_def first_present_def EDITOR_UNSUPPORTED_def credential_field_def
        CREDENTIAL_FRAGMENTS_def editor_renames_def editor_transport_def printed_scalars_def editor_command_def
        str_contains_def to_ascii_lower_def is_ascii_upper_def
        unsupported_auth_def refuse_def finish_entry_def masked_authorization_def check_transport_def)
  have "relocate one_source (JObject [(''url'', JString ''https://d'')]) ''/h/.windsurf'' ''/h/.windsurf/mcp_config.json''
      = Inr (JObject [(''url'', JString ''https://d'')])"
    using facts(3) by (simp add: relocate_def relocate_cache_def obj_get_def)
  then have one: "\<exists>r. ?read ''/h/.windsurf/mcp_config.json'' (empty_batch [''docs'']) = Inr r
      \<and> map_option is_source (bt_get ''docs'' (ib_servers r)) = Some ''/h/.windsurf/mcp_config.json''
      \<and> ib_servers r \<noteq> []"
    using facts entry
    by (simp add: read_into_def read_text_def MAX_SOURCE_BYTES_def source_document_def is_toml_def json_document_def
        one_source_def obj_get_def obj_or_insert_def bare_entries_def is_editor_def legacy_import_warning_def
        wanted_def empty_batch_def Let_def bt_get_def map_err_def)
  then obtain r where r: "?read ''/h/.windsurf/mcp_config.json'' (empty_batch [''docs'']) = Inr r"
    "map_option is_source (bt_get ''docs'' (ib_servers r)) = Some ''/h/.windsurf/mcp_config.json''"
    "ib_servers r \<noteq> []" by blast
  have kind: "import_kind_parse ''windsurf'' = Inr Windsurf" by (simp add: import_kind_parse_def)
  have "read_each ?read (rev (source_paths one_source Windsurf ''/p'' ''/h'')) (empty_batch [''docs'']) = Inr r"
    unfolding one_source_paths using none r(1) by simp
  then have collect: "import_collect (\<lambda>_. []) one_source ''windsurf'' None ''/p'' ''/h'' [''docs''] = Inr r"
    using kind r(3) by (simp add: import_collect_def collect_default_def)
  from first_source_wins [OF this kind] r(2)
  have "map_option is_source (find_map (offers ?read [''docs''] ''docs'') (source_paths one_source Windsurf ''/p'' ''/h''))
      = Some ''/h/.windsurf/mcp_config.json''" by (simp add: is_editor_def)
  moreover have "offers ?read [''docs''] ''docs'' ''/h/.codeium/windsurf/mcp_config.json'' = None"
    using none by (simp add: offers_def empty_batch_def bt_get_def)
  ultimately show ?thesis using collect r(2) by blast
qed

end
