(* ===== verification/Output.thy ===== *)
theory Output
  imports SchemaView Inputs ServerConfig
begin

text \<open>
  What a tool's result is shown as and the options a tool offers (\<open>src/tool_output.rs\<close>).  \<open>parse\<close>
  parses JSON text, \<open>ser\<close> prints a value on one line and \<open>pretty\<close> on several.
\<close>

type_synonym json_parser = "string \<Rightarrow> json option"

definition str_at :: "string \<Rightarrow> json \<Rightarrow> string option" where
  "str_at key v = Option.bind (vget key v) as_str"

definition result_failed :: "json \<Rightarrow> bool" where
  "result_failed result \<longleftrightarrow>
     Option.bind (vget ''isError'' result) as_bool = Some True
     \<or> (str_at ''jsonrpc'' result = Some ''2.0''
        \<and> (case vget ''error'' result of Some e \<Rightarrow> \<not> is_null e | None \<Rightarrow> False))"

subsection \<open>Collecting the content\<close>

record content =
  ct_found :: bool
  ct_structured :: "json option"
  ct_json :: "json list"
  ct_text :: "string list"
  ct_markdown :: "string list"

definition no_content :: content where
  "no_content = \<lparr>ct_found = False, ct_structured = None, ct_json = [], ct_text = [], ct_markdown = []\<rparr>"

definition unwrap_json :: "json \<Rightarrow> json" where
  "unwrap_json v =
     (case vget ''json'' v of
        Some j \<Rightarrow> j
      | None \<Rightarrow>
          (case v of
             JObject m \<Rightarrow>
               (if length m = 1 then (case obj_get ''data'' m of Some d \<Rightarrow> d | None \<Rightarrow> v) else v)
           | _ \<Rightarrow> v))"

definition structured_json :: "json_parser \<Rightarrow> json \<Rightarrow> json option" where
  "structured_json parse v =
     (case v of
        JString t \<Rightarrow> parse t
      | JObject m \<Rightarrow> Some (unwrap_json v)
      | JArray vs \<Rightarrow> Some (unwrap_json v)
      | _ \<Rightarrow> None)"

definition push_json :: "json option \<Rightarrow> content \<Rightarrow> content" where
  "push_json v c = (case v of Some j \<Rightarrow> c\<lparr>ct_json := ct_json c @ [j]\<rparr> | None \<Rightarrow> c)"

definition push_text :: "string \<Rightarrow> bool \<Rightarrow> content \<Rightarrow> content" where
  "push_text t markdown c =
     c\<lparr>ct_text := ct_text c @ [t], ct_markdown := ct_markdown c @ (if markdown then [t] else [])\<rparr>"

definition collect_resource :: "unicode \<Rightarrow> json_parser \<Rightarrow> json \<Rightarrow> content \<Rightarrow> content" where
  "collect_resource u parse resource c =
     (case str_at ''text'' resource of
        Some t \<Rightarrow>
          push_json (parse t)
            (push_text t
              (case str_at ''mimeType'' resource of
                 Some mime \<Rightarrow> str_contains ''markdown'' (str_to_lowercase u mime)
               | None \<Rightarrow> False) c)
      | None \<Rightarrow>
          if is_some (str_at ''blob'' resource)
          then push_text
                 (''[Binary resource: '' @ (case str_at ''uri'' resource of Some uri \<Rightarrow> uri | None \<Rightarrow> []) @ '']'') False c
          else c)"

definition collect_item :: "unicode \<Rightarrow> json_parser \<Rightarrow> json \<Rightarrow> content \<Rightarrow> content" where
  "collect_item u parse item c =
     (let kind = str_at ''type'' item in
      if kind = Some ''resource'' then
        (case vget ''resource'' item of Some resource \<Rightarrow> collect_resource u parse resource c | None \<Rightarrow> c)
      else if kind = Some ''text'' \<or> kind = Some ''markdown'' then
        (case str_at ''text'' item of
           Some t \<Rightarrow> push_json (parse t) (push_text t (kind = Some ''markdown'') c)
         | None \<Rightarrow> c)
      else if kind = Some ''json'' then
        (if is_some (vget ''json'' item) \<or> is_some (vget ''data'' item)
         then push_json (Some (unwrap_json item)) c else c)
      else (case as_str item of Some t \<Rightarrow> push_json (parse t) c | None \<Rightarrow> c))"

definition structured_of :: "json \<Rightarrow> json option" where
  "structured_of result =
     (case vget ''structuredContent'' result of
        Some v \<Rightarrow> if is_null v then None else Some v
      | None \<Rightarrow> None)"

definition collect_here :: "unicode \<Rightarrow> json_parser \<Rightarrow> json \<Rightarrow> content \<Rightarrow> content" where
  "collect_here u parse result c =
     (let c = (if ct_structured c = None then c\<lparr>ct_structured := structured_of result\<rparr> else c) in
      case Option.bind (vget ''content'' result) as_array of
        Some items \<Rightarrow>
          if ct_found c then c else fold (collect_item u parse) items (c\<lparr>ct_found := True\<rparr>)
      | None \<Rightarrow> c)"

text \<open>\<open>levels\<close> counts the levels of nesting still to look at: \<open>2 - depth\<close>.\<close>

fun collect_envelope :: "unicode \<Rightarrow> json_parser \<Rightarrow> nat \<Rightarrow> json \<Rightarrow> content \<Rightarrow> content" where
  "collect_envelope u parse levels result c =
     (case levels of
        0 \<Rightarrow> collect_here u parse result c
      | Suc n \<Rightarrow>
          let c = collect_here u parse result c;
              c = (case vget ''raw'' result of Some v \<Rightarrow> collect_envelope u parse n v c | None \<Rightarrow> c)
          in case vget ''result'' result of Some v \<Rightarrow> collect_envelope u parse n v c | None \<Rightarrow> c)"

declare collect_envelope.simps [simp del]

subsection \<open>Rendering\<close>

definition lines_joined :: "string list \<Rightarrow> string" where
  "lines_joined ss = joined_with (CHR 0x0A) ss"

definition or_else :: "'a option \<Rightarrow> 'a option \<Rightarrow> 'a option" where
  "or_else a b = (case a of Some x \<Rightarrow> Some x | None \<Rightarrow> b)"

definition collected :: "unicode \<Rightarrow> json_parser \<Rightarrow> json \<Rightarrow> content" where
  "collected u parse result =
     fold (collect_resource u parse)
       (case Option.bind (vget ''contents'' result) as_array of Some rs \<Rightarrow> rs | None \<Rightarrow> [])
       (collect_envelope u parse 2 result no_content)"

definition content_markdown :: "content \<Rightarrow> string option" where
  "content_markdown c =
     or_else (Option.bind (ct_structured c) (str_at ''markdown''))
       (if ct_markdown c \<noteq> [] then Some (lines_joined (ct_markdown c)) else None)"

definition content_text :: "json \<Rightarrow> content \<Rightarrow> string option" where
  "content_text result c =
     (if is_string result then as_str result
      else if ct_text c \<noteq> [] then Some (lines_joined (ct_text c))
      else Option.bind (ct_structured c) (\<lambda>v. or_else (as_str v) (str_at ''text'' v)))"

definition content_json :: "json_parser \<Rightarrow> json \<Rightarrow> content \<Rightarrow> json option" where
  "content_json parse result c =
     or_else (Option.bind (ct_structured c) (structured_json parse))
    (or_else
       (case ct_json c of [] \<Rightarrow> None | [j] \<Rightarrow> Some j | js \<Rightarrow> Some (JArray js))
    (or_else (Option.bind (as_str result) parse)
    (or_else (Option.bind (content_text result c) parse)
             (Option.bind (content_markdown c) parse))))"

definition extracted_text :: "output_mode \<Rightarrow> json option \<Rightarrow> string option \<Rightarrow> string option \<Rightarrow> string option" where
  "extracted_text mode j t markdown =
     (case mode of
        TextOutput \<Rightarrow> or_else t markdown
      | MarkdownOutput \<Rightarrow> or_else markdown t
      | AutoOutput \<Rightarrow> if j = None then or_else markdown t else None
      | _ \<Rightarrow> None)"

definition render :: "unicode \<Rightarrow> json_parser \<Rightarrow> (json \<Rightarrow> string) \<Rightarrow> json \<Rightarrow> output_mode \<Rightarrow> string" where
  "render u parse pretty result mode =
     (if mode = RawOutput then pretty result
      else
        let c = collected u parse result; j = content_json parse result c
        in case extracted_text mode j (content_text result c) (content_markdown c) of
             Some t \<Rightarrow> t
           | None \<Rightarrow> pretty (case j of Some v \<Rightarrow> v | None \<Rightarrow> result))"

subsection \<open>The options of a tool\<close>

definition enum_values :: "string \<Rightarrow> json \<Rightarrow> string list" where
  "enum_values kind descriptor =
     (case Option.bind
             (or_else (vget ''enum'' descriptor)
               (if kind = ''array'' then Option.bind (vget ''items'' descriptor) (vget ''enum'') else None))
             as_array of
        None \<Rightarrow> []
      | Some vs \<Rightarrow> List.map_filter as_str vs)"

definition angled :: "string \<Rightarrow> string \<Rightarrow> string" where
  "angled name rest = ''<'' @ name @ rest @ ''>''"

definition placeholder :: "string \<Rightarrow> string \<Rightarrow> string list \<Rightarrow> json \<Rightarrow> string" where
  "placeholder cli_name kind enum descriptor =
     (if enum \<noteq> []
      then angled cli_name ('':'' @ joined_with (CHR ''|'') enum @ (if kind = ''array'' then '',...'' else []))
      else if kind = ''number'' then angled cli_name '':number''
      else if kind = ''boolean'' then angled cli_name '':true|false''
      else if kind = ''array'' then angled cli_name '':value1,value2''
      else if kind = ''object'' then angled cli_name '':json''
      else (case str_at ''format'' descriptor of
              None \<Rightarrow> angled cli_name []
            | Some format \<Rightarrow> angled cli_name ('':'' @ format)))"

fun split_words :: "string \<Rightarrow> string list" where
  "split_words [] = [[]]"
| "split_words (c # s) =
     (if c = CHR ''_'' \<or> c = CHR ''-'' then [] # split_words s
      else (case split_words s of [] \<Rightarrow> [[c]] | w # ws \<Rightarrow> (c # w) # ws))"

definition capitalized :: "unicode \<Rightarrow> string \<Rightarrow> string" where
  "capitalized u word =
     (case chars word of [] \<Rightarrow> [] | c # cs \<Rightarrow> char_to_uppercase u c @ concat cs)"

definition format_hint :: "unicode \<Rightarrow> string \<Rightarrow> string" where
  "format_hint u format =
     (if format = ''date-time'' \<or> format = ''iso-8601'' then ''ISO 8601''
      else if format = ''uuid'' then ''UUID''
      else joined_with (CHR '' '') (map (capitalized u) (split_words format)))"

definition strict_booleans :: "json option \<Rightarrow> bool" where
  "strict_booleans types =
     (case types of
        None \<Rightarrow> False
      | Some v \<Rightarrow>
          as_str v = Some ''boolean''
          \<or> (case as_array v of
               None \<Rightarrow> False
             | Some ks \<Rightarrow> ks \<noteq> [] \<and> list_all (\<lambda>k. as_str k = Some ''boolean'') ks))"

definition default_example :: "string \<Rightarrow> string \<Rightarrow> string \<Rightarrow> string option" where
  "default_example property kind item_kind =
     (if kind = ''number'' then Some ''1''
      else if kind = ''boolean'' then Some ''true''
      else if kind = ''object'' then Some ''{\"key\":\"value\"}''
      else if kind = ''array'' then
        Some (if item_kind = ''number'' then ''1,2''
              else if item_kind = ''boolean'' then ''true,false''
              else if item_kind = ''object'' then ''[{\"key\":\"value\"}]''
              else ''value1,value2'')
      else if str_contains ''path'' (to_ascii_lower property) then Some ''/path/to/file.md''
      else if str_contains ''id'' (to_ascii_lower property) then Some ''example-id''
      else None)"

definition example_value ::
  "(json \<Rightarrow> string) \<Rightarrow> string \<Rightarrow> string \<Rightarrow> string \<Rightarrow> string list \<Rightarrow> json \<Rightarrow> string option" where
  "example_value ser property kind item_kind enum descriptor =
     or_else (case enum of v # _ \<Rightarrow> Some v | [] \<Rightarrow> None)
       (or_else
         (map_option (\<lambda>v. case as_str v of Some s \<Rightarrow> s | None \<Rightarrow> ser v) (vget ''default'' descriptor))
         (default_example property kind item_kind))"

definition insert_option :: "string \<Rightarrow> json option \<Rightarrow> obj \<Rightarrow> obj" where
  "insert_option key v m = (case v of Some x \<Rightarrow> obj_insert key x m | None \<Rightarrow> m)"

definition tool_option :: "unicode \<Rightarrow> (json \<Rightarrow> string) \<Rightarrow> schema_view \<Rightarrow> string \<times> json \<Rightarrow> obj" where
  "tool_option u ser view e =
     (case e of (property, descriptor) \<Rightarrow>
        let kind = projection_type (vget ''type'' descriptor);
            cli_name = kebab u property;
            enum = enum_values kind descriptor;
            item_types = Option.bind (vget ''items'' descriptor) (vget ''type'');
            item_kind = projection_type item_types;
            m = [(''property'', JString property), (''cliName'', JString cli_name),
                 (''required'', JBool (view_required view property)), (''type'', JString kind),
                 (''placeholder'', JString (placeholder cli_name kind enum descriptor))];
            m = insert_option ''description'' (vget ''description'' descriptor) m;
            m = insert_option ''defaultValue'' (vget ''default'' descriptor) m;
            m = insert_option ''enumValues'' (if enum \<noteq> [] then Some (JArray (map JString enum)) else None) m;
            m = insert_option ''formatHint''
                  (map_option (\<lambda>f. JString (format_hint u f)) (str_at ''format'' descriptor)) m;
            m = (if kind = ''array''
                 then obj_insert ''strictBooleanArray'' (JBool (strict_booleans item_types))
                        (obj_insert ''arrayItemType'' (JString item_kind) m)
                 else m)
        in insert_option ''exampleValue''
             (map_option JString (example_value ser property kind item_kind enum descriptor)) m)"

definition tool_schema_options :: "unicode \<Rightarrow> (json \<Rightarrow> string) \<Rightarrow> json \<Rightarrow> json list" where
  "tool_schema_options u ser tool =
     (case vget ''inputSchema'' tool of
        None \<Rightarrow> []
      | Some schema \<Rightarrow>
          let view = schema_view_new u schema
          in map (\<lambda>e. JObject (tool_option u ser view e)) (view_properties view))"

subsection \<open>Which content is shown\<close>

text \<open>The envelopes of a result, outermost first: the result and what it has under \<open>raw\<close> and \<open>result\<close>.\<close>

fun envelopes :: "nat \<Rightarrow> json \<Rightarrow> json list" where
  "envelopes 0 v = [v]"
| "envelopes (Suc n) v =
     v # (case vget ''raw'' v of Some w \<Rightarrow> envelopes n w | None \<Rightarrow> [])
       @ (case vget ''result'' v of Some w \<Rightarrow> envelopes n w | None \<Rightarrow> [])"

lemma collect_envelope_fold:
  "collect_envelope u parse n v c = fold (collect_here u parse) (envelopes n v) c"
proof (induction n arbitrary: v c)
  case 0
  show ?case by (simp add: collect_envelope.simps)
next
  case (Suc n)
  show ?case
    by (subst collect_envelope.simps) (auto simp: Suc.IH Let_def split: option.splits)
qed

text \<open>The content list of an envelope, and what is collected from it.\<close>

definition content_items :: "json \<Rightarrow> json list option" where
  "content_items v = Option.bind (vget ''content'' v) as_array"

type_synonym shown = "json list \<times> string list \<times> string list"

definition shown :: "content \<Rightarrow> shown" where
  "shown c = (ct_json c, ct_text c, ct_markdown c)"

definition items_shown :: "unicode \<Rightarrow> json_parser \<Rightarrow> json list \<Rightarrow> shown" where
  "items_shown u parse items = shown (fold (collect_item u parse) items no_content)"

lemma push_frame [simp]:
  "ct_structured (push_json v c) = ct_structured c" "ct_found (push_json v c) = ct_found c"
  "ct_structured (push_text t b c) = ct_structured c" "ct_found (push_text t b c) = ct_found c"
  by (simp_all add: push_json_def push_text_def split: option.split)

lemma shown_push [simp]:
  "shown (push_json v c) = (case shown c of (js, ts, ms) \<Rightarrow> (case v of None \<Rightarrow> (js, ts, ms) | Some j \<Rightarrow> (js @ [j], ts, ms)))"
  "shown (push_text t b c) = (case shown c of (js, ts, ms) \<Rightarrow> (js, ts @ [t], ms @ (if b then [t] else [])))"
  "shown (c\<lparr>ct_structured := s\<rparr>) = shown c" "shown (c\<lparr>ct_found := f\<rparr>) = shown c"
  by (simp_all add: push_json_def push_text_def shown_def split: option.split)

lemma collect_resource_frame [simp]:
  "ct_structured (collect_resource u parse r c) = ct_structured c"
  "ct_found (collect_resource u parse r c) = ct_found c"
  by (cases "str_at ''text'' r"; simp add: collect_resource_def)+

lemma collect_resource_shown:
  "shown c = shown d \<Longrightarrow> shown (collect_resource u parse r c) = shown (collect_resource u parse r d)"
  by (cases "str_at ''text'' r"; simp add: collect_resource_def)

lemma collect_item_frame:
  "ct_structured (collect_item u parse i c) = ct_structured c"
  "ct_found (collect_item u parse i c) = ct_found c"
  by (simp_all add: collect_item_def Let_def split: option.split)

lemma collect_item_shown:
  assumes "shown c = shown d"
  shows "shown (collect_item u parse i c) = shown (collect_item u parse i d)"
  using collect_resource_shown [OF assms] assms
  by (simp add: collect_item_def Let_def split: option.split)

lemma collect_items_frame:
  "ct_structured (fold (collect_item u parse) items c) = ct_structured c"
  "ct_found (fold (collect_item u parse) items c) = ct_found c"
  by (induction items arbitrary: c) (simp_all add: collect_item_frame)

lemma collect_items_shown:
  "shown c = shown d \<Longrightarrow> shown (fold (collect_item u parse) items c) = shown (fold (collect_item u parse) items d)"
proof (induction items arbitrary: c d)
  case (Cons i items)
  from Cons.IH [OF collect_item_shown [OF Cons.prems]] show ?case by simp
qed simp

lemma collect_here_frame:
  "ct_structured (collect_here u parse v c) = or_else (ct_structured c) (structured_of v)"
  "ct_found (collect_here u parse v c) \<longleftrightarrow> ct_found c \<or> content_items v \<noteq> None"
  "ct_found c \<Longrightarrow> shown (collect_here u parse v c) = shown c"
  "\<not> ct_found c \<Longrightarrow> shown c = shown no_content \<Longrightarrow>
     shown (collect_here u parse v c)
       = (case content_items v of Some items \<Rightarrow> items_shown u parse items | None \<Rightarrow> shown no_content)"
  by (cases "content_items v";
      simp add: collect_here_def content_items_def collect_items_frame or_else_def items_shown_def Let_def
        split: option.split;
      intro conjI impI collect_items_shown; simp)+

lemma collect_envelopes:
  "ct_structured (fold (collect_here u parse) vs c) = or_else (ct_structured c) (find_map structured_of vs)"
  "ct_found c \<Longrightarrow> shown (fold (collect_here u parse) vs c) = shown c"
  "\<not> ct_found c \<Longrightarrow> shown c = shown no_content \<Longrightarrow>
     shown (fold (collect_here u parse) vs c)
       = (case find_map content_items vs of Some items \<Rightarrow> items_shown u parse items | None \<Rightarrow> shown no_content)"
proof -
  show "ct_structured (fold (collect_here u parse) vs c) = or_else (ct_structured c) (find_map structured_of vs)"
    by (induction vs arbitrary: c) (auto simp: collect_here_frame or_else_def split: option.splits)
  show found: "ct_found c \<Longrightarrow> shown (fold (collect_here u parse) vs c) = shown c" for vs c
    by (induction vs arbitrary: c) (auto simp: collect_here_frame)
  show "\<not> ct_found c \<Longrightarrow> shown c = shown no_content \<Longrightarrow>
     shown (fold (collect_here u parse) vs c)
       = (case find_map content_items vs of Some items \<Rightarrow> items_shown u parse items | None \<Rightarrow> shown no_content)"
  proof (induction vs arbitrary: c)
    case (Cons v vs)
    then show ?case
      by (cases "content_items v") (simp_all add: collect_here_frame found)
  qed simp
qed



end
