(* ===== verification/CommandLine.thy ===== *)
theory CommandLine
  imports Arguments ConfigPaths
begin

text \<open>
  The command line as a whole: the options that may stand before or after any command
  (\<open>src/cli_syntax.rs\<close>), the context a command runs in (\<open>src/cli_context.rs\<close>), the routing of commands
  and the inference of a server or tool from the first word (\<open>src/cli_routing.rs\<close>, \<open>run\<close> of
  \<open>src/cli.rs\<close>, \<open>src/mcp_cli.rs\<close>).  Arguments are strings; the file system and the configuration are
  those of \<open>ConfigPaths\<close>.
\<close>

text \<open>\<open>slice::get\<close> of an index and of a range.\<close>

definition nth_option :: "nat \<Rightarrow> 'a list \<Rightarrow> 'a option" where
  "nth_option i xs = (if i < length xs then Some (xs ! i) else None)"

definition slice_option :: "nat \<Rightarrow> nat \<Rightarrow> 'a list \<Rightarrow> 'a list option" where
  "slice_option a b xs = (if a \<le> b \<and> b \<le> length xs then Some (take (b - a) (drop a xs)) else None)"

lemma nth_option_Some [simp]: "nth_option i xs = Some x \<longleftrightarrow> i < length xs \<and> xs ! i = x"
  by (auto simp: nth_option_def)

lemma nth_option_None [simp]: "nth_option i xs = None \<longleftrightarrow> length xs \<le> i"
  by (auto simp: nth_option_def)

subsection \<open>Program-wide options\<close>

datatype global_id = GConfig | GRoot | GDebug | GJson | GPlain | GNoColor | GLogLevel | GOauthTimeout

text \<open>The long name of each and whether it takes a value.\<close>

definition GLOBALS :: "(string \<times> global_id \<times> bool) list" where
  "GLOBALS =
     [(''config'', GConfig, True), (''root'', GRoot, True), (''debug'', GDebug, False), (''json'', GJson, False),
      (''plain'', GPlain, False), (''no-color'', GNoColor, False), (''log-level'', GLogLevel, True),
      (''oauth-timeout'', GOauthTimeout, True)]"

record global_argument =
  ga_id :: global_id
  ga_inline :: "string option"
  ga_width :: nat

fun global_name :: "global_id \<Rightarrow> string" where
  "global_name GConfig = ''config''"
| "global_name GRoot = ''root''"
| "global_name GDebug = ''debug''"
| "global_name GJson = ''json''"
| "global_name GPlain = ''plain''"
| "global_name GNoColor = ''no-color''"
| "global_name GLogLevel = ''log-level''"
| "global_name GOauthTimeout = ''oauth-timeout''"

definition global_value :: "global_argument \<Rightarrow> string option \<Rightarrow> string + string" where
  "global_value option following =
     ok_or (''Flag '' @ quoted (''--'' @ global_name (ga_id option)) @ '' requires a value'')
       (case ga_inline option of Some v \<Rightarrow> Some v | None \<Rightarrow> following)"

definition global_option :: "string \<Rightarrow> global_argument option" where
  "global_option argument =
     (case strip_prefix ''--'' argument of
        None \<Rightarrow> None
      | Some s \<Rightarrow>
          let (name, inline) = (case split_once ''='' s of Some (n, v) \<Rightarrow> (n, Some v) | None \<Rightarrow> (s, None))
          in case map_of GLOBALS name of
               None \<Rightarrow> None
             | Some (i, takes) \<Rightarrow>
                 if inline \<noteq> None \<and> \<not> takes then None
                 else Some \<lparr>ga_id = i, ga_inline = inline, ga_width = (if takes \<and> inline = None then 2 else 1)\<rparr>)"

lemma global_option_width: "global_option a = Some g \<Longrightarrow> ga_width g = 1 \<or> ga_width g = 2"
  by (auto simp: global_option_def Let_def split: option.splits prod.splits if_splits)

lemma global_option_dashes: "global_option a = Some g \<Longrightarrow> starts_with ''--'' a"
  by (auto simp: global_option_def strip_prefix_def split: option.splits if_splits)

function command_index_from :: "nat \<Rightarrow> string list \<Rightarrow> nat option" where
  "command_index_from index arguments =
     (case nth_option index arguments of
        None \<Rightarrow> None
      | Some argument \<Rightarrow>
          (case global_option argument of
             Some g \<Rightarrow> command_index_from (index + ga_width g) arguments
           | None \<Rightarrow> Some index))"
  by pat_completeness auto
termination
  by (relation "measure (\<lambda>(index, arguments). length arguments - index)") (auto dest: global_option_width)

declare command_index_from.simps [simp del]

definition command_index :: "string list \<Rightarrow> nat option" where
  "command_index arguments = command_index_from 0 arguments"

subsection \<open>The parts of a command line\<close>

record part =
  pt_position :: nat
  pt_argument :: string
  pt_global :: "global_argument option"
  pt_next :: "string option"

record command_syntax =
  cs_command :: "nat option"
  cs_literal :: "nat option"
  cs_parts :: "part list"
  cs_help :: bool
  cs_quiet :: bool

definition empty_syntax :: command_syntax where
  "empty_syntax = \<lparr>cs_command = None, cs_literal = None, cs_parts = [], cs_help = False, cs_quiet = False\<rparr>"

text \<open>The option at a place of the line; \<open>--json\<close> after the command belongs to the command.\<close>

definition global_at :: "bool \<Rightarrow> command_syntax \<Rightarrow> string \<Rightarrow> global_argument option" where
  "global_at literal parsed argument =
     (if literal then None
      else case global_option argument of
             None \<Rightarrow> None
           | Some g \<Rightarrow> if ga_id g \<noteq> GJson \<or> cs_command parsed = None then Some g else None)"

text \<open>What an argument says about the line: the command, a request for help or quiet.\<close>

definition syntax_note :: "bool \<Rightarrow> nat \<Rightarrow> string \<Rightarrow> command_syntax \<Rightarrow> command_syntax" where
  "syntax_note literal index argument parsed =
     (let global = global_at literal parsed argument;
          parsed = (if cs_command parsed = None \<and> global = None then parsed\<lparr>cs_command := Some index\<rparr>
                    else if \<not> literal \<and> global = None
                    then parsed\<lparr>cs_help := cs_help parsed \<or> argument \<in> {''--help'', ''-h''},
                                cs_quiet := cs_quiet parsed \<or> argument = ''--quiet''\<rparr>
                    else parsed)
      in if \<not> literal \<and> argument = ''--'' then parsed\<lparr>cs_literal := Some index\<rparr> else parsed)"

text \<open>After \<open>call\<close>, an option of the call takes the next argument whatever it is.\<close>

definition call_value_follows :: "string list \<Rightarrow> bool \<Rightarrow> command_syntax \<Rightarrow> global_argument option \<Rightarrow> string \<Rightarrow> bool" where
  "call_value_follows arguments literal parsed global argument \<longleftrightarrow>
     \<not> literal \<and> global = None
     \<and> Option.bind (cs_command parsed) (\<lambda>p. nth_option p arguments) = Some ''call'' \<and> takes_value argument"

definition add_part :: "part \<Rightarrow> command_syntax \<Rightarrow> command_syntax" where
  "add_part p parsed = parsed\<lparr>cs_parts := cs_parts parsed @ [p]\<rparr>"

lemma global_at_width: "global_at literal parsed a = Some g \<Longrightarrow> 0 < ga_width g"
  by (auto simp: global_at_def dest: global_option_width split: if_splits option.splits)

function syntax_from :: "string list \<Rightarrow> nat \<Rightarrow> bool \<Rightarrow> command_syntax \<Rightarrow> command_syntax" where
  "syntax_from arguments index literal parsed =
     (case nth_option index arguments of
        None \<Rightarrow> parsed
      | Some argument \<Rightarrow>
          let global = global_at literal parsed argument;
              noted = syntax_note literal index argument parsed;
              literal = (literal \<or> argument = ''--'');
              after = index + (case global of Some g \<Rightarrow> ga_width g | None \<Rightarrow> 1);
              value_follows = call_value_follows arguments literal noted global argument;
              parsed = add_part \<lparr>pt_position = index, pt_argument = argument, pt_global = global,
                                 pt_next = nth_option (index + 1) arguments\<rparr> noted
          in case (if value_follows then nth_option after arguments else None) of
               Some v \<Rightarrow>
                 syntax_from arguments (after + 1) literal
                   (add_part \<lparr>pt_position = after, pt_argument = v, pt_global = None, pt_next = None\<rparr> parsed)
             | None \<Rightarrow> syntax_from arguments after literal parsed)"
  by pat_completeness auto
termination
  by (relation "measure (\<lambda>(arguments, index, _, _). length arguments - index)")
    (auto split: option.splits if_splits dest: global_at_width)

declare syntax_from.simps [simp del]

definition parse_syntax :: "string list \<Rightarrow> command_syntax" where
  "parse_syntax arguments = syntax_from arguments 0 False empty_syntax"

subsection \<open>The context of a command\<close>

record context_options =
  co_path :: "string option"
  co_root :: "string option"
  co_command :: string
  co_arguments :: "string list"
  co_oauth_timeout :: "u64 option"
  co_plain :: bool
  co_help :: bool

record gathered =
  ga_path :: "string option"
  ga_root :: "string option"
  ga_timeout :: "u64 option"
  ga_level :: "string option"
  ga_json :: bool
  ga_plain :: bool
  ga_retained :: "string list"

definition nothing_gathered :: gathered where
  "nothing_gathered =
     \<lparr>ga_path = None, ga_root = None, ga_timeout = None, ga_level = None, ga_json = False, ga_plain = False,
      ga_retained = []\<rparr>"

definition retain :: "string \<Rightarrow> gathered \<Rightarrow> gathered" where
  "retain argument g = g\<lparr>ga_retained := ga_retained g @ [argument]\<rparr>"

text \<open>One part of the line: a program-wide option takes effect, anything else is retained.\<close>

definition gather :: "cli_system \<Rightarrow> string \<Rightarrow> nat \<Rightarrow> part \<Rightarrow> gathered \<Rightarrow> string + gathered" where
  "gather sys command command_position part g =
     (if pt_position part = command_position then Inr g
      else case pt_global part of
             None \<Rightarrow> Inr (retain (pt_argument part) g)
           | Some option \<Rightarrow>
               let v = global_value option (pt_next part) in
               (case ga_id option of
                  GConfig \<Rightarrow> res_bind v (\<lambda>v. Inr (g\<lparr>ga_path := Some v\<rparr>))
                | GRoot \<Rightarrow> res_bind v (\<lambda>v. Inr (g\<lparr>ga_root := Some v\<rparr>))
                | GLogLevel \<Rightarrow> res_bind v (\<lambda>v. Inr (g\<lparr>ga_level := Some v\<rparr>))
                | GOauthTimeout \<Rightarrow>
                    res_bind v (\<lambda>v. res_bind (positive_milliseconds sys v) (\<lambda>ms. Inr (g\<lparr>ga_timeout := Some ms\<rparr>)))
                | GDebug \<Rightarrow> Inr (g\<lparr>ga_level := Some ''debug''\<rparr>)
                | GNoColor \<Rightarrow>
                    Inr (if pt_position part < command_position \<and> command \<notin> {''list'', ''describe'', ''list-tools''}
                         then g else retain (pt_argument part) g)
                | GPlain \<Rightarrow> Inr (g\<lparr>ga_plain := True\<rparr>)
                | GJson \<Rightarrow> Inr (g\<lparr>ga_json := True\<rparr>)))"

fun gather_parts :: "cli_system \<Rightarrow> string \<Rightarrow> nat \<Rightarrow> part list \<Rightarrow> gathered \<Rightarrow> string + gathered" where
  "gather_parts sys command command_position [] g = Inr g"
| "gather_parts sys command command_position (part # parts) g =
     res_bind (gather sys command command_position part g) (gather_parts sys command command_position parts)"

text \<open>What a level switches: diagnostics and warnings; without a level both stay as they are.\<close>

definition LOG_LEVELS :: "string list" where
  "LOG_LEVELS = [''trace'', ''debug'', ''info'', ''warn'', ''error'', ''silent'']"

definition level_effect :: "string option \<Rightarrow> string + (bool \<times> bool) option" where
  "level_effect level =
     (case level of
        None \<Rightarrow> Inr None
      | Some l \<Rightarrow>
          if l \<notin> set LOG_LEVELS then Inl ''--log-level must be trace, debug, info, warn, error, or silent''
          else Inr (Some (l \<in> {''trace'', ''debug''}, l \<notin> {''error'', ''silent''})))"

definition resolve_paths ::
  "file_system \<Rightarrow> string option \<Rightarrow> string option \<Rightarrow> string + string option \<times> string option" where
  "resolve_paths fs path root =
     (case root of
        None \<Rightarrow> Inr (path, root)
      | Some directory \<Rightarrow>
          res_bind (absolute fs directory) (\<lambda>directory.
          if \<not> fs_is_dir fs directory then Inl ''--root must name an existing directory''
          else Inr (map_option (\<lambda>p. if path_absolute p then p else path_join directory p) path, Some directory)))"

definition with_leading_json :: "string \<Rightarrow> gathered \<Rightarrow> string list" where
  "with_leading_json command g =
     (if \<not> ga_json g then ga_retained g
      else if command = ''call'' then [''--output'', ''json''] @ ga_retained g
      else if command \<noteq> ''serve'' then ga_retained g @ [''--json''] else ga_retained g)"

definition context_parse ::
  "cli_system \<Rightarrow> file_system \<Rightarrow> command_syntax \<Rightarrow> string + context_options \<times> (bool \<times> bool) option" where
  "context_parse sys fs syntax =
     res_bind (ok_or ''Missing MCP command'' (cs_command syntax)) (\<lambda>position.
     res_bind (ok_or ''Missing MCP command''
        (map_option pt_argument (List.find (\<lambda>p. pt_position p = position) (cs_parts syntax)))) (\<lambda>command.
     res_bind (gather_parts sys command position (cs_parts syntax) nothing_gathered) (\<lambda>g.
     res_bind (level_effect (ga_level g)) (\<lambda>effect.
     res_bind (resolve_paths fs (ga_path g) (ga_root g)) (\<lambda>(path, root).
     Inr (\<lparr>co_path = path, co_root = root, co_command = command, co_arguments = with_leading_json command g,
            co_oauth_timeout = ga_timeout g, co_plain = ga_plain g, co_help = cs_help syntax\<rparr>, effect))))))"

fun path_options :: "part list \<Rightarrow> string option \<times> string option \<Rightarrow> string + string option \<times> string option" where
  "path_options [] paths = Inr paths"
| "path_options (part # parts) (path, root) =
     (case pt_global part of
        Some option \<Rightarrow>
          if ga_id option = GConfig then
            res_bind (global_value option (pt_next part)) (\<lambda>v. path_options parts (Some v, root))
          else if ga_id option = GRoot then
            res_bind (global_value option (pt_next part)) (\<lambda>v. path_options parts (path, Some v))
          else path_options parts (path, root)
      | None \<Rightarrow> path_options parts (path, root))"

definition global_paths :: "file_system \<Rightarrow> string list \<Rightarrow> string + string option \<times> string option" where
  "global_paths fs arguments =
     res_bind (path_options (cs_parts (parse_syntax arguments)) (None, None)) (\<lambda>(path, root).
     resolve_paths fs path root)"

text \<open>The wait budget: the command line, the environment, the configuration, the default.\<close>

definition environment_milliseconds :: "string \<Rightarrow> nat option" where
  "environment_milliseconds v =
     (if v = [] \<or> starts_with ''0'' v \<or> \<not> list_all is_ascii_digit v then None
      else case parse_unsigned (2 ^ 64 - 1) v of
             Some n \<Rightarrow> if 0 < n then Some n else None
           | None \<Rightarrow> None)"

definition wait_budget :: "nat option \<Rightarrow> string option \<Rightarrow> nat option \<Rightarrow> nat \<Rightarrow> nat" where
  "wait_budget override_ms environment configured fallback =
     (case override_ms of
        Some n \<Rightarrow> n
      | None \<Rightarrow>
          (case Option.bind environment environment_milliseconds of
             Some n \<Rightarrow> n
           | None \<Rightarrow> (case configured of Some n \<Rightarrow> n | None \<Rightarrow> fallback)))"

subsection \<open>Commands\<close>

definition TOP_LEVEL_ONLY :: "string list" where
  "TOP_LEVEL_ONLY = [''call'', ''resource'', ''auth'', ''vault'', ''config'', ''daemon'']"

definition NATIVE_COMMANDS :: "string list" where
  "NATIVE_COMMANDS =
     [''start'', ''stop'', ''restart'', ''status'', ''add'', ''remove'', ''proxy'', ''shutdown'']"

definition is_native_command :: "string \<Rightarrow> bool" where
  "is_native_command command \<longleftrightarrow> command \<in> set NATIVE_COMMANDS \<or> command = ''pool''"

definition is_mcp_command :: "string \<Rightarrow> bool" where
  "is_mcp_command command \<longleftrightarrow>
     command \<in> {''list'', ''describe'', ''list-tools'', ''call'', ''resource'', ''resources'', ''auth'', ''vault'',
                ''config'', ''import'', ''daemon'', ''serve''}"

definition command_at :: "string list \<Rightarrow> nat option \<Rightarrow> string option" where
  "command_at arguments position = Option.bind position (\<lambda>i. nth_option i arguments)"

definition handles :: "string list \<Rightarrow> bool" where
  "handles arguments \<longleftrightarrow>
     (case command_at arguments (command_index arguments) of Some c \<Rightarrow> is_mcp_command c | None \<Rightarrow> False)"

text \<open>\<open>help X\<close> becomes \<open>X --help\<close>, with the flag before a lone \<open>--\<close>.\<close>

definition rewrite_help :: "string list \<Rightarrow> nat \<Rightarrow> string list" where
  "rewrite_help arguments position =
     (if nth_option position arguments \<noteq> Some ''help'' then arguments
      else case nth_option (position + 1) arguments of
             Some target \<Rightarrow>
               if starts_with ''-'' target then take position arguments @ [''--help'']
               else
                 let tail = drop (position + 2) arguments;
                     place = (case cs_literal (parse_syntax tail) of Some p \<Rightarrow> p | None \<Rightarrow> length tail)
                 in take position arguments @ [target] @ take place tail @ [''--help''] @ drop place tail
           | None \<Rightarrow> take position arguments @ [''--help''])"

subsection \<open>The first word as a server or a tool\<close>

text \<open>The longest prefix of the selector, cut at a dot, that names a configured server.\<close>

fun longest_server :: "(string \<Rightarrow> bool) \<Rightarrow> string \<Rightarrow> string list \<Rightarrow> string \<Rightarrow> string option \<Rightarrow> string option" where
  "longest_server known selector [] before server = server"
| "longest_server known selector (segment # segments) before server =
     (let before = (if before = [] then [] else before @ ''.'') @ segment in
      longest_server known selector segments before
        (if before \<noteq> selector \<and> known before then Some before else server))"

definition split_configured_selector :: "(string \<Rightarrow> bool) \<Rightarrow> string \<Rightarrow> string + string \<times> string" where
  "split_configured_selector known selector =
     res_bind (ok_or (''unknown command or MCP server '' @ quoted selector)
        (longest_server known selector (split_on (CHR ''.'') selector) [] None)) (\<lambda>server.
     res_bind (ok_or ''Inferred MCP call is missing a tool name''
        (case strip_prefix (server @ ''.'') selector of
           Some tool \<Rightarrow> if tool \<noteq> [] then Some tool else None
         | None \<Rightarrow> None)) (\<lambda>tool.
     Inr (server, tool)))"

function first_positional_from :: "nat \<Rightarrow> string list \<Rightarrow> (nat \<times> bool) option" where
  "first_positional_from index arguments =
     (case nth_option index arguments of
        None \<Rightarrow> None
      | Some argument \<Rightarrow>
          if argument = ''--'' then (if index + 1 < length arguments then Some (index + 1, True) else None)
          else if \<not> starts_with ''-'' argument then Some (index, False)
          else if CHR ''='' \<notin> set argument
                  \<and> (takes_value argument
                     \<or> (case global_option argument of Some g \<Rightarrow> ga_width g = 2 | None \<Rightarrow> False))
          then first_positional_from (index + 2) arguments
          else first_positional_from (index + 1) arguments)"
  by pat_completeness auto
termination
  by (relation "measure (\<lambda>(index, arguments). length arguments - index)") auto

declare first_positional_from.simps [simp del]

definition first_positional :: "string list \<Rightarrow> (nat \<times> bool) option" where
  "first_positional arguments = first_positional_from 0 arguments"

text \<open>The arguments between the server and the tool: program-wide ones go before \<open>call\<close>.\<close>

definition movable_width :: "string \<Rightarrow> nat" where
  "movable_width argument =
     (case global_option argument of Some g \<Rightarrow> if ga_id g \<noteq> GJson then ga_width g else 0 | None \<Rightarrow> 0)"

function sort_between ::
  "string list \<Rightarrow> nat \<Rightarrow> nat \<Rightarrow> string list \<Rightarrow> string list \<Rightarrow> string + string list \<times> string list" where
  "sort_between arguments index tool_position global middle =
     (if \<not> index < tool_position then Inr (global, middle)
      else
        case nth_option index arguments of
          None \<Rightarrow> Inl ''missing inferred MCP server argument''
        | Some argument \<Rightarrow>
            let width = movable_width argument in
            if 0 < width then
              (case slice_option index (index + width) arguments of
                 None \<Rightarrow> Inl ''missing global argument value''
               | Some moved \<Rightarrow> sort_between arguments (index + width) tool_position (global @ moved) middle)
            else sort_between arguments (index + 1) tool_position global (middle @ [argument]))"
  by pat_completeness auto
termination
  by (relation "measure (\<lambda>(arguments, index, tool_position, _, _). tool_position - index)") auto

declare sort_between.simps [simp del]

definition tool_words :: "string \<Rightarrow> string list" where
  "tool_words tool = (if CHR ''('' \<in> set tool then [tool] else [''--tool'', tool])"

definition route_server_call :: "string list \<Rightarrow> nat \<Rightarrow> nat \<Rightarrow> string \<Rightarrow> string + string list" where
  "route_server_call arguments position tool_offset server =
     (let tool_position = position + 1 + tool_offset in
      res_bind (ok_or ''missing inferred MCP command prefix'' (slice_option 0 position arguments)) (\<lambda>before.
      res_bind (sort_between arguments (position + 1) tool_position [] []) (\<lambda>(global, middle).
      res_bind (ok_or ''missing inferred MCP tool'' (nth_option tool_position arguments)) (\<lambda>tool.
      let literal = (middle \<noteq> [] \<and> last middle = ''--'');
          middle = (if literal then butlast middle else middle)
      in Inr (before @ global @ [''call'', ''--server'', server] @ middle @ tool_words tool
               @ (if literal then [''--''] else []) @ drop (tool_position + 1) arguments)))))"

definition drop_at :: "nat \<Rightarrow> 'a list \<Rightarrow> 'a list" where
  "drop_at i xs = take i xs @ drop (Suc i) xs"

text \<open>\<open>infer\<close> once the configuration is there; \<open>remaining\<close> are the arguments after the first word.\<close>

definition infer_server :: "string list \<Rightarrow> nat \<Rightarrow> string \<Rightarrow> string + string list" where
  "infer_server arguments position command =
     (let remaining = drop (position + 1) arguments; before = take position arguments in
      case first_positional remaining of
        Some (index, literal) \<Rightarrow>
          if \<not> literal \<and> nth_option index remaining = Some ''list''
          then Inr (before @ [''list'', command] @ drop_at index remaining)
          else route_server_call arguments position index command
      | None \<Rightarrow> Inr (before @ [''list'', command] @ remaining))"

definition infer_selector :: "(string \<Rightarrow> bool) \<Rightarrow> string list \<Rightarrow> nat \<Rightarrow> string \<Rightarrow> string + string list" where
  "infer_selector known arguments position command =
     (let selector = (case split_once ''('' command of Some (s, _) \<Rightarrow> s | None \<Rightarrow> command) in
      res_bind (split_configured_selector known selector) (\<lambda>(server, tool).
      Inr (take position arguments @ [''call'', ''--server'', server]
            @ (let rest = drop (length selector) command in
               if rest \<noteq> [] then [tool @ rest] else [''--tool'', tool])
            @ drop (position + 1) arguments)))"

definition infer_with :: "(string \<Rightarrow> bool) \<Rightarrow> string list \<Rightarrow> nat \<Rightarrow> string \<Rightarrow> string + string list" where
  "infer_with known arguments position command =
     (if known command then infer_server arguments position command
      else infer_selector known arguments position command)"

definition infer ::
  "config_system \<Rightarrow> file_system \<Rightarrow> string list \<Rightarrow> nat \<Rightarrow> string option \<Rightarrow> string option \<Rightarrow> string + string list" where
  "infer csys fs arguments position path root =
     res_bind (ok_or ''Missing command or MCP server'' (nth_option position arguments)) (\<lambda>command.
     if is_mcp_command command \<or> is_native_command command \<or> starts_with ''-'' command
     then Inl (''Cannot infer routing for '' @ quoted command)
     else
       res_bind (with_context (''could not resolve command or MCP server '' @ quoted command)
         (load_configuration csys fs path root)) (\<lambda>configuration :: unit server_configuration.
       infer_with (\<lambda>name. is_some (bt_get name (sc_servers configuration))) arguments position command))"

subsection \<open>Routing\<close>

text \<open>
  What \<open>run\<close> does with the words of the command line, the first of which is the program: print the
  usage of \<open>pool list\<close>, run an MCP command, or hand the words to the native parser, that of the
  namespace \<open>pool\<close> or the general one.
\<close>

datatype route = PoolListUsage | McpCommand "string list" | NativeCommand bool "string list"

definition word_position :: "string list \<Rightarrow> nat option" where
  "word_position arguments = map_option Suc (command_index (drop 1 arguments))"

definition helped :: "string list \<Rightarrow> string list" where
  "helped arguments =
     (case word_position arguments of
        Some p \<Rightarrow> if nth_option p arguments = Some ''help'' then rewrite_help arguments p else arguments
      | None \<Rightarrow> arguments)"

definition native_word :: "string list \<Rightarrow> nat option \<Rightarrow> string option" where
  "native_word arguments position =
     (case position of
        None \<Rightarrow> None
      | Some p \<Rightarrow> let tail = drop (p + 1) arguments in command_at tail (command_index tail))"

definition route_words :: "config_system \<Rightarrow> file_system \<Rightarrow> string list \<Rightarrow> string + route" where
  "route_words csys fs words =
     (let arguments = helped words;
          position = word_position arguments;
          word = command_at arguments position;
          pool = (word = Some ''pool'')
      in
      if pool \<and> (case native_word arguments position of Some c \<Rightarrow> c \<in> set TOP_LEVEL_ONLY | None \<Rightarrow> False)
      then Inl ''MCP commands are top-level commands, not native pool commands''
      else if pool \<and> command_at arguments (map_option Suc position) = Some ''list''
              \<and> cs_help (parse_syntax (drop 1 arguments))
      then Inr PoolListUsage
      else if \<not> pool \<and> handles (drop 1 arguments) then Inr (McpCommand (drop 1 arguments))
      else if \<not> pool \<and> (case word of Some c \<Rightarrow> \<not> starts_with ''-'' c \<and> \<not> is_native_command c | None \<Rightarrow> False)
      then
        res_bind (global_paths fs (drop 1 arguments)) (\<lambda>(path, root).
        res_bind (infer csys fs (drop 1 arguments) (the position - 1) path root) (\<lambda>routed.
        Inr (McpCommand routed)))
      else
        Inr (NativeCommand pool
               (if pool then (case position of Some p \<Rightarrow> drop_at p arguments | None \<Rightarrow> arguments) else arguments)))"

text \<open>A discovery command with \<open>--quiet\<close> reports a failure by its exit status only.\<close>

definition quiet_discovery :: "string list \<Rightarrow> bool" where
  "quiet_discovery arguments \<longleftrightarrow>
     (let syntax = parse_syntax arguments in
      cs_quiet syntax
      \<and> (case command_at arguments (cs_command syntax) of
           Some c \<Rightarrow> c \<in> {''list'', ''describe'', ''list-tools''}
         | None \<Rightarrow> False))"

definition worker_threads :: "string list \<Rightarrow> bool \<Rightarrow> nat option" where
  "worker_threads arguments explicitly_configured =
     (if explicitly_configured then None
      else case command_at arguments (command_index arguments) of
             Some c \<Rightarrow> if c \<in> {''serve'', ''proxy'', ''pool'', ''daemon''} then None else Some 1
           | None \<Rightarrow> Some 1)"

subsection \<open>The longest configured server is taken\<close>

definition dot_prefix :: "string \<Rightarrow> string \<Rightarrow> bool" where
  "dot_prefix s selector \<longleftrightarrow> (\<exists>t. selector = s @ ''.'' @ t)"

definition dotted :: "string \<Rightarrow> string list \<Rightarrow> string" where
  "dotted before segments = before @ concat (map ((#) (CHR ''.'')) segments)"

lemma dotted_simps [simp]:
  "dotted before [] = before" "dotted before (x # xs) = dotted (before @ ''.'' @ x) xs"
  by (simp_all add: dotted_def)

lemma dotted_joined: "joined_with (CHR ''.'') (x # xs) = dotted x xs"
proof (induction xs arbitrary: x)
  case (Cons y ys)
  have "joined_with (CHR ''.'') (x # y # ys) = x @ ''.'' @ joined_with (CHR ''.'') (y # ys)" by simp
  also have "\<dots> = dotted x (y # ys)" unfolding Cons.IH by (simp add: dotted_def)
  finally show ?case .
qed simp

lemma joined_with_Cons: "joined_with c ((d # a) # xs) = d # joined_with c (a # xs)"
  by (cases xs) simp_all

lemma joined_split_on: "joined_with c (split_on c s) = s"
proof (induction c s rule: split_on.induct)
  case (2 c d s)
  then show ?case using split_on_nonempty [of c s] by (cases "split_on c s") (auto simp: joined_with_Cons)
qed simp

lemma dotted_nil: "dotted before segments = before \<longleftrightarrow> segments = []"
  by (cases segments) (auto simp: dotted_def)

lemma dot_prefix_dotted:
  assumes "CHR ''.'' \<notin> set x" and "length before < length s"
  shows "dot_prefix s (dotted (before @ ''.'' @ x) xs) \<longleftrightarrow>
     (s = before @ ''.'' @ x \<and> xs \<noteq> []) \<or> (length (before @ ''.'' @ x) < length s \<and> dot_prefix s (dotted (before @ ''.'' @ x) xs))"
proof -
  let ?b = "before @ ''.'' @ x"
  have "length ?b \<le> length s \<and> (length s = length ?b \<longrightarrow> s = ?b \<and> xs \<noteq> [])"
    if "dotted ?b xs = s @ ''.'' @ t" for t
  proof -
    from that have eq: "?b @ concat (map ((#) (CHR ''.'')) xs) = s @ ''.'' @ t" by (simp add: dotted_def)
    have "\<not> length s < length ?b"
    proof
      assume less: "length s < length ?b"
      have "(?b @ concat (map ((#) (CHR ''.'')) xs)) ! length s = CHR ''.''" unfolding eq by simp
      with less have "?b ! length s = CHR ''.''" by (simp only: nth_append if_True)
      with less assms(2) have "x ! (length s - length before - 1) = CHR ''.''"
        by (auto simp: nth_append nth_Cons' split: if_splits)
      moreover have "length s - length before - 1 < length x" using less assms(2) by simp
      ultimately show False using assms(1) by (metis nth_mem)
    qed
    moreover have "s = ?b \<and> xs \<noteq> []" if "length s = length ?b"
      using eq that by (metis append.right_neutral append_eq_append_conv append_is_Nil_conv concat.simps(1) list.map(1) not_Cons_self2)
    ultimately show ?thesis by simp
  qed
  moreover have "dot_prefix ?b (dotted ?b xs)" if "xs \<noteq> []"
    using that by (cases xs) (auto simp: dot_prefix_def dotted_def)
  ultimately show ?thesis by (auto simp: dot_prefix_def)
qed

text \<open>The result, given that the prefixes up to \<open>before\<close> gave \<open>server\<close>.\<close>

lemma longest_server_longest:
  assumes "before \<noteq> []" and "\<forall>x \<in> set segments. CHR ''.'' \<notin> set x"
    and "selector = dotted before segments"
    and "C = {s. known s \<and> length before < length s \<and> dot_prefix s selector}"
  shows "(C = {} \<longrightarrow> longest_server known selector segments before server = server)
    \<and> (\<forall>s \<in> C. (\<forall>s' \<in> C. length s' \<le> length s) \<longrightarrow> longest_server known selector segments before server = Some s)"
  using assms
proof (induction segments arbitrary: before server C)
  case Nil
  then show ?case by (auto simp: dot_prefix_def)
next
  case (Cons x xs)
  let ?b = "before @ ''.'' @ x"
  let ?C = "{s. known s \<and> length ?b < length s \<and> dot_prefix s selector}"
  have sel: "selector = dotted ?b xs" using Cons.prems(3) by simp
  have ne: "?b \<noteq> selector \<longleftrightarrow> xs \<noteq> []" using sel by (metis dotted_nil)
  let ?server = "if ?b \<noteq> selector \<and> known ?b then Some ?b else server"
  have step: "longest_server known selector (x # xs) before server = longest_server known selector xs ?b ?server"
    using Cons.prems(1) by (simp add: Let_def)
  note IH = Cons.IH [of ?b ?C ?server, OF _ _ sel refl]
  have C: "C = ?C \<union> (if ?b \<noteq> selector \<and> known ?b then {?b} else {})"
  proof -
    have dots: "CHR ''.'' \<notin> set x" using Cons.prems(2) by simp
    have self: "dot_prefix ?b selector \<longleftrightarrow> xs \<noteq> []"
      using dot_prefix_dotted [OF dots, of before ?b xs] sel by simp
    have "s \<in> C \<longleftrightarrow> s \<in> ?C \<or> (s = ?b \<and> xs \<noteq> [] \<and> known s)" for s
    proof (cases "length before < length s")
      case True
      from dot_prefix_dotted [OF dots this, of xs] show ?thesis
        unfolding sel [symmetric] Cons.prems(4) using True self by blast
    next
      case False
      then show ?thesis using Cons.prems(4) by auto
    qed
    then show ?thesis unfolding ne by auto
  qed
  have IH': "(?C = {} \<longrightarrow> longest_server known selector xs ?b ?server = ?server)
      \<and> (\<forall>s \<in> ?C. (\<forall>s' \<in> ?C. length s' \<le> length s) \<longrightarrow> longest_server known selector xs ?b ?server = Some s)"
    using IH Cons.prems(2) by simp
  show ?case unfolding step
  proof (intro conjI impI ballI)
    assume "C = {}"
    then show "longest_server known selector xs ?b ?server = server" using IH' C by (auto split: if_splits)
  next
    fix s assume s: "s \<in> C" "\<forall>s' \<in> C. length s' \<le> length s"
    show "longest_server known selector xs ?b ?server = Some s"
    proof (cases "s \<in> ?C")
      case True
      then show ?thesis using IH' s(2) C by blast
    next
      case False
      with s(1) C have "s = ?b" "?b \<noteq> selector \<and> known ?b" by (auto split: if_splits)
      moreover have "?C = {}"
      proof -
        have "?C \<subseteq> C" using C by blast
        then have "\<forall>s' \<in> ?C. length s' \<le> length ?b" using s(2) \<open>s = ?b\<close> by blast
        then show ?thesis by auto
      qed
      ultimately show ?thesis using IH' by simp
    qed
  qed
qed

lemma longest_exists:
  assumes "s \<in> C" and "\<forall>s \<in> C. length s \<le> n"
  shows "\<exists>s \<in> C. \<forall>s' \<in> C. length s' \<le> length (s :: 'a list)"
  using ex_has_greatest_nat [of "\<lambda>s. s \<in> C" s length "Suc n"] assms by (auto simp: less_Suc_eq_le)

definition longest_configured :: "(string \<Rightarrow> bool) \<Rightarrow> string \<Rightarrow> string \<Rightarrow> bool" where
  "longest_configured known selector s \<longleftrightarrow>
     known s \<and> dot_prefix s selector \<and> (\<forall>s'. known s' \<and> dot_prefix s' selector \<longrightarrow> length s' \<le> length s)"

lemma longest_server_split:
  assumes "selector = c # cs" and "c \<noteq> CHR ''.''"
  shows "longest_server known selector (split_on (CHR ''.'') selector) [] None = Some s
     \<longleftrightarrow> longest_configured known selector s"
proof -
  obtain x xs where split: "split_on (CHR ''.'') selector = x # xs"
    by (metis list.exhaust split_on_nonempty)
  have sel: "selector = dotted x xs" using joined_split_on [of "CHR ''.''" selector] dotted_joined split by metis
  have dots: "\<forall>y \<in> set (x # xs). CHR ''.'' \<notin> set y" using split split_on_parts by metis
  have x: "x \<noteq> []"
  proof
    assume "x = []"
    with sel assms show False by (cases xs) (auto simp: dotted_def)
  qed
  let ?server = "if x \<noteq> selector \<and> known x then Some x else None"
  let ?C = "{s. known s \<and> length x < length s \<and> dot_prefix s selector}"
  let ?D = "{s. known s \<and> dot_prefix s selector}"
  have step: "longest_server known selector (split_on (CHR ''.'') selector) [] None
      = longest_server known selector xs x ?server"
    unfolding split by (simp add: Let_def)
  have D: "?D = ?C \<union> (if x \<noteq> selector \<and> known x then {x} else {})"
  proof -
    have ne: "x \<noteq> selector \<longleftrightarrow> xs \<noteq> []" using sel by (metis dotted_nil)
    have short: "s = x" if "dot_prefix s selector" "\<not> length x < length s" for s
    proof -
      from that(1) obtain t where eq: "x @ concat (map ((#) (CHR ''.'')) xs) = s @ ''.'' @ t"
        by (auto simp: dot_prefix_def sel dotted_def)
      show ?thesis
      proof (cases "length s = length x")
        case True
        with eq show ?thesis by (metis append_eq_append_conv)
      next
        case False
        with that(2) have "length s < length x" by simp
        then have "x ! length s = CHR ''.''" using arg_cong [OF eq, of "\<lambda>l. l ! length s"] by (simp add: nth_append)
        with dots \<open>length s < length x\<close> show ?thesis by (metis list.set_intros(1) nth_mem)
      qed
    qed
    have "dot_prefix x selector \<longleftrightarrow> xs \<noteq> []"
      by (cases xs) (auto simp: dot_prefix_def sel dotted_def)
    then show ?thesis using short ne by auto
  qed
  note L = longest_server_longest [OF x _ sel refl, of known ?server, unfolded Ball_def]
  have result: "(?D = {} \<longrightarrow> longest_server known selector xs x ?server = None)
      \<and> (\<forall>s \<in> ?D. (\<forall>s' \<in> ?D. length s' \<le> length s) \<longrightarrow> longest_server known selector xs x ?server = Some s)"
  proof (intro conjI impI ballI)
    assume "?D = {}"
    then show "longest_server known selector xs x ?server = None" using L dots D by (auto split: if_splits)
  next
    fix s assume s: "s \<in> ?D" "\<forall>s' \<in> ?D. length s' \<le> length s"
    show "longest_server known selector xs x ?server = Some s"
    proof (cases "s \<in> ?C")
      case True
      then show ?thesis using L dots s(2) by auto
    next
      case False
      with s(1) D have "s = x" "x \<noteq> selector \<and> known x" by (auto split: if_splits)
      moreover have "?C = {}"
      proof -
        have "?C \<subseteq> ?D" by blast
        then have "\<forall>s' \<in> ?C. length s' \<le> length x" using s(2) \<open>s = x\<close> by blast
        then show ?thesis by auto
      qed
      ultimately show ?thesis using L dots by auto
    qed
  qed
  have bound: "\<forall>s \<in> ?D. length s \<le> length selector" by (auto simp: dot_prefix_def)
  show ?thesis
  proof
    assume some: "longest_server known selector (split_on (CHR ''.'') selector) [] None = Some s"
    then have "?D \<noteq> {}" using result step by auto
    then obtain s0 where "s0 \<in> ?D" by blast
    then obtain s1 where "s1 \<in> ?D" "\<forall>s' \<in> ?D. length s' \<le> length s1" using longest_exists [OF _ bound] by blast
    with result step some have "s1 = s" by auto
    with \<open>s1 \<in> ?D\<close> \<open>\<forall>s' \<in> ?D. length s' \<le> length s1\<close> show "longest_configured known selector s"
      by (auto simp: longest_configured_def)
  next
    assume "longest_configured known selector s"
    then show "longest_server known selector (split_on (CHR ''.'') selector) [] None = Some s"
      unfolding step using result by (auto simp: longest_configured_def)
  qed
qed

text \<open>
  Two limits of the inference: the value of an option between the server and the tool is moved before
  \<open>call\<close> when it looks like a program-wide option, so that the option takes \<open>--tool\<close> as its value; and
  a server whose name starts with a dot is not found.
\<close>

lemma option_values_are_moved:
  "infer_server [''docs'', ''--args'', ''--debug'', ''echo''] 0 ''docs''
     = Inr [''--debug'', ''call'', ''--server'', ''docs'', ''--args'', ''--tool'', ''echo'']"
  by code_simp

lemma leading_dot_is_lost:
  "split_configured_selector (\<lambda>name. name = ''.s'') ''.s.t'' = Inl (''unknown command or MCP server '' @ quoted ''.s.t'')"
  by code_simp



subsection \<open>Literal arguments reach the tool\<close>

text \<open>What is retained of a part that stands after the command.\<close>

definition kept :: "part \<Rightarrow> string list" where
  "kept part =
     (case pt_global part of
        None \<Rightarrow> [pt_argument part]
      | Some option \<Rightarrow> if ga_id option = GNoColor then [pt_argument part] else [])"

definition all_kept :: "part list \<Rightarrow> string list" where
  "all_kept parts = concat (map kept parts)"

lemma all_kept_simps [simp]:
  "all_kept [] = []" "all_kept (part # parts) = kept part @ all_kept parts"
  "all_kept (parts @ parts') = all_kept parts @ all_kept parts'"
  by (simp_all add: all_kept_def)

lemma gather_parts_append:
  "gather_parts sys command position (parts @ parts') g =
     res_bind (gather_parts sys command position parts g) (gather_parts sys command position parts')"
  by (induction parts arbitrary: g) (auto simp: res_bind_def split: sum.splits)

lemma gather_after:
  assumes "gather_parts sys command position parts g = Inr g'" and "\<forall>part \<in> set parts. position < pt_position part"
  shows "ga_retained g' = ga_retained g @ all_kept parts"
  using assms
proof (induction parts arbitrary: g)
  case (Cons part parts)
  from Cons.prems(1) obtain g1 where g1: "gather sys command position part g = Inr g1"
    and g': "gather_parts sys command position parts g1 = Inr g'"
    by (auto elim!: res_bindE)
  have "ga_retained g1 = ga_retained g @ kept part"
    using g1 Cons.prems(2)
    by (auto simp: gather_def kept_def retain_def Let_def res_bind_Inr
        split: option.splits global_id.splits if_splits)
  with Cons.IH [OF g'] Cons.prems(2) show ?case by simp
qed simp

lemma gather_before:
  assumes "gather_parts sys ''call'' position parts g = Inr g'"
    and "\<forall>part \<in> set parts. pt_position part < position \<and> pt_global part \<noteq> None"
  shows "ga_retained g' = ga_retained g"
  using assms
proof (induction parts arbitrary: g)
  case (Cons part parts)
  from Cons.prems(1) obtain g1 where g1: "gather sys ''call'' position part g = Inr g1"
    and g': "gather_parts sys ''call'' position parts g1 = Inr g'"
    by (auto elim!: res_bindE)
  have "ga_retained g1 = ga_retained g"
    using g1 Cons.prems(2)
    by (auto simp: gather_def retain_def Let_def res_bind_Inr split: option.splits global_id.splits if_splits)
  with Cons.IH [OF g'] Cons.prems(2) show ?case by simp
qed simp

text \<open>Tokens of a call in which every option that takes a value has one and no lone \<open>--\<close> is free.\<close>

inductive call_front :: "string list \<Rightarrow> bool" where
  front_done: "call_front []"
| front_value: "takes_value token \<Longrightarrow> call_front tokens \<Longrightarrow> call_front (token # v # tokens)"
| front_token: "\<not> takes_value token \<Longrightarrow> token \<noteq> ''--'' \<Longrightarrow> call_front tokens \<Longrightarrow> call_front (token # tokens)"

inductive_cases call_front_ConsE: "call_front (token # tokens)"

lemma call_option_dashes: "call_option_parse token = Some opt \<Longrightarrow> starts_with ''--'' token \<and> token \<noteq> ''--''"
  by (simp add: call_option_parse_def starts_with_def split: if_split_asm) (elim disjE; simp)+

lemma ad_hoc_option_dashes: "ad_hoc_option_parse token = Some opt \<Longrightarrow> starts_with ''--'' token \<and> token \<noteq> ''--''"
  by (simp add: ad_hoc_option_parse_def starts_with_def split: if_split_asm)

lemma ad_hoc_is_no_call_option: "ad_hoc_option_parse token = Some opt \<Longrightarrow> call_option_parse token = None"
  by (simp add: ad_hoc_option_parse_def call_option_parse_def split: if_split_asm)

lemma takes_value_dashes: "takes_value token \<Longrightarrow> starts_with ''--'' token \<and> token \<noteq> ''--''"
  unfolding takes_value_def
  by (cases "call_option_parse token"; cases "ad_hoc_option_parse token")
    (use call_option_dashes ad_hoc_option_dashes in auto)

lemma call_token_front:
  assumes "call_token sys order token (tokens @ ''--'' # literals) call = Inr (rest, call', positional)"
    and "call_front (token # tokens)"
  shows "\<exists>tokens'. rest = tokens' @ ''--'' # literals \<and> call_front tokens' \<and> length tokens' \<le> length tokens"
  using assms(2)
proof (rule call_front_ConsE)
  fix v tokens' assume tokens: "tokens = v # tokens'" "takes_value token" "call_front tokens'"
  with assms(1) have "rest = tokens' @ ''--'' # literals"
    by (auto simp: call_token_def ad_hoc_consume_def flag_value_def takes_value_def elim!: res_bindE
        dest!: ad_hoc_is_no_call_option
        split: option.splits ad_hoc_option.splits if_splits)
  with tokens show ?thesis by auto
next
  assume front: "\<not> takes_value token" "token \<noteq> ''--''" "call_front tokens"
  show ?thesis
  proof (cases "rest = tokens @ ''--'' # literals")
    case True
    with front show ?thesis by auto
  next
    case False
    with assms(1) front(1) obtain v where rest: "tokens @ ''--'' # literals = v # rest" "\<not> starts_with ''--'' v"
      by (auto simp: call_token_def ad_hoc_consume_def generic_flag_def takes_value_def Let_def elim!: res_bindE
          split: option.splits ad_hoc_option.splits if_splits list.splits prod.splits)
    then obtain tokens' where tokens: "tokens = v # tokens'" "rest = tokens' @ ''--'' # literals"
      by (cases tokens) (auto simp: starts_with_def)
    from front(3) have "call_front tokens'" unfolding tokens(1)
      by (rule call_front_ConsE) (use rest(2) takes_value_dashes in auto)
    with tokens show ?thesis by auto
  qed
qed

lemma call_tokens_literals:
  assumes "call_tokens sys n (tokens @ ''--'' # literals) call positional = Inr (call', positional', literal)"
    and "call_front tokens"
  shows "literal = literals"
  using assms
proof (induction "length tokens" arbitrary: tokens call positional rule: less_induct)
  case less
  show ?case
  proof (cases tokens)
    case Nil
    with less.prems show ?thesis by simp
  next
    case (Cons token tail)
    show ?thesis
    proof (cases "token = ''--''")
      case True
      with less.prems(2) Cons takes_value_dashes show ?thesis by (auto elim: call_front_ConsE)
    next
      case False
      let ?order = "n - length (tail @ ''--'' # literals)"
      from False less.prems(1) Cons obtain rest call1 pos1
        where token: "call_token sys ?order token (tail @ ''--'' # literals) call = Inr (rest, call1, pos1)"
        and rest: "call_tokens sys n rest call1 (positional @ pos1) = Inr (call', positional', literal)"
        by (auto split: sum.splits)
      from call_token_front [OF token] less.prems(2) Cons
      obtain tokens' where "rest = tokens' @ ''--'' # literals" "call_front tokens'" "length tokens' < length tokens"
        by fastforce
      with less.hyps rest show ?thesis by blast
    qed
  qed
qed

text \<open>One turn of the loop after the command \<open>call\<close>.\<close>

lemma syntax_end: "length arguments \<le> index \<Longrightarrow> syntax_from arguments index literal parsed = parsed"
  by (subst syntax_from.simps) (auto split: option.splits)

lemma syntax_literal:
  assumes "cs_command parsed = Some c" and "index \<le> length arguments"
  shows "\<exists>new. syntax_from arguments index True parsed = parsed\<lparr>cs_parts := cs_parts parsed @ new\<rparr>
    \<and> all_kept new = drop index arguments \<and> (\<forall>part \<in> set new. index \<le> pt_position part)"
  using assms
proof (induction "length arguments - index" arbitrary: index parsed)
  case 0
  then show ?case by (intro exI [of _ "[]"]) (simp add: syntax_end)
next
  case (Suc n)
  then have less: "index < length arguments" by simp
  let ?part = "\<lparr>pt_position = index, pt_argument = arguments ! index, pt_global = None,
      pt_next = nth_option (index + 1) arguments\<rparr>"
  have step: "syntax_from arguments index True parsed = syntax_from arguments (index + 1) True (add_part ?part parsed)"
    using less Suc.prems(1)
    by (subst syntax_from.simps)
      (simp add: nth_option_def global_at_def syntax_note_def call_value_follows_def Let_def)
  have n: "n = length arguments - (index + 1)" and le: "index + 1 \<le> length arguments"
    and command: "cs_command (add_part ?part parsed) = Some c"
    using Suc.hyps(2) Suc.prems less by (simp_all add: add_part_def)
  obtain new where new: "syntax_from arguments (index + 1) True (add_part ?part parsed)
      = (add_part ?part parsed)\<lparr>cs_parts := cs_parts (add_part ?part parsed) @ new\<rparr>"
    and rest: "all_kept new = drop (index + 1) arguments" "\<forall>part \<in> set new. index + 1 \<le> pt_position part"
    using Suc.hyps(1) [OF n command le] by blast
  show ?case
  proof (intro exI conjI)
    show "syntax_from arguments index True parsed = parsed\<lparr>cs_parts := cs_parts parsed @ ?part # new\<rparr>"
      unfolding step new by (simp add: add_part_def)
    show "all_kept (?part # new) = drop index arguments"
      using rest(1) less by (simp add: kept_def Cons_nth_drop_Suc)
    show "\<forall>part \<in> set (?part # new). index \<le> pt_position part" using rest(2) by auto
  qed
qed

definition VALUE_OPTIONS :: "string list" where
  "VALUE_OPTIONS =
     [''--server'', ''--mcp'', ''--tool'', ''--timeout'', ''--output'', ''--save-images'', ''--args'', ''--params'',
      ''--json'', ''--http-url'', ''--sse'', ''--stdio'', ''--stdio-arg'', ''--cwd'', ''--name'', ''--env'', ''--header'',
      ''--persist'', ''--description'']"

lemma call_option_valued:
  "call_option_parse token = Some opt \<Longrightarrow> call_option_takes_value opt \<Longrightarrow> token \<in> set VALUE_OPTIONS"
  by (simp add: call_option_parse_def call_option_takes_value_def VALUE_OPTIONS_def split: if_split_asm)
    (elim disjE; simp)+

lemma ad_hoc_option_valued:
  "ad_hoc_option_parse token = Some opt \<Longrightarrow> opt \<noteq> AdAllowHttp \<Longrightarrow> token \<in> set VALUE_OPTIONS"
  by (simp add: ad_hoc_option_parse_def VALUE_OPTIONS_def split: if_split_asm)

lemma takes_value_listed: "takes_value token \<Longrightarrow> token \<in> set VALUE_OPTIONS"
  unfolding takes_value_def
  by (cases "call_option_parse token"; cases "ad_hoc_option_parse token")
    (use call_option_valued ad_hoc_option_valued in auto)

lemma value_options_are_no_globals:
  "list_all (\<lambda>token. global_option token = None \<or> token = ''--json'') VALUE_OPTIONS"
  by code_simp

lemma takes_value_is_no_global:
  assumes "takes_value token"
  shows "global_option token = None \<or> token = ''--json''"
  using takes_value_listed [OF assms] value_options_are_no_globals by (auto simp: list_all_iff)

lemma json_is_local: "cs_command parsed = Some c \<Longrightarrow> global_at literal parsed ''--json'' = None"
proof -
  have "map_option ga_id (global_option ''--json'') = Some GJson" by code_simp
  then show "cs_command parsed = Some c \<Longrightarrow> global_at literal parsed ''--json'' = None"
    by (auto simp: global_at_def split: option.splits)
qed

definition options_noted :: "string \<Rightarrow> command_syntax \<Rightarrow> command_syntax" where
  "options_noted argument parsed =
     parsed\<lparr>cs_help := cs_help parsed \<or> argument \<in> {''--help'', ''-h''},
            cs_quiet := cs_quiet parsed \<or> argument = ''--quiet''\<rparr>"

text \<open>
  What a whole parse \<open>R\<close> is after the parts \<open>base\<close>: the command stays, and what is retained up to
  a lone \<open>--\<close> is the front of a call; all that follows it is retained.
\<close>

definition parsed_on :: "string list \<Rightarrow> nat \<Rightarrow> part list \<Rightarrow> command_syntax \<Rightarrow> bool" where
  "parsed_on arguments c base R \<longleftrightarrow>
     (\<exists>new. cs_parts R = base @ new \<and> cs_command R = Some c \<and> (\<forall>part \<in> set new. c < pt_position part)
       \<and> (\<forall>p. cs_literal R = Some p \<longrightarrow>
            p < length arguments \<and> arguments ! p = ''--''
            \<and> (\<exists>front. call_front front \<and> all_kept new = front @ drop p arguments)))"

lemma parsed_on_extend:
  assumes "parsed_on arguments c (base @ extra) R" and "\<forall>part \<in> set extra. c < pt_position part"
    and "\<And>front. cs_literal R \<noteq> None \<Longrightarrow> call_front front \<Longrightarrow> call_front (all_kept extra @ front)"
  shows "parsed_on arguments c base R"
proof -
  from assms(1) obtain new where new: "cs_parts R = base @ extra @ new" "cs_command R = Some c"
      "\<forall>part \<in> set new. c < pt_position part"
    and literal: "\<And>p. cs_literal R = Some p \<Longrightarrow> p < length arguments \<and> arguments ! p = ''--''
          \<and> (\<exists>front. call_front front \<and> all_kept new = front @ drop p arguments)"
    by (auto simp: parsed_on_def)
  have "\<exists>front. call_front front \<and> all_kept (extra @ new) = front @ drop p arguments"
    if "cs_literal R = Some p" for p
  proof -
    from literal [OF that] obtain front where "call_front front" "all_kept new = front @ drop p arguments" by blast
    then show ?thesis using assms(3) [of front] that by (intro exI [of _ "all_kept extra @ front"]) simp
  qed
  then show ?thesis unfolding parsed_on_def using new literal assms(2) by (intro exI [of _ "extra @ new"]) auto
qed

lemma parts_added [simp]:
  "cs_parts (add_part part parsed) = cs_parts parsed @ [part]" "cs_command (add_part part parsed) = cs_command parsed"
  "cs_literal (add_part part parsed) = cs_literal parsed" "cs_parts (options_noted a parsed) = cs_parts parsed"
  "cs_command (options_noted a parsed) = cs_command parsed" "cs_literal (options_noted a parsed) = cs_literal parsed"
  by (simp_all add: add_part_def options_noted_def)

lemma syntax_after_call:
  assumes "cs_command parsed = Some c" and "c < index" and "c < length arguments" and "arguments ! c = ''call''"
    and "cs_literal parsed = None"
  shows "parsed_on arguments c (cs_parts parsed) (syntax_from arguments index False parsed)"
  using assms(1,2,5)
proof (induction "length arguments - index" arbitrary: index parsed rule: less_induct)
  case less
  show ?case
  proof (cases "index < length arguments")
    case False
    then show ?thesis using less.prems by (auto simp: syntax_end parsed_on_def)
  next
    case True
    let ?a = "arguments ! index" and ?R = "syntax_from arguments index False parsed"
    let ?part = "\<lambda>g. \<lparr>pt_position = index, pt_argument = ?a, pt_global = g, pt_next = nth_option (index + 1) arguments\<rparr>"
    note turn = syntax_from.simps [of arguments index False parsed]
    note turn_simps = syntax_note_def call_value_follows_def Let_def options_noted_def less.prems(1)
    have IH: "parsed_on arguments c (cs_parts parsed) ?R"
      if "?R = syntax_from arguments i False parsed'" and "index < i" and "cs_command parsed' = Some c"
        and "cs_literal parsed' = None" and "cs_parts parsed' = cs_parts parsed @ extra"
        and "\<forall>part \<in> set extra. c < pt_position part"
        and "\<And>front. cs_literal ?R \<noteq> None \<Longrightarrow> call_front front \<Longrightarrow> call_front (all_kept extra @ front)"
      for i parsed' extra
    proof (rule parsed_on_extend)
      have "length arguments - i < length arguments - index" using that(2) True by simp
      then show "parsed_on arguments c (cs_parts parsed @ extra) ?R"
        unfolding that(1) that(5) [symmetric] using less.hyps that(2-4) less.prems(2) by simp
    qed (use that in auto)
    consider (dashes) "?a = ''--''"
      | (global) g where "?a \<noteq> ''--''" "global_at False parsed ?a = Some g"
      | (valued) v where "?a \<noteq> ''--''" "global_at False parsed ?a = None" "takes_value ?a"
          "nth_option (index + 1) arguments = Some v"
      | (bare) "?a \<noteq> ''--''" "global_at False parsed ?a = None"
          "takes_value ?a \<longrightarrow> index + 1 = length arguments"
      using True by (cases "global_at False parsed ?a"; cases "nth_option (index + 1) arguments") auto
    then show ?thesis
    proof cases
      case dashes
      have g: "global_at False parsed ?a = None"
      proof -
        have "global_option ''--'' = None" by code_simp
        then show ?thesis unfolding dashes by (simp add: global_at_def)
      qed
      let ?parsed = "add_part (?part None) (parsed\<lparr>cs_literal := Some index\<rparr>)"
      have step: "?R = syntax_from arguments (index + 1) True ?parsed"
        unfolding turn using True dashes g takes_value_dashes by (simp add: turn_simps nth_option_def)
      obtain new where new: "?R = ?parsed\<lparr>cs_parts := cs_parts ?parsed @ new\<rparr>"
        and kept: "all_kept new = drop (index + 1) arguments" "\<forall>part \<in> set new. index + 1 \<le> pt_position part"
        unfolding step using syntax_literal [of ?parsed c "index + 1" arguments] True less.prems(1) by auto
      have "all_kept (?part None # new) = drop index arguments"
        using kept(1) True by (simp add: kept_def Cons_nth_drop_Suc)
      then show ?thesis
        unfolding parsed_on_def new using True dashes less.prems kept(2) front_done
        by (intro exI [of _ "?part None # new"]) auto
    next
      case (global g)
      have token: "\<not> takes_value ?a"
        using takes_value_is_no_global [of ?a] json_is_local [OF less.prems(1), of False] global(2)
        by (auto simp: global_at_def)
      have step: "?R = syntax_from arguments (index + ga_width g) False (add_part (?part (Some g)) parsed)"
        unfolding turn using True global less.prems(1) by (simp add: turn_simps nth_option_def)
      show ?thesis
        using token global(1) global_at_width [OF global(2)] less.prems
        by (intro IH [OF step]) (auto simp: kept_def intro: front_token)
    next
      case (valued v)
      let ?follower = "\<lparr>pt_position = index + 1, pt_argument = v, pt_global = None, pt_next = None\<rparr>"
      have step: "?R = syntax_from arguments (index + 1 + 1) False
          (add_part ?follower (add_part (?part None) (options_noted ?a parsed)))"
        unfolding turn using True valued assms(3,4) less.prems(1)
        by (simp add: turn_simps nth_option_def)
      show ?thesis
        using less.prems valued(3)
        by (intro IH [OF step, where extra = "[?part None, ?follower]"]) (auto simp: kept_def intro: front_value)
    next
      case bare
      have step: "?R = syntax_from arguments (index + 1) False (add_part (?part None) (options_noted ?a parsed))"
        unfolding turn using True bare assms(3,4) less.prems(1)
        by (auto simp: turn_simps nth_option_def)
      have "cs_literal ?R = None" if "takes_value ?a"
        using that bare(3) less.prems(3) unfolding step by (simp add: syntax_end)
      then show ?thesis
        using less.prems bare(1) by (intro IH [OF step]) (auto simp: kept_def intro!: front_token)
    qed
  qed
qed

text \<open>Up to the command there are only program-wide options.\<close>

lemma syntax_turn:
  assumes "i < length arguments"
  shows "\<exists>j literal' parsed' extra. syntax_from arguments i literal parsed = syntax_from arguments j literal' parsed'
    \<and> i < j \<and> cs_command parsed' = cs_command (syntax_note literal i (arguments ! i) parsed)
    \<and> cs_parts parsed' = cs_parts parsed
        @ \<lparr>pt_position = i, pt_argument = arguments ! i, pt_global = global_at literal parsed (arguments ! i),
           pt_next = nth_option (i + 1) arguments\<rparr> # extra"
proof -
  let ?a = "arguments ! i"
  let ?global = "global_at literal parsed ?a" and ?noted = "syntax_note literal i ?a parsed"
  let ?after = "i + (case ?global of Some g \<Rightarrow> ga_width g | None \<Rightarrow> 1)"
  let ?part = "\<lparr>pt_position = i, pt_argument = ?a, pt_global = ?global, pt_next = nth_option (i + 1) arguments\<rparr>"
  have "i < ?after" using global_at_width by (auto split: option.splits)
  moreover have "cs_parts ?noted = cs_parts parsed" by (simp add: syntax_note_def Let_def)
  moreover have turn: "syntax_from arguments i literal parsed =
      (case (if call_value_follows arguments (literal \<or> ?a = ''--'') ?noted ?global ?a then nth_option ?after arguments
             else None) of
         Some v \<Rightarrow> syntax_from arguments (?after + 1) (literal \<or> ?a = ''--'')
                    (add_part \<lparr>pt_position = ?after, pt_argument = v, pt_global = None, pt_next = None\<rparr>
                      (add_part ?part ?noted))
       | None \<Rightarrow> syntax_from arguments ?after (literal \<or> ?a = ''--'') (add_part ?part ?noted))"
    using assms by (subst syntax_from.simps) (simp add: nth_option_def Let_def)
  ultimately show ?thesis
    by (cases "if call_value_follows arguments (literal \<or> ?a = ''--'') ?noted ?global ?a then nth_option ?after arguments
             else None")
      (fastforce simp only: option.case parts_added append_assoc append_Cons append_Nil less_Suc_eq add_Suc_right add_0_right
        intro: trans_less_add1)+
qed

lemma syntax_keeps:
  assumes "cs_command parsed = Some c"
  shows "cs_command (syntax_from arguments i literal parsed) = Some c
    \<and> prefix (cs_parts parsed) (cs_parts (syntax_from arguments i literal parsed))"
  using assms
proof (induction "length arguments - i" arbitrary: i literal parsed rule: less_induct)
  case less
  show ?case
  proof (cases "i < length arguments")
    case False
    with less.prems show ?thesis by (simp add: syntax_end)
  next
    case True
    from syntax_turn [OF this, of literal parsed] obtain j literal' parsed' extra
      where turn: "syntax_from arguments i literal parsed = syntax_from arguments j literal' parsed'" "i < j"
      and command: "cs_command parsed' = cs_command (syntax_note literal i (arguments ! i) parsed)"
      and parts: "prefix (cs_parts parsed) (cs_parts parsed')"
      by (metis prefixI)
    have "cs_command parsed' = Some c" using command less.prems by (simp add: syntax_note_def Let_def)
    from less.hyps [OF _ this, of j literal'] turn(2) True parts show ?thesis
      unfolding turn(1) by (auto intro: prefix_order.trans)
  qed
qed

lemma syntax_to_command:
  assumes "cs_command parsed = None" and "cs_command (syntax_from arguments index False parsed) = Some c"
    and "cs_literal parsed = None"
    and "\<forall>part \<in> set (cs_parts parsed). pt_position part < index \<and> pt_global part \<noteq> None"
  shows "\<exists>before part. c < length arguments \<and> pt_position part = c \<and> pt_argument part = arguments ! c
    \<and> (\<forall>part \<in> set before. pt_position part < c \<and> pt_global part \<noteq> None)
    \<and> prefix (before @ [part]) (cs_parts (syntax_from arguments index False parsed))
    \<and> (arguments ! c = ''call'' \<longrightarrow>
         parsed_on arguments c (before @ [part]) (syntax_from arguments index False parsed))"
  using assms
proof (induction "length arguments - index" arbitrary: index parsed rule: less_induct)
  case less
  let ?R = "syntax_from arguments index False parsed"
  have True: "index < length arguments"
  proof (rule ccontr)
    assume "\<not> index < length arguments"
    with less.prems(1,2) show False by (simp add: syntax_end)
  qed
  let ?a = "arguments ! index"
  let ?part = "\<lambda>g. \<lparr>pt_position = index, pt_argument = ?a, pt_global = g, pt_next = nth_option (index + 1) arguments\<rparr>"
  note turn = syntax_from.simps [of arguments index False parsed]
  note turn_simps = syntax_note_def call_value_follows_def Let_def nth_option_def
  have dashes: "global_option ''--'' = None" by code_simp
  show ?case
  proof (cases "global_at False parsed ?a")
    case (Some g)
    with dashes have ne: "?a \<noteq> ''--''" by (auto simp: global_at_def)
    have step: "?R = syntax_from arguments (index + ga_width g) False (add_part (?part (Some g)) parsed)"
      unfolding turn using True Some ne by (simp add: turn_simps)
    have "length arguments - (index + ga_width g) < length arguments - index"
      using global_at_width [OF Some] True by simp
    from less.hyps [OF this, of "add_part (?part (Some g)) parsed"] less.prems global_at_width [OF Some]
    show ?thesis unfolding step by fastforce
  next
    case None
    let ?noted = "syntax_note False index ?a parsed"
    have noted: "cs_command ?noted = Some index" "cs_parts ?noted = cs_parts parsed"
      using less.prems(1) None by (auto simp: syntax_note_def Let_def)
    have kept: "cs_command ?R = Some index \<and> prefix (cs_parts parsed @ [?part None]) (cs_parts ?R)"
    proof -
      from syntax_turn [OF True, of False parsed] obtain j literal' parsed' extra
        where R: "?R = syntax_from arguments j literal' parsed'" and command: "cs_command parsed' = Some index"
        and parts: "cs_parts parsed' = cs_parts parsed @ ?part None # extra"
        unfolding noted None by blast
      from syntax_keeps [OF command, of arguments j literal'] show ?thesis
        unfolding R parts by (auto simp: prefix_def)
    qed
    have c: "c = index" using kept less.prems(2) by simp
    have "parsed_on arguments c (cs_parts parsed @ [?part None]) ?R" if call: "arguments ! c = ''call''"
    proof -
      have "\<not> takes_value ''call''" by code_simp
      then have step: "?R = syntax_from arguments (index + 1) False (add_part (?part None) ?noted)"
        unfolding turn using True None less.prems(1) c call by (simp add: turn_simps)
      have "cs_literal ?noted = None" using less.prems(3) call c by (simp add: syntax_note_def Let_def)
      with syntax_after_call [of "add_part (?part None) ?noted" c "index + 1" arguments] True c call noted
      show ?thesis unfolding step by simp
    qed
    with True c less.prems kept show ?thesis
      by (intro exI [of _ "cs_parts parsed"] exI [of _ "?part None"]) auto
  qed
qed

lemma find_skips: "List.find P xs = None \<Longrightarrow> List.find P (xs @ y # ys) = (if P y then Some y else List.find P ys)"
  by (induction xs) (auto split: if_splits)

text \<open>What the context of a \<open>call\<close> hands on: the front of a call, then \<open>--\<close> and all that follows it.\<close>

lemma call_context:
  assumes "context_parse sys fs (parse_syntax arguments) = Inr (options, effect)" and "co_command options = ''call''"
    and "cs_literal (parse_syntax arguments) = Some p"
  shows "arguments ! p = ''--''
    \<and> (\<exists>front. call_front front \<and> co_arguments options = front @ ''--'' # drop (p + 1) arguments)"
proof -
  let ?R = "parse_syntax arguments"
  from assms(1,2) obtain c g command_part where c: "cs_command ?R = Some c"
    and command: "List.find (\<lambda>part. pt_position part = c) (cs_parts ?R) = Some command_part"
      "pt_argument command_part = ''call''"
    and g: "gather_parts sys ''call'' c (cs_parts ?R) nothing_gathered = Inr g"
    and options: "co_arguments options = with_leading_json ''call'' g"
    unfolding context_parse_def by (auto elim!: res_bindE simp: ok_or_Inr)
  obtain before part where part: "pt_position part = c" "pt_argument part = arguments ! c"
    and before: "\<forall>part \<in> set before. pt_position part < c \<and> pt_global part \<noteq> None"
    and prefix: "prefix (before @ [part]) (cs_parts ?R)"
    and on: "arguments ! c = ''call'' \<longrightarrow> parsed_on arguments c (before @ [part]) ?R"
    using syntax_to_command [of empty_syntax arguments 0 c] c
    by (auto simp: parse_syntax_def empty_syntax_def)
  have "command_part = part"
  proof -
    have "List.find (\<lambda>part. pt_position part = c) before = None" using before by (auto simp: find_None_iff)
    with command(1) prefix part(1) show ?thesis
      by (auto simp: prefix_def find_skips)
  qed
  with command(2) part(2) on have "parsed_on arguments c (before @ [part]) ?R" by simp
  then obtain new where new: "cs_parts ?R = before @ [part] @ new" "\<forall>part \<in> set new. c < pt_position part"
    and p: "p < length arguments" "arguments ! p = ''--''"
    and front: "\<exists>front. call_front front \<and> all_kept new = front @ drop p arguments"
    using assms(3) by (auto simp: parsed_on_def)
  obtain g1 g2 where g1: "gather_parts sys ''call'' c before nothing_gathered = Inr g1"
    and g2: "gather sys ''call'' c part g1 = Inr g2" and g3: "gather_parts sys ''call'' c new g2 = Inr g"
    using g unfolding new(1) by (auto simp: gather_parts_append elim!: res_bindE)
  have "ga_retained g = all_kept new"
    using gather_before [OF g1 before] gather_after [OF g3 new(2)] g2 part(1)
    by (simp add: gather_def nothing_gathered_def)
  with front p(1) obtain front where front: "call_front front" "ga_retained g = front @ ''--'' # drop (p + 1) arguments"
    using p(2) by (metis Cons_nth_drop_Suc Suc_eq_plus1)
  have "takes_value ''--output''" by code_simp
  with front have "\<exists>front. call_front front \<and> co_arguments options = front @ ''--'' # drop (p + 1) arguments"
    unfolding options with_leading_json_def
    by (auto intro: exI [of _ front] exI [of _ "''--output'' # ''json'' # front"] front_value)
  with p(2) show ?thesis by blast
qed


definition no_files :: file_system where
  "no_files =
     \<lparr>fs_variable = (\<lambda>_. None), fs_home = None, fs_current = Inr ''/'', fs_absolute = Inr, fs_exists = (\<lambda>_. False),
      fs_is_dir = (\<lambda>_. False), fs_canonical = Inl, fs_metadata = (\<lambda>_. Absent)\<rparr>"


end
