(* ===== verification/BridgeHttp.thy ===== *)
theory BridgeHttp
  imports Bridge Wire
begin

text \<open>
  The HTTP front end of the bridge (\<open>src/mcp_bridge_http.rs\<close>): which requests it takes, from which
  hosts and pages, and what it answers.  A request is what the server library read of it; URLs are
  parsed by the library \<open>url\<close>, here the argument \<open>parse_url\<close>; \<open>requests\<close> says whether one of the 64
  permits is free.
\<close>

subsection \<open>Addresses\<close>

text \<open>
  \<open>IpAddr::from_str\<close> of the standard library: four decimal numbers, or up to eight groups of up to
  four hexadecimal digits with one run of zeros left out, the last two groups possibly as an IPv4
  address.  A reader returns its value and what is left of the text.
\<close>

definition hex_value :: "char \<Rightarrow> nat option" where
  "hex_value c =
     (let n = of_char c :: nat in
      if 48 \<le> n \<and> n \<le> 57 then Some (n - 48)
      else if 97 \<le> n \<and> n \<le> 102 then Some (n - 87)
      else if 65 \<le> n \<and> n \<le> 70 then Some (n - 55) else None)"

definition read_number :: "nat \<Rightarrow> nat \<Rightarrow> nat \<Rightarrow> bool \<Rightarrow> string \<Rightarrow> (nat \<times> string) option" where
  "read_number radix max_digits limit zero_prefix s =
     (let digit = (\<lambda>c. case hex_value c of Some d \<Rightarrow> d < radix | None \<Rightarrow> False);
          ds = takeWhile digit s;
          v = foldl (\<lambda>n c. radix * n + (case hex_value c of Some d \<Rightarrow> d | None \<Rightarrow> 0)) 0 ds
      in if ds = [] \<or> length ds > max_digits \<or> limit < v
            \<or> (\<not> zero_prefix \<and> hd ds = CHR ''0'' \<and> length ds > 1)
         then None else Some (v, dropWhile digit s))"

definition read_char :: "char \<Rightarrow> string \<Rightarrow> string option" where
  "read_char c s = (case s of d # rest \<Rightarrow> if d = c then Some rest else None | [] \<Rightarrow> None)"

definition read_octet :: "string \<Rightarrow> (nat \<times> string) option" where
  "read_octet = read_number 10 3 255 False"

definition read_ipv4 :: "string \<Rightarrow> (nat list \<times> string) option" where
  "read_ipv4 s =
     Option.bind (read_octet s) (\<lambda>(a, s). Option.bind (read_char (CHR ''.'') s) (\<lambda>s.
     Option.bind (read_octet s) (\<lambda>(b, s). Option.bind (read_char (CHR ''.'') s) (\<lambda>s.
     Option.bind (read_octet s) (\<lambda>(c, s). Option.bind (read_char (CHR ''.'') s) (\<lambda>s.
     Option.bind (read_octet s) (\<lambda>(d, s). Some ([a, b, c, d], s))))))))"

text \<open>A group after the first has a colon before it.\<close>

definition after_colon :: "nat \<Rightarrow> (string \<Rightarrow> ('a \<times> string) option) \<Rightarrow> string \<Rightarrow> ('a \<times> string) option" where
  "after_colon i reader s =
     (if i = 0 then reader s else Option.bind (read_char (CHR '':'') s) reader)"

text \<open>
  Groups up to \<open>limit\<close>, from the group \<open>i\<close> on: the groups, whether the last two were an IPv4
  address, and the rest.
\<close>

function read_groups :: "nat \<Rightarrow> nat \<Rightarrow> string \<Rightarrow> nat list \<times> bool \<times> string" where
  "read_groups limit i s =
     (if \<not> i < limit then ([], False, s)
      else
        case (if i + 1 < limit then after_colon i read_ipv4 s else None) of
          Some (octets, rest) \<Rightarrow>
            ([256 * octets ! 0 + octets ! 1, 256 * octets ! 2 + octets ! 3], True, rest)
        | None \<Rightarrow>
            (case after_colon i (read_number 16 4 65535 True) s of
               Some (block, rest) \<Rightarrow>
                 (let (blocks, v4, rest) = read_groups limit (i + 1) rest in (block # blocks, v4, rest))
             | None \<Rightarrow> ([], False, s)))"
  by pat_completeness auto
termination
  by (relation "measure (\<lambda>(limit, i, _). limit - i)") auto

declare read_groups.simps [simp del]

definition read_ipv6 :: "string \<Rightarrow> (nat list \<times> string) option" where
  "read_ipv6 s =
     (let (head, v4, rest) = read_groups 8 0 s in
      if length head = 8 then Some (head, rest)
      else if v4 then None
      else if \<not> starts_with ''::'' rest then None
      else
        let (tail, _, rest) = read_groups (8 - (length head + 1)) 0 (drop 2 rest)
        in Some (head @ replicate (8 - length head - length tail) 0 @ tail, rest))"

definition loopback_address :: "string \<Rightarrow> bool" where
  "loopback_address s \<longleftrightarrow>
     (case read_ipv4 s of
        Some (octets, rest) \<Rightarrow> rest = [] \<and> octets ! 0 = 127
      | None \<Rightarrow>
          (case read_ipv6 s of
             Some (blocks, rest) \<Rightarrow> rest = [] \<and> blocks = [0, 0, 0, 0, 0, 0, 0, 1]
           | None \<Rightarrow> False))"

subsection \<open>Hosts\<close>

definition is_loopback_host :: "string \<Rightarrow> bool" where
  "is_loopback_host host \<longleftrightarrow> eq_ignore_ascii_case host ''localhost'' \<or> loopback_address host"

definition is_bracket :: "char \<Rightarrow> bool" where
  "is_bracket c \<longleftrightarrow> c = CHR ''['' \<or> c = CHR '']''"

definition without_brackets :: "string \<Rightarrow> string" where
  "without_brackets s = rev (dropWhile is_bracket (rev (dropWhile is_bracket s)))"

definition host_is_allowed :: "string \<Rightarrow> string \<Rightarrow> bool" where
  "host_is_allowed request_host bind_host \<longleftrightarrow>
     (let request_host = without_brackets request_host; bind_host = without_brackets bind_host in
      if bind_host = ''0.0.0.0'' \<or> bind_host = ''::'' then True
      else if is_loopback_host bind_host then is_loopback_host request_host
      else eq_ignore_ascii_case request_host bind_host)"

record url =
  ur_scheme :: string
  ur_username :: string
  ur_password :: "string option"
  ur_host :: "string option"
  ur_port :: "nat option"
  ur_path :: string
  ur_query :: "string option"
  ur_fragment :: "string option"

type_synonym url_parser = "string \<Rightarrow> url option"

text \<open>\<open>ur_port\<close> is the port or, without one, the known default of the scheme.\<close>

definition parse_authority :: "url_parser \<Rightarrow> string \<Rightarrow> (string \<times> nat) option" where
  "parse_authority parse_url authority =
     (case parse_url (''http://'' @ authority @ ''/'') of
        None \<Rightarrow> None
      | Some u \<Rightarrow>
          if ur_username u \<noteq> [] \<or> ur_password u \<noteq> None \<or> ur_path u \<noteq> ''/'' then None
          else case (ur_host u, ur_port u) of
                 (Some h, Some p) \<Rightarrow> Some (h, p)
               | _ \<Rightarrow> None)"

subsection \<open>Requests\<close>

text \<open>Header names are in lower case; \<open>to_str\<close> gives a value of visible characters.\<close>

type_synonym headers = "(string \<times> string) list"

definition header :: "string \<Rightarrow> headers \<Rightarrow> string option" where
  "header name hs = map_of hs name"

definition visible :: "string \<Rightarrow> bool" where
  "visible v \<longleftrightarrow> list_all (\<lambda>c. (32 \<le> (of_char c :: nat) \<and> (of_char c :: nat) < 127) \<or> c = CHR 0x09) v"

definition header_text :: "string \<Rightarrow> headers \<Rightarrow> string option" where
  "header_text name hs = (case header name hs of Some v \<Rightarrow> if visible v then Some v else None | None \<Rightarrow> None)"

datatype request_body = BodyTimedOut | BodyBroken | BodyBytes string

record http_request =
  hq_method :: string
  hq_path :: string
  hq_scheme :: "string option"
  hq_authority :: "string option"
  hq_headers :: headers
  hq_body :: request_body

definition METHOD_HEADER :: string where "METHOD_HEADER = ''mcp-method''"

definition NAME_HEADER :: string where "NAME_HEADER = ''mcp-name''"

definition PROTOCOL_VERSION_HEADER :: string where "PROTOCOL_VERSION_HEADER = ''mcp-protocol-version''"

definition SESSION_ID_HEADER :: string where "SESSION_ID_HEADER = ''mcp-session-id''"

definition MAX_REQUEST_BYTES :: nat where "MAX_REQUEST_BYTES = 1024 * 1024"

definition MAX_CONCURRENT_REQUESTS :: nat where "MAX_CONCURRENT_REQUESTS = 64"

text \<open>The page the request comes from must be served by the host it goes to.\<close>

definition valid_origin :: "url_parser \<Rightarrow> string option \<Rightarrow> string \<Rightarrow> nat \<Rightarrow> string \<Rightarrow> bool" where
  "valid_origin parse_url origin request_host request_port bind_host \<longleftrightarrow>
     (case origin of
        None \<Rightarrow> True
      | Some v \<Rightarrow>
          visible v \<and> v \<noteq> ''null''
          \<and> (case parse_url v of
               None \<Rightarrow> False
             | Some u \<Rightarrow>
                 ur_scheme u = ''http'' \<and> ur_username u = [] \<and> ur_password u = None \<and> ur_path u = ''/''
                 \<and> ur_query u = None \<and> ur_fragment u = None
                 \<and> (case ur_host u of
                      None \<Rightarrow> False
                    | Some host \<Rightarrow>
                        eq_ignore_ascii_case host request_host \<and> ur_port u = Some request_port
                        \<and> host_is_allowed host bind_host)))"

definition validate_origin_and_host :: "url_parser \<Rightarrow> http_request \<Rightarrow> string \<Rightarrow> nat \<Rightarrow> bool" where
  "validate_origin_and_host parse_url r bind_host port \<longleftrightarrow>
     (case hq_scheme r of Some s \<Rightarrow> eq_ignore_ascii_case s ''http'' | None \<Rightarrow> True)
     \<and> (case Option.bind (header_text ''host'' (hq_headers r)) (parse_authority parse_url) of
          None \<Rightarrow> False
        | Some (request_host, request_port) \<Rightarrow>
            request_port = port \<and> host_is_allowed request_host bind_host
            \<and> (case hq_authority r of
                 None \<Rightarrow> True
               | Some authority \<Rightarrow>
                   (case parse_authority parse_url authority of
                      None \<Rightarrow> False
                    | Some (uri_host, uri_port) \<Rightarrow>
                        eq_ignore_ascii_case uri_host request_host \<and> uri_port = request_port))
            \<and> valid_origin parse_url (header ''origin'' (hq_headers r)) request_host request_port bind_host)"

subsection \<open>Content types\<close>

text \<open>
  \<open>parse::<f32>\<close> of a quality, as far as whether it is zero: the number is \<open>m * 10 ^ e\<close>, and everything
  up to half of the least subnormal number, \<open>2 ^ - 150\<close>, is rounded to zero.
\<close>

definition digits_number :: "string \<Rightarrow> nat" where
  "digits_number ds = foldl (\<lambda>n c. 10 * n + (of_char c - 48)) 0 ds"

definition exponent_value :: "string \<Rightarrow> int option" where
  "exponent_value s =
     (let (sign, ds) = (if starts_with ''-'' s then (- 1, drop 1 s)
                        else if starts_with ''+'' s then (1, drop 1 s) else (1, s))
      in if ds = [] \<or> \<not> list_all is_ascii_digit ds then None else Some (sign * int (digits_number ds)))"

definition float_is_zero :: "string \<Rightarrow> bool" where
  "float_is_zero s =
     (let s = (if starts_with ''-'' s \<or> starts_with ''+'' s then drop 1 s else s);
          is_e = (\<lambda>c. c = CHR ''e'' \<or> c = CHR ''E'');
          mantissa = takeWhile (\<lambda>c. \<not> is_e c) s;
          power = (if mantissa = s then Some 0 else exponent_value (drop (length mantissa + 1) s));
          (whole, fraction) = (case split_once ''.'' mantissa of Some parts \<Rightarrow> parts | None \<Rightarrow> (mantissa, []))
      in case power of
           None \<Rightarrow> False
         | Some e \<Rightarrow>
             whole @ fraction \<noteq> [] \<and> list_all is_ascii_digit (whole @ fraction)
             \<and> (let m = digits_number (whole @ fraction); e = e - int (length fraction) in
                m = 0 \<or> (e < 0 \<and> m * 2 ^ 150 \<le> 10 ^ nat (- e))))"

definition quality_zero :: "string \<Rightarrow> bool" where
  "quality_zero parameter =
     (case strip_prefix ''q='' (trim parameter) of Some quality \<Rightarrow> float_is_zero (trim quality) | None \<Rightarrow> False)"

definition accepted_item :: "string \<Rightarrow> string option" where
  "accepted_item item =
     (case split_on (CHR '';'') item of
        media_type # parameters \<Rightarrow>
          if list_ex quality_zero parameters then None else Some (to_ascii_lower (trim media_type))
      | [] \<Rightarrow> None)"

definition accepted_media_types :: "headers \<Rightarrow> bool \<times> bool" where
  "accepted_media_types hs =
     (case header_text ''accept'' hs of
        None \<Rightarrow> (False, False)
      | Some v \<Rightarrow>
          let types = List.map_filter accepted_item (split_on (CHR '','') v) in
          (list_ex (\<lambda>t. t \<in> {''application/json'', ''application/*'', ''*/*''}) types,
           list_ex (\<lambda>t. t \<in> {''text/event-stream'', ''text/*'', ''*/*''}) types))"

definition accepts_streamable_json :: "headers \<Rightarrow> bool" where
  "accepts_streamable_json hs = (fst (accepted_media_types hs) \<and> snd (accepted_media_types hs))"

definition accepts_event_stream :: "headers \<Rightarrow> bool" where
  "accepts_event_stream hs = snd (accepted_media_types hs)"

definition has_json_content_type :: "headers \<Rightarrow> bool" where
  "has_json_content_type hs =
     (case header_text ''content-type'' hs of
        None \<Rightarrow> False
      | Some v \<Rightarrow> eq_ignore_ascii_case (trim (hd (split_on (CHR '';'') v))) ''application/json'')"

subsection \<open>Endpoints\<close>

datatype http_endpoint = Aggregate | Single string | BadPath | NotFound

fun percent_bytes :: "string \<Rightarrow> string option" where
  "percent_bytes [] = Some []"
| "percent_bytes (c # s) =
     (if c \<noteq> CHR ''%'' then map_option (Cons c) (percent_bytes s)
      else case s of
             h # l # rest \<Rightarrow>
               (case (hex_value h, hex_value l) of
                  (Some high, Some low) \<Rightarrow> map_option (Cons (char_of (16 * high + low))) (percent_bytes rest)
                | _ \<Rightarrow> None)
           | _ \<Rightarrow> None)"

definition percent_decode :: "string \<Rightarrow> string option" where
  "percent_decode v =
     (case percent_bytes v of Some bytes \<Rightarrow> if utf8_valid bytes then Some bytes else None | None \<Rightarrow> None)"

definition endpoint_for_path :: "string \<Rightarrow> http_endpoint" where
  "endpoint_for_path path =
     (if path = ''/mcp'' then Aggregate
      else case strip_prefix ''/mcp/'' path of
             None \<Rightarrow> NotFound
           | Some encoded_name \<Rightarrow>
               (case percent_decode encoded_name of Some name \<Rightarrow> Single name | None \<Rightarrow> BadPath))"

subsection \<open>The handler\<close>

definition valid_modern_headers :: "headers \<Rightarrow> json \<Rightarrow> bool" where
  "valid_modern_headers hs message =
     (case Option.bind (vget ''method'' message) as_str of
        None \<Rightarrow> False
      | Some m \<Rightarrow>
          header_text METHOD_HEADER hs = Some m
          \<and> (case Option.bind (vget ''params'' message) (vget ''name'') of
               Some (JString name) \<Rightarrow> header_text NAME_HEADER hs = Some name
             | Some _ \<Rightarrow> False
             | None \<Rightarrow> header NAME_HEADER hs = None))"

text \<open>A response: its status, its body, whether \<open>Allow: POST\<close> is set, and the protocol version header.\<close>

datatype response_body = TextBody string | JsonBody json | NoBody | Subscribed listen_subscription

record http_response =
  hr_status :: nat
  hr_body :: response_body
  hr_allow :: bool
  hr_version :: "string option"

definition text_response :: "nat \<Rightarrow> string \<Rightarrow> http_response" where
  "text_response status message =
     \<lparr>hr_status = status, hr_body = TextBody message, hr_allow = False, hr_version = None\<rparr>"

text \<open>\<open>HeaderValue::from_str\<close> takes visible characters and bytes above 127.\<close>

definition header_valid :: "string \<Rightarrow> bool" where
  "header_valid v \<longleftrightarrow> list_all (\<lambda>c. (32 \<le> (of_char c :: nat) \<and> of_char c \<noteq> (127 :: nat)) \<or> c = CHR 0x09) v"

definition set_protocol_version :: "string option \<Rightarrow> http_response \<Rightarrow> http_response" where
  "set_protocol_version version response =
     (case version of
        Some v \<Rightarrow> if header_valid v then response\<lparr>hr_version := Some v\<rparr> else response
      | None \<Rightarrow> response)"

definition json_response :: "json \<Rightarrow> string option \<Rightarrow> http_response" where
  "json_response v version =
     set_protocol_version version \<lparr>hr_status = 200, hr_body = JsonBody v, hr_allow = False, hr_version = None\<rparr>"

definition accepted_response :: "string option \<Rightarrow> http_response" where
  "accepted_response version =
     set_protocol_version version \<lparr>hr_status = 202, hr_body = NoBody, hr_allow = False, hr_version = None\<rparr>"

record http_state =
  hs_bridge :: bridge_state
  hs_bind_host :: string
  hs_port :: nat
  hs_free_requests :: nat
  hs_free_listeners :: nat
  hs_shutdown :: bool

text \<open>The body, once the headers are accepted: the message and the version header, or the refusal.\<close>

definition request_version :: "headers \<Rightarrow> http_response + string option" where
  "request_version hs =
     (case header PROTOCOL_VERSION_HEADER hs of
        None \<Rightarrow> Inr None
      | Some v \<Rightarrow> if visible v \<and> supports_version v then Inr (Some v)
                  else Inl (text_response 400 ''Unsupported MCP protocol version''))"

definition modern_transport :: "headers \<Rightarrow> string option \<Rightarrow> bool" where
  "modern_transport hs version \<longleftrightarrow>
     version = Some MODERN_VERSION \<or> header METHOD_HEADER hs \<noteq> None \<or> header NAME_HEADER hs \<noteq> None"

definition NOT_STREAMABLE :: http_response where
  "NOT_STREAMABLE = text_response 406 ''Accept must include application/json and text/event-stream''"

definition read_body :: "parser \<Rightarrow> request_body \<Rightarrow> http_response + json" where
  "read_body parse body =
     (case body of
        BodyTimedOut \<Rightarrow> Inl (text_response 408 ''Request body timed out'')
      | BodyBroken \<Rightarrow> Inl (text_response 413 ''Request body too large'')
      | BodyBytes bytes \<Rightarrow>
          if MAX_REQUEST_BYTES < length bytes then Inl (text_response 413 ''Request body too large'')
          else (case parse bytes of
                  Some message \<Rightarrow> Inr message
                | None \<Rightarrow> Inl (text_response 400 ''Invalid JSON-RPC body'')))"

definition check_version :: "headers \<Rightarrow> string option \<Rightarrow> json \<Rightarrow> http_response + unit" where
  "check_version hs version message =
     (case modern_protocol_version message of
        Some body_version \<Rightarrow>
          if body_version \<noteq> MODERN_VERSION \<or> version \<noteq> Some body_version \<or> \<not> valid_modern_headers hs message
          then Inl (text_response 400 ''Invalid modern MCP request headers'') else Inr ()
      | None \<Rightarrow>
          if modern_transport hs version then Inl (text_response 400 ''Missing modern MCP request metadata'')
          else Inr ())"

text \<open>A message that passed every check: a subscription, or a request the bridge answers.\<close>

definition answer_message ::
  "http_state \<Rightarrow> bridge_world \<Rightarrow> headers \<Rightarrow> string option \<Rightarrow> string option \<Rightarrow> json \<Rightarrow> http_response" where
  "answer_message st w hs version only_server message =
     (let response_version = (case protocol_version_for_request message of Some v \<Rightarrow> Some v | None \<Rightarrow> version) in
      if modern_protocol_version message = Some MODERN_VERSION
         \<and> Option.bind (vget ''method'' message) as_str = Some ''subscriptions/listen'' then
        (if \<not> accepts_event_stream hs then text_response 406 ''Accept must include text/event-stream''
         else case listen_subscription message of
                Inr subscription \<Rightarrow>
                  set_protocol_version response_version
                    \<lparr>hr_status = 200, hr_body = Subscribed subscription, hr_allow = False, hr_version = None\<rparr>
              | Inl response \<Rightarrow> json_response response response_version)
      else if modern_transport hs version \<and> \<not> accepts_streamable_json hs then NOT_STREAMABLE
      else case dispatch_http (hs_bridge st) w message only_server of
             Some response \<Rightarrow> json_response response response_version
           | None \<Rightarrow> accepted_response response_version)"

definition handle_checked ::
  "parser \<Rightarrow> http_state \<Rightarrow> bridge_world \<Rightarrow> http_request \<Rightarrow> string option \<Rightarrow> http_response + http_response" where
  "handle_checked parse st w r only_server =
     (let hs = hq_headers r in
      if header SESSION_ID_HEADER hs \<noteq> None then Inl (text_response 404 ''Unknown MCP session'')
      else if \<not> has_json_content_type hs then Inl (text_response 415 ''Expected application/json'')
      else
        res_bind (request_version hs) (\<lambda>version.
        if \<not> modern_transport hs version \<and> \<not> accepts_streamable_json hs then Inl NOT_STREAMABLE
        else
          res_bind (read_body parse (hq_body r)) (\<lambda>message.
          res_bind (check_version hs version message) (\<lambda>_.
          Inr (answer_message st w hs version only_server message)))))"

definition endpoint_server :: "bridge_state \<Rightarrow> string \<Rightarrow> http_response + string option" where
  "endpoint_server br path =
     (case endpoint_for_path path of
        Aggregate \<Rightarrow> Inr None
      | Single name \<Rightarrow>
          if has_server br name then Inr (Some name)
          else Inl (text_response 404 (''Unknown server '' @ quoted name))
      | BadPath \<Rightarrow> Inl (text_response 400 ''Bad request'')
      | NotFound \<Rightarrow> Inl (text_response 404 ''Not found''))"

text \<open>\<open>Inl\<close> is a refusal, \<open>Inr\<close> the answer to a message; both are sent.\<close>

definition handle_request ::
  "url_parser \<Rightarrow> parser \<Rightarrow> http_state \<Rightarrow> bridge_world \<Rightarrow> http_request \<Rightarrow> http_response + http_response" where
  "handle_request parse_url parse st w r =
     (if hs_shutdown st then Inl (text_response 503 ''Server is shutting down'')
      else
        res_bind (endpoint_server (hs_bridge st) (hq_path r)) (\<lambda>only_server.
        if hq_method r \<noteq> ''POST'' then Inl ((text_response 405 ''Method not allowed'')\<lparr>hr_allow := True\<rparr>)
        else if \<not> validate_origin_and_host parse_url r (hs_bind_host st) (hs_port st)
        then Inl (text_response 403 ''Forbidden'')
        else if hs_free_requests st = 0 then Inl (text_response 503 ''Too many concurrent MCP requests'')
        else handle_checked parse st w r only_server))"

subsection \<open>Names survive their way through a path\<close>

definition hex_digit :: "nat \<Rightarrow> char" where
  "hex_digit n = (if n < 10 then char_of (48 + n) else char_of (55 + n))"

definition percent_encode_byte :: "char \<Rightarrow> string" where
  "percent_encode_byte c =
     (if is_ascii_alphanumeric c \<or> c \<in> {CHR ''-'', CHR ''_'', CHR ''.'', CHR ''~''} then [c]
      else [CHR ''%'', hex_digit (of_char c div 16), hex_digit (of_char c mod 16)])"

definition percent_encode :: "string \<Rightarrow> string" where
  "percent_encode s = concat (map percent_encode_byte s)"

lemma hex_value_digit: "n < 16 \<Longrightarrow> hex_value (hex_digit n) = Some n"
  by (simp add: hex_value_def hex_digit_def Let_def)

lemma percent_bytes_encoded: "percent_bytes (percent_encode_byte c @ s) = map_option (Cons c) (percent_bytes s)"
proof (cases "is_ascii_alphanumeric c \<or> c \<in> {CHR ''-'', CHR ''_'', CHR ''.'', CHR ''~''}")
  case True
  then have "c \<noteq> CHR ''%''"
    by (auto simp: is_ascii_alphanumeric_def is_ascii_alphabetic_def is_ascii_upper_def is_ascii_lower_def
        is_ascii_digit_def)
  with True show ?thesis by (simp add: percent_encode_byte_def)
next
  case False
  let ?n = "of_char c :: nat"
  have "?n < 256" by simp
  then have "hex_value (hex_digit (?n div 16)) = Some (?n div 16)" by (intro hex_value_digit) linarith
  moreover have "hex_value (hex_digit (?n mod 16)) = Some (?n mod 16)" by (intro hex_value_digit) simp
  moreover have "char_of (16 * (?n div 16) + ?n mod 16) = c" by (simp only: mult_div_mod_eq char_of_char)
  ultimately show ?thesis using False by (simp add: percent_encode_byte_def)
qed

lemma percent_decode_encode: "utf8_valid s \<Longrightarrow> percent_decode (percent_encode s) = Some s"
proof -
  have "percent_bytes (percent_encode s) = Some s"
    by (induction s) (simp_all add: percent_encode_def percent_bytes_encoded)
  then show "utf8_valid s \<Longrightarrow> percent_decode (percent_encode s) = Some s" by (simp add: percent_decode_def)
qed

lemma endpoint_of_name: "utf8_valid name \<Longrightarrow> endpoint_for_path (''/mcp/'' @ percent_encode name) = Single name"
  by (simp add: endpoint_for_path_def percent_decode_encode strip_prefix_def starts_with_def)

subsection \<open>Who reaches the bridge\<close>

lemma set_protocol_version_keeps [simp]:
  "hr_status (set_protocol_version v response) = hr_status response"
  "hr_body (set_protocol_version v response) = hr_body response"
  by (simp_all add: set_protocol_version_def split: option.splits)

lemma text_response_simps [simp]:
  "hr_status (text_response status message) = status" "hr_body (text_response status message) = TextBody message"
  by (simp_all add: text_response_def)

lemma json_response_simps [simp]:
  "hr_status (json_response v version) = 200" "hr_body (json_response v version) = JsonBody v"
  "hr_status (accepted_response version) = 202" "hr_body (accepted_response version) = NoBody"
  by (simp_all add: json_response_def accepted_response_def)

text \<open>The host, and the page if there is one, that a request may come from.\<close>

definition local_request :: "url_parser \<Rightarrow> http_request \<Rightarrow> string \<Rightarrow> nat \<Rightarrow> bool" where
  "local_request parse_url r bind_host port \<longleftrightarrow>
     (\<exists>authority host. header_text ''host'' (hq_headers r) = Some authority
        \<and> parse_authority parse_url authority = Some (host, port)
        \<and> host_is_allowed host bind_host
        \<and> (\<forall>origin. header ''origin'' (hq_headers r) = Some origin \<longrightarrow>
             (\<exists>u page. parse_url origin = Some u \<and> ur_scheme u = ''http'' \<and> ur_host u = Some page
                \<and> eq_ignore_ascii_case page host \<and> ur_port u = Some port \<and> host_is_allowed page bind_host)))"

lemma valid_origin_page:
  assumes "valid_origin parse_url (Some origin) host port bind_host"
  shows "\<exists>u page. parse_url origin = Some u \<and> ur_scheme u = ''http'' \<and> ur_host u = Some page
    \<and> eq_ignore_ascii_case page host \<and> ur_port u = Some port \<and> host_is_allowed page bind_host"
proof -
  from assms obtain u where "parse_url origin = Some u"
    by (cases "parse_url origin") (simp_all add: valid_origin_def)
  moreover from this assms obtain page where "ur_host u = Some page"
    by (cases "ur_host u") (simp_all add: valid_origin_def)
  ultimately show ?thesis using assms by (simp add: valid_origin_def)
qed

lemma validated_is_local:
  assumes "validate_origin_and_host parse_url r bind_host port"
  shows "local_request parse_url r bind_host port"
proof -
  from assms obtain host p
    where authority: "Option.bind (header_text ''host'' (hq_headers r)) (parse_authority parse_url) = Some (host, p)"
    by (cases "Option.bind (header_text ''host'' (hq_headers r)) (parse_authority parse_url)")
      (auto simp: validate_origin_and_host_def)
  with assms have "p = port" "host_is_allowed host bind_host"
    and "valid_origin parse_url (header ''origin'' (hq_headers r)) host p bind_host"
    unfolding validate_origin_and_host_def authority option.case prod.case by blast+
  with authority valid_origin_page show ?thesis
    unfolding local_request_def by (auto simp: bind_eq_Some_conv)
qed

lemma answer_message_cases:
  assumes "hr_status (answer_message st w hs version only_server message) \<in> {200, 202}"
  shows "(hr_status (answer_message st w hs version only_server message) = 202 \<longrightarrow> is_notification message)
    \<and> (\<forall>response. hr_body (answer_message st w hs version only_server message) = JsonBody response \<longrightarrow>
         dispatch_http (hs_bridge st) w message only_server = Some response
         \<or> (modern_protocol_version message = Some MODERN_VERSION \<and> listen_subscription message = Inl response))"
  using assms dispatch_answers(1) [of "hs_bridge st" w message only_server True]
  by (auto simp: answer_message_def NOT_STREAMABLE_def dispatch_http_def Let_def
      split: if_splits sum.splits option.splits)


definition local_url :: url where
  "local_url =
     \<lparr>ur_scheme = ''http'', ur_username = [], ur_password = None, ur_host = Some ''localhost'', ur_port = Some 80,
      ur_path = ''/'', ur_query = None, ur_fragment = None\<rparr>"

definition ping_request :: http_request where
  "ping_request =
     \<lparr>hq_method = ''POST'', hq_path = ''/mcp'', hq_scheme = None, hq_authority = None,
      hq_headers = [(''host'', ''localhost''), (''content-type'', ''application/json''),
        (''accept'', ''application/json, text/event-stream'')], hq_body = BodyBytes ''ping''\<rparr>"

definition ping_message :: json where
  "ping_message = JObject [(''jsonrpc'', JString ''2.0''), (''id'', JString ''q''), (''method'', JString ''ping'')]"

definition idle_state :: http_state where
  "idle_state =
     \<lparr>hs_bridge = \<lparr>br_order = [], br_clients = []\<rparr>, hs_bind_host = ''127.0.0.1'', hs_port = 80,
      hs_free_requests = 64, hs_free_listeners = 64, hs_shutdown = False\<rparr>"


end
