(* ===== verification/Subscription.thy ===== *)
theory Subscription
  imports BridgeHttp Sse
begin

text \<open>
  A subscription of the bridge over HTTP (\<open>src/mcp_bridge_http_sse.rs\<close>): connecting a listener per
  server, the task that acknowledges, keeps alive and completes the stream, and the listener tasks
  that forward invalidations of the tool list through a queue of four events.  \<open>ser\<close> prints JSON.
\<close>

definition MAX_QUEUED_EVENTS :: nat where "MAX_QUEUED_EVENTS = 4"

definition INITIAL_RECONNECT_DELAY :: nat where "INITIAL_RECONNECT_DELAY = 100"

definition MAX_RECONNECT_DELAY :: nat where "MAX_RECONNECT_DELAY = 2000"

subsection \<open>Starting\<close>

text \<open>\<open>connects\<close> says which servers a notification connection can be made to.\<close>

definition listener_servers :: "bridge_state \<Rightarrow> listen_subscription \<Rightarrow> string option \<Rightarrow> bridge_failure + string list" where
  "listener_servers br sub only_server =
     (if ls_tools_list_changed sub then selected_server_names br only_server else Inr [])"

definition json_failure :: "json \<Rightarrow> http_response" where
  "json_failure ident =
     \<lparr>hr_status = 200, hr_body = JsonBody (server_failure_response ident), hr_allow = False, hr_version = None\<rparr>"

definition service_unavailable :: http_response where
  "service_unavailable = text_response 503 ''Too many active MCP notification listeners''"

definition subscription_start ::
  "http_state \<Rightarrow> (string \<Rightarrow> bool) \<Rightarrow> listen_subscription \<Rightarrow> string option
     \<Rightarrow> http_response + string list \<times> http_state" where
  "subscription_start st connects sub only_server =
     (case listener_servers (hs_bridge st) sub only_server of
        Inl _ \<Rightarrow> Inl (json_failure (ls_id sub))
      | Inr servers \<Rightarrow>
          if hs_free_listeners st < length servers then Inl service_unavailable
          else if \<not> list_all connects servers then Inl (json_failure (ls_id sub))
          else Inr (servers, st\<lparr>hs_free_listeners := hs_free_listeners st - length servers\<rparr>))"

text \<open>The whole handler: a started subscription keeps the permits of its request and of its listeners.\<close>

definition serve_request ::
  "url_parser \<Rightarrow> parser \<Rightarrow> (string \<Rightarrow> bool) \<Rightarrow> bridge_world \<Rightarrow> http_state \<Rightarrow> http_request \<Rightarrow> http_response \<times> http_state" where
  "serve_request parse_url parse connects w st r =
     (case handle_request parse_url parse st w r of
        Inl refusal \<Rightarrow> (refusal, st)
      | Inr response \<Rightarrow>
          case (hr_body response, endpoint_server (hs_bridge st) (hq_path r)) of
            (Subscribed sub, Inr only_server) \<Rightarrow>
              (case subscription_start st connects sub only_server of
                 Inl failure \<Rightarrow> (set_protocol_version (hr_version response) failure, st)
               | Inr (_, st) \<Rightarrow> (response, st\<lparr>hs_free_requests := hs_free_requests st - 1\<rparr>))
          | _ \<Rightarrow> (response, st))"

subsection \<open>The stream\<close>

datatype frame = Acknowledgement string | Keepalive | Invalidation string | Completion string

datatype listener = Listening | Sleeping nat | Reconnecting nat | Stopped

datatype stream_phase = Starting | Running | Completing | Ending | Finished

text \<open>
  \<open>sb_armed\<close>: the keepalive has found room in the queue and is about to be sent.  While the task is
  \<open>Ending\<close> it has left its loop, but the listeners, which run on other threads, are not aborted yet.
\<close>

record stream =
  sb_queue :: "frame list"
  sb_delivered :: "frame list"
  sb_client :: bool
  sb_shutdown :: bool
  sb_armed :: bool
  sb_failed :: bool
  sb_phase :: stream_phase
  sb_listeners :: "listener list"

definition stream_new :: "nat \<Rightarrow> stream" where
  "stream_new n =
     \<lparr>sb_queue = [], sb_delivered = [], sb_client = True, sb_shutdown = False, sb_armed = False, sb_failed = False,
      sb_phase = Starting, sb_listeners = replicate n Listening\<rparr>"

datatype stream_event = Progress | Delivered | Dropped

definition free_slots :: "stream \<Rightarrow> nat" where
  "free_slots s = MAX_QUEUED_EVENTS - length (sb_queue s)"

definition push :: "frame \<Rightarrow> stream \<Rightarrow> stream" where
  "push f s = s\<lparr>sb_queue := sb_queue s @ [f]\<rparr>"

definition set_listener :: "nat \<Rightarrow> listener \<Rightarrow> stream \<Rightarrow> stream" where
  "set_listener i l s = s\<lparr>sb_listeners := (sb_listeners s)[i := l]\<rparr>"

definition listener_at :: "nat \<Rightarrow> listener \<Rightarrow> stream \<Rightarrow> bool" where
  "listener_at i l s \<longleftrightarrow>
     i < length (sb_listeners s) \<and> sb_listeners s ! i = l \<and> sb_phase s \<in> {Running, Completing, Ending}"

text \<open>After the acknowledgement: a shutdown that came first completes at once, with no listener.\<close>

definition after_acknowledgement :: "stream \<Rightarrow> stream" where
  "after_acknowledgement s =
     (if sb_shutdown s then s\<lparr>sb_phase := Completing, sb_listeners := []\<rparr> else s\<lparr>sb_phase := Running\<rparr>)"

text \<open>The frame that a received notification makes: none when it is not forwarded.\<close>

datatype forwarding = Ignored | Forwarded frame | TooLarge

definition forwarded :: "(json \<Rightarrow> string) \<Rightarrow> json \<Rightarrow> json \<Rightarrow> forwarding" where
  "forwarded ser ident message =
     (if \<not> is_tools_list_changed message then Ignored
      else case stamp_subscription_id message ident of
             (False, _) \<Rightarrow> Ignored
           | (True, stamped) \<Rightarrow>
               (case sse_message (ser stamped) of Some text \<Rightarrow> Forwarded (Invalidation text) | None \<Rightarrow> TooLarge))"

definition acknowledgement_frame :: "(json \<Rightarrow> string) \<Rightarrow> listen_subscription \<Rightarrow> string option" where
  "acknowledgement_frame ser sub =
     sse_message (ser (subscription_acknowledgement (ls_id sub) (ls_tools_list_changed sub)))"

definition completion_frame :: "(json \<Rightarrow> string) \<Rightarrow> listen_subscription \<Rightarrow> string option" where
  "completion_frame ser sub = sse_message (ser (subscription_completion (ls_id sub)))"

inductive stream_step :: "(json \<Rightarrow> string) \<Rightarrow> listen_subscription \<Rightarrow> stream \<Rightarrow> stream_event \<Rightarrow> stream \<Rightarrow> bool"
  for ser sub where
  acknowledged: "sb_phase s = Starting \<Longrightarrow> acknowledgement_frame ser sub = Some text \<Longrightarrow> sb_client s \<Longrightarrow>
    stream_step ser sub s Progress (after_acknowledgement (push (Acknowledgement text) s))"
| not_acknowledged: "sb_phase s = Starting \<Longrightarrow> acknowledgement_frame ser sub = None \<or> \<not> sb_client s \<Longrightarrow>
    stream_step ser sub s Progress (s\<lparr>sb_phase := Finished\<rparr>)"
| client_gone: "sb_phase s = Running \<Longrightarrow> \<not> sb_armed s \<Longrightarrow> \<not> sb_client s \<Longrightarrow>
    stream_step ser sub s Progress (s\<lparr>sb_phase := Ending\<rparr>)"
| stopping: "sb_phase s = Running \<Longrightarrow> \<not> sb_armed s \<Longrightarrow> sb_shutdown s \<Longrightarrow>
    stream_step ser sub s Progress (s\<lparr>sb_phase := Completing\<rparr>)"
| listener_failed: "sb_phase s = Running \<Longrightarrow> \<not> sb_armed s \<Longrightarrow> sb_failed s \<Longrightarrow>
    stream_step ser sub s Progress (s\<lparr>sb_phase := Ending\<rparr>)"
| tick: "sb_phase s = Running \<Longrightarrow> \<not> sb_armed s \<Longrightarrow>
    stream_step ser sub s Progress (s\<lparr>sb_armed := (1 < free_slots s)\<rparr>)"
| kept_alive: "sb_phase s = Running \<Longrightarrow> sb_armed s \<Longrightarrow> sb_client s \<Longrightarrow>
    stream_step ser sub s Progress ((if 0 < free_slots s then push Keepalive s else s)\<lparr>sb_armed := False\<rparr>)"
| not_kept_alive: "sb_phase s = Running \<Longrightarrow> sb_armed s \<Longrightarrow> \<not> sb_client s \<Longrightarrow>
    stream_step ser sub s Progress (s\<lparr>sb_armed := False, sb_phase := Ending\<rparr>)"
| completed: "sb_phase s = Completing \<Longrightarrow> sb_client s \<Longrightarrow> 0 < free_slots s \<Longrightarrow>
    completion_frame ser sub = Some text \<Longrightarrow>
    stream_step ser sub s Progress (push (Completion text) s\<lparr>sb_phase := Ending\<rparr>)"
| not_completed: "sb_phase s = Completing \<Longrightarrow> completion_frame ser sub = None \<or> \<not> sb_client s \<Longrightarrow>
    stream_step ser sub s Progress (s\<lparr>sb_phase := Ending\<rparr>)"
| ended: "sb_phase s = Ending \<Longrightarrow> stream_step ser sub s Progress (s\<lparr>sb_phase := Finished, sb_listeners := []\<rparr>)"
| ignored: "listener_at i Listening s \<Longrightarrow> forwarded ser (ls_id sub) message = Ignored \<Longrightarrow>
    stream_step ser sub s Progress s"
| forward: "listener_at i Listening s \<Longrightarrow> forwarded ser (ls_id sub) message = Forwarded f \<Longrightarrow> sb_client s \<Longrightarrow>
    0 < free_slots s \<Longrightarrow> stream_step ser sub s Progress (push f s)"
| forward_full: "listener_at i Listening s \<Longrightarrow> forwarded ser (ls_id sub) message = Forwarded f \<Longrightarrow> sb_client s \<Longrightarrow>
    free_slots s = 0 \<Longrightarrow> stream_step ser sub s Dropped s"
| forward_too_large: "listener_at i Listening s \<Longrightarrow> forwarded ser (ls_id sub) message = TooLarge \<Longrightarrow>
    stream_step ser sub s Progress (set_listener i Stopped s\<lparr>sb_failed := True\<rparr>)"
| disconnected: "listener_at i Listening s \<Longrightarrow>
    stream_step ser sub s Progress (set_listener i (Sleeping INITIAL_RECONNECT_DELAY) s)"
| slept: "listener_at i (Sleeping d) s \<Longrightarrow> stream_step ser sub s Progress (set_listener i (Reconnecting d) s)"
| reconnected: "listener_at i (Reconnecting d) s \<Longrightarrow> stream_step ser sub s Progress (set_listener i Listening s)"
| not_reconnected: "listener_at i (Reconnecting d) s \<Longrightarrow>
    stream_step ser sub s Progress (set_listener i (Sleeping (min (d * 2) MAX_RECONNECT_DELAY)) s)"
| listener_stopped: "listener_at i Listening s \<or> listener_at i (Sleeping d) s \<Longrightarrow> \<not> sb_client s \<Longrightarrow>
    stream_step ser sub s Progress (set_listener i Stopped s)"
| deliver: "sb_client s \<Longrightarrow> sb_queue s = f # q \<Longrightarrow>
    stream_step ser sub s Delivered (s\<lparr>sb_queue := q, sb_delivered := sb_delivered s @ [f]\<rparr>)"
| client_closes: "stream_step ser sub s Progress (s\<lparr>sb_client := False\<rparr>)"
| shutdown: "stream_step ser sub s Progress (s\<lparr>sb_shutdown := True\<rparr>)"

inductive stream_run :: "(json \<Rightarrow> string) \<Rightarrow> listen_subscription \<Rightarrow> nat \<Rightarrow> stream \<Rightarrow> bool" for ser sub n where
  stream_started: "stream_run ser sub n (stream_new n)"
| stream_more: "stream_run ser sub n s \<Longrightarrow> stream_step ser sub s e t \<Longrightarrow> stream_run ser sub n t"

subsection \<open>No invalidation is lost\<close>

definition is_invalidation :: "frame \<Rightarrow> bool" where
  "is_invalidation f \<longleftrightarrow> (case f of Invalidation _ \<Rightarrow> True | _ \<Rightarrow> False)"

definition is_acknowledgement :: "frame \<Rightarrow> bool" where
  "is_acknowledgement f \<longleftrightarrow> (case f of Acknowledgement _ \<Rightarrow> True | _ \<Rightarrow> False)"

definition is_completion :: "frame \<Rightarrow> bool" where
  "is_completion f \<longleftrightarrow> (case f of Completion _ \<Rightarrow> True | _ \<Rightarrow> False)"

definition idle :: "frame \<Rightarrow> bool" where
  "idle f \<longleftrightarrow> \<not> is_invalidation f \<and> \<not> is_completion f"

definition idle_frames :: "stream \<Rightarrow> nat" where
  "idle_frames s = length (filter idle (sb_queue s))"

definition sent_frames :: "stream \<Rightarrow> frame list" where
  "sent_frames s = sb_delivered s @ sb_queue s"

definition delay_ok :: "listener \<Rightarrow> bool" where
  "delay_ok l \<longleftrightarrow>
     (case l of Sleeping d \<Rightarrow> INITIAL_RECONNECT_DELAY \<le> d \<and> d \<le> MAX_RECONNECT_DELAY
      | Reconnecting d \<Rightarrow> INITIAL_RECONNECT_DELAY \<le> d \<and> d \<le> MAX_RECONNECT_DELAY | _ \<Rightarrow> True)"

definition queue_inv :: "stream \<Rightarrow> bool" where
  "queue_inv s \<longleftrightarrow>
     length (sb_queue s) \<le> MAX_QUEUED_EVENTS \<and> idle_frames s \<le> (if sb_armed s then 2 else 3)
     \<and> (sb_armed s \<longrightarrow> sb_phase s = Running)"

text \<open>The acknowledgement is the first frame and the only one; at most one completion is sent, at the end of the task.\<close>

definition order_inv :: "stream \<Rightarrow> bool" where
  "order_inv s \<longleftrightarrow>
     (sb_phase s = Starting \<longrightarrow> sent_frames s = [] \<and> \<not> sb_armed s)
     \<and> (sent_frames s \<noteq> [] \<longrightarrow> is_acknowledgement (hd (sent_frames s)) \<and> \<not> list_ex is_acknowledgement (tl (sent_frames s)))
     \<and> (sb_phase s \<in> {Running, Completing, Ending} \<longrightarrow> sent_frames s \<noteq> [])
     \<and> length (filter is_completion (sent_frames s)) \<le> (if sb_phase s \<in> {Ending, Finished} then 1 else 0)"

definition delay_inv :: "stream \<Rightarrow> bool" where
  "delay_inv s \<longleftrightarrow> list_all delay_ok (sb_listeners s)"

lemma frame_kinds [simp]:
  "is_invalidation (Invalidation t)" "\<not> is_invalidation (Acknowledgement t)" "\<not> is_invalidation Keepalive"
  "\<not> is_invalidation (Completion t)" "is_acknowledgement (Acknowledgement t)" "\<not> is_acknowledgement (Invalidation t)"
  "\<not> is_acknowledgement Keepalive" "\<not> is_acknowledgement (Completion t)" "is_completion (Completion t)"
  "\<not> is_completion (Invalidation t)" "\<not> is_completion (Acknowledgement t)" "\<not> is_completion Keepalive"
  "idle Keepalive" "idle (Acknowledgement t)" "\<not> idle (Invalidation t)" "\<not> idle (Completion t)"
  by (simp_all add: is_invalidation_def is_acknowledgement_def is_completion_def idle_def)

lemma push_simps [simp]:
  "sb_queue (push f s) = sb_queue s @ [f]" "sb_delivered (push f s) = sb_delivered s" "sb_client (push f s) = sb_client s"
  "sb_shutdown (push f s) = sb_shutdown s" "sb_armed (push f s) = sb_armed s" "sb_failed (push f s) = sb_failed s"
  "sb_phase (push f s) = sb_phase s" "sb_listeners (push f s) = sb_listeners s"
  "sent_frames (push f s) = sent_frames s @ [f]"
  by (simp_all add: push_def sent_frames_def)

lemma set_listener_simps [simp]:
  "sb_queue (set_listener i l s) = sb_queue s" "sb_delivered (set_listener i l s) = sb_delivered s"
  "sb_client (set_listener i l s) = sb_client s" "sb_shutdown (set_listener i l s) = sb_shutdown s"
  "sb_armed (set_listener i l s) = sb_armed s" "sb_failed (set_listener i l s) = sb_failed s"
  "sb_phase (set_listener i l s) = sb_phase s" "sb_listeners (set_listener i l s) = (sb_listeners s)[i := l]"
  "sent_frames (set_listener i l s) = sent_frames s"
  by (simp_all add: set_listener_def sent_frames_def)

lemma after_acknowledgement_simps [simp]:
  "sb_queue (after_acknowledgement s) = sb_queue s" "sb_delivered (after_acknowledgement s) = sb_delivered s"
  "sb_armed (after_acknowledgement s) = sb_armed s"
  "sent_frames (after_acknowledgement s) = sent_frames s"
  "sb_phase (after_acknowledgement s) = (if sb_shutdown s then Completing else Running)"
  "sb_listeners (after_acknowledgement s) = (if sb_shutdown s then [] else sb_listeners s)"
  by (simp_all add: after_acknowledgement_def sent_frames_def)

lemma forwarded_is_invalidation: "forwarded ser ident message = Forwarded f \<Longrightarrow> is_invalidation f"
  by (auto simp: forwarded_def split: if_split_asm prod.split_asm bool.split_asm option.split_asm)

lemma is_invalidation_kinds [simp]:
  "is_invalidation f \<Longrightarrow> \<not> is_acknowledgement f" "is_invalidation f \<Longrightarrow> \<not> is_completion f" "is_invalidation f \<Longrightarrow> \<not> idle f"
  by (cases f; simp)+

lemma queue_inv_step: "stream_step ser sub s e t \<Longrightarrow> order_inv s \<Longrightarrow> queue_inv s \<Longrightarrow> queue_inv t"
proof (induction rule: stream_step.induct)
  case (tick s)
  have "idle_frames s \<le> length (sb_queue s)" by (simp add: idle_frames_def)
  then have "1 < free_slots s \<Longrightarrow> idle_frames s \<le> 2" by (simp add: free_slots_def MAX_QUEUED_EVENTS_def)
  moreover have "idle_frames (s\<lparr>sb_armed := b\<rparr>) = idle_frames s" for b by (simp add: idle_frames_def)
  ultimately show ?case using tick by (simp add: queue_inv_def)
qed (auto simp: queue_inv_def order_inv_def idle_frames_def free_slots_def MAX_QUEUED_EVENTS_def sent_frames_def
       dest!: forwarded_is_invalidation split: if_split_asm)

lemma order_inv_step: "stream_step ser sub s e t \<Longrightarrow> order_inv s \<Longrightarrow> order_inv t"
proof (induction rule: stream_step.induct)
  case (deliver s f q)
  then show ?case by (auto simp: order_inv_def sent_frames_def)
qed (auto simp: order_inv_def sent_frames_def listener_at_def hd_append tl_append dest!: forwarded_is_invalidation
       split: if_split_asm list.split)

lemma delay_ok_listening [simp]: "delay_ok Listening" "delay_ok Stopped" "delay_ok (Sleeping INITIAL_RECONNECT_DELAY)"
  by (simp_all add: delay_ok_def INITIAL_RECONNECT_DELAY_def MAX_RECONNECT_DELAY_def)

lemma delay_inv_set_listener: "delay_inv s \<Longrightarrow> delay_ok l \<Longrightarrow> delay_inv (set_listener i l s)"
  by (auto simp: delay_inv_def list_all_iff dest!: set_update_subset_insert [THEN subsetD])

lemma delay_inv_at: "listener_at i l s \<Longrightarrow> delay_inv s \<Longrightarrow> delay_ok l"
  by (auto simp: listener_at_def delay_inv_def list_all_length)

lemma delay_inv_step: "stream_step ser sub s e t \<Longrightarrow> delay_inv s \<Longrightarrow> delay_inv t"
proof (induction rule: stream_step.induct)
  case (not_reconnected i d s)
  then have "delay_ok (Sleeping (min (d * 2) MAX_RECONNECT_DELAY))"
    by (auto dest!: delay_inv_at simp: delay_ok_def INITIAL_RECONNECT_DELAY_def MAX_RECONNECT_DELAY_def)
  with not_reconnected show ?case by (simp add: delay_inv_set_listener)
next
  case (slept i d s)
  then have "delay_ok (Reconnecting d)" by (auto dest!: delay_inv_at simp: delay_ok_def)
  with slept show ?case by (simp add: delay_inv_set_listener)
next
  case (forward_too_large i s message)
  then show ?case using delay_inv_set_listener [of s Stopped i] by (simp add: delay_inv_def)
qed (auto simp: delay_inv_set_listener, (auto simp: delay_inv_def)?)

lemma stream_run_inv:
  assumes "stream_run ser sub n s"
  shows "queue_inv s \<and> order_inv s \<and> delay_inv s"
  using assms
proof induction
  case stream_started
  show ?case
    by (simp add: queue_inv_def order_inv_def delay_inv_def stream_new_def idle_frames_def sent_frames_def
        list_all_length)
next
  case (stream_more s e t)
  then show ?case using queue_inv_step order_inv_step delay_inv_step by blast
qed

text \<open>C27: In every interleaving of a subscription's task, its listeners, the client and the shutdown, an
  invalidation is dropped only when the queue is full and already holds an invalidation, or the
  completion of the stream, that the client has yet to receive: keepalives and the acknowledgement
  never take the last place.  Moreover the queue never holds more than four frames, the first frame
  sent is the acknowledgement and no other frame is one, at most one completion is sent, and a
  listener that sleeps or reconnects has a delay between the initial and the maximal one.\<close>

theorem dropped_invalidations_are_subsumed:
  assumes "stream_run ser sub n s"
  shows "(\<forall>t. stream_step ser sub s Dropped t \<longrightarrow>
       t = s \<and> length (sb_queue s) = MAX_QUEUED_EVENTS
       \<and> list_ex (\<lambda>f. is_invalidation f \<or> is_completion f) (sb_queue s))
     \<and> length (sb_queue s) \<le> MAX_QUEUED_EVENTS
     \<and> (sent_frames s \<noteq> [] \<longrightarrow>
          is_acknowledgement (hd (sent_frames s)) \<and> \<not> list_ex is_acknowledgement (tl (sent_frames s)))
     \<and> length (filter is_completion (sent_frames s)) \<le> 1 \<and> list_all delay_ok (sb_listeners s)"
proof -
  have inv: "queue_inv s" "order_inv s" "delay_inv s" using stream_run_inv [OF assms] by auto
  have dropped: "t = s \<and> length (sb_queue s) = MAX_QUEUED_EVENTS
      \<and> list_ex (\<lambda>f. is_invalidation f \<or> is_completion f) (sb_queue s)" if "stream_step ser sub s Dropped t" for t
  proof -
    from that have full: "t = s" "length (sb_queue s) = MAX_QUEUED_EVENTS"
      using inv(1) by (cases rule: stream_step.cases, simp_all add: free_slots_def queue_inv_def)+
    have "list_ex (\<lambda>f. is_invalidation f \<or> is_completion f) (sb_queue s)"
    proof (rule ccontr)
      assume "\<not> list_ex (\<lambda>f. is_invalidation f \<or> is_completion f) (sb_queue s)"
      then have "filter idle (sb_queue s) = sb_queue s" by (auto simp: filter_id_conv list_ex_iff idle_def)
      with full inv(1) show False
        by (simp add: queue_inv_def idle_frames_def MAX_QUEUED_EVENTS_def split: if_split_asm)
    qed
    with full show ?thesis by simp
  qed
  moreover have "length (filter is_completion (sent_frames s)) \<le> 1"
    using inv(2) by (auto simp: order_inv_def split: if_split_asm)
  moreover have "sent_frames s \<noteq> [] \<longrightarrow>
      is_acknowledgement (hd (sent_frames s)) \<and> \<not> list_ex is_acknowledgement (tl (sent_frames s))"
    using inv(2) unfolding order_inv_def by blast
  ultimately show ?thesis using inv by (simp add: queue_inv_def delay_inv_def)
qed

definition sample_subscription :: listen_subscription where
  "sample_subscription = \<lparr>ls_id = JString ''s'', ls_tools_list_changed = True\<rparr>"

definition sample_invalidation :: json where
  "sample_invalidation =
     JObject [(''jsonrpc'', JString ''2.0''), (''method'', JString ''notifications/tools/list_changed'')]"

definition small_frame :: string where
  "small_frame = ''event: message'' @ [LF] @ ''data: '' @ ''{}'' @ [LF, LF]"

definition queued_stream :: "nat \<Rightarrow> stream" where
  "queued_stream k =
     (stream_new 1)\<lparr>sb_phase := Running,
       sb_queue := Acknowledgement small_frame # replicate k (Invalidation small_frame)\<rparr>"

theorem dropped_invalidations_are_subsumed_witness:
  "stream_step (\<lambda>_. ''{}'') sample_subscription (queued_stream 3) Dropped (queued_stream 3)
   \<and> list_ex (\<lambda>f. is_invalidation f \<or> is_completion f) (sb_queue (queued_stream 3))"
proof -
  let ?ser = "\<lambda>_ :: json. ''{}''" and ?frame = "Invalidation small_frame" and ?sub = sample_subscription
  have printed: "sse_message ''{}'' = Some small_frame" by (simp add: sse_message_def small_frame_def MAX_SSE_MESSAGE_BYTES_def)
  have "is_tools_list_changed sample_invalidation" "fst (stamp_subscription_id sample_invalidation (ls_id ?sub))"
    by code_simp+
  then have forwarded: "forwarded ?ser (ls_id ?sub) sample_invalidation = Forwarded ?frame"
    by (cases "stamp_subscription_id sample_invalidation (ls_id ?sub)") (simp add: forwarded_def printed)
  have listening: "listener_at 0 Listening (queued_stream k)" for k by (simp add: listener_at_def queued_stream_def stream_new_def)
  have acknowledged: "after_acknowledgement (push (Acknowledgement small_frame) (stream_new 1)) = queued_stream 0"
    by (simp add: after_acknowledgement_def push_def stream_new_def queued_stream_def)
  have "stream_step ?ser ?sub (stream_new 1) Progress (queued_stream 0)"
    unfolding acknowledged [symmetric]
    by (rule stream_step.acknowledged) (simp_all add: acknowledgement_frame_def printed, simp_all add: stream_new_def)
  with stream_started have start: "stream_run ?ser ?sub 1 (queued_stream 0)" by (rule stream_more)
  have more: "stream_run ?ser ?sub 1 (queued_stream (Suc k))" if "stream_run ?ser ?sub 1 (queued_stream k)" "k < 3" for k
  proof -
    have pushed: "push ?frame (queued_stream k) = queued_stream (Suc k)"
      by (simp add: push_def queued_stream_def replicate_append_same)
    have "stream_step ?ser ?sub (queued_stream k) Progress (push ?frame (queued_stream k))"
      using that(2) by (intro stream_step.forward [OF listening forwarded])
        (simp_all add: free_slots_def queued_stream_def stream_new_def MAX_QUEUED_EVENTS_def)
    with that(1) show ?thesis unfolding pushed by (rule stream_more)
  qed
  have full: "stream_run ?ser ?sub 1 (queued_stream 3)"
    using more [OF more [OF more [OF start]]] by (simp add: numeral_3_eq_3)
  have "stream_step ?ser ?sub (queued_stream 3) Dropped (queued_stream 3)"
    by (rule stream_step.forward_full [OF listening forwarded])
      (simp_all add: free_slots_def queued_stream_def stream_new_def MAX_QUEUED_EVENTS_def)
  with dropped_invalidations_are_subsumed [OF full] show ?thesis by blast
qed

end
