(* ===== verification/HttpRequest.thy ===== *)
theory HttpRequest
  imports BridgeHttp Sse Session
begin

text \<open>
  What an HTTP upstream sends (\<open>src/upstream_http_options.rs\<close>, \<open>src/upstream_http_request.rs\<close> and the
  parts of \<open>src/upstream_http.rs\<close> that they share): failures and their wire form, the configured
  headers, the origin the credentials are bound to, the requests of the pool, and the headers of a
  POST.  \<open>header_name\<close> is the parser of header names of the HTTP library.  A list of headers may hold
  a name more than once, as the library's does.
\<close>

subsection \<open>Failures\<close>

datatype failure_kind = AuthFailure | OfflineFailure | TimeoutFailure | HttpStatusFailure | OtherFailure

record transport_failure =
  tf_kind :: failure_kind
  tf_status_code :: "u64 option"

fun failure_name :: "failure_kind \<Rightarrow> string" where
  "failure_name AuthFailure = ''auth''"
| "failure_name OfflineFailure = ''offline''"
| "failure_name TimeoutFailure = ''timeout''"
| "failure_name HttpStatusFailure = ''http''"
| "failure_name OtherFailure = ''error''"

definition failure_data :: "transport_failure \<Rightarrow> json" where
  "failure_data f =
     JObject [(''mcpCliFailure'',
       JObject ((''kind'', JString (failure_name (tf_kind f)))
                # (case tf_status_code f of Some status \<Rightarrow> [(''statusCode'', from_u64 status)] | None \<Rightarrow> [])))]"

text \<open>A unit variant is read from its name, or from an object that maps its name to null.\<close>

definition named_kind :: "string \<Rightarrow> failure_kind option" where
  "named_kind name =
     map_of (map (\<lambda>k. (failure_name k, k)) [AuthFailure, OfflineFailure, TimeoutFailure, HttpStatusFailure, OtherFailure]) name"

fun read_kind :: "json \<Rightarrow> failure_kind option" where
  "read_kind (JString name) = named_kind name"
| "read_kind (JObject [(name, JNull)]) = named_kind name"
| "read_kind _ = None"

definition read_status :: "json \<Rightarrow> u64 option option" where
  "read_status v =
     (if v = JNull then Some None
      else case as_u64 v of Some n \<Rightarrow> if n \<le> 65535 then Some (Some n) else None | None \<Rightarrow> None)"

text \<open>A struct is read from an object, or from the array of its fields.\<close>

fun read_failure :: "json \<Rightarrow> transport_failure option" where
  "read_failure (JObject m) =
     Option.bind (Option.bind (obj_get ''kind'' m) read_kind) (\<lambda>kind.
     Option.bind (case obj_get ''statusCode'' m of Some v \<Rightarrow> read_status v | None \<Rightarrow> Some None) (\<lambda>status.
     Some \<lparr>tf_kind = kind, tf_status_code = status\<rparr>))"
| "read_failure (JArray [k, v]) =
     Option.bind (read_kind k) (\<lambda>kind.
     Option.bind (read_status v) (\<lambda>status. Some \<lparr>tf_kind = kind, tf_status_code = status\<rparr>))"
| "read_failure _ = None"

definition from_data :: "json \<Rightarrow> transport_failure option" where
  "from_data v = Option.bind (vget ''mcpCliFailure'' v) read_failure"

lemma named_kind_failure_name [simp]: "named_kind (failure_name k) = Some k"
  by (cases k) (simp_all add: named_kind_def)

lemma from_data_failure_data:
  assumes "case tf_status_code f of Some status \<Rightarrow> status \<le> 65535 | None \<Rightarrow> True"
  shows "from_data (failure_data f) = Some f"
  using assms
  by (cases f) (auto simp: from_data_def failure_data_def obj_get_def read_status_def from_u64_def split: option.splits)

record http_failure =
  hf_metadata :: transport_failure
  hf_message :: string

definition http_failure_new :: "failure_kind \<Rightarrow> string \<Rightarrow> http_failure" where
  "http_failure_new kind message = \<lparr>hf_metadata = \<lparr>tf_kind = kind, tf_status_code = None\<rparr>, hf_message = message\<rparr>"

definition status_failure :: "u64 \<Rightarrow> string \<Rightarrow> http_failure" where
  "status_failure status message =
     \<lparr>hf_metadata = \<lparr>tf_kind = (if status = 401 \<or> status = 403 then AuthFailure else HttpStatusFailure),
                     tf_status_code = Some status\<rparr>,
      hf_message = message\<rparr>"

abbreviation other_failure :: "string \<Rightarrow> http_failure" where
  "other_failure \<equiv> http_failure_new OtherFailure"

definition failure_payload :: "json \<Rightarrow> http_failure \<Rightarrow> json" where
  "failure_payload ident e =
     JObject [(''jsonrpc'', JString ''2.0''), (''id'', ident),
       (''error'', JObject [(''code'', from_i64 (- 32000)), (''message'', JString (hf_message e)),
                            (''data'', failure_data (hf_metadata e))])]"

definition unsupported_payload :: "json \<Rightarrow> u64 \<Rightarrow> json" where
  "unsupported_payload ident status =
     JObject [(''jsonrpc'', JString ''2.0''), (''id'', ident),
       (''error'', JObject [(''code'', from_i64 DISCOVERY_UNSUPPORTED),
                            (''message'', JString ''HTTP endpoint does not support modern MCP discovery''),
                            (''data'', discovery_rejection_data status)])]"

definition valid_message :: "json \<Rightarrow> bool" where
  "valid_message v \<longleftrightarrow>
     is_object v \<and> Option.bind (vget ''jsonrpc'' v) as_str = Some ''2.0''
     \<and> (Option.bind (vget ''method'' v) as_str \<noteq> None
        \<or> (vget ''id'' v \<noteq> None \<and> (vget ''result'' v \<noteq> None \<or> vget ''error'' v \<noteq> None)))"

definition parse_message :: "parser \<Rightarrow> string \<Rightarrow> http_failure + json" where
  "parse_message parse body =
     (case parse body of
        None \<Rightarrow> Inl (other_failure ''HTTP upstream returned invalid JSON'')
      | Some v \<Rightarrow>
          if valid_message v then Inr v
          else Inl (other_failure ''HTTP upstream returned an invalid JSON-RPC message''))"

subsection \<open>Options\<close>

abbreviation AUTHORIZATION :: string where "AUTHORIZATION \<equiv> ''authorization''"
abbreviation CONTENT_TYPE :: string where "CONTENT_TYPE \<equiv> ''content-type''"
abbreviation ACCEPT :: string where "ACCEPT \<equiv> ''accept''"

definition transport_headers :: "string list" where
  "transport_headers = [''mcp-session-id'', ''mcp-protocol-version'', ''mcp-method'', ''mcp-name'']"

record http_auth =
  au_server_url :: string
  au_read_only :: bool
  au_cached_only :: bool

record options =
  op_headers :: headers
  op_auth :: "http_auth option"
  op_request_timeout :: duration
  op_read_timeout :: duration

definition REQUEST_TIMEOUT :: duration where "REQUEST_TIMEOUT = 60000"

definition READ_TIMEOUT :: duration where "READ_TIMEOUT = 30000"

definition configured_request_timeout :: "u64 option \<Rightarrow> duration" where
  "configured_request_timeout timeout = (case timeout of Some ms \<Rightarrow> unat ms | None \<Rightarrow> REQUEST_TIMEOUT)"

text \<open>\<open>HeaderMap::insert\<close>, \<open>HeaderMap::append\<close> and \<open>RequestBuilder::headers\<close>.\<close>

definition put_header :: "string \<Rightarrow> string \<Rightarrow> headers \<Rightarrow> headers" where
  "put_header name v hs = filter (\<lambda>h. fst h \<noteq> name) hs @ [(name, v)]"

definition append_header :: "string \<Rightarrow> string \<Rightarrow> headers \<Rightarrow> headers" where
  "append_header name v hs = hs @ [(name, v)]"

definition replace_headers :: "headers \<Rightarrow> headers \<Rightarrow> headers" where
  "replace_headers new hs = filter (\<lambda>h. fst h \<notin> fst ` set new) hs @ new"

fun configure_headers :: "(string \<Rightarrow> string option) \<Rightarrow> bool \<Rightarrow> (string \<times> string) list \<Rightarrow> headers \<Rightarrow> string + headers" where
  "configure_headers header_name authorized [] configured = Inr configured"
| "configure_headers header_name authorized ((name, v) # rest) configured =
     (case header_name name of
        None \<Rightarrow> Inl ''Invalid configured HTTP headers''
      | Some name \<Rightarrow>
          if authorized \<and> name = AUTHORIZATION then configure_headers header_name authorized rest configured
          else if name \<in> set transport_headers then configure_headers header_name authorized rest configured
          else if \<not> header_valid v then Inl ''Invalid configured HTTP headers''
          else configure_headers header_name authorized rest (put_header name v configured))"

definition options_new ::
  "(string \<Rightarrow> string option) \<Rightarrow> (string \<times> string) list \<Rightarrow> u64 option \<Rightarrow> http_auth option \<Rightarrow> string + options" where
  "options_new header_name headers timeout auth =
     res_bind (configure_headers header_name (auth \<noteq> None) headers []) (\<lambda>configured.
     if timeout = Some 0 then Inl ''HTTP deadline must be positive''
     else Inr \<lparr>op_headers = configured, op_auth = auth,
               op_request_timeout = configured_request_timeout timeout,
               op_read_timeout = (case timeout of Some ms \<Rightarrow> unat ms | None \<Rightarrow> READ_TIMEOUT)\<rparr>)"

text \<open>Origins of URLs with a host and the scheme http or https are compared by scheme, host and port.\<close>

definition same_origin :: "url \<Rightarrow> url \<Rightarrow> bool" where
  "same_origin a b \<longleftrightarrow> ur_scheme a = ur_scheme b \<and> ur_host a = ur_host b \<and> ur_port a = ur_port b"

definition validate_origin :: "url_parser \<Rightarrow> options \<Rightarrow> url \<Rightarrow> string + unit" where
  "validate_origin parse_url options u =
     (case op_auth options of
        None \<Rightarrow> Inr ()
      | Some auth \<Rightarrow>
          (case parse_url (au_server_url auth) of
             Some bound \<Rightarrow>
               if same_origin bound u then Inr ()
               else Inl ''HTTP authorization origin does not match upstream''
           | None \<Rightarrow> Inl ''HTTP authorization origin does not match upstream''))"

definition spawn_configured ::
  "(string \<Rightarrow> string option) \<Rightarrow> url_parser \<Rightarrow> string \<Rightarrow> (string \<times> string) list \<Rightarrow> u64 option \<Rightarrow> http_auth option
     \<Rightarrow> string + url \<times> options" where
  "spawn_configured header_name parse_url address headers timeout auth =
     res_bind (options_new header_name headers timeout auth) (\<lambda>options.
     case parse_url address of
       None \<Rightarrow> Inl ''Invalid HTTP upstream URL''
     | Some u \<Rightarrow>
         if ur_scheme u \<notin> {''http'', ''https''} \<or> ur_host u = None
         then Inl ''HTTP upstream requires an HTTP or HTTPS URL''
         else if ur_username u \<noteq> [] \<or> ur_password u \<noteq> None
         then Inl ''HTTP upstream URL must not contain credentials''
         else res_bind (validate_origin parse_url options u) (\<lambda>_. Inr (u, options)))"

text \<open>\<open>grant\<close> is what the credentials give: nothing, a header value, or \<open>Inl ()\<close> when they are unavailable.\<close>

definition unavailable_message :: "http_auth \<Rightarrow> string" where
  "unavailable_message auth =
     (if au_read_only auth
      then ''HTTP authorization unavailable: read-only policy blocks refresh; remove MCP_CLI_CREDENTIALS_READ_ONLY and MCP_POOL_CREDENTIALS_READ_ONLY only for explicitly authorized `mcp-cli auth SERVER`''
      else if au_cached_only auth
      then ''HTTP authorization unavailable: --no-oauth permits valid cached credentials only; run `mcp-cli auth SERVER` explicitly before retrying''
      else ''HTTP authorization could not be refreshed'')"

definition authorize :: "options \<Rightarrow> unit + string option \<Rightarrow> http_failure + headers" where
  "authorize options grant =
     (case op_auth options of
        None \<Rightarrow> Inr (op_headers options)
      | Some auth \<Rightarrow>
          (case grant of
             Inl _ \<Rightarrow> Inl (http_failure_new AuthFailure (unavailable_message auth))
           | Inr None \<Rightarrow> Inr (op_headers options)
           | Inr (Some v) \<Rightarrow>
               if header_valid v then Inr (append_header AUTHORIZATION v (op_headers options))
               else Inl (http_failure_new AuthFailure ''HTTP authorization header is invalid'')))"

subsection \<open>Requests\<close>

datatype exchange_kind = InitializeExchange era | DiscoveryExchange era | InitializedExchange era | OperationExchange era

fun exchange_era :: "exchange_kind \<Rightarrow> era" where
  "exchange_era (InitializeExchange e) = e"
| "exchange_era (DiscoveryExchange e) = e"
| "exchange_era (InitializedExchange e) = e"
| "exchange_era (OperationExchange e) = e"

definition modern_exchange :: "exchange_kind \<Rightarrow> bool" where
  "modern_exchange k \<longleftrightarrow> exchange_era k = ModernEra"

fun is_initialize :: "exchange_kind \<Rightarrow> bool" where
  "is_initialize (InitializeExchange _) = True"
| "is_initialize _ = False"

fun is_discovery :: "exchange_kind \<Rightarrow> bool" where
  "is_discovery (DiscoveryExchange _) = True"
| "is_discovery _ = False"

definition is_handshake :: "exchange_kind \<Rightarrow> bool" where
  "is_handshake k \<longleftrightarrow> is_initialize k \<or> is_discovery k"

definition is_barrier :: "exchange_kind \<Rightarrow> bool" where
  "is_barrier k \<longleftrightarrow> is_handshake k \<or> (case k of InitializedExchange _ \<Rightarrow> True | _ \<Rightarrow> False)"

datatype exchange_mode = InitialLegacy | Standard

datatype negotiation = Probing | Active

definition admit :: "negotiation \<Rightarrow> exchange_kind \<Rightarrow> bool \<Rightarrow> exchange_mode \<times> negotiation" where
  "admit n kind quiescent =
     (if n = Probing \<and> quiescent \<and> is_initialize kind then InitialLegacy else Standard,
      if is_discovery kind then n else Active)"

definition MAX_HTTP_REQUEST_BYTES :: nat where "MAX_HTTP_REQUEST_BYTES = 1024 * 1024"

record http_envelope =
  uq_line :: string
  uq_deadline :: "shared_deadline option"

record posted_request =
  rq_line :: string
  rq_identifier :: "json option"
  rq_kind :: exchange_kind
  rq_method :: "string option"
  rq_name :: "string option"
  rq_timeout_ms :: "u64 option"
  rq_shared :: bool
  rq_budget :: shared_deadline

definition request_deadline :: "u64 option \<Rightarrow> bool \<Rightarrow> options \<Rightarrow> duration" where
  "request_deadline timeout shared options =
     (case timeout of
        Some ms \<Rightarrow> if shared then max (unat ms) (op_request_timeout options) else unat ms
      | None \<Rightarrow> op_request_timeout options)"

definition exchange_kind_of :: "string option \<Rightarrow> era \<Rightarrow> exchange_kind" where
  "exchange_kind_of m e =
     (if m = Some ''initialize'' then InitializeExchange e
      else if m = Some ''server/discover'' then DiscoveryExchange e
      else if m = Some ''notifications/initialized'' then InitializedExchange e
      else OperationExchange e)"

definition request_identifier :: "json \<Rightarrow> json option" where
  "request_identifier v =
     (case Option.bind (vget ''method'' v) as_str of
        None \<Rightarrow> None
      | Some _ \<Rightarrow> (case vget ''id'' v of Some i \<Rightarrow> if is_null i then None else Some i | None \<Rightarrow> None))"

definition request_budget ::
  "clock \<Rightarrow> cells \<Rightarrow> options \<Rightarrow> shared_deadline option \<Rightarrow> u64 option \<Rightarrow> bool \<Rightarrow> string + shared_deadline \<times> cells" where
  "request_budget c s options given timeout shared =
     (case given of
        Some budget \<Rightarrow> Inr (budget, s)
      | None \<Rightarrow>
          (case checked_add c (now c 1) (request_deadline timeout shared options) of
             None \<Rightarrow> Inl ''HTTP request deadline exceeds the clock range''
           | Some deadline \<Rightarrow> Inr (sd_new deadline s)))"

definition request_parse ::
  "serializer \<Rightarrow> parser \<Rightarrow> clock \<Rightarrow> cells \<Rightarrow> options \<Rightarrow> http_envelope \<Rightarrow> http_failure + posted_request \<times> cells" where
  "request_parse ser parse c s options envelope =
     (if length (uq_line envelope) > MAX_HTTP_REQUEST_BYTES then Inl (other_failure ''HTTP request exceeds size limit'')
      else case parse (uq_line envelope) of
        None \<Rightarrow> Inl (other_failure ''HTTP request is not valid JSON'')
      | Some (JObject m) \<Rightarrow>
          (case timeout_ms c (JObject m) of
             Inl message \<Rightarrow> Inl (other_failure message)
           | Inr timeout \<Rightarrow>
               let v = JObject (obj_remove TIMEOUT_FIELD m);
                   shared = (cacheable_request v \<noteq> None);
                   method0 = Option.bind (vget ''method'' v) as_str;
                   e = (if (case vget ''params'' v of Some p \<Rightarrow> is_modern p | None \<Rightarrow> False) then ModernEra else LegacyEra)
               in case request_budget c s options (uq_deadline envelope) timeout shared of
                    Inl message \<Rightarrow> Inl (other_failure message)
                  | Inr (budget, s) \<Rightarrow>
                      Inr (\<lparr>rq_line = (if timeout \<noteq> None then ser v else uq_line envelope),
                            rq_identifier = request_identifier v, rq_kind = exchange_kind_of method0 e,
                            rq_method = method0,
                            rq_name = Option.bind (Option.bind (vget ''params'' v) (vget ''name'')) as_str,
                            rq_timeout_ms = timeout, rq_shared = shared, rq_budget = budget\<rparr>, s))
      | Some _ \<Rightarrow> Inl (other_failure ''HTTP transport requires a JSON-RPC object''))"

text \<open>The identifier that a request which could not be parsed is refused with.\<close>

definition refused_identifier :: "parser \<Rightarrow> http_envelope \<Rightarrow> json option" where
  "refused_identifier parse envelope = Option.bind (parse (uq_line envelope)) (vget ''id'')"

definition read_deadline :: "posted_request \<Rightarrow> options \<Rightarrow> duration" where
  "read_deadline r options =
     (if rq_timeout_ms r \<noteq> None then request_deadline (rq_timeout_ms r) (rq_shared r) options
      else op_read_timeout options)"

subsection \<open>The headers of a POST\<close>

datatype http_session = FreshSession | ReadySession "string option" string | ExpiredSession

definition content_headers :: headers where
  "content_headers =
     [(CONTENT_TYPE, ''application/json''), (ACCEPT, ''application/json, text/event-stream'')]"

definition session_headers :: "http_session \<Rightarrow> posted_request \<Rightarrow> http_failure + headers" where
  "session_headers st r =
     (case st of
        ExpiredSession \<Rightarrow>
          Inl (other_failure ''MCP HTTP session expired; restart the upstream before sending requests'')
      | ReadySession ident protocol \<Rightarrow>
          if is_initialize (rq_kind r) then Inl (other_failure ''MCP HTTP upstream is already initialized'')
          else if (protocol = MODERN_VERSION) \<noteq> modern_exchange (rq_kind r)
          then Inl (other_failure ''MCP request protocol does not match the shared upstream'')
          else Inr ((PROTOCOL_VERSION_HEADER, protocol)
                    # (case ident of Some i \<Rightarrow> [(SESSION_ID_HEADER, i)] | None \<Rightarrow> []))
      | FreshSession \<Rightarrow> Inr [])"

definition modern_headers :: "posted_request \<Rightarrow> headers" where
  "modern_headers r =
     (if modern_exchange (rq_kind r)
      then (PROTOCOL_VERSION_HEADER, MODERN_VERSION)
           # (case rq_method r of Some m \<Rightarrow> [(METHOD_HEADER, m)] | None \<Rightarrow> [])
           @ (case rq_name r of Some n \<Rightarrow> [(NAME_HEADER, n)] | None \<Rightarrow> [])
      else [])"

definition post_headers :: "options \<Rightarrow> unit + string option \<Rightarrow> http_session \<Rightarrow> posted_request \<Rightarrow> http_failure + headers" where
  "post_headers options grant st r =
     res_bind (authorize options grant) (\<lambda>authorized.
     res_bind (session_headers st r) (\<lambda>own.
     Inr (replace_headers content_headers authorized @ own @ modern_headers r)))"

subsection \<open>Whose headers they are\<close>

definition header_values :: "string \<Rightarrow> headers \<Rightarrow> string list" where
  "header_values name hs = map snd (filter (\<lambda>h. fst h = name) hs)"

definition option_list :: "'a option \<Rightarrow> 'a list" where
  "option_list x = (case x of Some y \<Rightarrow> [y] | None \<Rightarrow> [])"

lemma header_values_simps [simp]:
  "header_values name [] = []"
  "header_values name (h # hs) = (if fst h = name then snd h # header_values name hs else header_values name hs)"
  "header_values name (hs @ hs') = header_values name hs @ header_values name hs'"
  by (simp_all add: header_values_def)

lemma header_values_none: "name \<notin> fst ` set hs \<Longrightarrow> header_values name hs = []"
  by (auto simp: header_values_def filter_empty_conv image_iff)

lemma header_values_filter:
  "header_values name (filter (\<lambda>h. P (fst h)) hs) = (if P name then header_values name hs else [])"
  by (induction hs) auto

lemma configure_headers_own:
  assumes "configure_headers header_name authorized given configured = Inr hs"
    and "\<forall>h \<in> set configured. fst h \<notin> set transport_headers \<and> (authorized \<longrightarrow> fst h \<noteq> AUTHORIZATION)"
  shows "\<forall>h \<in> set hs. fst h \<notin> set transport_headers \<and> (authorized \<longrightarrow> fst h \<noteq> AUTHORIZATION)"
  using assms
proof (induction header_name authorized given configured rule: configure_headers.induct)
  case (2 header_name authorized name v rest configured)
  then show ?case by (auto simp: put_header_def split: option.splits if_splits)
qed simp

lemma options_new_own:
  assumes "options_new header_name given timeout auth = Inr options"
  shows "op_auth options = auth"
    and "name \<in> set transport_headers \<Longrightarrow> header_values name (op_headers options) = []"
    and "auth \<noteq> None \<Longrightarrow> header_values AUTHORIZATION (op_headers options) = []"
proof -
  have "op_auth options = auth
    \<and> (\<forall>h \<in> set (op_headers options). fst h \<notin> set transport_headers \<and> (auth \<noteq> None \<longrightarrow> fst h \<noteq> AUTHORIZATION))"
  proof -
    obtain configured where "configure_headers header_name (auth \<noteq> None) given [] = Inr configured"
        "op_headers options = configured" "op_auth options = auth"
      using assms unfolding options_new_def by (elim res_bindE) (auto split: if_split_asm)
    then show ?thesis using configure_headers_own [of header_name "auth \<noteq> None" given "[]"] by simp
  qed
  then show "op_auth options = auth"
    and "name \<in> set transport_headers \<Longrightarrow> header_values name (op_headers options) = []"
    and "auth \<noteq> None \<Longrightarrow> header_values AUTHORIZATION (op_headers options) = []"
    by (fastforce intro!: header_values_none)+
qed

lemma authorize_values:
  assumes "authorize options grant = Inr hs"
  shows "header_values name hs = header_values name (op_headers options)
    @ (if name = AUTHORIZATION \<and> op_auth options \<noteq> None then (case grant of Inr (Some v) \<Rightarrow> [v] | _ \<Rightarrow> []) else [])"
  using assms
  by (auto simp: authorize_def append_header_def split: option.splits sum.splits if_split_asm)

text \<open>C23: The headers that identify a session to an HTTP server are the transport's alone, whatever
  headers the configuration gives: a request carries the session's identifier exactly when the session
  has one, and the session's protocol version and no other; a modern request names its method and its
  tool, a legacy one neither; and where credentials are bound to the server, the only authorization
  sent is theirs.  No request is made on an expired session, no second initialize on an established
  one, and none whose protocol is not the session's.\<close>

theorem transport_headers_are_its_own:
  assumes "options_new header_name given timeout auth = Inr options" and "post_headers options grant st r = Inr hs"
  shows "header_values SESSION_ID_HEADER hs = (case st of ReadySession (Some i) _ \<Rightarrow> [i] | _ \<Rightarrow> [])
    \<and> set (header_values PROTOCOL_VERSION_HEADER hs) =
        (case st of ReadySession _ protocol \<Rightarrow> {protocol}
         | _ \<Rightarrow> if modern_exchange (rq_kind r) then {MODERN_VERSION} else {})
    \<and> header_values METHOD_HEADER hs = (if modern_exchange (rq_kind r) then option_list (rq_method r) else [])
    \<and> header_values NAME_HEADER hs = (if modern_exchange (rq_kind r) then option_list (rq_name r) else [])
    \<and> (auth \<noteq> None \<longrightarrow> header_values AUTHORIZATION hs = (case grant of Inr (Some v) \<Rightarrow> [v] | _ \<Rightarrow> []))
    \<and> st \<noteq> ExpiredSession
    \<and> (\<forall>i protocol. st = ReadySession i protocol \<longrightarrow>
         \<not> is_initialize (rq_kind r) \<and> (protocol = MODERN_VERSION \<longleftrightarrow> modern_exchange (rq_kind r)))"
proof -
  obtain authorized own where parts: "authorize options grant = Inr authorized" "session_headers st r = Inr own"
      "hs = replace_headers content_headers authorized @ own @ modern_headers r"
    using assms(2) by (auto simp: post_headers_def elim!: res_bindE)
  have kept: "header_values name (replace_headers content_headers authorized) = header_values name authorized"
    if "name \<notin> {CONTENT_TYPE, ACCEPT}" for name
    using that header_values_filter [of name "\<lambda>n. n \<notin> fst ` set content_headers" authorized]
    by (auto simp: replace_headers_def content_headers_def)
  have base: "header_values name authorized = []" if "name \<in> set transport_headers" for name
    using that authorize_values [OF parts(1), of name] options_new_own(2) [OF assms(1) that]
    by (auto simp: transport_headers_def)
  have granted: "header_values AUTHORIZATION authorized = (case grant of Inr (Some v) \<Rightarrow> [v] | _ \<Rightarrow> [])" if "auth \<noteq> None"
    using authorize_values [OF parts(1), of AUTHORIZATION] options_new_own(1,3) [OF assms(1)] that by simp
  have names: "SESSION_ID_HEADER = ''mcp-session-id''" "PROTOCOL_VERSION_HEADER = ''mcp-protocol-version''"
      "METHOD_HEADER = ''mcp-method''" "NAME_HEADER = ''mcp-name''"
    by (simp_all add: SESSION_ID_HEADER_def PROTOCOL_VERSION_HEADER_def METHOD_HEADER_def NAME_HEADER_def)
  have own: "header_values SESSION_ID_HEADER own = (case st of ReadySession (Some i) _ \<Rightarrow> [i] | _ \<Rightarrow> [])"
      "header_values PROTOCOL_VERSION_HEADER own = (case st of ReadySession _ protocol \<Rightarrow> [protocol] | _ \<Rightarrow> [])"
      "header_values METHOD_HEADER own = []" "header_values NAME_HEADER own = []" "header_values AUTHORIZATION own = []"
      "st \<noteq> ExpiredSession"
      "\<forall>i protocol. st = ReadySession i protocol \<longrightarrow>
         \<not> is_initialize (rq_kind r) \<and> (protocol = MODERN_VERSION \<longleftrightarrow> modern_exchange (rq_kind r))"
    using parts(2) by (auto simp: session_headers_def names split: http_session.splits if_split_asm option.splits)
  have modern: "header_values SESSION_ID_HEADER (modern_headers r) = []" "header_values AUTHORIZATION (modern_headers r) = []"
      "header_values PROTOCOL_VERSION_HEADER (modern_headers r) = (if modern_exchange (rq_kind r) then [MODERN_VERSION] else [])"
      "header_values METHOD_HEADER (modern_headers r) = (if modern_exchange (rq_kind r) then option_list (rq_method r) else [])"
      "header_values NAME_HEADER (modern_headers r) = (if modern_exchange (rq_kind r) then option_list (rq_name r) else [])"
    by (auto simp: modern_headers_def names option_list_def split: option.splits)
  show ?thesis
    using own modern granted kept base unfolding parts(3) names
    by (auto simp: transport_headers_def split: http_session.splits)
qed

definition sample_operation :: posted_request where
  "sample_operation =
     \<lparr>rq_line = ''{}'', rq_identifier = None, rq_kind = OperationExchange LegacyEra, rq_method = Some ''tools/call'',
      rq_name = Some ''echo'', rq_timeout_ms = None, rq_shared = False, rq_budget = 0\<rparr>"

definition sample_auth :: http_auth where
  "sample_auth = \<lparr>au_server_url = ''https://h/'', au_read_only = False, au_cached_only = False\<rparr>"

theorem transport_headers_are_its_own_witness:
  "let given = [(''Authorization'', ''mine''), (''Mcp-Session-Id'', ''mine''), (''X'', ''1'')];
       st = ReadySession (Some ''s1'') LEGACY_VERSION in
   \<exists>options hs. options_new (\<lambda>n. Some (to_ascii_lower n)) given None (Some sample_auth) = Inr options
     \<and> post_headers options (Inr (Some ''Bearer t'')) st sample_operation = Inr hs
     \<and> header_values SESSION_ID_HEADER hs = [''s1''] \<and> header_values AUTHORIZATION hs = [''Bearer t'']"
proof -
  let ?given = "[(''Authorization'', ''mine''), (''Mcp-Session-Id'', ''mine''), (''X'', ''1'')]"
  let ?st = "ReadySession (Some ''s1'') LEGACY_VERSION"
  let ?options = "\<lparr>op_headers = [(''x'', ''1'')], op_auth = Some sample_auth, op_request_timeout = REQUEST_TIMEOUT,
    op_read_timeout = READ_TIMEOUT\<rparr>"
  have "configure_headers (\<lambda>n. Some (to_ascii_lower n)) True ?given [] = Inr [(''x'', ''1'')]" by code_simp
  then have options: "options_new (\<lambda>n. Some (to_ascii_lower n)) ?given None (Some sample_auth) = Inr ?options"
    by (simp add: options_new_def configured_request_timeout_def)
  have "header_valid ''Bearer t''" by code_simp
  then obtain hs where hs: "post_headers ?options (Inr (Some ''Bearer t'')) ?st sample_operation = Inr hs"
    by (simp add: post_headers_def authorize_def session_headers_def sample_operation_def modern_exchange_def
        LEGACY_VERSION_def MODERN_VERSION_def)
  show ?thesis
    using transport_headers_are_its_own [OF options hs] options hs by auto
qed

end
