(* ===== verification/Exchange.thy ===== *)
theory Exchange
  imports HttpRequest
begin

text \<open>
  The HTTP transport of an upstream (\<open>src/upstream_http_exchange.rs\<close>, \<open>src/upstream_http_response.rs\<close>,
  \<open>src/upstream_http_runtime.rs\<close>, \<open>src/upstream_http_retire.rs\<close>): one exchange as a step relation between
  its points of waiting, and the loop that starts exchanges as a step relation in which up to
  thirty-two of them run together on one session.  What the endpoint answers, when a deadline passes
  and when the receiver of the responses goes away are choices of the relation.
\<close>

subsection \<open>One exchange\<close>

datatype body_reader = Collecting string | Decoding decoder

datatype after_events = ReadOn decoder | GiveUp http_failure | CheckAnswer

datatype post_outcome = Complete | LegacyMismatch | DiscoveryRejected u64

datatype exchange_phase =
    Begun
  | Authorizing http_session
  | InFlight bool
  | Expiring
  | Reading "string option" body_reader
  | Delivering "string option" "string list" after_events
  | Sending "string option" json bool "string list" after_events
  | Over "http_failure + post_outcome"
  | HandedOver
  | Closed

text \<open>
  \<open>ex_waiter\<close>: the loop still waits for the handshake.  \<open>ex_joined\<close>: the loop has seen the worker end
  (an exchange that the loop runs itself is no worker and counts as joined).
\<close>

record exchange =
  ex_request :: posted_request
  ex_mode :: exchange_mode
  ex_phase :: exchange_phase
  ex_answered :: bool
  ex_waiter :: bool
  ex_status :: "u64 option"
  ex_joined :: bool

record http_reply =
  rp_status :: u64
  rp_content_type :: "string option"
  rp_session :: "string option"

definition ends_with_failure :: "string \<Rightarrow> exchange_phase" where
  "ends_with_failure message = Over (Inl (other_failure message))"

text \<open>\<open>content_type\<close>: the media type of a header value.\<close>

definition media_type :: "string option \<Rightarrow> string" where
  "media_type v =
     (case v of Some v \<Rightarrow> if visible v then to_ascii_lower (trim (hd (split_on (CHR '';'') v))) else [] | None \<Rightarrow> [])"

definition replied :: "posted_request \<Rightarrow> exchange_mode \<Rightarrow> bool \<Rightarrow> http_session \<Rightarrow> http_reply \<Rightarrow> exchange_phase" where
  "replied r mode fresh session reply =
     (let status = rp_status reply in
      if is_discovery (rq_kind r) \<and> fresh \<and> discovery_http_rejection status
      then Over (Inr (DiscoveryRejected status))
      else if mode = InitialLegacy \<and> fresh \<and> legacy_http_rejection status then Over (Inr LegacyMismatch)
      else if status = 404 \<and> (case session of ReadySession (Some _) _ \<Rightarrow> True | _ \<Rightarrow> False) then Expiring
      else if \<not> (200 \<le> status \<and> status \<le> 299)
      then Over (Inl (status_failure status
             (''HTTP upstream returned status '' @ show_nat (unat status) @ ''; request was not replayed'')))
      else if status = 202 \<or> status = 204
      then (if rq_identifier r = None then Over (Inr Complete)
            else ends_with_failure ''HTTP upstream returned no JSON-RPC response'')
      else if media_type (rp_content_type reply) = ''text/event-stream'' then Reading (rp_session reply) (Decoding decoder_new)
      else if media_type (rp_content_type reply) = ''application/json'' then Reading (rp_session reply) (Collecting [])
      else ends_with_failure ''HTTP upstream returned an unsupported content type'')"

definition message_events :: "event list \<Rightarrow> string list" where
  "message_events es = map ev_data (filter (\<lambda>e. ev_name e = [] \<or> ev_name e = ''message'') es)"

definition chunk_read :: "string option \<Rightarrow> body_reader \<Rightarrow> string \<Rightarrow> exchange_phase" where
  "chunk_read sid reader chunk =
     (case reader of
        Decoding d \<Rightarrow>
          (case feed d chunk of
             ((es, None), d) \<Rightarrow> Delivering sid (message_events es) (ReadOn d)
           | ((es, Some e), _) \<Rightarrow> Delivering sid (message_events es) (GiveUp (other_failure e)))
      | Collecting body \<Rightarrow>
          if length body + length chunk > MAX_RESPONSE_BYTES
          then ends_with_failure ''HTTP JSON response exceeds size limit (16777216 bytes)''
          else Reading sid (Collecting (body @ chunk)))"

definition body_ended :: "posted_request \<Rightarrow> bool \<Rightarrow> string option \<Rightarrow> body_reader \<Rightarrow> exchange_phase" where
  "body_ended r answered sid reader =
     (case reader of
        Decoding _ \<Rightarrow>
          if rq_identifier r \<noteq> None \<and> \<not> answered
          then ends_with_failure ''HTTP SSE ended before the JSON-RPC response'' else Over (Inr Complete)
      | Collecting body \<Rightarrow>
          if utf8_valid body then Delivering sid [body] CheckAnswer
          else ends_with_failure ''HTTP response contains invalid UTF-8'')"

definition delivered_all :: "posted_request \<Rightarrow> bool \<Rightarrow> string option \<Rightarrow> after_events \<Rightarrow> exchange_phase" where
  "delivered_all r answered sid after =
     (case after of
        ReadOn d \<Rightarrow> Reading sid (Decoding d)
      | GiveUp f \<Rightarrow> Over (Inl f)
      | CheckAnswer \<Rightarrow>
          if rq_identifier r \<noteq> None \<and> \<not> answered
          then ends_with_failure ''HTTP response did not match the JSON-RPC request ID'' else Over (Inr Complete))"

text \<open>\<open>deliver\<close> up to the session it leaves: the message, whether it answers the request, the session.\<close>

definition answers :: "posted_request \<Rightarrow> json \<Rightarrow> bool" where
  "answers r v \<longleftrightarrow>
     (case (rq_identifier r, vget ''id'' v) of
        (Some i, Some j) \<Rightarrow> json_eq j i \<and> (vget ''result'' v \<noteq> None \<or> vget ''error'' v \<noteq> None)
      | _ \<Rightarrow> False)"

definition visible_ascii :: "string \<Rightarrow> bool" where
  "visible_ascii s \<longleftrightarrow> s \<noteq> [] \<and> list_all (in_range 0x21 0x7E) s"

definition initialized_session :: "string option \<Rightarrow> json \<Rightarrow> http_failure + http_session" where
  "initialized_session sid v =
     (if (case sid of Some s \<Rightarrow> \<not> visible_ascii s | None \<Rightarrow> False)
      then Inl (other_failure ''MCP initialize response contains an invalid session ID'')
      else case Option.bind (Option.bind (vget ''result'' v) (vget ''protocolVersion'')) as_str of
        None \<Rightarrow> Inl (other_failure ''MCP initialize response omitted protocolVersion'')
      | Some protocol \<Rightarrow>
          if protocol = [] \<or> \<not> header_valid protocol
          then Inl (other_failure ''MCP initialize response contains an invalid protocolVersion'')
          else Inr (ReadySession sid protocol))"

definition next_session :: "posted_request \<Rightarrow> string option \<Rightarrow> http_session \<Rightarrow> json \<Rightarrow> http_failure + http_session" where
  "next_session r sid session v =
     (case (if answers r v then vget ''result'' v else None) of
        None \<Rightarrow> Inr session
      | Some result \<Rightarrow>
          if is_initialize (rq_kind r) then initialized_session sid v
          else if is_discovery (rq_kind r) then
            (case discovery_offers_modern result of
               Inl _ \<Rightarrow> Inl (other_failure ''MCP server/discover returned invalid supportedVersions'')
             | Inr True \<Rightarrow> Inr (ReadySession None MODERN_VERSION)
             | Inr False \<Rightarrow> Inr session)
          else Inr session)"

definition deliver ::
  "parser \<Rightarrow> posted_request \<Rightarrow> string option \<Rightarrow> http_session \<Rightarrow> string \<Rightarrow> http_failure + json \<times> http_session" where
  "deliver parse r sid session body =
     res_bind (parse_message parse body) (\<lambda>v.
     res_bind (next_session r sid session v) (\<lambda>session. Inr (v, session)))"

datatype exchange_effect =
    Silent
  | Posted http_session headers string
  | Passed bool json
  | Refused json json
  | HandsOver

definition posted :: "bool \<Rightarrow> exchange \<Rightarrow> exchange" where
  "posted fresh e =
     e\<lparr>ex_phase := InFlight fresh,
       ex_request := (if ex_mode e = InitialLegacy \<and> fresh then ex_request e else (ex_request e)\<lparr>rq_line := []\<rparr>)\<rparr>"

definition closed_exchange :: "exchange \<Rightarrow> exchange" where
  "closed_exchange e = e\<lparr>ex_phase := Closed, ex_waiter := False\<rparr>"

definition sendable :: "headers \<Rightarrow> bool" where
  "sendable hs \<longleftrightarrow> list_all (\<lambda>h. header_valid (snd h)) hs"

definition interruptible :: "exchange_phase \<Rightarrow> bool" where
  "interruptible p \<longleftrightarrow> (case p of Over _ \<Rightarrow> False | HandedOver \<Rightarrow> False | Closed \<Rightarrow> False | _ \<Rightarrow> True)"

text \<open>\<open>exchange_step \<dots> alive (e, st) effect (e', st')\<close>: \<open>alive\<close> says whether the receiver of responses is there.\<close>

inductive exchange_step ::
  "parser \<Rightarrow> options \<Rightarrow> bool \<Rightarrow> exchange \<times> http_session \<Rightarrow> exchange_effect \<Rightarrow> exchange \<times> http_session \<Rightarrow> bool"
  for parse options alive where
  reads_session: "ex_phase e = Begun \<Longrightarrow>
    exchange_step parse options alive (e, st) Silent (e\<lparr>ex_phase := Authorizing st\<rparr>, st)"
| not_posted: "ex_phase e = Authorizing seen \<Longrightarrow> post_headers options grant seen (ex_request e) = Inl f \<Longrightarrow>
    exchange_step parse options alive (e, st) Silent (e\<lparr>ex_phase := Over (Inl f)\<rparr>, st)"
| posts: "ex_phase e = Authorizing seen \<Longrightarrow> post_headers options grant seen (ex_request e) = Inr hs \<Longrightarrow> sendable hs \<Longrightarrow>
    exchange_step parse options alive (e, st) (Posted seen hs (rq_line (ex_request e))) (posted (seen = FreshSession) e, st)"
| not_sendable: "ex_phase e = Authorizing seen \<Longrightarrow> post_headers options grant seen (ex_request e) = Inr hs \<Longrightarrow> \<not> sendable hs \<Longrightarrow>
    exchange_step parse options alive (e, st) Silent
      (e\<lparr>ex_phase := Over (Inl (http_failure_new OfflineFailure ''HTTP request failed; request was not replayed''))\<rparr>, st)"
| not_reached: "ex_phase e = InFlight fresh \<Longrightarrow>
    exchange_step parse options alive (e, st) Silent
      (e\<lparr>ex_phase := Over (Inl (http_failure_new OfflineFailure ''HTTP request failed; request was not replayed''))\<rparr>, st)"
| replies: "ex_phase e = InFlight fresh \<Longrightarrow>
    exchange_step parse options alive (e, st) Silent
      (e\<lparr>ex_phase := replied (ex_request e) (ex_mode e) fresh st reply, ex_status := Some (rp_status reply)\<rparr>, st)"
| expires: "ex_phase e = Expiring \<Longrightarrow>
    exchange_step parse options alive (e, st) Silent
      (e\<lparr>ex_phase := Over (Inl (status_failure 404 ''MCP HTTP session expired (HTTP 404); request was not replayed''))\<rparr>,
       ExpiredSession)"
| reads_chunk: "ex_phase e = Reading sid reader \<Longrightarrow>
    exchange_step parse options alive (e, st) Silent (e\<lparr>ex_phase := chunk_read sid reader chunk\<rparr>, st)"
| reads_end: "ex_phase e = Reading sid reader \<Longrightarrow>
    exchange_step parse options alive (e, st) Silent
      (e\<lparr>ex_phase := body_ended (ex_request e) (ex_answered e) sid reader\<rparr>, st)"
| read_fails: "ex_phase e = Reading sid reader \<Longrightarrow>
    f \<in> {http_failure_new TimeoutFailure ''HTTP response read deadline exceeded'',
         http_failure_new OfflineFailure ''HTTP response read failed; request was not replayed''} \<Longrightarrow>
    exchange_step parse options alive (e, st) Silent (e\<lparr>ex_phase := Over (Inl f)\<rparr>, st)"
| not_delivered: "ex_phase e = Delivering sid (m # ms) after \<Longrightarrow> deliver parse (ex_request e) sid st m = Inl f \<Longrightarrow>
    exchange_step parse options alive (e, st) Silent (e\<lparr>ex_phase := Over (Inl f)\<rparr>, st)"
| delivers: "ex_phase e = Delivering sid (m # ms) after \<Longrightarrow> deliver parse (ex_request e) sid st m = Inr (v, st') \<Longrightarrow>
    exchange_step parse options alive (e, st) Silent
      (e\<lparr>ex_phase := Sending sid v (answers (ex_request e) v) ms after\<rparr>, st')"
| sends: "ex_phase e = Sending sid v matches ms after \<Longrightarrow> alive \<Longrightarrow>
    exchange_step parse options alive (e, st) (Passed matches v)
      (e\<lparr>ex_phase := Delivering sid ms after, ex_answered := ex_answered e \<or> matches,
         ex_waiter := ex_waiter e \<and> \<not> matches\<rparr>, st)"
| not_sent: "ex_phase e = Sending sid v matches ms after \<Longrightarrow> \<not> alive \<Longrightarrow>
    exchange_step parse options alive (e, st) Silent
      (e\<lparr>ex_phase := ends_with_failure ''HTTP response receiver closed''\<rparr>, st)"
| delivered: "ex_phase e = Delivering sid [] after \<Longrightarrow>
    exchange_step parse options alive (e, st) Silent
      (e\<lparr>ex_phase := delivered_all (ex_request e) (ex_answered e) sid after\<rparr>, st)"
| deadline_passes: "interruptible (ex_phase e) \<Longrightarrow>
    exchange_step parse options alive (e, st) Silent
      (e\<lparr>ex_phase := Over (Inl (http_failure_new TimeoutFailure
           ''HTTP request deadline exceeded; request was not replayed''))\<rparr>, st)"
| completes: "ex_phase e = Over (Inr Complete) \<Longrightarrow>
    exchange_step parse options alive (e, st) Silent (closed_exchange e, st)"
| rejects_discovery: "ex_phase e = Over (Inr (DiscoveryRejected status)) \<Longrightarrow>
    rq_identifier (ex_request e) = Some i \<Longrightarrow> alive \<Longrightarrow>
    exchange_step parse options alive (e, st) (Refused i (unsupported_payload i status)) (closed_exchange e, st)"
| hands_over: "ex_phase e = Over (Inr LegacyMismatch) \<Longrightarrow> ex_waiter e \<Longrightarrow>
    exchange_step parse options alive (e, st) HandsOver (e\<lparr>ex_phase := HandedOver, ex_waiter := False\<rparr>, st)"
| fails: "ex_phase e = Over (Inl f) \<Longrightarrow> \<not> ex_answered e \<Longrightarrow> rq_identifier (ex_request e) = Some i \<Longrightarrow> alive \<Longrightarrow>
    exchange_step parse options alive (e, st) (Refused i (failure_payload i f)) (closed_exchange e, st)"
| ends_silently: "ex_phase e = Over result \<Longrightarrow>
    (case result of
       Inl _ \<Rightarrow> ex_answered e \<or> rq_identifier (ex_request e) = None \<or> \<not> alive
     | Inr Complete \<Rightarrow> False
     | Inr LegacyMismatch \<Rightarrow> \<not> ex_waiter e
     | Inr (DiscoveryRejected _) \<Rightarrow> rq_identifier (ex_request e) = None \<or> \<not> alive) \<Longrightarrow>
    exchange_step parse options alive (e, st) Silent (closed_exchange e, st)"

inductive_cases exchange_stepE: "exchange_step parse options alive (e, st) eff (e', st')"

subsection \<open>What holds of every exchange\<close>

fun posts_of :: "exchange_effect \<Rightarrow> (http_session \<times> headers \<times> string) list" where
  "posts_of (Posted st hs body) = [(st, hs, body)]"
| "posts_of _ = []"

fun answers_of :: "exchange_effect \<Rightarrow> json list" where
  "answers_of (Passed True v) = [v]"
| "answers_of _ = []"

fun refusals_of :: "exchange_effect \<Rightarrow> json list" where
  "refusals_of (Refused i v) = [i]"
| "refusals_of _ = []"

definition mismatched :: "exchange_phase \<Rightarrow> bool" where
  "mismatched p \<longleftrightarrow> p = Over (Inr LegacyMismatch) \<or> p = HandedOver"

text \<open>Phases in which no message has been passed on yet.\<close>

definition unread :: "exchange_phase \<Rightarrow> bool" where
  "unread p \<longleftrightarrow> (case p of Begun \<Rightarrow> True | Authorizing _ \<Rightarrow> True | InFlight _ \<Rightarrow> True | Expiring \<Rightarrow> True
     | Over (Inr LegacyMismatch) \<Rightarrow> True | Over (Inr (DiscoveryRejected _)) \<Rightarrow> True | HandedOver \<Rightarrow> True | _ \<Rightarrow> False)"

definition unposted :: "exchange_phase \<Rightarrow> bool" where
  "unposted p \<longleftrightarrow> (case p of Begun \<Rightarrow> True | Authorizing _ \<Rightarrow> True | _ \<Rightarrow> False)"

definition exchange_ok ::
  "bool \<Rightarrow> (http_session \<times> headers \<times> string) list \<Rightarrow> json list \<Rightarrow> json list \<Rightarrow> exchange \<Rightarrow> bool" where
  "exchange_ok alive ps as rs e \<longleftrightarrow>
     (ex_answered e \<longleftrightarrow> as \<noteq> [])
     \<and> length ps \<le> 1 \<and> (unposted (ex_phase e) \<longrightarrow> ps = [])
     \<and> length rs \<le> 1 \<and> (rs \<noteq> [] \<longrightarrow> ex_phase e = Closed \<and> \<not> ex_answered e \<and> rq_identifier (ex_request e) = Some (hd rs))
     \<and> (unread (ex_phase e) \<longrightarrow> \<not> ex_answered e)
     \<and> list_all (answers (ex_request e)) as
     \<and> (\<forall>sid v m ms k. ex_phase e = Sending sid v m ms k \<longrightarrow> m = answers (ex_request e) v)
     \<and> (ex_phase e = Over (Inr Complete) \<longrightarrow> rq_identifier (ex_request e) = None \<or> ex_answered e)
     \<and> (ex_mode e = InitialLegacy \<longrightarrow> is_initialize (rq_kind (ex_request e))
          \<and> (ex_answered e \<or> ex_phase e = HandedOver \<or> ex_phase e = Closed \<or> ex_waiter e))
     \<and> (ex_mode e = InitialLegacy \<and> ex_phase e = InFlight True \<or> mismatched (ex_phase e) \<longrightarrow>
          (\<exists>hs. ps = [(FreshSession, hs, rq_line (ex_request e))]))
     \<and> (mismatched (ex_phase e) \<longrightarrow> ex_mode e = InitialLegacy \<and> ex_status e \<in> {Some 404, Some 405})
     \<and> (ex_phase e = HandedOver \<longrightarrow> \<not> ex_waiter e)
     \<and> (ex_phase e = Closed \<and> alive \<longrightarrow> rq_identifier (ex_request e) = None \<or> ex_answered e \<or> rs \<noteq> [])"

lemma answers_update [simp]: "answers (r\<lparr>rq_line := l\<rparr>) = answers r"
  by (simp add: answers_def fun_eq_iff)

lemma answers_identified: "answers r v \<Longrightarrow> rq_identifier r \<noteq> None"
  by (auto simp: answers_def split: option.splits)

lemma phase_kinds [simp]:
  "\<not> mismatched Begun" "\<not> mismatched (Authorizing st)" "\<not> mismatched (InFlight b)" "\<not> mismatched Expiring"
  "\<not> mismatched (Reading sid r)" "\<not> mismatched (Delivering sid ms k)" "\<not> mismatched (Sending sid v m ms k)"
  "\<not> mismatched (Over (Inl f))" "\<not> mismatched (Over (Inr Complete))" "\<not> mismatched (Over (Inr (DiscoveryRejected status)))"
  "mismatched (Over (Inr LegacyMismatch))" "mismatched HandedOver" "\<not> mismatched Closed"
  "unread Begun" "unread (Authorizing st)" "unread (InFlight b)" "unread Expiring" "\<not> unread (Reading sid r)"
  "\<not> unread (Delivering sid ms k)" "\<not> unread (Sending sid v m ms k)" "\<not> unread (Over (Inl f))"
  "\<not> unread (Over (Inr Complete))" "unread (Over (Inr (DiscoveryRejected status)))"
  "unread (Over (Inr LegacyMismatch))" "unread HandedOver" "\<not> unread Closed"
  "unposted Begun" "unposted (Authorizing st)" "\<not> unposted (InFlight b)" "\<not> unposted Expiring"
  "\<not> unposted (Reading sid r)" "\<not> unposted (Delivering sid ms k)" "\<not> unposted (Sending sid v m ms k)"
  "\<not> unposted (Over x)" "\<not> unposted HandedOver" "\<not> unposted Closed"
  by (simp_all add: mismatched_def unread_def unposted_def)

text \<open>What a reply, a chunk, the end of a body and the end of a batch of events lead to.\<close>

lemma replied_cases:
  "(\<exists>f. replied r mode fresh st reply = Over (Inl f))
   \<or> (replied r mode fresh st reply = Over (Inr Complete) \<and> rq_identifier r = None)
   \<or> (\<exists>status. replied r mode fresh st reply = Over (Inr (DiscoveryRejected status)))
   \<or> (replied r mode fresh st reply = Over (Inr LegacyMismatch) \<and> mode = InitialLegacy \<and> fresh
      \<and> (rp_status reply = 404 \<or> rp_status reply = 405))
   \<or> replied r mode fresh st reply = Expiring \<or> (\<exists>sid reader. replied r mode fresh st reply = Reading sid reader)"
  by (simp add: replied_def Let_def ends_with_failure_def legacy_http_rejection_def)

lemma chunk_read_cases:
  "(\<exists>f. chunk_read sid reader chunk = Over (Inl f)) \<or> (\<exists>ms k. chunk_read sid reader chunk = Delivering sid ms k)
   \<or> (\<exists>reader'. chunk_read sid reader chunk = Reading sid reader')"
  by (auto simp: chunk_read_def ends_with_failure_def split: body_reader.splits prod.splits option.splits)

lemma body_ended_cases:
  "(\<exists>f. body_ended r answered sid reader = Over (Inl f))
   \<or> (body_ended r answered sid reader = Over (Inr Complete) \<and> (rq_identifier r = None \<or> answered))
   \<or> (\<exists>ms k. body_ended r answered sid reader = Delivering sid ms k)"
  by (cases reader) (auto simp: body_ended_def ends_with_failure_def)

lemma delivered_all_cases:
  "(\<exists>f. delivered_all r answered sid k = Over (Inl f))
   \<or> (delivered_all r answered sid k = Over (Inr Complete) \<and> (rq_identifier r = None \<or> answered))
   \<or> (\<exists>reader. delivered_all r answered sid k = Reading sid reader)"
  by (cases k) (auto simp: delivered_all_def ends_with_failure_def)

lemma exchange_ok_step:
  assumes "exchange_step parse options alive x eff y" and "exchange_ok alive ps as rs (fst x)"
  shows "exchange_ok alive (ps @ posts_of eff) (as @ answers_of eff) (rs @ refusals_of eff) (fst y)"
  using assms
proof (induction rule: exchange_step.induct)
  case (replies e fresh st reply)
  then show ?case
    using replied_cases [of "ex_request e" "ex_mode e" fresh st reply] by (elim disjE exE) (auto simp: exchange_ok_def)
next
  case (reads_chunk e sid reader st chunk)
  then show ?case
    using chunk_read_cases [of sid reader chunk] by (elim disjE exE) (auto simp: exchange_ok_def)
next
  case (reads_end e sid reader st)
  then show ?case
    using body_ended_cases [of "ex_request e" "ex_answered e" sid reader]
    by (elim disjE exE) (auto simp: exchange_ok_def)
next
  case (delivered e sid k st)
  then show ?case
    using delivered_all_cases [of "ex_request e" "ex_answered e" sid k]
    by (elim disjE exE) (auto simp: exchange_ok_def)
next
  case (sends e sid v matches ms k st)
  then show ?case by (cases matches) (auto simp: exchange_ok_def dest: answers_identified)
next
  case (posts e seen grant hs st)
  then show ?case by (auto simp: exchange_ok_def posted_def)
next
  case (deadline_passes e st)
  then show ?case by (cases "ex_phase e") (auto simp: exchange_ok_def interruptible_def)
next
  case (ends_silently e result st)
  then show ?case
    by (auto simp: exchange_ok_def closed_exchange_def split: sum.splits post_outcome.splits)
qed (auto simp: exchange_ok_def closed_exchange_def ends_with_failure_def)

subsection \<open>The loop\<close>

definition MAX_HTTP_EXCHANGES :: nat where "MAX_HTTP_EXCHANGES = 32"

datatype http_main =
    Receiving
  | Draining
  | AwaitingHandshake nat
  | Executing nat
  | StartingFallback nat
  | FallingBack
  | Halted

text \<open>
  \<open>hx_log\<close> records what each exchange did, \<open>hx_rejected\<close> the failures the loop sends by itself,
  \<open>hx_forwarded\<close> the requests given to the legacy transport.
\<close>

record http_runtime =
  hx_session :: http_session
  hx_negotiation :: negotiation
  hx_exchanges :: "exchange list"
  hx_main :: http_main
  hx_alive :: bool
  hx_cells :: cells
  hx_log :: "(nat \<times> exchange_effect) list"
  hx_rejected :: "json list"
  hx_forwarded :: "http_envelope list"
  hx_deletes :: "headers list"

definition runtime_new :: "cells \<Rightarrow> http_runtime" where
  "runtime_new cells =
     \<lparr>hx_session = FreshSession, hx_negotiation = Probing, hx_exchanges = [], hx_main = Receiving, hx_alive = True,
      hx_cells = cells, hx_log = [], hx_rejected = [], hx_forwarded = [], hx_deletes = []\<rparr>"

definition workers :: "http_runtime \<Rightarrow> nat" where
  "workers s = length (filter (\<lambda>e. \<not> ex_joined e) (hx_exchanges s))"

definition begun :: "posted_request \<Rightarrow> exchange_mode \<Rightarrow> bool \<Rightarrow> bool \<Rightarrow> exchange" where
  "begun r mode waiter joined =
     \<lparr>ex_request = r, ex_mode = mode, ex_phase = Begun, ex_answered = False, ex_waiter = waiter, ex_status = None,
      ex_joined = joined\<rparr>"

definition refreshes_modern :: "http_session \<Rightarrow> posted_request \<Rightarrow> bool" where
  "refreshes_modern st r \<longleftrightarrow>
     is_discovery (rq_kind r) \<and> modern_exchange (rq_kind r) \<and> st = ReadySession None MODERN_VERSION"

definition start_exchange :: "posted_request \<Rightarrow> http_runtime \<Rightarrow> http_runtime" where
  "start_exchange r s =
     (let (mode, negotiation) = admit (hx_negotiation s) (rq_kind r) (workers s = 0);
          i = length (hx_exchanges s);
          s = s\<lparr>hx_negotiation := negotiation\<rparr>
      in if is_barrier (rq_kind r) \<and> \<not> refreshes_modern (hx_session s) r
         then (if is_handshake (rq_kind r)
               then s\<lparr>hx_exchanges := hx_exchanges s @ [begun r mode True False], hx_main := AwaitingHandshake i\<rparr>
               else s\<lparr>hx_exchanges := hx_exchanges s @ [begun r Standard False True], hx_main := Executing i\<rparr>)
         else s\<lparr>hx_exchanges := hx_exchanges s @ [begun r Standard False False]\<rparr>)"

definition rejection :: "bool \<Rightarrow> json option \<Rightarrow> http_failure \<Rightarrow> json list" where
  "rejection alive ident f = (case ident of Some i \<Rightarrow> if alive then [failure_payload i f] else [] | None \<Rightarrow> [])"

definition delete_headers :: "options \<Rightarrow> unit + string option \<Rightarrow> http_session \<Rightarrow> headers list" where
  "delete_headers options grant st =
     (case st of
        ReadySession (Some i) protocol \<Rightarrow>
          (case authorize options grant of
             Inl _ \<Rightarrow> []
           | Inr hs \<Rightarrow>
               [replace_headers [(ACCEPT, ''application/json, text/event-stream'')] hs
                @ [(SESSION_ID_HEADER, i), (PROTOCOL_VERSION_HEADER, protocol)]])
      | _ \<Rightarrow> [])"

abbreviation exchange_at :: "nat \<Rightarrow> http_runtime \<Rightarrow> exchange" where
  "exchange_at i s \<equiv> hx_exchanges s ! i"

inductive runtime_step :: "serializer \<Rightarrow> parser \<Rightarrow> options \<Rightarrow> http_runtime \<Rightarrow> http_runtime \<Rightarrow> bool"
  for ser parse options where
  runs: "i < length (hx_exchanges s) \<Longrightarrow> hx_main s \<noteq> Halted \<Longrightarrow>
    exchange_step parse options (hx_alive s) (exchange_at i s, hx_session s) eff (e, st) \<Longrightarrow>
    runtime_step ser parse options s
      (s\<lparr>hx_exchanges := (hx_exchanges s)[i := e], hx_session := st, hx_log := hx_log s @ [(i, eff)]\<rparr>)"
| joins: "hx_main s \<in> {Receiving, Draining} \<Longrightarrow> i < length (hx_exchanges s) \<Longrightarrow> ex_phase (exchange_at i s) = Closed \<Longrightarrow>
    runtime_step ser parse options s
      (s\<lparr>hx_exchanges := (hx_exchanges s)[i := (exchange_at i s)\<lparr>ex_joined := True\<rparr>]\<rparr>)"
| receiver_goes: "runtime_step ser parse options s (s\<lparr>hx_alive := False\<rparr>)"
| halts_unheard: "hx_main s = Receiving \<Longrightarrow> \<not> hx_alive s \<Longrightarrow>
    runtime_step ser parse options s (s\<lparr>hx_main := Halted\<rparr>)"
| rejects: "hx_main s = Receiving \<Longrightarrow> workers s < MAX_HTTP_EXCHANGES \<Longrightarrow>
    request_parse ser parse c (hx_cells s) options envelope = Inl f \<Longrightarrow>
    runtime_step ser parse options s
      (s\<lparr>hx_rejected := hx_rejected s @ rejection (hx_alive s) (refused_identifier parse envelope) f\<rparr>)"
| starts: "hx_main s = Receiving \<Longrightarrow> workers s < MAX_HTTP_EXCHANGES \<Longrightarrow>
    request_parse ser parse c (hx_cells s) options envelope = Inr (r, cells) \<Longrightarrow>
    runtime_step ser parse options s (start_exchange r (s\<lparr>hx_cells := cells\<rparr>))"
| input_ends: "hx_main s = Receiving \<Longrightarrow> workers s < MAX_HTTP_EXCHANGES \<Longrightarrow>
    runtime_step ser parse options s (s\<lparr>hx_main := Draining\<rparr>)"
| drained: "hx_main s = Draining \<Longrightarrow> workers s = 0 \<Longrightarrow>
    runtime_step ser parse options s (s\<lparr>hx_main := Halted\<rparr>)"
| established: "hx_main s = AwaitingHandshake i \<Longrightarrow> \<not> ex_waiter (exchange_at i s) \<Longrightarrow>
    ex_phase (exchange_at i s) \<noteq> HandedOver \<Longrightarrow>
    runtime_step ser parse options s (s\<lparr>hx_main := Receiving\<rparr>)"
| executed: "hx_main s = Executing i \<Longrightarrow> ex_phase (exchange_at i s) = Closed \<Longrightarrow>
    runtime_step ser parse options s (s\<lparr>hx_main := Receiving\<rparr>)"
| falls_back: "hx_main s = AwaitingHandshake i \<Longrightarrow> ex_phase (exchange_at i s) = HandedOver \<Longrightarrow>
    runtime_step ser parse options s (s\<lparr>hx_main := StartingFallback i\<rparr>)"
| fallback_starts: "hx_main s = StartingFallback i \<Longrightarrow>
    runtime_step ser parse options s (s\<lparr>hx_main := FallingBack\<rparr>)"
| fallback_fails: "hx_main s = StartingFallback i \<Longrightarrow>
    runtime_step ser parse options s
      (s\<lparr>hx_main := Halted,
         hx_rejected := hx_rejected s @ rejection (hx_alive s) (rq_identifier (ex_request (exchange_at i s)))
           (other_failure ''Legacy SSE fallback setup failed; initialize was not replayed'')\<rparr>)"
| forwards: "hx_main s = FallingBack \<Longrightarrow>
    runtime_step ser parse options s (s\<lparr>hx_forwarded := hx_forwarded s @ [envelope]\<rparr>)"
| fallback_ends: "hx_main s = FallingBack \<Longrightarrow>
    runtime_step ser parse options s (s\<lparr>hx_main := Halted\<rparr>)"
| shuts_down: "hx_main s \<noteq> Halted \<Longrightarrow>
    runtime_step ser parse options s
      (s\<lparr>hx_main := Halted, hx_session := ExpiredSession,
         hx_deletes := hx_deletes s @ delete_headers options grant (hx_session s)\<rparr>)"

inductive runtime_run :: "serializer \<Rightarrow> parser \<Rightarrow> options \<Rightarrow> http_runtime \<Rightarrow> bool" for ser parse options where
  runtime_started: "runtime_run ser parse options (runtime_new cells)"
| runtime_more: "runtime_run ser parse options s \<Longrightarrow> runtime_step ser parse options s t \<Longrightarrow> runtime_run ser parse options t"

subsection \<open>What holds of the loop\<close>

definition effects :: "nat \<Rightarrow> http_runtime \<Rightarrow> exchange_effect list" where
  "effects i s = map snd (filter (\<lambda>x. fst x = i) (hx_log s))"

definition posts_in :: "nat \<Rightarrow> http_runtime \<Rightarrow> (http_session \<times> headers \<times> string) list" where
  "posts_in i s = concat (map posts_of (effects i s))"

definition answers_in :: "nat \<Rightarrow> http_runtime \<Rightarrow> json list" where
  "answers_in i s = concat (map answers_of (effects i s))"

definition refusals_in :: "nat \<Rightarrow> http_runtime \<Rightarrow> json list" where
  "refusals_in i s = concat (map refusals_of (effects i s))"

definition others_closed :: "nat \<Rightarrow> http_runtime \<Rightarrow> bool" where
  "others_closed i s \<longleftrightarrow> (\<forall>j < length (hx_exchanges s). j \<noteq> i \<longrightarrow> ex_phase (exchange_at j s) = Closed)"

definition exchanges_inv :: "http_runtime \<Rightarrow> bool" where
  "exchanges_inv s \<longleftrightarrow>
     (\<forall>i < length (hx_exchanges s).
        exchange_ok (hx_alive s) (posts_in i s) (answers_in i s) (refusals_in i s) (exchange_at i s))
     \<and> (\<forall>x \<in> set (hx_log s). fst x < length (hx_exchanges s))"

definition initial_inv :: "http_runtime \<Rightarrow> bool" where
  "initial_inv s \<longleftrightarrow>
     (\<forall>i < length (hx_exchanges s). ex_mode (exchange_at i s) = InitialLegacy \<longrightarrow> hx_negotiation s = Active)
     \<and> (\<forall>i < length (hx_exchanges s). \<forall>j < length (hx_exchanges s).
          ex_mode (exchange_at i s) = InitialLegacy \<and> ex_mode (exchange_at j s) = InitialLegacy \<longrightarrow> i = j)"

definition main_inv :: "http_runtime \<Rightarrow> bool" where
  "main_inv s \<longleftrightarrow>
     workers s \<le> MAX_HTTP_EXCHANGES
     \<and> (\<forall>i < length (hx_exchanges s).
          (ex_joined (exchange_at i s) \<longrightarrow> ex_phase (exchange_at i s) = Closed \<or> hx_main s \<in> {Executing i, Halted})
          \<and> (ex_waiter (exchange_at i s) \<longrightarrow> hx_main s \<in> {AwaitingHandshake i, Halted})
          \<and> (ex_phase (exchange_at i s) = HandedOver \<longrightarrow>
               others_closed i s \<and> hx_main s \<in> {AwaitingHandshake i, StartingFallback i, FallingBack, Halted}))
     \<and> (\<forall>i. hx_main s = AwaitingHandshake i \<longrightarrow> i < length (hx_exchanges s)
          \<and> (ex_mode (exchange_at i s) = InitialLegacy \<longrightarrow> others_closed i s))"

lemma log_append [simp]:
  "effects i (s\<lparr>hx_exchanges := es, hx_session := st, hx_log := hx_log s @ [(j, eff)]\<rparr>) =
     effects i s @ (if i = j then [eff] else [])"
  by (simp add: effects_def)

lemma effects_cong: "hx_log t = hx_log s \<Longrightarrow>
  posts_in i t = posts_in i s \<and> answers_in i t = answers_in i s \<and> refusals_in i t = refusals_in i s"
  by (simp add: effects_def posts_in_def answers_in_def refusals_in_def)

lemma exchange_ok_dead: "exchange_ok alive ps as rs e \<Longrightarrow> exchange_ok False ps as rs e"
  unfolding exchange_ok_def by blast

lemma exchange_ok_joined [simp]: "exchange_ok alive ps as rs (e\<lparr>ex_joined := b\<rparr>) = exchange_ok alive ps as rs e"
  by (simp add: exchange_ok_def)

lemma exchange_ok_begun: "mode = InitialLegacy \<longrightarrow> is_initialize (rq_kind r) \<and> waiter \<Longrightarrow>
    exchange_ok alive [] [] [] (begun r mode waiter joined)"
  by (simp add: exchange_ok_def begun_def)

lemma start_exchange_shape:
  obtains mode waiter joined where
    "hx_exchanges (start_exchange r s) = hx_exchanges s @ [begun r mode waiter joined]"
    "mode = InitialLegacy \<longrightarrow> waiter \<and> is_initialize (rq_kind r) \<and> hx_negotiation s = Probing \<and> workers s = 0
        \<and> hx_negotiation (start_exchange r s) = Active"
    "hx_main (start_exchange r s) =
       (if waiter then AwaitingHandshake (length (hx_exchanges s))
        else if joined then Executing (length (hx_exchanges s)) else hx_main s)"
    "hx_negotiation s = Active \<longrightarrow> hx_negotiation (start_exchange r s) = Active" "waiter \<longrightarrow> \<not> joined"
    "hx_log (start_exchange r s) = hx_log s" "hx_alive (start_exchange r s) = hx_alive s"
proof -
  have "\<exists>mode waiter joined. hx_exchanges (start_exchange r s) = hx_exchanges s @ [begun r mode waiter joined]
    \<and> (mode = InitialLegacy \<longrightarrow> waiter \<and> is_initialize (rq_kind r) \<and> hx_negotiation s = Probing \<and> workers s = 0
        \<and> hx_negotiation (start_exchange r s) = Active)
    \<and> hx_main (start_exchange r s) =
       (if waiter then AwaitingHandshake (length (hx_exchanges s))
        else if joined then Executing (length (hx_exchanges s)) else hx_main s)
    \<and> (hx_negotiation s = Active \<longrightarrow> hx_negotiation (start_exchange r s) = Active) \<and> (waiter \<longrightarrow> \<not> joined)
    \<and> hx_log (start_exchange r s) = hx_log s \<and> hx_alive (start_exchange r s) = hx_alive s"
    by (cases "is_initialize (rq_kind r)"; cases "rq_kind r")
      (auto simp: start_exchange_def admit_def Let_def is_barrier_def is_handshake_def workers_def)
  then show ?thesis using that by blast
qed

lemma exchanges_inv_starts:
  assumes "exchanges_inv s"
  shows "exchanges_inv (start_exchange r s)"
proof -
  obtain mode waiter joined where shape:
    "hx_exchanges (start_exchange r s) = hx_exchanges s @ [begun r mode waiter joined]"
    "mode = InitialLegacy \<longrightarrow> is_initialize (rq_kind r) \<and> waiter"
    "hx_log (start_exchange r s) = hx_log s" "hx_alive (start_exchange r s) = hx_alive s"
    by (rule start_exchange_shape [of r s]) blast
  have new: "posts_in (length (hx_exchanges s)) s = [] \<and> answers_in (length (hx_exchanges s)) s = []
      \<and> refusals_in (length (hx_exchanges s)) s = []"
    using assms by (auto simp: exchanges_inv_def effects_def filter_empty_conv posts_in_def answers_in_def refusals_in_def)
  show ?thesis
    using assms exchange_ok_begun [OF shape(2)] shape(1,4) new effects_cong [OF shape(3)] shape(3)
    by (auto simp: exchanges_inv_def nth_append less_Suc_eq)
qed

lemma exchanges_inv_cong: "exchanges_inv s \<Longrightarrow> hx_exchanges t = hx_exchanges s \<Longrightarrow> hx_alive t = hx_alive s
    \<Longrightarrow> hx_log t = hx_log s \<Longrightarrow> exchanges_inv t"
  using effects_cong [of t s] by (simp add: exchanges_inv_def)

lemma exchanges_inv_step:
  assumes "runtime_step ser parse options s t" and "exchanges_inv s"
  shows "exchanges_inv t"
  using assms
proof (induction rule: runtime_step.induct)
  case (runs i s eff e st)
  let ?t = "s\<lparr>hx_exchanges := (hx_exchanges s)[i := e], hx_session := st, hx_log := hx_log s @ [(i, eff)]\<rparr>"
  have ok: "exchange_ok (hx_alive s) (posts_in j s) (answers_in j s) (refusals_in j s) (exchange_at j s)"
    if "j < length (hx_exchanges s)" for j using runs.prems that by (simp add: exchanges_inv_def)
  have "exchange_ok (hx_alive s) (posts_in i s @ posts_of eff) (answers_in i s @ answers_of eff)
      (refusals_in i s @ refusals_of eff) e"
    using exchange_ok_step [OF runs.hyps(3), of "posts_in i s" "answers_in i s" "refusals_in i s"] ok [OF runs.hyps(1)] by simp
  with ok runs.prems runs.hyps(1) show ?case
    by (auto simp: exchanges_inv_def posts_in_def answers_in_def refusals_in_def nth_list_update)
next
  case (joins s i)
  then show ?case
    by (auto simp: exchanges_inv_def nth_list_update posts_in_def answers_in_def refusals_in_def effects_def)
next
  case (receiver_goes s)
  then show ?case
    by (auto simp: exchanges_inv_def posts_in_def answers_in_def refusals_in_def effects_def intro: exchange_ok_dead)
next
  case (starts s c envelope r cells)
  then have "exchanges_inv (s\<lparr>hx_cells := cells\<rparr>)" by (elim exchanges_inv_cong) simp_all
  then show ?case by (rule exchanges_inv_starts)
qed (simp_all add: exchanges_inv_def posts_in_def answers_in_def refusals_in_def effects_def)

text \<open>A step of one exchange, as far as the loop is concerned.\<close>

lemma exchange_step_frame:
  assumes "exchange_step parse options alive x eff y"
  shows "ex_mode (fst y) = ex_mode (fst x) \<and> ex_joined (fst y) = ex_joined (fst x)
    \<and> (ex_waiter (fst y) \<longrightarrow> ex_waiter (fst x)) \<and> ex_phase (fst x) \<noteq> Closed \<and> ex_phase (fst x) \<noteq> HandedOver
    \<and> (ex_phase (fst y) = HandedOver \<longrightarrow> ex_waiter (fst x) \<and> ex_phase (fst x) = Over (Inr LegacyMismatch))"
  using assms
proof (induction rule: exchange_step.induct)
  case (replies e fresh st reply)
  then show ?case
    using replied_cases [of "ex_request e" "ex_mode e" fresh st reply] by (elim disjE exE) auto
next
  case (reads_chunk e sid reader st chunk)
  then show ?case using chunk_read_cases [of sid reader chunk] by (elim disjE exE) auto
next
  case (reads_end e sid reader st)
  then show ?case using body_ended_cases [of "ex_request e" "ex_answered e" sid reader] by (elim disjE exE) auto
next
  case (delivered e sid k st)
  then show ?case using delivered_all_cases [of "ex_request e" "ex_answered e" sid k] by (elim disjE exE) auto
qed (auto simp: posted_def closed_exchange_def ends_with_failure_def interruptible_def)

lemma initial_inv_starts:
  assumes "initial_inv s"
  shows "initial_inv (start_exchange r s)"
proof -
  obtain mode waiter joined where
    "hx_exchanges (start_exchange r s) = hx_exchanges s @ [begun r mode waiter joined]"
    "mode = InitialLegacy \<longrightarrow> hx_negotiation s = Probing \<and> hx_negotiation (start_exchange r s) = Active"
    "hx_negotiation s = Active \<longrightarrow> hx_negotiation (start_exchange r s) = Active"
    by (rule start_exchange_shape [of r s]) blast
  with assms show ?thesis by (auto simp: initial_inv_def nth_append less_Suc_eq begun_def)
qed

lemma initial_inv_step:
  assumes "runtime_step ser parse options s t" and "initial_inv s"
  shows "initial_inv t"
  using assms
proof (induction rule: runtime_step.induct)
  case (runs i s eff e st)
  have "ex_mode e = ex_mode (exchange_at i s)" using exchange_step_frame [OF runs.hyps(3)] by simp
  with runs.prems runs.hyps(1) show ?case by (auto simp: initial_inv_def nth_list_update)
next
  case (joins s i)
  then show ?case by (auto simp: initial_inv_def nth_list_update)
next
  case (starts s c envelope r cells)
  then show ?case by (intro initial_inv_starts) (simp add: initial_inv_def)
qed (auto simp: initial_inv_def)

lemma workers_none: "workers s = 0 \<longleftrightarrow> (\<forall>i < length (hx_exchanges s). ex_joined (exchange_at i s))"
  by (simp add: workers_def filter_empty_conv all_set_conv_all_nth)

lemma mismatched_initial: "exchange_ok alive ps as rs e \<Longrightarrow> mismatched (ex_phase e) \<Longrightarrow> ex_mode e = InitialLegacy"
  unfolding exchange_ok_def by blast

lemma exchanges_inv_handed:
  assumes "exchanges_inv s" and "i < length (hx_exchanges s)" and "ex_phase (exchange_at i s) = HandedOver"
  shows "\<not> ex_waiter (exchange_at i s)"
proof -
  have "exchange_ok (hx_alive s) (posts_in i s) (answers_in i s) (refusals_in i s) (exchange_at i s)"
    using assms by (simp add: exchanges_inv_def)
  then show ?thesis using assms(3) unfolding exchange_ok_def by blast
qed

lemma workers_update: "hx_exchanges t = (hx_exchanges s)[i := e] \<Longrightarrow> i < length (hx_exchanges s) \<Longrightarrow>
    ex_joined (exchange_at i s) \<longrightarrow> ex_joined e \<Longrightarrow> workers t \<le> workers s"
proof -
  have "length (filter (\<lambda>e. \<not> ex_joined e) (es[i := e])) \<le> length (filter (\<lambda>e. \<not> ex_joined e) es)"
    if "i < length es" "ex_joined (es ! i) \<longrightarrow> ex_joined e" for es
    using that by (induction es arbitrary: i) (auto simp: nth_Cons split: nat.splits)
  then show "hx_exchanges t = (hx_exchanges s)[i := e] \<Longrightarrow> i < length (hx_exchanges s) \<Longrightarrow>
    ex_joined (exchange_at i s) \<longrightarrow> ex_joined e \<Longrightarrow> workers t \<le> workers s" by (simp add: workers_def)
qed

lemma main_inv_at:
  assumes "main_inv s" and "i < length (hx_exchanges s)"
  shows "ex_joined (exchange_at i s) \<Longrightarrow> ex_phase (exchange_at i s) = Closed \<or> hx_main s \<in> {Executing i, Halted}"
    and "ex_waiter (exchange_at i s) \<Longrightarrow> hx_main s \<in> {AwaitingHandshake i, Halted}"
    and "ex_phase (exchange_at i s) = HandedOver \<Longrightarrow> others_closed i s"
    and "ex_phase (exchange_at i s) = HandedOver \<Longrightarrow> hx_main s \<in> {AwaitingHandshake i, StartingFallback i, FallingBack, Halted}"
  using assms by (simp_all add: main_inv_def)

lemma main_inv_awaiting:
  assumes "main_inv s" and "hx_main s = AwaitingHandshake i"
  shows "i < length (hx_exchanges s)" and "ex_mode (exchange_at i s) = InitialLegacy \<Longrightarrow> others_closed i s"
  using assms by (simp_all add: main_inv_def)

lemma main_inv_runs:
  assumes inv: "main_inv s" "exchanges_inv s" and i: "i < length (hx_exchanges s)" and running: "hx_main s \<noteq> Halted"
    and step: "exchange_step parse options (hx_alive s) (exchange_at i s, hx_session s) eff (e, st)"
  shows "main_inv (s\<lparr>hx_exchanges := (hx_exchanges s)[i := e], hx_session := st, hx_log := hx_log s @ [(i, eff)]\<rparr>)"
    (is "main_inv ?t")
proof -
  note frame = exchange_step_frame [OF step, simplified]
  have handed: "others_closed i s \<and> hx_main s = AwaitingHandshake i" if "ex_phase e = HandedOver"
  proof -
    have "mismatched (ex_phase (exchange_at i s))" "ex_waiter (exchange_at i s)" using frame that by auto
    moreover have "exchange_ok (hx_alive s) (posts_in i s) (answers_in i s) (refusals_in i s) (exchange_at i s)"
      using inv(2) i by (simp add: exchanges_inv_def)
    ultimately have "ex_mode (exchange_at i s) = InitialLegacy" "hx_main s = AwaitingHandshake i"
      using mismatched_initial main_inv_at(2) [OF inv(1) i] running by blast+
    then show ?thesis using main_inv_awaiting(2) [OF inv(1)] by simp
  qed
  have closed: "others_closed j s \<Longrightarrow> i = j" for j using frame i by (auto simp: others_closed_def)
  have others: "others_closed i ?t = others_closed i s" by (auto simp: others_closed_def)
  have "workers ?t \<le> workers s" using i frame by (intro workers_update) auto
  then have few: "workers ?t \<le> MAX_HTTP_EXCHANGES" using inv(1) by (simp add: main_inv_def)
  have "(ex_joined (exchange_at j ?t) \<longrightarrow> ex_phase (exchange_at j ?t) = Closed \<or> hx_main s \<in> {Executing j, Halted})
      \<and> (ex_waiter (exchange_at j ?t) \<longrightarrow> hx_main s \<in> {AwaitingHandshake j, Halted})
      \<and> (ex_phase (exchange_at j ?t) = HandedOver \<longrightarrow>
           others_closed j ?t \<and> hx_main s \<in> {AwaitingHandshake j, StartingFallback j, FallingBack, Halted})"
    if "j < length (hx_exchanges s)" for j
  proof (cases "j = i")
    case True
    with that inv(1) frame handed i others show ?thesis by (auto simp: main_inv_def)
  next
    case False
    with that inv(1) closed [of j] show ?thesis by (auto simp: main_inv_def)
  qed
  moreover have "j < length (hx_exchanges s) \<and> (ex_mode (exchange_at j ?t) = InitialLegacy \<longrightarrow> others_closed j ?t)"
    if "hx_main s = AwaitingHandshake j" for j
    using main_inv_awaiting [OF inv(1) that] frame others by (cases "j = i") (auto dest: closed)
  ultimately show ?thesis using few by (auto simp: main_inv_def)
qed

lemma main_inv_starts:
  assumes inv: "main_inv s" and main: "hx_main s = Receiving" and few: "workers s < MAX_HTTP_EXCHANGES"
  shows "main_inv (start_exchange r s)"
proof -
  obtain mode waiter joined where shape:
    "hx_exchanges (start_exchange r s) = hx_exchanges s @ [begun r mode waiter joined]"
    "mode = InitialLegacy \<longrightarrow> waiter \<and> workers s = 0"
    "hx_main (start_exchange r s) =
       (if waiter then AwaitingHandshake (length (hx_exchanges s))
        else if joined then Executing (length (hx_exchanges s)) else hx_main s)" "waiter \<longrightarrow> \<not> joined"
    by (rule start_exchange_shape [of r s]) blast
  have old: "(ex_joined (exchange_at i s) \<longrightarrow> ex_phase (exchange_at i s) = Closed) \<and> \<not> ex_waiter (exchange_at i s)
      \<and> ex_phase (exchange_at i s) \<noteq> HandedOver" if "i < length (hx_exchanges s)" for i
    using inv that main by (auto simp: main_inv_def)
  have "others_closed (length (hx_exchanges s)) (start_exchange r s)" if "mode = InitialLegacy"
    using old that shape(1,2) by (auto simp: others_closed_def workers_none nth_append less_Suc_eq)
  moreover have "workers (start_exchange r s) \<le> MAX_HTTP_EXCHANGES" using few shape(1) by (simp add: workers_def)
  ultimately show ?thesis
    using old shape by (auto simp: main_inv_def nth_append less_Suc_eq begun_def main)
qed

text \<open>Steps of the loop that leave the exchanges alone.\<close>

lemma others_closed_cong: "hx_exchanges t = hx_exchanges s \<Longrightarrow> others_closed i t = others_closed i s"
  by (simp add: others_closed_def)

lemma main_inv_kept: "main_inv s \<Longrightarrow> hx_exchanges t = hx_exchanges s \<Longrightarrow> hx_main t = hx_main s \<Longrightarrow> main_inv t"
  using others_closed_cong [of t s] by (simp add: main_inv_def workers_def)

lemma main_inv_moved:
  assumes inv: "main_inv s" and same: "hx_exchanges t = hx_exchanges s" and main: "\<forall>j. hx_main t \<noteq> AwaitingHandshake j"
    and joined: "\<And>j. hx_main s = Executing j \<Longrightarrow> hx_main t = Halted \<or> ex_phase (exchange_at j s) = Closed"
    and waiter: "\<And>j. hx_main s = AwaitingHandshake j \<Longrightarrow> hx_main t = Halted \<or> \<not> ex_waiter (exchange_at j s)"
    and handed: "\<And>j. ex_phase (exchange_at j s) = HandedOver \<Longrightarrow>
      hx_main s \<in> {AwaitingHandshake j, StartingFallback j, FallingBack, Halted} \<Longrightarrow>
      hx_main t \<in> {StartingFallback j, FallingBack, Halted}"
    and halted: "hx_main s \<noteq> Halted"
  shows "main_inv t"
proof -
  have few: "workers t \<le> MAX_HTTP_EXCHANGES" using inv same by (simp add: main_inv_def workers_def)
  have "(ex_joined (exchange_at j t) \<longrightarrow> ex_phase (exchange_at j t) = Closed \<or> hx_main t \<in> {Executing j, Halted})
      \<and> (ex_waiter (exchange_at j t) \<longrightarrow> hx_main t \<in> {AwaitingHandshake j, Halted})
      \<and> (ex_phase (exchange_at j t) = HandedOver \<longrightarrow>
           others_closed j t \<and> hx_main t \<in> {AwaitingHandshake j, StartingFallback j, FallingBack, Halted})"
    if "j < length (hx_exchanges t)" for j
  proof -
    note at = main_inv_at [OF inv, of j] and j = that [unfolded same]
    have "ex_joined (exchange_at j s) \<longrightarrow> ex_phase (exchange_at j s) = Closed \<or> hx_main t \<in> {Executing j, Halted}"
      using at(1) [OF j] joined [of j] halted by blast
    moreover have "ex_waiter (exchange_at j s) \<longrightarrow> hx_main t \<in> {AwaitingHandshake j, Halted}"
      using at(2) [OF j] waiter [of j] halted by blast
    moreover have "ex_phase (exchange_at j s) = HandedOver \<longrightarrow> others_closed j s \<and> hx_main t \<in> {StartingFallback j, FallingBack, Halted}"
      using at(3,4) [OF j] handed [of j] by blast
    ultimately show ?thesis unfolding same others_closed_cong [OF same] by blast
  qed
  with few main show ?thesis unfolding main_inv_def by blast
qed

lemma main_inv_step:
  assumes "runtime_step ser parse options s t" and "main_inv s" and "exchanges_inv s"
  shows "main_inv t"
  using assms
proof (induction rule: runtime_step.induct)
  case (runs i s eff e st)
  then show ?case by (intro main_inv_runs)
next
  case (starts s c envelope r cells)
  have "main_inv (s\<lparr>hx_cells := cells\<rparr>)" using starts.prems(1) by (simp add: main_inv_def workers_def others_closed_def)
  then show ?case using starts.hyps by (intro main_inv_starts) (simp_all add: workers_def)
next
  case (joins s i)
  let ?t = "s\<lparr>hx_exchanges := (hx_exchanges s)[i := (exchange_at i s)\<lparr>ex_joined := True\<rparr>]\<rparr>"
  have few: "workers ?t \<le> MAX_HTTP_EXCHANGES"
    using joins.hyps(2) joins.prems(1) workers_update [of ?t s i] by (fastforce simp: main_inv_def)
  have old: "(ex_joined (exchange_at j s) \<longrightarrow> ex_phase (exchange_at j s) = Closed) \<and> \<not> ex_waiter (exchange_at j s)
      \<and> ex_phase (exchange_at j s) \<noteq> HandedOver" if "j < length (hx_exchanges s)" for j
    using joins.prems(1) that joins.hyps(1) by (auto simp: main_inv_def)
  have "(ex_joined (exchange_at j ?t) \<longrightarrow> ex_phase (exchange_at j ?t) = Closed) \<and> \<not> ex_waiter (exchange_at j ?t)
      \<and> ex_phase (exchange_at j ?t) \<noteq> HandedOver" if "j < length (hx_exchanges s)" for j
    using old [OF that] joins.hyps(2,3) by (cases "j = i") auto
  then show ?case using few joins.hyps(1) unfolding main_inv_def by auto
next
  case (established s i)
  then show ?case by (intro main_inv_moved [OF established.prems(1)]) auto
next
  case (executed s i)
  then show ?case by (intro main_inv_moved [OF executed.prems(1)]) auto
next
  case (falls_back s i)
  have "\<not> ex_waiter (exchange_at i s)"
    using exchanges_inv_handed [OF falls_back.prems(2) _ falls_back.hyps(2)]
      main_inv_awaiting(1) [OF falls_back.prems(1) falls_back.hyps(1)] by blast
  with falls_back show ?case by (intro main_inv_moved [OF falls_back.prems(1)]) auto
next
  case (receiver_goes s)
  then show ?case by (elim main_inv_kept) simp_all
next
  case (rejects s c envelope f)
  then show ?case by (intro main_inv_kept [OF rejects.prems(1)]) simp_all
next
  case (forwards s envelope)
  then show ?case by (intro main_inv_kept [OF forwards.prems(1)]) simp_all
next
  case (halts_unheard s)
  then show ?case by (intro main_inv_moved [OF halts_unheard.prems(1)]) auto
next
  case (input_ends s)
  then show ?case by (intro main_inv_moved [OF input_ends.prems(1)]) auto
next
  case (drained s)
  then show ?case by (intro main_inv_moved [OF drained.prems(1)]) auto
next
  case (fallback_starts s i)
  then show ?case by (intro main_inv_moved [OF fallback_starts.prems(1)]) auto
next
  case (fallback_fails s i)
  then show ?case by (intro main_inv_moved [OF fallback_fails.prems(1)]) auto
next
  case (fallback_ends s)
  then show ?case by (intro main_inv_moved [OF fallback_ends.prems(1)]) auto
next
  case (shuts_down s grant)
  then show ?case by (intro main_inv_moved [OF shuts_down.prems(1)]) auto
qed

lemma runtime_run_inv: "runtime_run ser parse options s \<Longrightarrow> exchanges_inv s \<and> initial_inv s \<and> main_inv s"
proof (induction rule: runtime_run.induct)
  case (runtime_started cells)
  show ?case
    by (simp add: exchanges_inv_def initial_inv_def main_inv_def runtime_new_def workers_def)
next
  case (runtime_more s t)
  then show ?case using exchanges_inv_step initial_inv_step main_inv_step by blast
qed



subsection \<open>Runs of an initialize request\<close>

definition sample_initialize :: json where
  "sample_initialize = JObject [(''jsonrpc'', JString ''2.0''), (''id'', from_u64 1), (''method'', JString ''initialize'')]"

definition sample_answer :: json where
  "sample_answer = JObject [(''jsonrpc'', JString ''2.0''), (''id'', from_u64 1),
     (''result'', JObject [(''protocolVersion'', JString ''2025-11-25'')])]"

definition sample_parse :: parser where
  "sample_parse t = (if t = ''q'' then Some sample_initialize else if t = ''a'' then Some sample_answer else None)"

definition sample_options :: options where
  "sample_options = \<lparr>op_headers = [], op_auth = None, op_request_timeout = 60, op_read_timeout = 30\<rparr>"

definition sample_cells :: cells where
  "sample_cells = \<lparr>next_cell = 0, cell = (\<lambda>_. 0)\<rparr>"

definition sample_posted :: posted_request where
  "sample_posted =
     \<lparr>rq_line = ''q'', rq_identifier = Some (from_u64 1), rq_kind = InitializeExchange LegacyEra,
      rq_method = Some ''initialize'', rq_name = None, rq_timeout_ms = None, rq_shared = True, rq_budget = 0\<rparr>"

definition sample_exchange :: exchange where
  "sample_exchange = begun sample_posted InitialLegacy True False"

definition sample_state :: "exchange \<Rightarrow> http_session \<Rightarrow> exchange_effect list \<Rightarrow> http_runtime" where
  "sample_state e st effs =
     \<lparr>hx_session = st, hx_negotiation = Active, hx_exchanges = [e], hx_main = AwaitingHandshake 0, hx_alive = True,
      hx_cells = snd (sd_new 65 sample_cells), hx_log = map (Pair 0) effs, hx_rejected = [], hx_forwarded = [],
      hx_deletes = []\<rparr>"

abbreviation sample_reachable :: "exchange \<Rightarrow> http_session \<Rightarrow> exchange_effect list \<Rightarrow> bool" where
  "sample_reachable e st effs \<equiv> runtime_run (\<lambda>_. []) sample_parse sample_options (sample_state e st effs)"

lemma sample_begins: "sample_reachable sample_exchange FreshSession []"
proof -
  let ?envelope = "\<lparr>uq_line = ''q'', uq_deadline = None\<rparr>" and ?s = "runtime_new sample_cells"
  have "cacheable_request sample_initialize = Some Initialize" "request_identifier sample_initialize = Some (from_u64 1)"
    by code_simp+
  then have parsed: "request_parse (\<lambda>_. []) sample_parse sample_clock sample_cells sample_options ?envelope =
      Inr (sample_posted, snd (sd_new 65 sample_cells))"
    by (simp add: request_parse_def sample_parse_def sample_initialize_def timeout_ms_def TIMEOUT_FIELD_def obj_get_def
        request_budget_def request_deadline_def sample_options_def sample_clock_def checked_add_def sd_new_def
        sample_cells_def sample_posted_def exchange_kind_of_def MAX_HTTP_REQUEST_BYTES_def Let_def)
  have "start_exchange sample_posted (?s\<lparr>hx_cells := snd (sd_new 65 sample_cells)\<rparr>) =
      sample_state sample_exchange FreshSession []"
    by (simp add: start_exchange_def runtime_new_def admit_def workers_def sample_posted_def is_barrier_def
        is_handshake_def refreshes_modern_def sample_state_def sample_exchange_def)
  moreover have "runtime_step (\<lambda>_. []) sample_parse sample_options ?s
      (start_exchange sample_posted (?s\<lparr>hx_cells := snd (sd_new 65 sample_cells)\<rparr>))"
    by (rule runtime_step.starts [where c = sample_clock and envelope = ?envelope])
      (simp_all add: runtime_new_def workers_def MAX_HTTP_EXCHANGES_def parsed)
  ultimately show ?thesis using runtime_more [OF runtime_started] by metis
qed

lemma sample_continues:
  assumes "sample_reachable e st effs" and "exchange_step sample_parse sample_options True (e, st) eff (e', st')"
  shows "sample_reachable e' st' (effs @ [eff])"
proof -
  have "runtime_step (\<lambda>_. []) sample_parse sample_options (sample_state e st effs)
      ((sample_state e st effs)\<lparr>hx_exchanges := (hx_exchanges (sample_state e st effs))[0 := e'],
         hx_session := st', hx_log := hx_log (sample_state e st effs) @ [(0, eff)]\<rparr>)"
    using assms(2) by (intro runtime_step.runs) (simp_all add: sample_state_def)
  then show ?thesis using runtime_more [OF assms(1)] by (simp add: sample_state_def)
qed

lemma sample_posts:
  "sample_reachable (sample_exchange\<lparr>ex_phase := InFlight True\<rparr>) FreshSession
     [Silent, Posted FreshSession content_headers ''q'']"
proof -
  let ?read = "sample_exchange\<lparr>ex_phase := Authorizing FreshSession\<rparr>"
  have headers: "post_headers sample_options (Inr None) FreshSession (ex_request ?read) = Inr content_headers"
    by (simp add: post_headers_def authorize_def sample_options_def session_headers_def modern_headers_def
        modern_exchange_def sample_exchange_def begun_def sample_posted_def replace_headers_def)
  have sendable: "sendable content_headers" by code_simp
  have "posted True ?read = sample_exchange\<lparr>ex_phase := InFlight True\<rparr>" "rq_line (ex_request ?read) = ''q''"
    by (simp_all add: posted_def sample_exchange_def begun_def sample_posted_def)
  then have "exchange_step sample_parse sample_options True (?read, FreshSession)
      (Posted FreshSession content_headers ''q'') (sample_exchange\<lparr>ex_phase := InFlight True\<rparr>, FreshSession)"
    using exchange_step.posts [OF _ headers sendable, of sample_parse True FreshSession] by simp
  moreover have "exchange_step sample_parse sample_options True (sample_exchange, FreshSession) Silent (?read, FreshSession)"
    by (rule exchange_step.reads_session) (simp add: sample_exchange_def begun_def)
  ultimately show ?thesis
    using sample_continues [OF sample_continues [OF sample_begins]] by simp
qed

lemma sample_replies:
  "sample_reachable (sample_exchange\<lparr>ex_phase := replied sample_posted InitialLegacy True FreshSession reply,
       ex_status := Some (rp_status reply)\<rparr>) FreshSession [Silent, Posted FreshSession content_headers ''q'', Silent]"
  using sample_continues [OF sample_posts exchange_step.replies [where fresh = True and reply = reply]]
  by (simp add: sample_exchange_def begun_def)

lemma sample_session:
  "deliver sample_parse sample_posted None FreshSession ''a'' = Inr (sample_answer, ReadySession None ''2025-11-25'')"
  "answers sample_posted sample_answer"
  by code_simp+



end
