(* ===== verification/OAuthStore.thy ===== *)
theory OAuthStore
  imports BridgeHttp Ordered
begin

text \<open>
  The stored credentials of a server (\<open>src/oauth_store.rs\<close>, \<open>src/oauth_reconcile.rs\<close>): a vault whose
  entries are bound to a server's name and URL, and at most one cache directory with a file per field.
  Reading gathers every snapshot that belongs to the server, selects one generation and checks what
  it is bound to; saving stamps the generation with a revision that follows all the others.
  \<open>fingerprint\<close> is the digest of a printed value, \<open>parse_url\<close> the parser of URLs.  A store that cannot
  be read or parsed is \<open>Inl\<close>.
\<close>

subsection \<open>Context\<close>

record credential_context =
  cx_server_name :: string
  cx_server_url :: string
  cx_directory_stores :: "string list"
  cx_directory_primary :: bool
  cx_identity_key :: string
  cx_client_name :: string
  cx_client_id :: "string option"
  cx_client_secret_env :: "string option"
  cx_client_secret :: "string option"
  cx_token_auth_method :: "string option"
  cx_redirect_url :: "string option"
  cx_client_metadata_url :: "string option"
  cx_scope :: "string option"
  cx_timeout_ms :: nat
  cx_read_only :: bool
  cx_cached_only :: bool

text \<open>\<open>string\<close>: a member that is a string and not blank.\<close>

definition string_at :: "string \<Rightarrow> json \<Rightarrow> string option" where
  "string_at key v =
     (case Option.bind (vget key v) as_str of Some s \<Rightarrow> if trim s \<noteq> [] then Some s else None | None \<Rightarrow> None)"

abbreviation str_in :: "string \<Rightarrow> string \<Rightarrow> json \<Rightarrow> string option" where
  "str_in outer key v \<equiv> Option.bind (vget outer v) (string_at key)"

definition trim_slashes :: "string \<Rightarrow> string" where
  "trim_slashes s = rev (dropWhile (\<lambda>c. c = CHR ''/'') (rev s))"

abbreviation same_issuer :: "string \<Rightarrow> string \<Rightarrow> bool" where
  "same_issuer a b \<equiv> trim_slashes a = trim_slashes b"

definition ensure_writable :: "bool \<Rightarrow> credential_context \<Rightarrow> string + unit" where
  "ensure_writable read_only_environment a =
     (if cx_read_only a \<or> read_only_environment
      then Inl ''credential validation is read-only; expired tokens cannot refresh and auth/vault mutations are disabled; remove MCP_CLI_CREDENTIALS_READ_ONLY and MCP_POOL_CREDENTIALS_READ_ONLY only for an explicitly authorized runtime operation''
      else Inr ())"

definition missing :: "credential_context \<Rightarrow> string" where
  "missing a = ''OAuth credentials missing or expired; run `mcp-cli auth '' @ cx_server_name a @ ''` explicitly''"

definition secure_url :: "url \<Rightarrow> bool" where
  "secure_url u \<longleftrightarrow>
     (ur_scheme u = ''https''
      \<or> ur_scheme u = ''http'' \<and> ur_host u \<in> Some ` {''localhost'', ''127.0.0.1'', ''[::1]'', ''::1''})
     \<and> ur_username u = [] \<and> ur_password u = None \<and> ur_fragment u = None"

definition checked_url :: "url_parser \<Rightarrow> string \<Rightarrow> string + url" where
  "checked_url parse_url v =
     (case parse_url v of
        None \<Rightarrow> Inl ''invalid OAuth endpoint URL''
      | Some u \<Rightarrow>
          if secure_url u then Inr u
          else Inl ''OAuth endpoints require HTTPS (HTTP allowed only on loopback), without userinfo or fragments'')"

subsection \<open>Numbers\<close>

text \<open>\<open>as_f64\<close> of a JSON number: whether it is negative, and its conversion to \<open>u64\<close>.\<close>

fun number_negative :: "number \<Rightarrow> bool" where
  "number_negative (PosInt n) = False"
| "number_negative (NegInt n) = (sint n < 0)"
| "number_negative (Float b) = (bit b 63 \<and> b \<noteq> 0x8000000000000000)"

definition MAX_U64 :: int where "MAX_U64 = 2 ^ 64 - 1"

function significant_bits :: "int \<Rightarrow> nat" where
  "significant_bits n = (if n \<le> 0 then 0 else Suc (significant_bits (n div 2)))"
  by pat_completeness auto
termination
  by (relation "measure nat") auto

declare significant_bits.simps [simp del]

text \<open>An integer of more than 53 bits is rounded to the nearest float, ties to even.\<close>

definition rounded_to_float :: "int \<Rightarrow> int" where
  "rounded_to_float n =
     (if n < 2 ^ 53 then n
      else let shift = significant_bits n - 53; q = n div 2 ^ shift; r = n mod 2 ^ shift; half = 2 ^ (shift - 1)
           in (if half < r \<or> r = half \<and> odd q then q + 1 else q) * 2 ^ shift)"

definition float_floor :: "u64 \<Rightarrow> int" where
  "float_floor b =
     (if bit b 63 then 0
      else let e = uint b div 2 ^ 52; m = uint b mod 2 ^ 52; mantissa = (if e = 0 then m else m + 2 ^ 52);
               e = (if e = 0 then 1 else e)
           in if 1075 \<le> e then mantissa * 2 ^ nat (e - 1075) else mantissa div 2 ^ nat (1075 - e))"

fun number_seconds :: "number \<Rightarrow> int" where
  "number_seconds (PosInt n) = min (rounded_to_float (uint n)) MAX_U64"
| "number_seconds (NegInt n) = 0"
| "number_seconds (Float b) = min (float_floor b) MAX_U64"

subsection \<open>Validation\<close>

definition valid_expiration :: "json option \<Rightarrow> bool" where
  "valid_expiration v =
     (case v of None \<Rightarrow> True | Some (JNumber n) \<Rightarrow> \<not> number_negative n | Some _ \<Rightarrow> False)"

definition validate_tokens :: "json \<Rightarrow> string + unit" where
  "validate_tokens tokens =
     (case string_at ''access_token'' tokens of
        None \<Rightarrow> Inl ''credential access token missing''
      | Some access \<Rightarrow>
          if \<not> (case string_at ''token_type'' tokens of Some kind \<Rightarrow> eq_ignore_ascii_case kind ''bearer'' | None \<Rightarrow> False)
             \<or> \<not> header_valid (''Bearer '' @ access)
          then Inl ''invalid bearer credential''
          else if list_all (\<lambda>field. valid_expiration (vget field tokens)) [''expires_in'', ''expires_at'', ''expiresAt'']
          then Inr () else Inl ''invalid credential expiration'')"

text \<open>\<open>seconds\<close> is the time of the day's clock in seconds.\<close>

definition expired :: "int \<Rightarrow> json \<Rightarrow> bool" where
  "expired seconds tokens =
     (let expiration =
            (case (case vget ''expires_at'' tokens of Some v \<Rightarrow> Some v | None \<Rightarrow> vget ''expiresAt'' tokens) of
               Some (JNumber n) \<Rightarrow> number_seconds n
             | _ \<Rightarrow> 0)
      in if 0 < expiration then expiration \<le> min (seconds + 60) MAX_U64 else vget ''expires_in'' tokens \<noteq> None)"

definition covers :: "url \<Rightarrow> url \<Rightarrow> bool" where
  "covers resource server \<longleftrightarrow>
     (let prefix = trim_slashes (ur_path resource) in
      ur_scheme server = ur_scheme resource \<and> ur_host server = ur_host resource \<and> ur_port server = ur_port resource
      \<and> ur_query resource = None
      \<and> (ur_path server = prefix \<or> prefix = [] \<or> starts_with (prefix @ ''/'') (ur_path server)))"

definition validate_resource :: "url_parser \<Rightarrow> string \<Rightarrow> string \<Rightarrow> string + unit" where
  "validate_resource parse_url server resource =
     res_bind (checked_url parse_url server) (\<lambda>server.
     res_bind (checked_url parse_url resource) (\<lambda>resource.
     if covers resource server then Inr ()
     else Inl ''protected resource does not match configured MCP endpoint''))"

text \<open>Every issuer that a snapshot names is a checked URL, and all of them are the same issuer.\<close>

fun agree_on_issuer :: "url_parser \<Rightarrow> string option \<Rightarrow> string list \<Rightarrow> string + unit" where
  "agree_on_issuer parse_url expected [] = Inr ()"
| "agree_on_issuer parse_url expected (issuer # issuers) =
     res_bind (checked_url parse_url issuer) (\<lambda>_.
     if expected \<noteq> None \<and> expected \<noteq> Some (trim_slashes issuer)
     then Inl ''OAuth issuer binding mismatch; explicitly reauthorize''
     else agree_on_issuer parse_url (Some (trim_slashes issuer)) issuers)"

definition issuers_of :: "json \<Rightarrow> string list" where
  "issuers_of snapshot =
     List.map_filter id
       [str_in ''tokens'' ''issuer'' snapshot, str_in ''clientInfo'' ''issuer'' snapshot,
        Option.bind (Option.bind (vget ''discoveryState'' snapshot) (vget ''authorizationServerMetadata'')) (string_at ''issuer''),
        string_at ''authorizationServerUrl'' snapshot]"

definition metadata_resource :: "json \<Rightarrow> string option" where
  "metadata_resource snapshot =
     Option.bind (Option.bind (vget ''discoveryState'' snapshot) (vget ''resourceMetadata'')) (string_at ''resource'')"

definition differs :: "string option \<Rightarrow> string \<Rightarrow> bool" where
  "differs v expected \<longleftrightarrow> v \<noteq> None \<and> v \<noteq> Some expected"

definition validate_binding :: "url_parser \<Rightarrow> credential_context \<Rightarrow> json \<Rightarrow> string + unit" where
  "validate_binding parse_url a snapshot =
     (if differs (string_at ''serverUrl'' snapshot) (cx_server_url a)
      then Inl ''credential server URL binding changed; explicitly reauthorize''
      else if (case cx_client_id a of
                 Some configured \<Rightarrow> differs (str_in ''clientInfo'' ''client_id'' snapshot) configured | None \<Rightarrow> False)
      then Inl ''credential client registration binding changed; explicitly reauthorize''
      else
        res_bind (agree_on_issuer parse_url None (issuers_of snapshot)) (\<lambda>_.
        res_bind (case string_at ''resourceUrl'' snapshot of
                    Some resource \<Rightarrow> validate_resource parse_url (cx_server_url a) resource | None \<Rightarrow> Inr ()) (\<lambda>_.
        case metadata_resource snapshot of
          None \<Rightarrow> Inr ()
        | Some resource \<Rightarrow>
            res_bind (validate_resource parse_url (cx_server_url a) resource) (\<lambda>_.
            if differs (string_at ''resourceUrl'' snapshot) resource
            then Inl ''OAuth resource metadata binding mismatch'' else Inr ()))))"

definition validate_payload :: "url_parser \<Rightarrow> credential_context \<Rightarrow> json \<Rightarrow> string + unit" where
  "validate_payload parse_url a payload =
     (case vget ''tokens'' payload of
        None \<Rightarrow> Inl ''vault payload requires tokens''
      | Some tokens \<Rightarrow>
          res_bind (validate_tokens tokens) (\<lambda>_.
          if string_at ''refresh_token'' tokens \<noteq> None \<and> str_in ''clientInfo'' ''client_id'' payload = None
          then Inl ''refreshable credential payload must include its bound clientInfo registration''
          else validate_binding parse_url a payload))"

subsection \<open>Generations\<close>

type_synonym fingerprint = "json \<Rightarrow> string"

definition COMMIT :: string where "COMMIT = ''__mcp_pool_commit''"

fun strip_commit_metadata :: "json \<Rightarrow> json" where
  "strip_commit_metadata (JObject m) = JObject (obj_remove COMMIT m)"
| "strip_commit_metadata v = v"

definition token_identity :: "fingerprint \<Rightarrow> json \<Rightarrow> string" where
  "token_identity fp tokens = fp (strip_commit_metadata tokens)"

definition revision :: "json \<Rightarrow> u64" where
  "revision tokens =
     (case Option.bind (Option.bind (vget COMMIT tokens) (vget ''revision'')) as_u64 of
        Some n \<Rightarrow> n | None \<Rightarrow> 0)"

definition parent :: "json \<Rightarrow> string option" where
  "parent tokens = str_in COMMIT ''parent'' tokens"

definition present :: "json option \<Rightarrow> json option" where
  "present v = (case v of Some JNull \<Rightarrow> None | _ \<Rightarrow> v)"

definition string_or_null :: "string option \<Rightarrow> json" where
  "string_or_null v = (case v of Some s \<Rightarrow> JString s | None \<Rightarrow> JNull)"

definition stamp_tokens :: "fingerprint \<Rightarrow> json \<Rightarrow> json \<Rightarrow> json list \<Rightarrow> string + json" where
  "stamp_tokens fp entry previous candidates =
     (let revisions = map revision (List.map_filter (vget ''tokens'') candidates);
          newest = fold max revisions 0
      in if newest = - 1 then Inl ''credential commit sequence exhausted''
         else case (entry, vget ''tokens'' entry) of
                (JObject m, Some (JObject tokens)) \<Rightarrow>
                  Inr (JObject (obj_insert ''tokens'' (JObject (obj_insert COMMIT
                    (JObject [(''revision'', from_u64 (newest + 1)),
                              (''parent'', string_or_null (map_option (token_identity fp) (vget ''tokens'' previous))),
                              (''client'', string_or_null (map_option fp (present (vget ''clientInfo'' entry))))])
                    tokens)) m))
              | _ \<Rightarrow> Inl ''credential tokens must be an object'')"

definition validate_client :: "fingerprint \<Rightarrow> json \<Rightarrow> string + unit" where
  "validate_client fp snapshot =
     (case Option.bind (Option.bind (vget ''tokens'' snapshot) (vget COMMIT)) (string_at ''client'') of
        None \<Rightarrow> Inr ()
      | Some expected \<Rightarrow>
          (case present (vget ''clientInfo'' snapshot) of
             None \<Rightarrow> Inl ''credential generation is missing its bound client registration''
           | Some client \<Rightarrow>
               if fp client = expected then Inr ()
               else Inl ''credential generation does not match stored client registration; explicitly reauthorize''))"

text \<open>One candidate against the selected snapshot: the snapshot that stays selected.\<close>

definition preferred :: "fingerprint \<Rightarrow> json \<Rightarrow> json \<Rightarrow> string + json" where
  "preferred fp selected candidate =
     (case (vget ''tokens'' selected, vget ''tokens'' candidate) of
        (Some current, Some proposed) \<Rightarrow>
          if token_identity fp current = token_identity fp proposed then Inr selected
          else if 0 < revision current \<and> 0 < revision proposed then
            (if revision current = revision proposed
             then Inl ''credential stores contain conflicting committed generations''
             else Inr (if revision current < revision proposed then candidate else selected))
          else if parent proposed = Some (token_identity fp current) then Inr candidate
          else if parent current = Some (token_identity fp proposed) then Inr selected
          else if string_at ''refresh_token'' current \<noteq> None \<and> string_at ''refresh_token'' proposed \<noteq> None
                  \<and> string_at ''refresh_token'' current \<noteq> string_at ''refresh_token'' proposed
          then Inl ''credential stores disagree without verified commit ordering; explicitly reauthorize instead of replaying a refresh token''
          else Inr selected
      | _ \<Rightarrow> Inr selected)"

fun preferred_all :: "fingerprint \<Rightarrow> json list \<Rightarrow> json \<Rightarrow> string + json" where
  "preferred_all fp [] selected = Inr selected"
| "preferred_all fp (c # cs) selected = res_bind (preferred fp selected c) (preferred_all fp cs)"

definition first_snapshot :: "json list \<Rightarrow> json" where
  "first_snapshot candidates =
     (case find (\<lambda>c. vget ''tokens'' c \<noteq> None) candidates of
        Some c \<Rightarrow> c
      | None \<Rightarrow> (case find (\<lambda>c. vget ''clientInfo'' c \<noteq> None) candidates of Some c \<Rightarrow> c | None \<Rightarrow> JObject []))"

definition MERGED_FIELDS :: "string list" where
  "MERGED_FIELDS = [''clientInfo'', ''discoveryState'', ''authorizationServerUrl'', ''resourceUrl'']"

definition merge_field :: "json \<Rightarrow> string \<Rightarrow> obj \<Rightarrow> obj" where
  "merge_field candidate field m =
     (case (obj_get field m, vget field candidate) of
        (None, Some v) \<Rightarrow> obj_insert field v m
      | _ \<Rightarrow> m)"

definition merge_snapshot :: "fingerprint \<Rightarrow> string \<Rightarrow> json \<Rightarrow> json \<Rightarrow> string + json" where
  "merge_snapshot fp ident candidate selected =
     (if map_option (token_identity fp) (vget ''tokens'' candidate) \<noteq> Some ident then Inr selected
      else if (case (vget ''clientInfo'' selected, vget ''clientInfo'' candidate) of
                 (Some c, Some d) \<Rightarrow> \<not> json_eq c d | _ \<Rightarrow> False)
      then Inl ''one credential generation has conflicting client registrations''
      else case selected of
             JObject m \<Rightarrow> Inr (JObject (fold (merge_field candidate) MERGED_FIELDS m))
           | _ \<Rightarrow> Inr selected)"

fun merge_all :: "fingerprint \<Rightarrow> string \<Rightarrow> json list \<Rightarrow> json \<Rightarrow> string + json" where
  "merge_all fp ident [] selected = Inr selected"
| "merge_all fp ident (c # cs) selected = res_bind (merge_snapshot fp ident c selected) (merge_all fp ident cs)"

definition select_snapshot :: "fingerprint \<Rightarrow> json list \<Rightarrow> string + json" where
  "select_snapshot fp candidates =
     res_bind (preferred_all fp candidates (first_snapshot candidates)) (\<lambda>selected.
     res_bind (case vget ''tokens'' selected of
                 Some tokens \<Rightarrow> merge_all fp (token_identity fp tokens) candidates selected
               | None \<Rightarrow> Inr selected) (\<lambda>selected.
     res_bind (validate_client fp selected) (\<lambda>_. Inr selected)))"

subsection \<open>Stores\<close>

definition DIRECTORY_FIELDS :: "(string \<times> string \<times> bool) list" where
  "DIRECTORY_FIELDS =
     [(''tokens'', ''tokens.json'', True), (''clientInfo'', ''client.json'', True),
      (''discoveryState'', ''discovery.json'', True),
      (''authorizationServerUrl'', ''authorization_server_url.txt'', False),
      (''resourceUrl'', ''resource_url.txt'', False), (''state'', ''state.txt'', True),
      (''codeVerifier'', ''code_verifier.txt'', False)]"

text \<open>The vault, and the structured and plain files of a directory by its root and their names.\<close>

record credential_files =
  cf_vault :: "string + json option"
  cf_json :: "string \<Rightarrow> string \<Rightarrow> string + json option"
  cf_text :: "string \<Rightarrow> string \<Rightarrow> string + string option"

definition vault_of :: "credential_files \<Rightarrow> string + json" where
  "vault_of files =
     res_bind (cf_vault files) (\<lambda>stored.
     let v = (case stored of
                Some v \<Rightarrow> v
              | None \<Rightarrow> JObject [(''version'', from_u64 2), (''entries'', JObject []), (''serverUrls'', JObject [])])
     in if Option.bind (vget ''version'' v) as_u64 \<notin> {Some 1, Some 2}
           \<or> \<not> (case vget ''entries'' v of Some e \<Rightarrow> is_object e | None \<Rightarrow> False)
        then Inl ''unsupported or malformed MCP credential vault'' else Inr v)"

definition entries_of :: "json \<Rightarrow> (string \<times> json) list" where
  "entries_of vault = (case Option.bind (vget ''entries'' vault) as_object of Some m \<Rightarrow> m | None \<Rightarrow> [])"

definition alias_name :: "credential_context \<Rightarrow> string" where
  "alias_name a = cx_server_name a @ ''-oauth''"

definition belongs :: "credential_context \<Rightarrow> string \<times> json \<Rightarrow> bool" where
  "belongs a e \<longleftrightarrow>
     (fst e = cx_identity_key a
      \<or> string_at ''serverName'' (snd e) = Some (alias_name a) \<and> string_at ''serverUrl'' (snd e) = Some (cx_server_url a))
     \<and> \<not> differs (string_at ''serverUrl'' (snd e)) (cx_server_url a)
     \<and> string_at ''serverName'' (snd e) \<in> {Some (cx_server_name a), Some (alias_name a)}"

fun later_time :: "string option \<Rightarrow> string option \<Rightarrow> bool" where
  "later_time (Some s) (Some t) = (t < s)"
| "later_time (Some s) None = True"
| "later_time None _ = False"

definition entry_before :: "credential_context \<Rightarrow> string \<times> json \<Rightarrow> string \<times> json \<Rightarrow> bool" where
  "entry_before a e e' \<longleftrightarrow>
     (if (fst e = cx_identity_key a) \<noteq> (fst e' = cx_identity_key a) then fst e = cx_identity_key a
      else later_time (string_at ''updatedAt'' (snd e)) (string_at ''updatedAt'' (snd e')))"

fun place :: "('a \<Rightarrow> 'a \<Rightarrow> bool) \<Rightarrow> 'a \<Rightarrow> 'a list \<Rightarrow> 'a list" where
  "place before x [] = [x]"
| "place before x (y # ys) = (if before y x then y # place before x ys else x # y # ys)"

definition matching :: "credential_context \<Rightarrow> json \<Rightarrow> (string \<times> json) list" where
  "matching a vault =
     (if differs (str_in ''serverUrls'' (cx_server_name a) vault) (cx_server_url a) then []
      else foldr (place (entry_before a)) (filter (belongs a) (entries_of vault)) [])"

definition read_field :: "credential_files \<Rightarrow> string \<Rightarrow> string \<times> string \<times> bool \<Rightarrow> string + json option" where
  "read_field files root f =
     (case f of (field, file, structured) \<Rightarrow>
        if structured then cf_json files root file
        else res_bind (cf_text files root file) (\<lambda>t. Inr (map_option (\<lambda>t. JString (trim t)) t)))"

fun read_fields :: "credential_files \<Rightarrow> string \<Rightarrow> (string \<times> string \<times> bool) list \<Rightarrow> string + obj" where
  "read_fields files root [] = Inr []"
| "read_fields files root (f # fs) =
     res_bind (read_field files root f) (\<lambda>v.
     res_bind (read_fields files root fs) (\<lambda>rest.
     Inr (case v of Some v \<Rightarrow> (fst f, v) # rest | None \<Rightarrow> rest)))"

definition directory_snapshot :: "credential_context \<Rightarrow> credential_files \<Rightarrow> string \<Rightarrow> string + json" where
  "directory_snapshot a files root =
     res_bind (cf_text files root ''server_url.txt'') (\<lambda>marker.
     if differs (map_option trim marker) (cx_server_url a) then Inr (JObject [])
     else res_bind (read_fields files root DIRECTORY_FIELDS) (\<lambda>m. Inr (JObject m)))"

text \<open>The snapshots of a primary directory come before those of the vault, the others after them.\<close>

fun with_directories :: "credential_context \<Rightarrow> credential_files \<Rightarrow> string list \<Rightarrow> json list \<Rightarrow> string + json list" where
  "with_directories a files [] candidates = Inr candidates"
| "with_directories a files (root # roots) candidates =
     res_bind (directory_snapshot a files root) (\<lambda>snapshot.
     with_directories a files roots (if cx_directory_primary a then snapshot # candidates else candidates @ [snapshot]))"

definition snapshots :: "credential_context \<Rightarrow> credential_files \<Rightarrow> string + json list" where
  "snapshots a files =
     res_bind (vault_of files) (\<lambda>vault.
     with_directories a files (cx_directory_stores a) (map snd (matching a vault)))"

definition read_store :: "url_parser \<Rightarrow> fingerprint \<Rightarrow> credential_context \<Rightarrow> credential_files \<Rightarrow> string + json" where
  "read_store parse_url fp a files =
     res_bind (snapshots a files) (\<lambda>candidates.
     res_bind (select_snapshot fp candidates) (\<lambda>selected.
     res_bind (validate_binding parse_url a selected) (\<lambda>_. Inr selected)))"

subsection \<open>Saving\<close>

datatype store_op =
    WriteVault json
  | RemoveFile string string
  | WriteJson string string json
  | WriteText string string string

fun run_op :: "store_op \<Rightarrow> credential_files \<Rightarrow> credential_files" where
  "run_op (WriteVault v) files = files\<lparr>cf_vault := Inr (Some v)\<rparr>"
| "run_op (RemoveFile root file) files =
     files\<lparr>cf_json := (cf_json files)(root := (cf_json files root)(file := Inr None)),
           cf_text := (cf_text files)(root := (cf_text files root)(file := Inr None))\<rparr>"
| "run_op (WriteJson root file v) files =
     files\<lparr>cf_json := (cf_json files)(root := (cf_json files root)(file := Inr (Some v)))\<rparr>"
| "run_op (WriteText root file t) files =
     files\<lparr>cf_text := (cf_text files)(root := (cf_text files root)(file := Inr (Some t)))\<rparr>"

definition field_op :: "json \<Rightarrow> string \<Rightarrow> string \<times> string \<times> bool \<Rightarrow> store_op list" where
  "field_op entry root f =
     (case f of (field, file, structured) \<Rightarrow>
        (case vget field entry of
           None \<Rightarrow> []
         | Some JNull \<Rightarrow> [RemoveFile root file]
         | Some v \<Rightarrow>
             if structured then [WriteJson root file v]
             else (case as_str v of Some t \<Rightarrow> [WriteText root file t] | None \<Rightarrow> [])))"

definition directory_ops :: "credential_context \<Rightarrow> json \<Rightarrow> store_op list" where
  "directory_ops a entry =
     (if cx_directory_primary a
      then concat (map (\<lambda>root. concat (map (field_op entry root) DIRECTORY_FIELDS)
                              @ [WriteText root ''server_url.txt'' (cx_server_url a)]) (cx_directory_stores a))
      else [])"

definition as_entries :: "json \<Rightarrow> obj" where
  "as_entries v = (case as_object v of Some m \<Rightarrow> m | None \<Rightarrow> [])"

text \<open>The entry a patch makes, before it is checked.\<close>

definition patched_entry :: "fingerprint \<Rightarrow> credential_context \<Rightarrow> string \<Rightarrow> obj \<Rightarrow> json \<Rightarrow> json list \<Rightarrow> string + json" where
  "patched_entry fp a timestamp patch previous candidates =
     (if \<not> list_all (\<lambda>e. fst e \<in> fst ` set DIRECTORY_FIELDS) patch then Inl ''unsupported credential payload field''
      else let entry = JObject (obj_extend (as_entries previous)
                         (patch @ [(''serverName'', JString (cx_server_name a)), (''serverUrl'', JString (cx_server_url a)),
                                   (''updatedAt'', JString timestamp)]))
           in if obj_get ''tokens'' patch \<noteq> None then stamp_tokens fp entry previous candidates else Inr entry)"

definition stale_entry :: "credential_context \<Rightarrow> string \<times> json \<Rightarrow> bool" where
  "stale_entry a e \<longleftrightarrow>
     string_at ''serverName'' (snd e) = Some (cx_server_name a) \<and> differs (string_at ''serverUrl'' (snd e)) (cx_server_url a)"

definition bound_vault :: "credential_context \<Rightarrow> json \<Rightarrow> json \<Rightarrow> string + json" where
  "bound_vault a entry vault =
     (case vault of
        JObject root \<Rightarrow>
          (let entries = obj_insert (cx_identity_key a) entry (filter (\<lambda>e. \<not> stale_entry a e) (entries_of vault));
               root = obj_insert ''version'' (from_u64 2) (obj_insert ''entries'' (JObject entries) root)
           in case (case obj_get ''serverUrls'' root of Some urls \<Rightarrow> urls | None \<Rightarrow> JObject []) of
                JObject urls \<Rightarrow>
                  Inr (JObject (obj_insert ''serverUrls''
                         (JObject (obj_insert (cx_server_name a) (JString (cx_server_url a)) urls)) root))
              | _ \<Rightarrow> Inl ''invalid vault URL bindings'')
      | _ \<Rightarrow> Inl ''invalid vault entries'')"

definition save_entry ::
  "url_parser \<Rightarrow> fingerprint \<Rightarrow> credential_context \<Rightarrow> string \<Rightarrow> json \<Rightarrow> json \<Rightarrow> json \<Rightarrow> json list \<Rightarrow> string + json \<times> store_op list" where
  "save_entry parse_url fp a timestamp vault patch previous candidates =
     (case as_object patch of
        None \<Rightarrow> Inl ''credential payload must be an object''
      | Some patch \<Rightarrow>
          res_bind (patched_entry fp a timestamp patch previous candidates) (\<lambda>entry.
          res_bind (validate_client fp entry) (\<lambda>_.
          res_bind (validate_binding parse_url a entry) (\<lambda>_.
          res_bind (bound_vault a entry vault) (\<lambda>vault.
          Inr (entry, WriteVault vault # directory_ops a entry))))))"

definition option_json_eq :: "json option \<Rightarrow> json option \<Rightarrow> bool" where
  "option_json_eq v w = (case (v, w) of (Some x, Some y) \<Rightarrow> json_eq x y | (None, None) \<Rightarrow> True | _ \<Rightarrow> False)"

definition unchanged_since :: "json \<Rightarrow> json \<Rightarrow> bool" where
  "unchanged_since expected latest \<longleftrightarrow>
     option_json_eq (vget ''tokens'' latest) (vget ''tokens'' expected)
     \<and> option_json_eq (vget ''clientInfo'' latest) (vget ''clientInfo'' expected)"

definition save_locked ::
  "url_parser \<Rightarrow> fingerprint \<Rightarrow> bool \<Rightarrow> credential_context \<Rightarrow> string \<Rightarrow> json \<Rightarrow> json option \<Rightarrow> credential_files
     \<Rightarrow> string + json \<times> store_op list" where
  "save_locked parse_url fp read_only a timestamp patch expected files =
     res_bind (ensure_writable read_only a) (\<lambda>_.
     res_bind (case expected of
                 None \<Rightarrow> Inr ()
               | Some expected \<Rightarrow>
                   res_bind (read_store parse_url fp a files) (\<lambda>latest.
                   if unchanged_since expected latest then Inr ()
                   else Inl ''credentials changed during authorization; retry without resetting fresh credentials'')) (\<lambda>_.
     res_bind (vault_of files) (\<lambda>vault.
     res_bind (snapshots a files) (\<lambda>candidates.
     res_bind (select_snapshot fp candidates) (\<lambda>previous.
     save_entry parse_url fp a timestamp vault patch previous candidates)))))"

definition clear_locked :: "bool \<Rightarrow> credential_context \<Rightarrow> (string \<Rightarrow> bool) \<Rightarrow> credential_files \<Rightarrow> string + store_op list" where
  "clear_locked read_only a exists files =
     res_bind (ensure_writable read_only a) (\<lambda>_.
     res_bind (vault_of files) (\<lambda>vault.
     let entries = fold (\<lambda>e. obj_remove (fst e)) (matching a vault) (entries_of vault)
     in Inr (WriteVault (case vault of
                JObject root \<Rightarrow> JObject (obj_insert ''entries'' (JObject entries) root) | v \<Rightarrow> v)
             # concat (map (\<lambda>root. map (\<lambda>f. RemoveFile root (fst (snd f))) DIRECTORY_FIELDS)
                 (filter exists (cx_directory_stores a))))))"

subsection \<open>What is read is bound to the server\<close>

lemma set_place: "set (place before x ys) = insert x (set ys)"
  by (induction ys) auto

lemma matching_from: "e \<in> set (matching a vault) \<Longrightarrow>
    e \<in> set (entries_of vault) \<and> belongs a e \<and> \<not> differs (str_in ''serverUrls'' (cx_server_name a) vault) (cx_server_url a)"
proof -
  have "set (foldr (place (entry_before a)) es []) = set es" for es by (induction es) (auto simp: set_place)
  then show "e \<in> set (matching a vault) \<Longrightarrow>
    e \<in> set (entries_of vault) \<and> belongs a e \<and> \<not> differs (str_in ''serverUrls'' (cx_server_name a) vault) (cx_server_url a)"
    by (auto simp: matching_def split: if_split_asm)
qed

text \<open>A snapshot of the server's own: a vault entry that belongs to it, or a directory marked for it.\<close>

definition owned :: "credential_context \<Rightarrow> credential_files \<Rightarrow> json \<Rightarrow> bool" where
  "owned a files c \<longleftrightarrow>
     (\<exists>vault k. vault_of files = Inr vault \<and> (k, c) \<in> set (entries_of vault) \<and> belongs a (k, c)
        \<and> \<not> differs (str_in ''serverUrls'' (cx_server_name a) vault) (cx_server_url a))
     \<or> (\<exists>root \<in> set (cx_directory_stores a). \<exists>marker. directory_snapshot a files root = Inr c
          \<and> cf_text files root ''server_url.txt'' = Inr marker \<and> \<not> differs (map_option trim marker) (cx_server_url a))
     \<or> c = JObject []"

lemma directory_owned:
  assumes "directory_snapshot a files root = Inr c" and "root \<in> set (cx_directory_stores a)"
  shows "owned a files c"
proof -
  obtain marker where marker: "cf_text files root ''server_url.txt'' = Inr marker"
    using assms(1) by (auto simp: directory_snapshot_def elim!: res_bindE)
  show ?thesis
  proof (cases "differs (map_option trim marker) (cx_server_url a)")
    case True
    with assms(1) marker have "c = JObject []" by (simp add: directory_snapshot_def)
    then show ?thesis by (simp add: owned_def)
  next
    case False
    with assms marker show ?thesis unfolding owned_def by blast
  qed
qed

lemma with_directories_owned:
  assumes "with_directories a files roots candidates = Inr cs" and "set roots \<subseteq> set (cx_directory_stores a)"
    and "\<forall>c \<in> set candidates. owned a files c"
  shows "\<forall>c \<in> set cs. owned a files c"
  using assms
proof (induction roots arbitrary: candidates)
  case (Cons root roots)
  then obtain snapshot where snapshot: "directory_snapshot a files root = Inr snapshot"
      "with_directories a files roots (if cx_directory_primary a then snapshot # candidates else candidates @ [snapshot]) = Inr cs"
    by (auto elim!: res_bindE)
  have "owned a files snapshot" using directory_owned [OF snapshot(1)] Cons.prems(2) by simp
  with Cons.prems snapshot(2) show ?case by (intro Cons.IH [OF snapshot(2)]) auto
qed simp

lemma snapshots_owned:
  assumes "snapshots a files = Inr cs" and "c \<in> set cs"
  shows "owned a files c"
proof -
  obtain vault where vault: "vault_of files = Inr vault"
      "with_directories a files (cx_directory_stores a) (map snd (matching a vault)) = Inr cs"
    using assms(1) unfolding snapshots_def by (elim res_bindE)
  have "owned a files d" if "(k, d) \<in> set (matching a vault)" for k d
    unfolding owned_def using matching_from [OF that] vault(1) by blast
  then have "\<forall>d \<in> set (map snd (matching a vault)). owned a files d" by force
  then show ?thesis using with_directories_owned [OF vault(2) subset_refl] assms(2) by blast
qed

lemma preferred_cases: "preferred fp s c = Inr t \<Longrightarrow> t = s \<or> t = c"
  by (auto simp: preferred_def split: option.splits if_split_asm)

lemma preferred_all_from: "preferred_all fp cs s = Inr t \<Longrightarrow> t = s \<or> t \<in> set cs"
  by (induction cs arbitrary: s) (auto elim!: res_bindE dest: preferred_cases)

lemma first_snapshot_from: "first_snapshot cs \<in> set cs \<or> first_snapshot cs = JObject []"
  by (auto simp: first_snapshot_def find_Some_iff split: option.splits)

lemma merge_field_other: "key \<noteq> field \<Longrightarrow> obj_get key (merge_field c field m) = obj_get key m"
  by (auto simp: merge_field_def obj_get_insert split: option.splits)

lemma merge_snapshot_tokens: "merge_snapshot fp ident c s = Inr t \<Longrightarrow> vget ''tokens'' t = vget ''tokens'' s"
  by (auto simp: merge_snapshot_def MERGED_FIELDS_def merge_field_other split: json.splits if_split_asm)

lemma merge_all_tokens: "merge_all fp ident cs s = Inr t \<Longrightarrow> vget ''tokens'' t = vget ''tokens'' s"
  by (induction cs arbitrary: s) (auto elim!: res_bindE dest: merge_snapshot_tokens)

lemma select_snapshot_from:
  assumes "select_snapshot fp cs = Inr s" and "vget ''tokens'' s = Some tokens"
  shows "\<exists>c \<in> set cs. vget ''tokens'' c = Some tokens"
proof -
  obtain t u where "preferred_all fp cs (first_snapshot cs) = Inr t"
      "(case vget ''tokens'' t of Some tokens \<Rightarrow> merge_all fp (token_identity fp tokens) cs t | None \<Rightarrow> Inr t) = Inr u" "u = s"
    using assms(1) unfolding select_snapshot_def by (elim res_bindE) simp
  then have "preferred_all fp cs (first_snapshot cs) = Inr t" "vget ''tokens'' s = vget ''tokens'' t"
    by (auto split: option.splits dest: merge_all_tokens)
  then have "vget ''tokens'' t = Some tokens" "t \<in> set cs \<or> t = JObject []"
    using assms(2) preferred_all_from first_snapshot_from by metis+
  then show ?thesis by (auto simp: obj_get_def)
qed

lemma agree_on_issuer_all:
  "agree_on_issuer parse_url expected issuers = Inr () \<Longrightarrow> i \<in> set issuers \<Longrightarrow>
     (\<exists>u. checked_url parse_url i = Inr u) \<and> (expected \<noteq> None \<longrightarrow> expected = Some (trim_slashes i))"
proof (induction issuers arbitrary: expected)
  case (Cons issuer issuers)
  then obtain u where head: "checked_url parse_url issuer = Inr u" "expected = None \<or> expected = Some (trim_slashes issuer)"
      "agree_on_issuer parse_url (Some (trim_slashes issuer)) issuers = Inr ()"
    by (auto elim!: res_bindE split: if_split_asm)
  show ?case
  proof (cases "i = issuer")
    case True
    with head show ?thesis by blast
  next
    case False
    with Cons.prems(2) Cons.IH [OF head(3)] have "(\<exists>u. checked_url parse_url i = Inr u) \<and> trim_slashes issuer = trim_slashes i"
      by simp
    with head(2) show ?thesis by metis
  qed
qed simp

lemma agree_on_issuer_same:
  assumes "agree_on_issuer parse_url None issuers = Inr ()" and "i \<in> set issuers" and "j \<in> set issuers"
  shows "same_issuer i j"
proof (cases issuers)
  case (Cons issuer rest)
  then have "agree_on_issuer parse_url (Some (trim_slashes issuer)) rest = Inr ()"
    using assms(1) by (auto elim!: res_bindE)
  then have "trim_slashes k = trim_slashes issuer" if "k \<in> set issuers" for k
    using that Cons agree_on_issuer_all by fastforce
  with assms show ?thesis by simp
qed (use assms in simp)


subsection \<open>What is saved is read back\<close>

lemma number_eq_refl [simp]: "number_eq n n"
  by (cases n) simp_all

lemma json_eq_refl: "json_wf v \<Longrightarrow> json_eq v v"
proof (induction v rule: json_wf.induct)
  case (1 xs)
  then show ?case by (auto simp: list_all_iff set_zip in_set_conv_nth)
next
  case (2 m)
  have "case obj_get (fst e) m of None \<Rightarrow> False | Some w \<Rightarrow> json_eq (snd e) w" if "e \<in> set m" for e
  proof -
    have "obj_get (fst e) m = Some (snd e)" using 2(2) that by (simp add: obj_get_iff)
    moreover have "json_eq (snd e) (snd e)" using 2 that by auto
    ultimately show ?thesis by simp
  qed
  then show ?case by (simp add: list_all_iff)
qed simp_all

lemma place_first: "\<forall>y \<in> set ys. \<not> before y x \<Longrightarrow> place before x ys = x # ys"
  by (cases ys) auto

lemma place_second: "before x y \<Longrightarrow> place before y (x # ys) = x # place before y ys"
  by simp

text \<open>The entry under the server's own key comes first.\<close>

lemma own_entry_first:
  assumes "fst x = cx_identity_key a" and "\<forall>y \<in> set (xs @ ys). fst y \<noteq> cx_identity_key a"
  shows "foldr (place (entry_before a)) (xs @ x # ys) [] = x # foldr (place (entry_before a)) (xs @ ys) []"
  using assms(2)
proof (induction xs)
  case Nil
  have "set (foldr (place (entry_before a)) ys []) = set ys" by (induction ys) (auto simp: set_place)
  then have "\<forall>y \<in> set (foldr (place (entry_before a)) ys []). \<not> entry_before a y x"
    using Nil assms(1) by (simp add: entry_before_def)
  then show ?case by (simp add: place_first)
next
  case (Cons y xs)
  then have "entry_before a x y" using assms(1) by (simp add: entry_before_def)
  with Cons show ?case by simp
qed

lemma preferred_all_kept: "\<forall>c \<in> set cs. preferred fp s c = Inr s \<Longrightarrow> preferred_all fp cs s = Inr s"
  by (induction cs) auto

lemma merge_all_kept: "\<forall>c \<in> set cs. merge_snapshot fp ident c s = Inr s \<Longrightarrow> merge_all fp ident cs s = Inr s"
  by (induction cs) auto

lemma merge_field_self: "m = as_entries c \<Longrightarrow> merge_field c field m = m"
  by (cases c) (auto simp: merge_field_def as_entries_def split: option.splits)

lemma merge_snapshot_self:
  assumes "vget ''tokens'' (JObject m) = Some tokens" and "\<forall>c. vget ''clientInfo'' (JObject m) = Some c \<longrightarrow> json_wf c"
  shows "merge_snapshot fp (token_identity fp tokens) (JObject m) (JObject m) = Inr (JObject m)"
proof -
  have "fold (merge_field (JObject m)) fields m = m" for fields
    using merge_field_self [of m "JObject m"] by (induction fields) (auto simp: as_entries_def)
  then show ?thesis using assms by (auto simp: merge_snapshot_def json_eq_refl split: option.splits)
qed

text \<open>A generation whose revision follows all the others is selected as it is.\<close>

lemma select_newest:
  assumes tokens: "vget ''tokens'' entry = Some tokens" and object: "entry = JObject m"
    and wf: "\<forall>c. vget ''clientInfo'' entry = Some c \<longrightarrow> json_wf c"
    and client: "validate_client fp entry = Inr ()"
    and newest: "\<forall>c \<in> set cs. \<forall>t. vget ''tokens'' c = Some t \<longrightarrow>
        0 < revision t \<and> revision t < revision tokens \<and> token_identity fp t \<noteq> token_identity fp tokens"
  shows "select_snapshot fp (entry # cs) = Inr entry"
proof -
  have "preferred fp entry entry = Inr entry" using tokens by (simp add: preferred_def)
  moreover have "preferred fp entry c = Inr entry" if "c \<in> set cs" for c
  proof (cases "vget ''tokens'' c")
    case (Some t)
    with newest that have "0 < revision t" "revision t < revision tokens"
        "token_identity fp tokens \<noteq> token_identity fp t" by auto
    moreover from this have "0 < revision tokens" "\<not> revision tokens < revision t" "revision tokens \<noteq> revision t"
      by (auto intro: order_less_trans)
    ultimately show ?thesis using Some tokens by (simp add: preferred_def)
  qed (simp add: preferred_def tokens)
  ultimately have "preferred_all fp (entry # cs) (first_snapshot (entry # cs)) = Inr entry"
    using preferred_all_kept [of "entry # cs" fp entry] tokens by (simp add: first_snapshot_def)
  moreover have "merge_all fp (token_identity fp tokens) (entry # cs) entry = Inr entry"
  proof (rule merge_all_kept, rule ballI)
    fix c assume "c \<in> set (entry # cs)"
    then consider "c = entry" | "c \<in> set cs" by auto
    then show "merge_snapshot fp (token_identity fp tokens) c entry = Inr entry"
    proof cases
      case 1
      then show ?thesis using merge_snapshot_self [of m tokens fp] tokens wf object by simp
    next
      case 2
      then have "map_option (token_identity fp) (vget ''tokens'' c) \<noteq> Some (token_identity fp tokens)"
        using newest by auto
      then show ?thesis by (simp add: merge_snapshot_def)
    qed
  qed
  ultimately show ?thesis using tokens client by (simp add: select_snapshot_def)
qed

lemma obj_get_extend: "obj_wf kvs \<Longrightarrow>
    obj_get k (obj_extend m kvs) = (case obj_get k kvs of Some v \<Rightarrow> Some v | None \<Rightarrow> obj_get k m)"
proof (induction kvs arbitrary: m)
  case (Cons e kvs)
  obtain k' v where e: "e = (k', v)" by (cases e)
  have "obj_get k' kvs = None" using Cons.prems e by (simp add: obj_get_def map_of_eq_None_iff)
  moreover have "obj_get k (e # kvs) = (if k = k' then Some v else obj_get k kvs)" by (simp add: obj_get_def e)
  ultimately show ?case using Cons e by (auto simp: obj_get_insert split: option.splits)
qed (simp add: obj_get_def)

lemma obj_insert_split:
  assumes "obj_wf m"
  obtains xs ys where "obj_insert k v m = xs @ (k, v) # ys" and "\<forall>e \<in> set (xs @ ys). fst e \<noteq> k \<and> e \<in> set m"
proof -
  have "\<exists>xs ys. obj_insert k v m = xs @ (k, v) # ys \<and> (\<forall>e \<in> set (xs @ ys). fst e \<noteq> k \<and> e \<in> set m)"
    using assms
  proof (induction m)
    case (Cons e m)
    show ?case
    proof (cases "fst e = k")
      case True
      with Cons.prems show ?thesis by (intro exI [of _ "[]"] exI [of _ m]) (auto simp: image_iff)
    next
      case False
      with Cons obtain xs ys where "obj_insert k v m = xs @ (k, v) # ys"
          "\<forall>e \<in> set (xs @ ys). fst e \<noteq> k \<and> e \<in> set m" by auto
      with False show ?thesis by (intro exI [of _ "e # xs"] exI [of _ ys]) auto
    qed
  qed (intro exI [of _ "[]"], simp)
  then show ?thesis using that by blast
qed

lemma set_matching: "\<not> differs (str_in ''serverUrls'' (cx_server_name a) vault) (cx_server_url a) \<Longrightarrow>
    set (matching a vault) = {e \<in> set (entries_of vault). belongs a e}"
proof -
  have "set (foldr (place (entry_before a)) es []) = set es" for es by (induction es) (auto simp: set_place)
  then show "\<not> differs (str_in ''serverUrls'' (cx_server_name a) vault) (cx_server_url a) \<Longrightarrow>
    set (matching a vault) = {e \<in> set (entries_of vault). belongs a e}" by (simp add: matching_def)
qed

lemma bound_vault_parts:
  assumes "bound_vault a entry vault = Inr vault'"
  shows "entries_of vault' = obj_insert (cx_identity_key a) entry (filter (\<lambda>e. \<not> stale_entry a e) (entries_of vault))"
    and "\<not> differs (str_in ''serverUrls'' (cx_server_name a) vault') (cx_server_url a)"
    and "vault_of (files\<lparr>cf_vault := Inr (Some vault')\<rparr>) = Inr vault'"
  using assms
  by (auto simp: bound_vault_def entries_of_def vault_of_def obj_get_insert string_at_def differs_def from_u64_def Let_def
      split: json.splits if_split_asm)

text \<open>After a save, the saved entry is the first that matches, and the others matched before.\<close>

lemma bound_vault_matching:
  assumes save: "bound_vault a entry vault = Inr vault'" and wf: "obj_wf (entries_of vault)"
    and marker: "\<not> differs (str_in ''serverUrls'' (cx_server_name a) vault) (cx_server_url a)"
    and own: "belongs a (cx_identity_key a, entry)"
  obtains others where "matching a vault' = (cx_identity_key a, entry) # others" and "set others \<subseteq> set (matching a vault)"
proof -
  let ?old = "filter (\<lambda>e. \<not> stale_entry a e) (entries_of vault)" and ?x = "(cx_identity_key a, entry)"
  have "obj_wf ?old" using wf by (simp add: distinct_map_filter)
  then obtain xs ys where split: "obj_insert (cx_identity_key a) entry ?old = xs @ ?x # ys"
      "\<forall>e \<in> set (xs @ ys). fst e \<noteq> cx_identity_key a \<and> e \<in> set ?old"
    by (rule obj_insert_split)
  let ?rest = "filter (belongs a) xs @ filter (belongs a) ys"
  have "filter (belongs a) (entries_of vault') = filter (belongs a) xs @ ?x # filter (belongs a) ys"
    using bound_vault_parts(1) [OF save] split(1) own by simp
  moreover have "\<forall>y \<in> set ?rest. fst y \<noteq> cx_identity_key a" using split(2) by auto
  ultimately have "matching a vault' = ?x # foldr (place (entry_before a)) ?rest []"
    using bound_vault_parts(2) [OF save] own_entry_first [of ?x a "filter (belongs a) xs" "filter (belongs a) ys"]
    by (simp add: matching_def)
  moreover have "set (foldr (place (entry_before a)) es []) = set es" for es by (induction es) (auto simp: set_place)
  moreover have "set ?rest \<subseteq> set (matching a vault)" using split(2) set_matching [OF marker] by auto
  ultimately show ?thesis using that by blast
qed

lemma fold_max_least: "r \<in> set rs \<Longrightarrow> r \<le> fold max rs (n :: u64)"
proof -
  have "n \<le> fold max rs n \<and> (\<forall>r \<in> set rs. r \<le> fold max rs n)"
    by (induction rs arbitrary: n) (auto intro: order_trans [OF max.cobounded1] order_trans [OF max.cobounded2])
  then show "r \<in> set rs \<Longrightarrow> r \<le> fold max rs n" by auto
qed

lemma word_less_next: "n \<noteq> - 1 \<Longrightarrow> n < n + (1 :: u64)"
proof -
  assume "n \<noteq> - 1"
  then have "1 + n \<noteq> 0" by (simp add: add_eq_0_iff)
  then show ?thesis using unatSuc [of n] by (simp add: word_less_nat_alt add.commute)
qed

text \<open>What a stamped entry is.\<close>

lemma stamp_tokens_stamps:
  assumes "stamp_tokens fp entry previous cs = Inr stamped"
  obtains m tokens n commit where "entry = JObject m" "obj_get ''tokens'' m = Some (JObject tokens)"
    "stamped = JObject (obj_insert ''tokens'' (JObject (obj_insert COMMIT commit tokens)) m)"
    "revision (JObject (obj_insert COMMIT commit tokens)) = n"
    "\<forall>c \<in> set cs. \<forall>t. vget ''tokens'' c = Some t \<longrightarrow> revision t < n"
proof -
  let ?revisions = "map revision (List.map_filter (vget ''tokens'') cs)"
  let ?n = "fold max ?revisions 0 + 1"
  obtain m tokens commit where parts: "entry = JObject m" "obj_get ''tokens'' m = Some (JObject tokens)"
      "stamped = JObject (obj_insert ''tokens'' (JObject (obj_insert COMMIT commit tokens)) m)"
      "vget ''revision'' commit = Some (from_u64 ?n)" "fold max ?revisions 0 \<noteq> - 1"
    using assms by (fastforce simp: stamp_tokens_def Let_def obj_get_def split: if_split_asm json.splits option.splits)
  have "revision (JObject (obj_insert COMMIT commit tokens)) = ?n"
    using parts(4) by (simp add: revision_def obj_get_insert from_u64_def)
  moreover have "revision t < ?n" if "c \<in> set cs" "vget ''tokens'' c = Some t" for c t
  proof -
    have "revision t \<in> set ?revisions" using that by (force simp: List.map_filter_def)
    then have "revision t \<le> fold max ?revisions 0" by (rule fold_max_least)
    then show ?thesis using word_less_next [OF parts(5)] by (rule order_le_less_trans)
  qed
  ultimately show ?thesis using that parts by blast
qed

lemma patched_entry_parts:
  assumes "patched_entry fp a ts patch previous cs = Inr entry" and "obj_get ''tokens'' patch = Some ts'" and "obj_wf patch"
  obtains m tokens n commit where "entry = JObject (obj_insert ''tokens'' (JObject (obj_insert COMMIT commit tokens)) m)"
    "ts' = JObject tokens" "revision (JObject (obj_insert COMMIT commit tokens)) = n"
    "\<forall>c \<in> set cs. \<forall>t. vget ''tokens'' c = Some t \<longrightarrow> revision t < n"
    "obj_get ''serverName'' m = Some (JString (cx_server_name a))"
    "obj_get ''serverUrl'' m = Some (JString (cx_server_url a))"
proof -
  let ?added = "[(''serverName'', JString (cx_server_name a)), (''serverUrl'', JString (cx_server_url a)),
    (''updatedAt'', JString ts)]"
  let ?m = "obj_extend (as_entries previous) (patch @ ?added)"
  have "stamp_tokens fp (JObject ?m) previous cs = Inr entry"
    using assms(1,2) by (auto simp: patched_entry_def Let_def split: if_split_asm)
  then obtain m tokens n commit where stamped: "JObject ?m = JObject m" "obj_get ''tokens'' m = Some (JObject tokens)"
      "entry = JObject (obj_insert ''tokens'' (JObject (obj_insert COMMIT commit tokens)) m)"
      "revision (JObject (obj_insert COMMIT commit tokens)) = n"
      "\<forall>c \<in> set cs. \<forall>t. vget ''tokens'' c = Some t \<longrightarrow> revision t < n"
    by (rule stamp_tokens_stamps)
  have m: "m = ?m" using stamped(1) by simp
  have "obj_get ''tokens'' ?m = obj_get ''tokens'' (obj_extend (as_entries previous) patch)" by (simp add: obj_get_insert)
  also have "\<dots> = Some ts'" using assms(2) by (simp add: obj_get_extend [OF assms(3)])
  finally have "ts' = JObject tokens" using stamped(2) m by simp
  moreover have "obj_get ''serverName'' m = Some (JString (cx_server_name a))"
      "obj_get ''serverUrl'' m = Some (JString (cx_server_url a))"
    unfolding m by (simp_all add: obj_get_insert)
  ultimately show ?thesis using that stamped(3-5) by blast
qed

text \<open>C25: What is saved is read back.  When tokens are saved for a server that keeps its credentials
  in the vault alone, reading afterwards gives exactly the entry that was saved, with the tokens of the
  payload: its revision follows every generation in the store, so no older or imported one is chosen
  again.  The generations in the store are assumed to be committed ones and the tokens new, the vault
  must not bind the name to another URL, and its keys are distinct.\<close>

theorem saved_credentials_are_read_back:
  assumes save: "save_locked parse_url fp read_only a timestamp (JObject patch) expected files = Inr (entry, ops)"
    and patch: "obj_get ''tokens'' patch \<noteq> None" "obj_wf patch" "trim (cx_server_name a) \<noteq> []"
    and vault: "cx_directory_stores a = []" "vault_of files = Inr vault" "obj_wf (entries_of vault)"
      "\<not> differs (str_in ''serverUrls'' (cx_server_name a) vault) (cx_server_url a)"
    and old: "\<forall>e \<in> set (matching a vault). \<forall>t. vget ''tokens'' (snd e) = Some t \<longrightarrow>
      0 < revision t \<and> Some (token_identity fp t) \<noteq> map_option (token_identity fp) (vget ''tokens'' entry)"
    and wf: "\<forall>c. vget ''clientInfo'' entry = Some c \<longrightarrow> json_wf c"
  shows "read_store parse_url fp a (fold run_op ops files) = Inr entry
    \<and> (\<forall>k. k \<noteq> COMMIT \<longrightarrow> Option.bind (vget ''tokens'' entry) (vget k) = Option.bind (obj_get ''tokens'' patch) (vget k))"
proof -
  have cs: "snapshots a files = Inr (map snd (matching a vault))" using vault(1,2) by (simp add: snapshots_def)
  obtain previous where "save_entry parse_url fp a timestamp vault (JObject patch) previous (map snd (matching a vault)) = Inr (entry, ops)"
    using save vault(2) cs by (auto simp: save_locked_def elim!: res_bindE)
  then obtain vault' where parts: "patched_entry fp a timestamp patch previous (map snd (matching a vault)) = Inr entry"
      "validate_client fp entry = Inr ()" "validate_binding parse_url a entry = Inr ()" "bound_vault a entry vault = Inr vault'"
      "ops = WriteVault vault' # directory_ops a entry"
    by (auto simp: save_entry_def elim!: res_bindE)
  obtain ts' where given: "obj_get ''tokens'' patch = Some ts'" using patch(1) by auto
  obtain m tokens n commit where entry: "entry = JObject (obj_insert ''tokens'' (JObject (obj_insert COMMIT commit tokens)) m)"
      "ts' = JObject tokens" "revision (JObject (obj_insert COMMIT commit tokens)) = n"
      "\<forall>c \<in> set (map snd (matching a vault)). \<forall>t. vget ''tokens'' c = Some t \<longrightarrow> revision t < n"
      "obj_get ''serverName'' m = Some (JString (cx_server_name a))" "obj_get ''serverUrl'' m = Some (JString (cx_server_url a))"
    by (rule patched_entry_parts [OF parts(1) given patch(2)])
  let ?tokens = "JObject (obj_insert COMMIT commit tokens)"
  have tokens: "vget ''tokens'' entry = Some ?tokens" by (simp add: entry(1) obj_get_insert)
  have "belongs a (cx_identity_key a, entry)"
    using patch(3) entry(5,6) by (simp add: belongs_def entry(1) string_at_def obj_get_insert differs_def)
  then obtain others where matching: "matching a vault' = (cx_identity_key a, entry) # others"
      "set others \<subseteq> set (matching a vault)"
    by (rule bound_vault_matching [OF parts(4) vault(3,4)])
  have "select_snapshot fp (entry # map snd others) = Inr entry"
  proof (rule select_newest [OF tokens entry(1) wf parts(2)], intro ballI allI impI)
    fix c t assume "c \<in> set (map snd others)" "vget ''tokens'' c = Some t"
    then obtain e where "e \<in> set (matching a vault)" "c = snd e" "vget ''tokens'' (snd e) = Some t" using matching(2) by auto
    then show "0 < revision t \<and> revision t < revision ?tokens \<and> token_identity fp t \<noteq> token_identity fp ?tokens"
      using old tokens entry(3,4) by fastforce
  qed
  moreover have "vault_of (fold run_op ops files) = Inr vault'"
    using bound_vault_parts(3) [OF parts(4)] vault(1) by (simp add: parts(5) directory_ops_def)
  ultimately have "read_store parse_url fp a (fold run_op ops files) = Inr entry"
    using parts(3) vault(1) matching(1) by (simp add: read_store_def snapshots_def)
  then show ?thesis by (simp add: tokens given entry(2) obj_get_insert)
qed

subsection \<open>A first save\<close>

definition sample_context :: credential_context where
  "sample_context =
     \<lparr>cx_server_name = ''docs'', cx_server_url = ''https://h/mcp'', cx_directory_stores = [], cx_directory_primary = False,
      cx_identity_key = ''docs|1'', cx_client_name = ''mcp-cli'', cx_client_id = None, cx_client_secret_env = None,
      cx_client_secret = None, cx_token_auth_method = None, cx_redirect_url = None, cx_client_metadata_url = None,
      cx_scope = None, cx_timeout_ms = 5, cx_read_only = False, cx_cached_only = False\<rparr>"

definition empty_files :: credential_files where
  "empty_files = \<lparr>cf_vault = Inr None, cf_json = (\<lambda>_ _. Inr None), cf_text = (\<lambda>_ _. Inr None)\<rparr>"

definition sample_tokens :: json where
  "sample_tokens = JObject [(''access_token'', JString ''t''), (''token_type'', JString ''Bearer''), (''issuer'', JString ''https://i'')]"

definition sample_parse_url :: url_parser where
  "sample_parse_url v =
     Some \<lparr>ur_scheme = ''https'', ur_username = [], ur_password = None, ur_host = Some ''h'', ur_port = Some 443,
           ur_path = ''/mcp'', ur_query = None, ur_fragment = None\<rparr>"

abbreviation sample_save :: "string + json \<times> store_op list" where
  "sample_save \<equiv> save_locked sample_parse_url (\<lambda>_. ''f'') False sample_context ''now'' (JObject [(''tokens'', sample_tokens)])
     None empty_files"

definition sample_saved :: json where
  "sample_saved =
     JObject [(''tokens'', JObject [(''access_token'', JString ''t''), (''token_type'', JString ''Bearer''), (''issuer'', JString ''https://i''),
                (COMMIT, JObject [(''revision'', from_u64 1), (''parent'', JNull), (''client'', JNull)])]),
              (''serverName'', JString ''docs''), (''serverUrl'', JString ''https://h/mcp''), (''updatedAt'', JString ''now'')]"

lemma sample_save_works: "case sample_save of Inr (entry, ops) \<Rightarrow> entry = sample_saved | Inl _ \<Rightarrow> False"
  by code_simp

theorem saved_credentials_are_read_back_witness:
  "\<exists>ops. sample_save = Inr (sample_saved, ops)
     \<and> read_store sample_parse_url (\<lambda>_. ''f'') sample_context (fold run_op ops empty_files) = Inr sample_saved"
proof -
  obtain ops where save: "sample_save = Inr (sample_saved, ops)"
    using sample_save_works by (auto split: sum.splits)
  let ?vault = "JObject [(''version'', from_u64 2), (''entries'', JObject []), (''serverUrls'', JObject [])]"
  have "vault_of empty_files = Inr ?vault" by (simp add: vault_of_def empty_files_def obj_get_def from_u64_def)
  moreover have "matching sample_context ?vault = []" "obj_wf (entries_of ?vault)"
      "\<not> differs (str_in ''serverUrls'' (cx_server_name sample_context) ?vault) (cx_server_url sample_context)"
      "trim (cx_server_name sample_context) \<noteq> []"
    by code_simp+
  moreover have "vget ''clientInfo'' sample_saved = None" by code_simp
  ultimately have "read_store sample_parse_url (\<lambda>_. ''f'') sample_context (fold run_op ops empty_files) = Inr sample_saved"
    using saved_credentials_are_read_back [OF save, of ?vault] by (simp add: obj_get_def sample_context_def)
  with save show ?thesis by blast
qed


end
