(* ===== verification/Spec2Isabelle.thy ===== *)
theory Spec2Isabelle
  imports Handshakes CacheProps Pool Sse Bridge BridgeStdio Leases McpClient Identity Arguments ServeOptions
    ImportSources Output CommandLine BridgeHttp Subscription Exchange OAuthStore
begin

text \<open>
  Verification library of mcp-pool, a daemon that shares MCP servers among many clients.

  The program.  A client opens a local socket of the pool and speaks line-delimited JSON-RPC.  Behind
  each socket a proxy (\<open>src/socket_proxy.rs\<close>) owns one generation of an upstream server at a time
  (\<open>src/socket_proxy_generation.rs\<close>).  A task per client (\<open>src/socket_proxy_client.rs\<close>) gives every
  request an identifier of the pool's own, records it in the routing table and the handshake cache
  (\<open>src/socket_proxy_cache.rs\<close>, \<open>src/session_cache.rs\<close>, \<open>src/mcp_session.rs\<close>) and forwards it; the
  router (\<open>src/socket_proxy_router.rs\<close>, \<open>src/socket_proxy_dispatch.rs\<close>) brings answers, callbacks and
  notifications of the server back.  The pool (\<open>src/pool.rs\<close>, \<open>src/pool_endpoint.rs\<close>) holds the proxies
  and the sockets of other processes.  On the client side a session (\<open>src/mcp_client.rs\<close>,
  \<open>src/mcp_client_wire.rs\<close>) negotiates a protocol version and sends requests one at a time, and the
  bridge (\<open>src/mcp_bridge*.rs\<close>) offers the tools of many pooled servers as one server.

  The theories, from the bottom.

  Prelude: strings as UTF-8 bytes with the standard library's operations on them, hash maps as
  association lists (the locale \<open>dictionary\<close>, interpreted here and for JSON objects), clocks.
  Json: \<open>serde_json::Value\<close> with the accessors the program calls.

  Deadline, Protocol, Session, Expiry: shared deadlines (an explicit store of cells, because clones
  share them), protocol versions and JSON-RPC identifiers, the handshake cache, its expiry.  Each
  function of the sources is a definition of the same name with the prefix of its type (\<open>sd_\<close>, \<open>rc_\<close>,
  \<open>hc_\<close>).  The locale \<open>single_flight\<close> is the contract of a cache that lets one request through at a
  time and \<open>flight_table\<close> that of a table of them; both are interpreted on the code's caches.
  Routes, RouteProps, RouteRuns, CacheProps, Handshakes: the routing table with the cache
  (\<open>SessionRoutes\<close>), its invariant, and the theorems about whole runs: answered once, one upstream
  request per handshake, fresh results only, no mixed handshakes, progress of the expiration loop.

  Dispatch, Router, Client: delivery to clients, routing of the upstream's messages, and the client
  task, a step relation over its turns of \<open>select!\<close>.
  Lifecycle, LifecycleProps: start, stop, restart, recovery and the owner of a generation as one step
  relation in which operations, stop signals and owner tasks interleave freely; the invariant
  \<open>px_inv\<close> and what follows for replacement, readiness, stops and failed retirements.
  Pool: the endpoints and the pool's operations over the proxies, with discovery and status.

  Sse: the decoder of server-sent events and the bridge's frames (the locale \<open>chunk_machine\<close>: a byte
  machine whose result does not depend on how its input is split).
  Names, Bridge, Leases: names of tools shown by the bridge, filters and catalogs; connecting,
  listing, calling and every JSON-RPC request of the bridge; the connections its requests share.
  Wire, McpClient: frames of a client connection, and the client's session: requests, notifications,
  pagination, negotiation.
  Tokens: command strings, call expressions and environment placeholders.

  Third-party code is an argument of the definitions that use it: \<open>ser\<close> prints and \<open>parse\<close> parses
  JSON text; \<open>surroundings\<close> (Router) says how the bounded channels of the runtime answer a send;
  \<open>bridge_world\<close> and \<open>client_world\<close> what the other side of a connection does and which deadlines
  pass.  The theorems assume of them at most that the printer gives distinct texts to distinct
  identifiers (\<open>ids_inject\<close>), that JSON objects have distinct keys (\<open>json_wf\<close>), and that clocks do
  not run backwards (\<open>monotonic\<close>).

  Conventions.  An error is a value: \<open>Inl\<close> the message, \<open>Inr\<close> the result.  Identifiers are 64-bit words
  and wrap as the code's do.  Reading a clock twice may give two values: a definition that reads it
  takes a \<open>clock\<close> and its readings are \<open>now c 0\<close>, \<open>now c 1\<close>, ... in the order of the code.  Hash maps
  iterate in an unspecified order, here that of the list, and no theorem depends on it.  Loops are
  recursive functions whose termination is proved; the loops that wait (deadlines, the upstream's
  sender) read a list of events and return nothing while the list does not end them.  Nothing uses
  fuel.

  Not modelled.  Diagnostics are left out everywhere.  Accepting connections, binding sockets,
  starting processes, file permissions, the daemon, HTTP transports and OAuth are calls of the
  operating system or of third-party libraries, and the command line and its output are wiring around
  the parts above.  The reading of configuration files, tool arguments and schemas are not modelled
  yet.
\<close>

end
